(* ===== verification/Prelude.thy ===== *)
theory Prelude
  imports Complex_Main "HOL-Library.AList" "HOL-Library.Sublist"
begin

text \<open>
  Shared vocabulary of the development: results of Python code that may raise, insertion-ordered
  Python dictionaries, Python list and set idioms (\<open>setdefault(...).append\<close>, \<open>len(set(xs))\<close>),
  truthiness, and the generic transition system whose invariants the concurrent components use.
\<close>

named_theorems result_simps \<open>how the result combinators compute\<close>
named_theorems dict_simps \<open>lookups after updates of ordered dictionaries\<close>

section \<open>Results of code that may raise\<close>

text \<open>
  \<open>Inl e\<close> is a raised exception \<open>e\<close>, \<open>Inr a\<close> a returned value. \<open>bindE\<close> is sequencing: an
  exception skips what follows, exactly as Python unwinds.
\<close>

definition bindE :: "'e + 'a \<Rightarrow> ('a \<Rightarrow> 'e + 'b) \<Rightarrow> 'e + 'b" where
  "bindE r f = (case r of Inl e \<Rightarrow> Inl e | Inr a \<Rightarrow> f a)"

definition ensure :: "bool \<Rightarrow> 'e \<Rightarrow> 'e + unit" where
  "ensure b e = (if b then Inr () else Inl e)"

fun mapE :: "('a \<Rightarrow> 'e + 'b) \<Rightarrow> 'a list \<Rightarrow> 'e + 'b list" where
  "mapE f [] = Inr []"
| "mapE f (x # xs) = bindE (f x) (\<lambda>y. bindE (mapE f xs) (\<lambda>ys. Inr (y # ys)))"

lemma bindE_simps [simp, result_simps]:
  "bindE (Inl e) f = Inl e"
  "bindE (Inr a) f = f a"
  by (simp_all add: bindE_def)

lemma ensure_simps [simp, result_simps]:
  "ensure True e = Inr ()"
  "ensure False e = Inl e"
  by (simp_all add: ensure_def)

lemma bindE_cong [fundef_cong]:
  "r = r' \<Longrightarrow> (\<And>a. r' = Inr a \<Longrightarrow> f a = g a) \<Longrightarrow> bindE r f = bindE r' g"
  by (cases r') auto

lemma bindE_Inr_iff: "bindE r f = Inr b \<longleftrightarrow> (\<exists>a. r = Inr a \<and> f a = Inr b)"
  by (cases r) auto

lemma ensure_Inr_iff: "ensure b e = Inr u \<longleftrightarrow> b"
  by (cases b) auto

lemma ensure_bind_Inr_iff: "bindE (ensure b e) f = Inr x \<longleftrightarrow> b \<and> f () = Inr x"
  by (cases b) auto

lemmas result_iffs = bindE_Inr_iff ensure_Inr_iff ensure_bind_Inr_iff

text \<open>A \<open>for\<close> loop whose body may raise: the state is threaded through the iterations.\<close>

fun foldE :: "('a \<Rightarrow> 's \<Rightarrow> 'e + 's) \<Rightarrow> 'a list \<Rightarrow> 's \<Rightarrow> 'e + 's" where
  "foldE f [] s = Inr s"
| "foldE f (x # xs) s = bindE (f x s) (foldE f xs)"

lemma foldE_invariant:
  "foldE f xs s = Inr t \<Longrightarrow> P s
     \<Longrightarrow> (\<And>x s t. x \<in> set xs \<Longrightarrow> P s \<Longrightarrow> f x s = Inr t \<Longrightarrow> P t) \<Longrightarrow> P t"
proof (induction xs arbitrary: s)
  case Nil
  then show ?case by simp
next
  case (Cons x xs)
  from Cons.prems(1) obtain u where u: "f x s = Inr u" "foldE f xs u = Inr t"
    by (auto simp: bindE_Inr_iff)
  show ?case
    by (rule Cons.IH [OF u(2)]) (auto intro: Cons.prems(3) Cons.prems(2) u(1))
qed

lemma mapE_Inr_iff:
  "mapE f xs = Inr ys \<longleftrightarrow> list_all2 (\<lambda>x y. f x = Inr y) xs ys"
proof (induction xs arbitrary: ys)
  case Nil
  show ?case by auto
next
  case (Cons x xs)
  show ?case
    by (cases ys) (auto simp: bindE_Inr_iff Cons.IH)
qed

lemma mapE_mem: "mapE f xs = Inr ys \<Longrightarrow> y \<in> set ys \<Longrightarrow> \<exists>x \<in> set xs. f x = Inr y"
  by (auto simp: mapE_Inr_iff list_all2_conv_all_nth in_set_conv_nth) (metis nth_mem)

lemma mapE_fixpoint:
  assumes "\<And>x y. f x = Inr y \<Longrightarrow> y = x"
  shows "mapE f xs = Inr ys \<Longrightarrow> ys = xs"
proof -
  assume "mapE f xs = Inr ys"
  then have "list_all2 (\<lambda>x y. f x = Inr y) xs ys" by (simp add: mapE_Inr_iff)
  then have "list_all2 (\<lambda>x y. x = y) xs ys"
    by (rule list_all2_mono) (auto dest: assms)
  then show "ys = xs" by (simp add: list.rel_eq)
qed

section \<open>Ordered dictionaries\<close>

text \<open>
  A Python \<open>dict\<close> keeps its keys in insertion order and overwrites in place. It is an association
  list with distinct keys: \<open>d.get(k)\<close> is \<open>map_of d k\<close>, \<open>d[k] = v\<close> is \<open>AList.update k v d\<close>,
  \<open>d.pop(k, None)\<close> is \<open>AList.delete k d\<close>, \<open>d.values()\<close> is \<open>map snd d\<close>.
\<close>

type_synonym ('k, 'v) dict = "('k \<times> 'v) list"

definition dict_ok :: "('k, 'v) dict \<Rightarrow> bool" where
  "dict_ok d \<longleftrightarrow> distinct (map fst d)"

definition dict_of :: "('k \<times> 'v) list \<Rightarrow> ('k, 'v) dict" where
  "dict_of kvs = fold (\<lambda>(k, v). AList.update k v) kvs []"

abbreviation dict_get :: "('k, 'v) dict \<Rightarrow> 'k \<Rightarrow> 'v option" where
  "dict_get \<equiv> map_of"

abbreviation dict_set :: "'k \<Rightarrow> 'v \<Rightarrow> ('k, 'v) dict \<Rightarrow> ('k, 'v) dict" where
  "dict_set \<equiv> AList.update"

abbreviation dict_pop :: "'k \<Rightarrow> ('k, 'v) dict \<Rightarrow> ('k, 'v) dict" where
  "dict_pop \<equiv> AList.delete"

abbreviation dict_values :: "('k, 'v) dict \<Rightarrow> 'v list" where
  "dict_values d \<equiv> map snd d"

abbreviation dict_keys :: "('k, 'v) dict \<Rightarrow> 'k list" where
  "dict_keys d \<equiv> map fst d"

text \<open>\<open>d.setdefault(k, []).append(x)\<close>.\<close>

definition setdefault_append :: "'k \<Rightarrow> 'x \<Rightarrow> ('k, 'x list) dict \<Rightarrow> ('k, 'x list) dict" where
  "setdefault_append k x d =
     dict_set k ((case dict_get d k of None \<Rightarrow> [] | Some xs \<Rightarrow> xs) @ [x]) d"

text \<open>\<open>for x in xs: d.setdefault(f(x), []).append(x)\<close>: grouping by a key.\<close>

definition group_by :: "('x \<Rightarrow> 'k) \<Rightarrow> 'x list \<Rightarrow> ('k, 'x list) dict" where
  "group_by f xs = fold (\<lambda>x. setdefault_append (f x) x) xs []"

lemma dict_ok_Nil [simp]: "dict_ok []"
  by (simp add: dict_ok_def)

lemma dict_ok_set [simp]: "dict_ok d \<Longrightarrow> dict_ok (dict_set k v d)"
  by (simp add: dict_ok_def distinct_update)

lemma dict_ok_pop [simp]: "dict_ok d \<Longrightarrow> dict_ok (dict_pop k d)"
  by (simp add: dict_ok_def distinct_delete)

lemma dict_get_set [simp, dict_simps]:
  "dict_get (dict_set k v d) j = (if j = k then Some v else dict_get d j)"
  by (simp add: update_conv')

lemma dict_get_pop [simp, dict_simps]:
  "dict_get (dict_pop k d) j = (if j = k then None else dict_get d j)"
  by (simp add: delete_conv')

lemma dict_get_None_iff: "dict_get d k = None \<longleftrightarrow> k \<notin> set (dict_keys d)"
  by (simp add: map_of_eq_None_iff)

lemma dict_get_in: "dict_get d k = Some v \<Longrightarrow> (k, v) \<in> set d"
  by (rule map_of_SomeD)

lemma dict_set_mem: "(j, w) \<in> set (dict_set k v d) \<Longrightarrow> (j, w) = (k, v) \<or> (j, w) \<in> set d"
  by (induction d) (auto split: if_splits)

lemma dict_pop_mem: "(j, w) \<in> set (dict_pop k d) \<longleftrightarrow> j \<noteq> k \<and> (j, w) \<in> set d"
  by (induction d) auto

lemma dict_mem_get: "dict_ok d \<Longrightarrow> (k, v) \<in> set d \<Longrightarrow> dict_get d k = Some v"
  by (simp add: dict_ok_def)

lemma dict_ok_of: "dict_ok (dict_of kvs)"
proof -
  have "dict_ok d \<Longrightarrow> dict_ok (fold (\<lambda>(k, v). dict_set k v) kvs d)" for d :: "('a, 'b) dict"
    by (induction kvs arbitrary: d) auto
  then show ?thesis by (simp add: dict_of_def)
qed

lemma dict_get_of: "dict_get (dict_of kvs) k = dict_get (rev kvs) k"
proof -
  have "dict_get (fold (\<lambda>(k, v). dict_set k v) kvs d) k =
        (case dict_get (rev kvs) k of None \<Rightarrow> dict_get d k | Some v \<Rightarrow> Some v)"
    for d
    by (induction kvs arbitrary: d) (auto simp: map_add_def split: option.splits)
  then show ?thesis by (simp add: dict_of_def split: option.splits)
qed

lemma dict_get_of_distinct:
  "distinct (map fst kvs) \<Longrightarrow> dict_get (dict_of kvs) k = dict_get kvs k"
  by (auto simp: dict_get_of rev_map [symmetric] map_of_inject_set intro!: map_of_inject_set [THEN iffD2, THEN fun_cong])

lemma dict_ok_append [simp]: "dict_ok d \<Longrightarrow> dict_ok (setdefault_append k x d)"
  by (simp add: setdefault_append_def)

lemma dict_get_append [simp, dict_simps]:
  "dict_get (setdefault_append k x d) j =
     (if j = k then Some ((case dict_get d k of None \<Rightarrow> [] | Some xs \<Rightarrow> xs) @ [x])
      else dict_get d j)"
  by (simp add: setdefault_append_def)

lemma group_by_fold:
  "dict_get (fold (\<lambda>x. setdefault_append (f x) x) xs d) k =
     (case dict_get d k of
        None \<Rightarrow> (if filter (\<lambda>x. f x = k) xs = [] then None else Some (filter (\<lambda>x. f x = k) xs))
      | Some ys \<Rightarrow> Some (ys @ filter (\<lambda>x. f x = k) xs))"
  by (induction xs arbitrary: d) (auto split: option.splits)

lemma dict_ok_group_by [simp]: "dict_ok (group_by f xs)"
proof -
  have "dict_ok d \<Longrightarrow> dict_ok (fold (\<lambda>x. setdefault_append (f x) x) xs d)" for d
    by (induction xs arbitrary: d) auto
  then show ?thesis by (simp add: group_by_def)
qed

lemma dict_get_group_by:
  "dict_get (group_by f xs) k =
     (if filter (\<lambda>x. f x = k) xs = [] then None else Some (filter (\<lambda>x. f x = k) xs))"
  by (simp add: group_by_def group_by_fold)

lemma group_by_mem:
  "(k, g) \<in> set (group_by f xs) \<longleftrightarrow> g = filter (\<lambda>x. f x = k) xs \<and> g \<noteq> []"
proof -
  have "(k, g) \<in> set (group_by f xs) \<longleftrightarrow> dict_get (group_by f xs) k = Some g"
    using dict_mem_get [OF dict_ok_group_by] dict_get_in by metis
  then show ?thesis by (auto simp: dict_get_group_by)
qed

section \<open>Transition systems\<close>

text \<open>
  A concurrent component is a set of initial states and a relation between the states before and
  after one atomic segment of the event loop (the code between two \<open>await\<close>s). A client that knows
  an inductive invariant may use it in every reachable state, and along every run.
\<close>

inductive reachable :: "('s \<Rightarrow> bool) \<Rightarrow> ('s \<Rightarrow> 's \<Rightarrow> bool) \<Rightarrow> 's \<Rightarrow> bool"
  for start :: "'s \<Rightarrow> bool" and move :: "'s \<Rightarrow> 's \<Rightarrow> bool" where
  reachable_start: "start s \<Longrightarrow> reachable start move s"
| reachable_move: "reachable start move s \<Longrightarrow> move s t \<Longrightarrow> reachable start move t"

locale invariant_system =
  fixes start :: "'s \<Rightarrow> bool"
    and move :: "'s \<Rightarrow> 's \<Rightarrow> bool"
    and inv :: "'s \<Rightarrow> bool"
  assumes inv_start: "start s \<Longrightarrow> inv s"
    and inv_move: "inv s \<Longrightarrow> move s t \<Longrightarrow> inv t"
begin

lemma inv_reachable: "reachable start move s \<Longrightarrow> inv s"
  by (induction rule: reachable.induct) (auto intro: inv_start inv_move)

lemma inv_run: "move\<^sup>*\<^sup>* s t \<Longrightarrow> inv s \<Longrightarrow> inv t"
  by (induction rule: rtranclp_induct) (auto intro: inv_move)

end

section \<open>Python list idioms\<close>

text \<open>\<open>len(xs) != len(set(xs))\<close>: the list holds a duplicate.\<close>

definition has_duplicates :: "'a list \<Rightarrow> bool" where
  "has_duplicates xs \<longleftrightarrow> length xs \<noteq> length (remdups xs)"

lemma has_duplicates_iff [simp]: "has_duplicates xs \<longleftrightarrow> \<not> distinct xs"
  unfolding has_duplicates_def eq_commute [of "length xs"] by simp

text \<open>Truthiness of an optional string: \<open>None\<close> and the empty string are false.\<close>

definition truthy :: "string option \<Rightarrow> bool" where
  "truthy x \<longleftrightarrow> x \<noteq> None \<and> x \<noteq> Some []"

lemma truthy_simps [simp]:
  "\<not> truthy None"
  "truthy (Some s) \<longleftrightarrow> s \<noteq> []"
  by (simp_all add: truthy_def)

end
