(* ===== verification/PyText.thy ===== *)
theory PyText
  imports Prelude "HOL-Library.Char_ord"
begin

text \<open>
  The part of Python's string library that the program calls. A Python \<open>str\<close> is a list of code
  points; a HOL \<open>char\<close> is a code point below 256, so the development covers exactly the strings
  over Latin-1, with the Unicode tables of that range written out (whitespace, digits, letters,
  case folding). The one code point whose case folding leaves the range, the micro sign, is kept.
  The last section is \<open>fnmatch.fnmatchcase\<close> of CPython 3.13.
\<close>

section \<open>Character classes\<close>

definition code :: "char \<Rightarrow> nat" where
  "code c = of_char c"

definition between :: "nat \<Rightarrow> nat \<Rightarrow> char \<Rightarrow> bool" where
  "between lo hi c \<longleftrightarrow> lo \<le> code c \<and> code c \<le> hi"

definition is_control :: "char \<Rightarrow> bool" where
  "is_control c \<longleftrightarrow> code c \<le> 31 \<or> between 127 159 c"

definition py_isspace :: "char \<Rightarrow> bool" where
  "py_isspace c \<longleftrightarrow> between 9 13 c \<or> between 28 32 c \<or> code c = 133 \<or> code c = 160"

definition ascii_digit :: "char \<Rightarrow> bool" where
  "ascii_digit c \<longleftrightarrow> between 48 57 c"

definition ascii_alpha :: "char \<Rightarrow> bool" where
  "ascii_alpha c \<longleftrightarrow> between 65 90 c \<or> between 97 122 c"

definition ascii_alnum :: "char \<Rightarrow> bool" where
  "ascii_alnum c \<longleftrightarrow> ascii_alpha c \<or> ascii_digit c"

definition ascii_hex :: "char \<Rightarrow> bool" where
  "ascii_hex c \<longleftrightarrow> ascii_digit c \<or> between 65 70 c \<or> between 97 102 c"

definition py_isdigit :: "char \<Rightarrow> bool" where
  "py_isdigit c \<longleftrightarrow> ascii_digit c \<or> code c = 178 \<or> code c = 179 \<or> code c = 185"

definition py_isalpha :: "char \<Rightarrow> bool" where
  "py_isalpha c \<longleftrightarrow> ascii_alpha c \<or> code c = 170 \<or> code c = 181 \<or> code c = 186
     \<or> (between 192 255 c \<and> code c \<noteq> 215 \<and> code c \<noteq> 247)"

definition upper_latin1 :: "char \<Rightarrow> bool" where
  "upper_latin1 c \<longleftrightarrow> between 65 90 c \<or> (between 192 222 c \<and> code c \<noteq> 215)"

definition lower_char :: "char \<Rightarrow> char" where
  "lower_char c = (if upper_latin1 c then char_of (code c + 32) else c)"

definition py_lower :: "string \<Rightarrow> string" where
  "py_lower s = map lower_char s"

definition py_casefold :: "string \<Rightarrow> string" where
  "py_casefold s = concat (map (\<lambda>c. if code c = 223 then ''ss'' else [lower_char c]) s)"

text \<open>Character literals that have no printable form.\<close>

abbreviation NUL :: char where "NUL \<equiv> CHR 0x00"
abbreviation TAB :: char where "TAB \<equiv> CHR 0x09"
abbreviation LF :: char where "LF \<equiv> CHR 0x0A"
abbreviation CR :: char where "CR \<equiv> CHR 0x0D"
abbreviation BACKSLASH :: char where "BACKSLASH \<equiv> CHR 0x5C"

lemmas char_class_defs =
  code_def between_def is_control_def py_isspace_def ascii_digit_def ascii_alpha_def
  ascii_alnum_def ascii_hex_def py_isdigit_def py_isalpha_def upper_latin1_def

section \<open>Splitting, joining, stripping\<close>

text \<open>\<open>s.split()\<close>: the maximal runs of non-space characters.\<close>

fun split_ws :: "string \<Rightarrow> string \<Rightarrow> string list" where
  "split_ws w [] = (if w = [] then [] else [w])"
| "split_ws w (c # cs) =
     (if py_isspace c then (if w = [] then split_ws [] cs else w # split_ws [] cs)
      else split_ws (w @ [c]) cs)"

definition py_split :: "string \<Rightarrow> string list" where
  "py_split s = split_ws [] s"

text \<open>\<open>s.split(sep)\<close> for a one-character separator: never empty.\<close>

fun split_on :: "char \<Rightarrow> string \<Rightarrow> string list" where
  "split_on sep [] = [[]]"
| "split_on sep (c # cs) =
     (if c = sep then [] # split_on sep cs
      else (case split_on sep cs of [] \<Rightarrow> [[c]] | w # ws \<Rightarrow> (c # w) # ws))"

fun py_join :: "string \<Rightarrow> string list \<Rightarrow> string" where
  "py_join sep [] = []"
| "py_join sep [w] = w"
| "py_join sep (w # ws) = w @ sep @ py_join sep ws"

definition py_lstrip :: "(char \<Rightarrow> bool) \<Rightarrow> string \<Rightarrow> string" where
  "py_lstrip p s = dropWhile p s"

definition py_rstrip :: "(char \<Rightarrow> bool) \<Rightarrow> string \<Rightarrow> string" where
  "py_rstrip p s = rev (dropWhile p (rev s))"

definition py_strip :: "string \<Rightarrow> string" where
  "py_strip s = py_rstrip py_isspace (py_lstrip py_isspace s)"

text \<open>\<open>s.partition(c)\<close>: the text before, whether the separator was found, the text after.\<close>

definition py_partition :: "char \<Rightarrow> string \<Rightarrow> string \<times> bool \<times> string" where
  "py_partition c s =
     (case dropWhile (\<lambda>x. x \<noteq> c) s of
        [] \<Rightarrow> (s, False, [])
      | _ # t \<Rightarrow> (takeWhile (\<lambda>x. x \<noteq> c) s, True, t))"

definition py_rpartition :: "char \<Rightarrow> string \<Rightarrow> string \<times> bool \<times> string" where
  "py_rpartition c s =
     (case py_partition c (rev s) of
        (a, True, b) \<Rightarrow> (rev b, True, rev a)
      | (a, False, b) \<Rightarrow> ([], False, s))"

fun digits_value :: "nat \<Rightarrow> nat \<Rightarrow> string \<Rightarrow> nat" where
  "digits_value base acc [] = acc"
| "digits_value base acc (c # cs) =
     digits_value base
       (base * acc + (if ascii_digit c then code c - 48
                      else if between 65 70 c then code c - 55 else code c - 87)) cs"

lemma split_ws_nonempty: "w' \<in> set (split_ws w s) \<Longrightarrow> w' \<noteq> []"
  by (induction w s rule: split_ws.induct) (auto split: if_splits)

lemma split_ws_chars:
  "w' \<in> set (split_ws w s) \<Longrightarrow> set w' \<subseteq> set w \<union> {c \<in> set s. \<not> py_isspace c}"
proof (induction w s arbitrary: w' rule: split_ws.induct)
  case (1 w)
  then show ?case by (auto split: if_splits)
next
  case (2 w c cs)
  show ?case
  proof (cases "py_isspace c")
    case True
    with 2 show ?thesis by (fastforce split: if_splits)
  next
    case False
    with 2 have "set w' \<subseteq> set (w @ [c]) \<union> {c \<in> set cs. \<not> py_isspace c}" by simp
    with False show ?thesis by auto
  qed
qed

lemma py_split_words:
  "w \<in> set (py_split s) \<Longrightarrow> w \<noteq> [] \<and> set w \<subseteq> {c \<in> set s. \<not> py_isspace c}"
  using split_ws_nonempty split_ws_chars unfolding py_split_def by fastforce

lemma set_py_join: "set (py_join sep ws) \<subseteq> set sep \<union> \<Union> (set ` set ws)"
  by (induction sep ws rule: py_join.induct) auto

lemma split_on_nonempty: "split_on sep s \<noteq> []"
  by (induction s) (auto split: list.splits)

lemma split_on_free: "sep \<notin> set w \<Longrightarrow> split_on sep w = [w]"
  by (induction w) auto

lemma split_on_append:
  "sep \<notin> set w \<Longrightarrow> split_on sep (w @ sep # s) = w # split_on sep s"
  by (induction w) auto

lemma split_on_join:
  "ws \<noteq> [] \<Longrightarrow> \<forall>w \<in> set ws. sep \<notin> set w \<Longrightarrow> split_on sep (py_join [sep] ws) = ws"
  by (induction "[sep]" ws rule: py_join.induct) (auto simp: split_on_free split_on_append)

lemma split_ws_word:
  "(\<forall>c \<in> set u. \<not> py_isspace c) \<Longrightarrow> split_ws w (u @ s) = split_ws (w @ u) s"
  by (induction u arbitrary: w) auto

lemma py_split_join:
  assumes "\<forall>w \<in> set ws. w \<noteq> [] \<and> (\<forall>c \<in> set w. \<not> py_isspace c)"
  shows "py_split (py_join '' '' ws) = ws"
  using assms
proof (induction "'' ''" ws rule: py_join.induct)
  case 1
  show ?case by (simp add: py_split_def)
next
  case (2 w)
  then show ?case using split_ws_word [of w "[]" "[]"] by (simp add: py_split_def)
next
  case (3 w v vs)
  have space: "py_isspace (CHR '' '')" by (simp add: char_class_defs)
  have "py_split (py_join '' '' (w # v # vs))
      = split_ws w ('' '' @ py_join '' '' (v # vs))"
    using 3 split_ws_word [of w "[]"] by (simp add: py_split_def)
  also have "\<dots> = w # py_split (py_join '' '' (v # vs))"
    using 3 space by (simp add: py_split_def)
  finally show ?case using 3 by simp
qed

section \<open>Shell globs: \<open>fnmatch.fnmatchcase\<close>\<close>

text \<open>
  A glob is translated to a list of one-character matchers and stars. A bracket expression is cut
  into chunks at the hyphens that form ranges, ranges whose ends are out of order are removed by
  merging their chunks, and what is left is a set of character ranges, negated by a leading \<open>!\<close>.
\<close>

datatype glob = GStar | GAny | GNever | GLit char | GClass bool "(char \<times> char) list"

definition hyphen_at :: "nat \<Rightarrow> string \<Rightarrow> nat option" where
  "hyphen_at skip s = List.find (\<lambda>i. s ! i = CHR ''-'') [skip..<length s]"

lemma hyphen_at_less: "hyphen_at skip s = Some k \<Longrightarrow> k < length s"
  by (auto simp: hyphen_at_def find_Some_iff)

function glob_chunks :: "nat \<Rightarrow> string \<Rightarrow> string list" where
  "glob_chunks skip s =
     (case hyphen_at skip s of
        None \<Rightarrow> [s]
      | Some k \<Rightarrow> take k s # glob_chunks 2 (drop (Suc k) s))"
  by pat_completeness auto
termination
  by (relation "measure (\<lambda>(skip, s). length s)") (auto dest: hyphen_at_less)

declare glob_chunks.simps [simp del]

text \<open>An empty last chunk means the last hyphen is a literal.\<close>

definition close_chunks :: "string list \<Rightarrow> string list" where
  "close_chunks cs =
     (if length cs \<ge> 2 \<and> last cs = []
      then butlast (butlast cs) @ [last (butlast cs) @ ''-''] else cs)"

text \<open>Ranges are checked from the last to the first.\<close>

fun drop_empty_ranges :: "string list \<Rightarrow> string list" where
  "drop_empty_ranges (c # cs) =
     (case drop_empty_ranges cs of
        [] \<Rightarrow> [c]
      | d # ds \<Rightarrow> (if c \<noteq> [] \<and> d \<noteq> [] \<and> code (last c) > code (hd d)
                  then (butlast c @ tl d) # ds else c # d # ds))"
| "drop_empty_ranges [] = []"

fun chunk_ranges :: "string list \<Rightarrow> (char \<times> char) list" where
  "chunk_ranges [] = []"
| "chunk_ranges [c] = map (\<lambda>x. (x, x)) c"
| "chunk_ranges (c # d # ds) =
     map (\<lambda>x. (x, x)) (butlast c) @ (last c, hd d) # chunk_ranges (tl d # ds)"

definition glob_class :: "string \<Rightarrow> glob" where
  "glob_class stuff =
     (let skip = (if take 1 stuff = ''!'' then 2 else 1);
          cs = drop_empty_ranges (close_chunks (glob_chunks skip stuff))
      in case cs of
           [[]] \<Rightarrow> GNever
         | (c # w) # ds \<Rightarrow>
             (if c = CHR ''!'' then (if w = [] \<and> ds = [] then GAny else GClass True (chunk_ranges (w # ds)))
              else GClass False (chunk_ranges cs))
         | _ \<Rightarrow> GNever)"

text \<open>The bracket expression after an opening bracket, if it is closed: its text and the rest.\<close>

definition bracket_body :: "string \<Rightarrow> (string \<times> string) option" where
  "bracket_body s =
     (let p = (if take 1 s = ''!'' then 1 else 0);
          q = (if take 1 (drop p s) = '']'' then Suc p else p);
          body = takeWhile (\<lambda>c. c \<noteq> CHR '']'') (drop q s)
      in case dropWhile (\<lambda>c. c \<noteq> CHR '']'') (drop q s) of
           [] \<Rightarrow> None
         | _ # rest \<Rightarrow> Some (take q s @ body, rest))"

lemma bracket_body_shorter:
  assumes "bracket_body s = Some (b, rest)"
  shows "length rest < length s"
proof -
  obtain q x where q: "dropWhile (\<lambda>c. c \<noteq> CHR '']'') (drop q s) = x # rest"
    using assms by (auto simp: bracket_body_def Let_def split: list.splits)
  then have "Suc (length rest) \<le> length (drop q s)"
    using length_dropWhile_le [of "\<lambda>c. c \<noteq> CHR '']''" "drop q s"] by simp
  then show ?thesis by simp
qed

function glob_parse :: "string \<Rightarrow> glob list" where
  "glob_parse [] = []"
| "glob_parse (c # s) =
     (if c = CHR ''*'' then GStar # glob_parse (dropWhile (\<lambda>x. x = CHR ''*'') s)
      else if c = CHR ''?'' then GAny # glob_parse s
      else if c = CHR ''['' then
        (case bracket_body s of
           None \<Rightarrow> GLit c # glob_parse s
         | Some (stuff, rest) \<Rightarrow> glob_class stuff # glob_parse rest)
      else GLit c # glob_parse s)"
  by pat_completeness auto
termination
  by (relation "measure length")
     (auto dest: bracket_body_shorter simp: less_Suc_eq_le length_dropWhile_le)

fun glob_char :: "glob \<Rightarrow> char \<Rightarrow> bool" where
  "glob_char (GLit d) c = (c = d)"
| "glob_char GAny c = True"
| "glob_char (GClass neg rs) c =
     (neg \<noteq> (\<exists>(lo, hi) \<in> set rs. code lo \<le> code c \<and> code c \<le> code hi))"
| "glob_char _ c = False"

function (sequential) glob_match :: "glob list \<Rightarrow> string \<Rightarrow> bool" where
  "glob_match [] s = (s = [])"
| "glob_match (GStar # gs) [] = glob_match gs []"
| "glob_match (GStar # gs) (c # s) = (glob_match gs (c # s) \<or> glob_match (GStar # gs) s)"
| "glob_match (g # gs) [] = False"
| "glob_match (g # gs) (c # s) = (glob_char g c \<and> glob_match gs s)"
  by pat_completeness auto
termination
  by (relation "measures [\<lambda>(gs, s). length s, \<lambda>(gs, s). length gs]") auto

definition fnmatchcase :: "string \<Rightarrow> string \<Rightarrow> bool" where
  "fnmatchcase name pat = glob_match (glob_parse pat) name"

lemma glob_match_star: "glob_match [GStar] s"
  by (induction s) auto

lemma fnmatchcase_star: "fnmatchcase name ''*''"
  by (simp add: fnmatchcase_def glob_match_star)

end
