(* ===== verification/PyNet.thy ===== *)
theory PyNet
  imports PyText
begin

text \<open>
  The part of Python's \<open>urllib.parse\<close> and \<open>ipaddress\<close> that the program calls (CPython 3.13), over
  Latin-1 strings: \<open>urlsplit\<close> with the \<open>scheme\<close>, \<open>netloc\<close>, \<open>username\<close>, \<open>password\<close>, \<open>hostname\<close> and
  \<open>port\<close> accessors, \<open>ip_address\<close>, \<open>ip_network(value, strict=False)\<close>, membership and
  \<open>is_loopback\<close>. \<open>None\<close> is a raised \<open>ValueError\<close>. (The NFKC check of \<open>urlsplit\<close> accepts every
  Latin-1 netloc.)
\<close>

section \<open>IP addresses\<close>

datatype ip_addr = IPv4 nat | IPv6 nat "string option"

fun ip_version :: "ip_addr \<Rightarrow> nat" where
  "ip_version (IPv4 _) = 4"
| "ip_version (IPv6 _ _) = 6"

fun ip_int :: "ip_addr \<Rightarrow> nat" where
  "ip_int (IPv4 n) = n"
| "ip_int (IPv6 n _) = n"

definition parse_octet :: "string \<Rightarrow> nat option" where
  "parse_octet s =
     (if s = [] \<or> \<not> list_all ascii_digit s \<or> length s > 3
         \<or> (s \<noteq> ''0'' \<and> hd s = CHR ''0'') \<or> digits_value 10 0 s > 255
      then None else Some (digits_value 10 0 s))"

fun those_fold :: "nat \<Rightarrow> nat \<Rightarrow> nat option list \<Rightarrow> nat option" where
  "those_fold base acc [] = Some acc"
| "those_fold base acc (None # xs) = None"
| "those_fold base acc (Some d # xs) = those_fold base (base * acc + d) xs"

definition ipv4_int :: "string \<Rightarrow> nat option" where
  "ipv4_int s =
     (let octets = split_on (CHR ''.'') s
      in if length octets \<noteq> 4 then None else those_fold 256 0 (map parse_octet octets))"

definition parse_hextet :: "string \<Rightarrow> nat option" where
  "parse_hextet s =
     (if s = [] \<or> \<not> list_all ascii_hex s \<or> length s > 4 then None
      else Some (digits_value 16 0 s))"

text \<open>The 16-bit groups of an IPv6 text; a dotted-quad suffix is two groups.\<close>

definition ipv6_groups :: "string \<Rightarrow> (string + nat) list option" where
  "ipv6_groups s =
     (let parts = split_on (CHR '':'') s in
      if s = [] \<or> length parts < 3 then None
      else if CHR ''.'' \<in> set (last parts)
      then (case ipv4_int (last parts) of
              None \<Rightarrow> None
            | Some n \<Rightarrow> Some (map Inl (butlast parts) @ [Inr (n div 65536), Inr (n mod 65536)]))
      else Some (map Inl parts))"

definition group_value :: "string + nat \<Rightarrow> nat option" where
  "group_value g = (case g of Inl s \<Rightarrow> parse_hextet s | Inr n \<Rightarrow> Some n)"

definition ipv6_skip :: "(string + nat) list \<Rightarrow> nat list" where
  "ipv6_skip parts = filter (\<lambda>i. parts ! i = Inl []) [1..<length parts - 1]"

definition ipv6_int :: "string \<Rightarrow> nat option" where
  "ipv6_int s =
     (case ipv6_groups s of
        None \<Rightarrow> None
      | Some parts \<Rightarrow>
          if length parts > 9 then None
          else (case ipv6_skip parts of
              [] \<Rightarrow> (if length parts \<noteq> 8 then None
                    else those_fold 65536 0 (map group_value parts))
            | [skip] \<Rightarrow>
                (let hi0 = skip; lo0 = length parts - skip - 1;
                     lead = (hd parts = Inl []); trail = (last parts = Inl []);
                     hi = (if lead then hi0 - 1 else hi0); lo = (if trail then lo0 - 1 else lo0)
                 in if (lead \<and> hi \<noteq> 0) \<or> (trail \<and> lo \<noteq> 0) \<or> hi + lo > 7 then None
                    else those_fold 65536 0
                      (map group_value (take hi parts) @ replicate (8 - (hi + lo)) (Some 0)
                        @ map group_value (drop (length parts - lo) parts)))
            | _ \<Rightarrow> None))"

definition ipv6_addr :: "string \<Rightarrow> ip_addr option" where
  "ipv6_addr s =
     (case py_partition (CHR ''%'') s of
        (addr, False, _) \<Rightarrow> map_option (\<lambda>n. IPv6 n None) (ipv6_int addr)
      | (addr, True, scope) \<Rightarrow>
          if scope = [] \<or> CHR ''%'' \<in> set scope then None
          else map_option (\<lambda>n. IPv6 n (Some scope)) (ipv6_int addr))"

definition ip_address :: "string \<Rightarrow> ip_addr option" where
  "ip_address s =
     (if CHR ''/'' \<in> set s then None
      else case ipv4_int s of
        Some n \<Rightarrow> Some (IPv4 n)
      | None \<Rightarrow> ipv6_addr s)"

definition is_loopback :: "ip_addr \<Rightarrow> bool" where
  "is_loopback a =
     (case a of
        IPv4 n \<Rightarrow> n div 2 ^ 24 = 127
      | IPv6 n _ \<Rightarrow> n = 1 \<or> (n div 2 ^ 32 = 65535 \<and> (n mod 2 ^ 32) div 2 ^ 24 = 127))"

section \<open>Networks\<close>

record ip_net =
  net_version :: nat
  net_prefix :: nat
  net_base :: nat

definition max_prefix :: "nat \<Rightarrow> nat" where
  "max_prefix version = (if version = 4 then 32 else 128)"

text \<open>\<open>ip & netmask\<close>: the low \<open>max - prefix\<close> bits are cleared.\<close>

definition masked :: "nat \<Rightarrow> nat \<Rightarrow> nat \<Rightarrow> nat" where
  "masked version plen n =
     (let size = 2 ^ (max_prefix version - plen) in (n div size) * size)"

definition prefix_digits :: "nat \<Rightarrow> string \<Rightarrow> nat option" where
  "prefix_digits version s =
     (if s = [] \<or> \<not> list_all ascii_digit s \<or> digits_value 10 0 s > max_prefix version
      then None else Some (digits_value 10 0 s))"

text \<open>A dotted netmask, or failing that a hostmask.\<close>

definition mask_prefix :: "nat \<Rightarrow> nat option" where
  "mask_prefix m = List.find (\<lambda>p. m = 2 ^ 32 - 2 ^ (32 - p)) [0..<33]"

definition prefix_dotted :: "string \<Rightarrow> nat option" where
  "prefix_dotted s =
     (case ipv4_int s of
        None \<Rightarrow> None
      | Some m \<Rightarrow> (case mask_prefix m of
            Some p \<Rightarrow> Some p
          | None \<Rightarrow> mask_prefix (2 ^ 32 - 1 - m)))"

definition ipv4_network :: "string \<Rightarrow> ip_net option" where
  "ipv4_network s =
     (case split_on (CHR ''/'') s of
        [a] \<Rightarrow> map_option (\<lambda>n. \<lparr>net_version = 4, net_prefix = 32, net_base = n\<rparr>) (ipv4_int a)
      | [a, m] \<Rightarrow>
          (case (ipv4_int a, (case prefix_digits 4 m of Some p \<Rightarrow> Some p | None \<Rightarrow> prefix_dotted m)) of
             (Some n, Some p) \<Rightarrow> Some \<lparr>net_version = 4, net_prefix = p, net_base = masked 4 p n\<rparr>
           | _ \<Rightarrow> None)
      | _ \<Rightarrow> None)"

definition ipv6_network :: "string \<Rightarrow> ip_net option" where
  "ipv6_network s =
     (case split_on (CHR ''/'') s of
        [a] \<Rightarrow> map_option (\<lambda>x. \<lparr>net_version = 6, net_prefix = 128, net_base = ip_int x\<rparr>) (ipv6_addr a)
      | [a, m] \<Rightarrow>
          (case (ipv6_addr a, prefix_digits 6 m) of
             (Some x, Some p) \<Rightarrow>
               Some \<lparr>net_version = 6, net_prefix = p, net_base = masked 6 p (ip_int x)\<rparr>
           | _ \<Rightarrow> None)
      | _ \<Rightarrow> None)"

definition ip_network :: "string \<Rightarrow> ip_net option" where
  "ip_network s = (case ipv4_network s of Some n \<Rightarrow> Some n | None \<Rightarrow> ipv6_network s)"

definition in_network :: "ip_addr \<Rightarrow> ip_net \<Rightarrow> bool" where
  "in_network a net \<longleftrightarrow> ip_version a = net_version net
     \<and> masked (net_version net) (net_prefix net) (ip_int a) = net_base net"

lemma masked_idem: "masked v p (masked v p n) = masked v p n"
  by (simp add: masked_def Let_def)

section \<open>URLs\<close>

record url_parts =
  url_scheme :: string
  url_netloc :: string

definition scheme_char :: "char \<Rightarrow> bool" where
  "scheme_char c \<longleftrightarrow> ascii_alnum c \<or> c \<in> set ''+-.''"

definition ipvfuture :: "string \<Rightarrow> bool" where
  "ipvfuture s =
     (case s of
        [] \<Rightarrow> False
      | v # t \<Rightarrow>
          (let hex = takeWhile ascii_hex t; rest = dropWhile ascii_hex t
           in v = CHR ''v'' \<and> hex \<noteq> [] \<and> take 1 rest = ''.'' \<and> drop 1 rest \<noteq> []
              \<and> LF \<notin> set (drop 1 rest)))"

text \<open>\<open>_check_bracketed_netloc\<close>: nothing before the bracket, only a port after it.\<close>

definition bracketed_netloc_ok :: "string \<Rightarrow> bool" where
  "bracketed_netloc_ok netloc =
     (let (_, _, hostport) = py_rpartition (CHR ''@'') netloc;
          (pre, found, bracketed) = py_partition (CHR ''['') hostport;
          (host, _, post) = py_partition (CHR '']'') bracketed
      in if found
         then pre = [] \<and> (post = [] \<or> hd post = CHR '':'')
              \<and> (if take 1 host = ''v'' then ipvfuture host
                 else (case ip_address host of Some (IPv6 _ _) \<Rightarrow> True | _ \<Rightarrow> False))
         else (case ip_address (fst (py_partition (CHR '':'') hostport)) of
                 Some (IPv6 _ _) \<Rightarrow> True | _ \<Rightarrow> False))"

definition urlsplit :: "string \<Rightarrow> url_parts option" where
  "urlsplit url0 =
     (let url1 = filter (\<lambda>c. c \<notin> {TAB, CR, LF}) (dropWhile (\<lambda>c. code c \<le> 32) url0);
          sch = takeWhile (\<lambda>c. c \<noteq> CHR '':'') url1;
          has = CHR '':'' \<in> set url1 \<and> sch \<noteq> [] \<and> ascii_alpha (hd sch) \<and> list_all scheme_char sch;
          rest = (if has then drop (Suc (length sch)) url1 else url1);
          scheme = (if has then py_lower sch else []);
          netloc = (if take 2 rest = ''//''
                    then takeWhile (\<lambda>c. c \<notin> set ''/?#'') (drop 2 rest) else [])
      in if (CHR ''['' \<in> set netloc) \<noteq> (CHR '']'' \<in> set netloc)
            \<or> (CHR ''['' \<in> set netloc \<and> \<not> bracketed_netloc_ok netloc)
         then None else Some \<lparr>url_scheme = scheme, url_netloc = netloc\<rparr>)"

definition url_userinfo :: "url_parts \<Rightarrow> string option \<times> string option" where
  "url_userinfo u =
     (case py_rpartition (CHR ''@'') (url_netloc u) of
        (userinfo, True, _) \<Rightarrow>
          (case py_partition (CHR '':'') userinfo of
             (name, found, pw) \<Rightarrow> (Some name, if found then Some pw else None))
      | (_, False, _) \<Rightarrow> (None, None))"

definition url_hostinfo :: "url_parts \<Rightarrow> string \<times> string option" where
  "url_hostinfo u =
     (let (_, _, hostinfo) = py_rpartition (CHR ''@'') (url_netloc u);
          (_, opened, bracketed) = py_partition (CHR ''['') hostinfo;
          (host, port) =
            (if opened
             then (let (h, _, post) = py_partition (CHR '']'') bracketed;
                       (_, _, p) = py_partition (CHR '':'') post in (h, p))
             else (let (h, _, p) = py_partition (CHR '':'') hostinfo in (h, p)))
      in (host, if port = [] then None else Some port))"

definition url_username :: "url_parts \<Rightarrow> string option" where
  "url_username u = fst (url_userinfo u)"

definition url_password :: "url_parts \<Rightarrow> string option" where
  "url_password u = snd (url_userinfo u)"

definition url_hostname :: "url_parts \<Rightarrow> string option" where
  "url_hostname u =
     (let host = fst (url_hostinfo u) in
      if host = [] then None
      else (case py_partition (CHR ''%'') host of
              (h, found, zone) \<Rightarrow> Some (py_lower h @ (if found then ''%'' else []) @ zone)))"

text \<open>\<open>parsed.port\<close>: \<open>None\<close> where the accessor raises \<open>ValueError\<close>.\<close>

definition url_port :: "url_parts \<Rightarrow> nat option option" where
  "url_port u =
     (case snd (url_hostinfo u) of
        None \<Rightarrow> Some None
      | Some p \<Rightarrow>
          (if list_all ascii_digit p \<and> digits_value 10 0 p \<le> 65535
           then Some (Some (digits_value 10 0 p)) else None))"

end
