(* ===== verification/SafeRegex.thy ===== *)
theory SafeRegex
  imports PyText
begin

text \<open>
  \<open>src/xray_e2e_prober/safe_regex.py\<close>: the gate in front of Python's backtracking regex engine. The
  scanners work on the pattern and an index, as the code does. The engine itself (\<open>re.compile\<close> and
  \<open>Pattern.search\<close>) is the pair of parameters \<open>re_compiles\<close> and \<open>re_search\<close>. The grammar \<open>flat\<close> is the
  specification: what an accepted expression can consist of.
\<close>

section \<open>The scanner\<close>

definition MAX_SAFE_NAME_REGEX_LENGTH :: nat where
  "MAX_SAFE_NAME_REGEX_LENGTH = 256"

definition MAX_SAFE_NAME_REGEX_ALTERNATIVES :: nat where
  "MAX_SAFE_NAME_REGEX_ALTERNATIVES = 32"

definition SINGLE_CHARACTER_ESCAPES :: "char set" where
  "SINGLE_CHARACTER_ESCAPES = set ''AbBdDsSwWZfnrtv''"

definition REPETITION_OR_GROUP_META :: "char set" where
  "REPETITION_OR_GROUP_META = set ''*+?{}()''"

text \<open>\<open>_is_escaped\<close> counts the backslashes to the left of the index.\<close>

fun count_backslashes :: "string \<Rightarrow> nat \<Rightarrow> nat" where
  "count_backslashes value 0 = 0"
| "count_backslashes value (Suc i) =
     (if value ! i = BACKSLASH then Suc (count_backslashes value i) else 0)"

definition is_escaped :: "string \<Rightarrow> nat \<Rightarrow> bool" where
  "is_escaped value index \<longleftrightarrow> odd (count_backslashes value index)"

definition consume_escape :: "string \<Rightarrow> nat \<Rightarrow> string + nat" where
  "consume_escape pattern index =
     (if index + 1 \<ge> length pattern
      then Inl ''assignment name_regex has a trailing escape''
      else let escaped = pattern ! (index + 1) in
        if py_isdigit escaped
        then Inl ''assignment name_regex backreferences are not supported''
        else if py_isalpha escaped \<and> escaped \<notin> SINGLE_CHARACTER_ESCAPES
        then Inl ''assignment name_regex uses an unsupported escape sequence''
        else Inr (index + 2))"

lemma consume_escape_Inr:
  "consume_escape p i = Inr j \<Longrightarrow> j = i + 2 \<and> i + 1 < length p"
  by (auto simp: consume_escape_def Let_def split: if_splits)

text \<open>The loop of \<open>_consume_character_class\<close>.\<close>

function class_loop :: "string \<Rightarrow> nat \<Rightarrow> string + nat" where
  "class_loop pattern cursor =
     (if cursor < length pattern then
        let character = pattern ! cursor in
        if character = BACKSLASH
        then bindE (consume_escape pattern cursor) (\<lambda>next. class_loop pattern next)
        else if character = CHR ''[''
        then Inl ''assignment name_regex nested character classes are not supported''
        else if character = CHR '']'' then Inr (cursor + 1)
        else class_loop pattern (cursor + 1)
      else Inl ''assignment name_regex has an unterminated character class'')"
  by pat_completeness auto
termination
  by (relation "measure (\<lambda>(p, i). length p - i)") (auto dest: consume_escape_Inr)

declare class_loop.simps [simp del]

definition consume_character_class :: "string \<Rightarrow> nat \<Rightarrow> string + nat" where
  "consume_character_class pattern index =
     (let cursor = index + 1;
          cursor = (if cursor < length pattern \<and> pattern ! cursor = CHR ''^''
                    then cursor + 1 else cursor);
          cursor = (if cursor < length pattern \<and> pattern ! cursor = CHR '']''
                    then cursor + 1 else cursor)
      in class_loop pattern cursor)"

lemma class_loop_bounds:
  "class_loop p i = Inr j \<Longrightarrow> i < j \<and> j \<le> length p \<and> p ! (j - 1) = CHR '']''"
proof (induction p i rule: class_loop.induct)
  case (1 p i)
  show ?case
  proof (cases "i < length p \<and> p ! i = BACKSLASH")
    case True
    with "1.prems" obtain k where k: "consume_escape p i = Inr k" "class_loop p k = Inr j"
      by (auto simp: class_loop.simps [of p i] bindE_Inr_iff)
    with True "1.IH"(1) have "k < j \<and> j \<le> length p \<and> p ! (j - 1) = CHR '']''" by auto
    with k show ?thesis by (auto dest: consume_escape_Inr)
  next
    case False
    with 1 show ?thesis
      by (auto simp: class_loop.simps [of p i] Let_def split: if_splits)
  qed
qed

lemma consume_character_class_bounds:
  "consume_character_class p i = Inr j
     \<Longrightarrow> i + 1 < j \<and> j \<le> length p \<and> p ! (j - 1) = CHR '']''"
  unfolding consume_character_class_def Let_def
  by (drule class_loop_bounds) (auto split: if_splits)

text \<open>The loop of \<open>_validate_flat_alternatives\<close>: cursor, start of the branch, alternatives so far.\<close>

function flat_loop :: "string \<Rightarrow> nat \<Rightarrow> nat \<Rightarrow> nat \<Rightarrow> string + unit" where
  "flat_loop expression branch_start alternatives cursor =
     (if cursor < length expression then
        let character = expression ! cursor in
        if character = BACKSLASH
        then bindE (consume_escape expression cursor)
               (\<lambda>next. flat_loop expression branch_start alternatives next)
        else if character = CHR ''[''
        then bindE (consume_character_class expression cursor)
               (\<lambda>next. flat_loop expression branch_start alternatives next)
        else if character = CHR '']''
        then Inl ''assignment name_regex has an unexpected closing bracket''
        else if character = CHR ''|''
        then (if alternatives + 1 > MAX_SAFE_NAME_REGEX_ALTERNATIVES
              then Inl ''assignment name_regex has too many alternatives''
              else flat_loop expression (cursor + 1) (alternatives + 1) (cursor + 1))
        else if character \<in> REPETITION_OR_GROUP_META
        then Inl ''assignment name_regex repetition and nested groups are not supported''
        else if character = CHR ''^'' \<and> cursor \<noteq> branch_start
        then Inl ''assignment name_regex ^ anchors are only supported at branch starts''
        else if character = CHR ''$'' \<and> cursor + 1 < length expression
             \<and> expression ! (cursor + 1) \<noteq> CHR ''|''
        then Inl ''assignment name_regex $ anchors are only supported at branch ends''
        else flat_loop expression branch_start alternatives (cursor + 1)
      else Inr ())"
  by pat_completeness auto
termination
  by (relation "measure (\<lambda>(e, b, a, i). length e - i)")
     (auto dest: consume_escape_Inr consume_character_class_bounds)

declare flat_loop.simps [simp del]

definition validate_flat_alternatives :: "string \<Rightarrow> string + unit" where
  "validate_flat_alternatives expression = flat_loop expression 0 1 0"

section \<open>The gate\<close>

text \<open>The leading flag, the outer anchors and the single outer group are peeled off.\<close>

definition strip_flag :: "string \<Rightarrow> string" where
  "strip_flag e = (if take 4 e = ''(?i)'' then drop 4 e else e)"

definition strip_anchors :: "string \<Rightarrow> string" where
  "strip_anchors e0 =
     (let e = (if take 1 e0 = ''^'' then drop 1 e0 else e0)
      in if e \<noteq> [] \<and> last e = CHR ''$'' \<and> \<not> is_escaped e (length e - 1)
         then butlast e else e)"

definition strip_group :: "string \<Rightarrow> string" where
  "strip_group e =
     (if take 3 e = ''(?:'' \<and> last e = CHR '')'' then butlast (drop 3 e)
      else if take 1 e = ''('' \<and> last e = CHR '')'' then butlast (drop 1 e)
      else e)"

definition regex_core :: "string \<Rightarrow> string" where
  "regex_core pattern = strip_group (strip_anchors (strip_flag pattern))"

definition validate_safe_name_regex :: "(string \<Rightarrow> bool) \<Rightarrow> string \<Rightarrow> string + string" where
  "validate_safe_name_regex re_compiles pattern =
     (if length pattern > MAX_SAFE_NAME_REGEX_LENGTH
      then Inl ''assignment name_regex exceeds 256 characters''
      else bindE (validate_flat_alternatives (regex_core pattern))
        (\<lambda>_. if re_compiles pattern then Inr pattern
             else Inl ''invalid assignment name regular expression''))"

text \<open>\<open>safe_name_regex_search\<close> searches only what the gate has accepted (the cache is transparent).\<close>

definition safe_name_regex_search ::
  "(string \<Rightarrow> bool) \<Rightarrow> (string \<Rightarrow> string \<Rightarrow> bool) \<Rightarrow> string \<Rightarrow> string \<Rightarrow> string + bool" where
  "safe_name_regex_search re_compiles re_search pattern value =
     bindE (validate_safe_name_regex re_compiles pattern) (\<lambda>p. Inr (re_search p value))"

section \<open>The accepted language\<close>

text \<open>
  What a pattern core can be: a sequence of one-character items (escapes from a fixed set, classes,
  plain characters) and anchors at the ends of flat alternatives. There is no repetition, no group
  and no backreference, so the number of alternatives bounds the number of starting points of a
  match and the length of an alternative bounds its work.
\<close>

definition escape_ok :: "char \<Rightarrow> bool" where
  "escape_ok c \<longleftrightarrow> \<not> py_isdigit c \<and> (py_isalpha c \<longrightarrow> c \<in> SINGLE_CHARACTER_ESCAPES)"

inductive class_items :: "string \<Rightarrow> bool" where
  items_end: "class_items []"
| items_escape: "escape_ok c \<Longrightarrow> class_items s \<Longrightarrow> class_items (BACKSLASH # c # s)"
| items_char: "c \<notin> set ''[]'' \<Longrightarrow> c \<noteq> BACKSLASH \<Longrightarrow> class_items s \<Longrightarrow> class_items (c # s)"

text \<open>
  After the opening bracket come an optional negation and an optional literal closing bracket; the
  items start behind them.
\<close>

definition class_skip :: "string \<Rightarrow> nat" where
  "class_skip s =
     (let k = (if take 1 s = ''^'' then 1 else 0)
      in if take 1 (drop k s) = '']'' then Suc k else k)"

definition char_class :: "string \<Rightarrow> bool" where
  "char_class cls \<longleftrightarrow>
     class_skip (cls @ '']'') \<le> length cls \<and> class_items (drop (class_skip (cls @ '']'')) cls)"

inductive flat :: "nat \<Rightarrow> bool \<Rightarrow> string \<Rightarrow> bool" where
  flat_end: "flat n b []"
| flat_escape: "escape_ok c \<Longrightarrow> flat n False s \<Longrightarrow> flat n b (BACKSLASH # c # s)"
| flat_class: "char_class cls \<Longrightarrow> flat n False s \<Longrightarrow> flat n b (CHR ''['' # cls @ CHR '']'' # s)"
| flat_bar: "flat n True s \<Longrightarrow> flat (Suc n) b (CHR ''|'' # s)"
| flat_caret: "flat n False s \<Longrightarrow> flat n True (CHR ''^'' # s)"
| flat_dollar: "s = [] \<or> hd s = CHR ''|'' \<Longrightarrow> flat n False s \<Longrightarrow> flat n b (CHR ''$'' # s)"
| flat_char: "c \<notin> set ''[]|^$'' \<Longrightarrow> c \<noteq> BACKSLASH \<Longrightarrow> c \<notin> REPETITION_OR_GROUP_META
    \<Longrightarrow> flat n False s \<Longrightarrow> flat n b (c # s)"

lemma consume_escape_iff:
  "consume_escape p i = Inr j \<longleftrightarrow> i + 1 < length p \<and> escape_ok (p ! (i + 1)) \<and> j = i + 2"
  by (auto simp: consume_escape_def escape_ok_def Let_def)

lemma drop_Cons_nth: "drop i p = c # s \<Longrightarrow> i < length p \<and> p ! i = c \<and> drop (Suc i) p = s"
  by (metis drop_eq_Nil2 list.distinct(1) not_le_imp_less Cons_nth_drop_Suc list.inject)

lemma class_loop_sound:
  "class_loop p i = Inr j \<Longrightarrow>
     \<exists>items rest. drop i p = items @ CHR '']'' # rest \<and> class_items items
       \<and> j = i + length items + 1"
proof (induction p i rule: class_loop.induct)
  case (1 p i)
  have i: "i < length p"
    using "1.prems" by (auto simp: class_loop.simps [of p i] split: if_splits)
  then have split: "drop i p = p ! i # drop (Suc i) p" by (simp add: Cons_nth_drop_Suc)
  consider (esc) "p ! i = BACKSLASH" | (close) "p ! i = CHR '']''"
    | (char) "p ! i \<notin> set ''[]''" "p ! i \<noteq> BACKSLASH"
    using "1.prems" i by (auto simp: class_loop.simps [of p i] Let_def split: if_splits)
  then show ?case
  proof cases
    case esc
    with "1.prems" i have k: "Suc i < length p" "escape_ok (p ! Suc i)" "class_loop p (i + 2) = Inr j"
      by (auto simp: class_loop.simps [of p i] bindE_Inr_iff consume_escape_iff)
    with esc i "1.IH"(1) [of "p ! i" "i + 2"] obtain items rest where
      "drop (i + 2) p = items @ CHR '']'' # rest" "class_items items" "j = i + 2 + length items + 1"
      by (auto simp: consume_escape_iff)
    moreover have "drop (Suc i) p = p ! Suc i # drop (i + 2) p"
      using k by (simp add: Cons_nth_drop_Suc)
    ultimately show ?thesis
      using k esc split
      by (intro exI [of _ "BACKSLASH # p ! Suc i # items"] exI [of _ rest])
         (auto intro: class_items.intros)
  next
    case close
    with "1.prems" i split show ?thesis
      by (intro exI [of _ "[]"] exI [of _ "drop (Suc i) p"])
         (auto simp: class_loop.simps [of p i] intro: class_items.intros)
  next
    case char
    with "1.prems" i have "class_loop p (i + 1) = Inr j"
      by (auto simp: class_loop.simps [of p i])
    with char i "1.IH"(2) [of "p ! i"] obtain items rest where
      "drop (i + 1) p = items @ CHR '']'' # rest" "class_items items" "j = i + 1 + length items + 1"
      by auto
    with char split show ?thesis
      by (intro exI [of _ "p ! i # items"] exI [of _ rest]) (auto intro: class_items.intros)
  qed
qed

lemma class_loop_complete:
  "class_items items \<Longrightarrow> drop i p = items @ CHR '']'' # rest
     \<Longrightarrow> class_loop p i = Inr (i + length items + 1)"
proof (induction items arbitrary: i rule: class_items.induct)
  case items_end
  then show ?case by (auto simp: class_loop.simps [of p i] dest: drop_Cons_nth)
next
  case (items_escape c s)
  from items_escape.prems have d: "drop i p = BACKSLASH # c # s @ CHR '']'' # rest" by simp
  from drop_Cons_nth [OF d] have i: "i < length p" "p ! i = BACKSLASH"
    and d1: "drop (Suc i) p = c # s @ CHR '']'' # rest" by auto
  from drop_Cons_nth [OF d1] have "Suc i < length p" "p ! Suc i = c"
    "drop (i + 2) p = s @ CHR '']'' # rest" by auto
  with i items_escape.IH [of "i + 2"] items_escape.hyps(1) show ?case
    by (auto simp: class_loop.simps [of p i] bindE_Inr_iff consume_escape_iff)
next
  case (items_char c s)
  from items_char.prems have d: "drop i p = c # s @ CHR '']'' # rest" by simp
  from drop_Cons_nth [OF d] items_char.IH [of "Suc i"] items_char.hyps show ?case
    by (auto simp: class_loop.simps [of p i] Let_def)
qed

lemma nth_take1: "i < length p \<and> p ! i = c \<longleftrightarrow> take 1 (drop i p) = [c]"
  by (cases "drop i p") (auto dest: drop_Cons_nth)

lemma consume_class_skip:
  "consume_character_class p i = class_loop p (Suc i + class_skip (drop (Suc i) p))"
  by (simp add: consume_character_class_def class_skip_def Let_def nth_take1)

lemma class_skip_append: "2 \<le> length u \<Longrightarrow> class_skip (u @ v) = class_skip u"
  by (auto simp: class_skip_def Let_def numeral_2_eq_2 Suc_le_length_iff)

lemma class_skip_le: "class_skip s \<le> length s"
  by (cases s; cases "tl s") (auto simp: class_skip_def Let_def)

lemma class_skip_close [simp]: "class_skip (CHR '']'' # s) = 1"
  by (simp add: class_skip_def)

lemma consume_class_sound:
  assumes "consume_character_class p i = Inr j" "drop i p = CHR ''['' # s"
  shows "\<exists>cls rest. s = cls @ CHR '']'' # rest \<and> char_class cls \<and> j = i + length cls + 2"
proof -
  from drop_Cons_nth [OF assms(2)] have s: "drop (Suc i) p = s" by simp
  define k where "k = class_skip s"
  from assms(1) s have "class_loop p (Suc i + k) = Inr j"
    by (simp add: consume_class_skip k_def)
  from class_loop_sound [OF this] obtain items rest where
    items: "drop (Suc i + k) p = items @ CHR '']'' # rest" "class_items items"
      "j = Suc i + k + length items + 1" by blast
  define cls where "cls = take k s @ items"
  have dk: "drop k s = items @ CHR '']'' # rest"
    using items(1) s by (metis drop_drop add.commute)
  then have seq: "s = (cls @ '']'') @ rest"
    unfolding cls_def by (metis append.assoc append_Cons append_Nil append_take_drop_id)
  have len: "length (take k s) = k"
    using class_skip_le [of s] by (simp add: k_def)
  have "cls \<noteq> []"
  proof
    assume "cls = []"
    then have "k = 1" using seq by (simp add: k_def)
    with \<open>cls = []\<close> len show False by (simp add: cls_def)
  qed
  then have two: "2 \<le> length (cls @ '']'')" by (cases cls) auto
  have "class_skip (cls @ '']'') = k"
    using class_skip_append [OF two, of rest] unfolding seq [symmetric] k_def by (rule sym)
  then have "char_class cls"
    using items(2) len by (simp add: char_class_def cls_def)
  moreover have "s = cls @ CHR '']'' # rest" using seq by simp
  moreover have "j = i + length cls + 2"
    using items(3) len by (simp add: cls_def del: length_take)
  ultimately show ?thesis by blast
qed

lemma consume_class_complete:
  assumes "char_class cls" "drop i p = CHR ''['' # cls @ CHR '']'' # rest"
  shows "consume_character_class p i = Inr (i + length cls + 2)"
proof -
  define k where "k = class_skip (cls @ '']'')"
  from drop_Cons_nth [OF assms(2)] have s: "drop (Suc i) p = (cls @ '']'') @ rest" by simp
  have k: "k \<le> length cls" and items: "class_items (drop k cls)"
    using assms(1) by (auto simp: char_class_def k_def)
  have "cls \<noteq> []" using k by (auto simp: k_def)
  then have "class_skip ((cls @ '']'') @ rest) = k"
    using class_skip_append [of "cls @ '']''" rest] by (cases cls) (auto simp: k_def)
  moreover have "drop (Suc i + k) p = drop k cls @ CHR '']'' # rest"
    using s k by (metis append.assoc append_Cons append_Nil drop_append drop_drop add.commute
        diff_is_0_eq' drop0)
  ultimately show ?thesis
    using class_loop_complete [OF items] k by (simp add: consume_class_skip s)
qed

lemma flat_loop_sound:
  "flat_loop p bs alts i = Inr () \<Longrightarrow> alts \<le> 32 \<Longrightarrow> bs \<le> i \<Longrightarrow> flat (32 - alts) (bs = i) (drop i p)"
proof (induction p bs alts i rule: flat_loop.induct)
  case (1 p bs alts i)
  show ?case
  proof (cases "i < length p")
    case False
    then show ?thesis by (simp add: flat_end)
  next
    case i: True
    define c where "c = p ! i"
    define s where "s = drop (Suc i) p"
    have split: "drop i p = c # s" using i by (simp add: Cons_nth_drop_Suc c_def s_def)
    note unf = flat_loop.simps [of p bs alts i]
    consider (esc) "c = BACKSLASH" | (cls) "c = CHR ''[''" | (bar) "c = CHR ''|''"
      | (caret) "c = CHR ''^''" | (dollar) "c = CHR ''$''"
      | (char) "c \<notin> set ''[]|^$''" "c \<noteq> BACKSLASH" "c \<notin> REPETITION_OR_GROUP_META"
      using "1.prems"(1) i by (auto simp: unf Let_def c_def split: if_splits)
    then show ?thesis
    proof cases
      case esc
      with "1.prems"(1) i have k: "Suc i < length p" "escape_ok (p ! Suc i)"
        "flat_loop p bs alts (i + 2) = Inr ()"
        by (auto simp: unf c_def Let_def bindE_Inr_iff consume_escape_iff)
      with esc i "1.IH"(1) [of c "i + 2"] "1.prems"(2,3) have "flat (32 - alts) False (drop (i + 2) p)"
        by (auto simp: consume_escape_iff c_def)
      moreover have "s = p ! Suc i # drop (i + 2) p"
        using k by (simp add: s_def Cons_nth_drop_Suc)
      ultimately show ?thesis
        using k esc split by (auto intro: flat_escape)
    next
      case cls
      with "1.prems"(1) i obtain j where j: "consume_character_class p i = Inr j"
        "flat_loop p bs alts j = Inr ()"
        by (auto simp: unf c_def Let_def bindE_Inr_iff)
      from consume_class_sound [OF j(1)] cls split obtain w rest where
        w: "s = w @ CHR '']'' # rest" "char_class w" "j = i + length w + 2" by blast
      from w have "drop j p = rest"
        by (simp add: s_def [symmetric] drop_drop [symmetric] del: drop_drop)
           (metis (no_types, lifting) One_nat_def Suc_1 add.commute add_Suc_right append_eq_conv_conj
             drop_drop drop_Suc_Cons drop0 list.size(4) plus_1_eq_Suc s_def w(1) length_append)
      with cls i "1.IH"(2) [of c j] j "1.prems"(2,3) w have "flat (32 - alts) False rest"
        by (auto simp: c_def)
      with w split cls show ?thesis by (auto intro: flat_class)
    next
      case bar
      with "1.prems"(1) i have a: "alts < 32" and f: "flat_loop p (i + 1) (alts + 1) (i + 1) = Inr ()"
        by (auto simp: unf c_def Let_def MAX_SAFE_NAME_REGEX_ALTERNATIVES_def split: if_splits)
      with bar i "1.IH"(3) [of c] have "flat (32 - (alts + 1)) True s"
        by (simp add: c_def s_def MAX_SAFE_NAME_REGEX_ALTERNATIVES_def)
      then have "flat (Suc (32 - (alts + 1))) (bs = i) (CHR ''|'' # s)" by (rule flat_bar)
      moreover have "Suc (32 - (alts + 1)) = 32 - alts" using a by arith
      ultimately show ?thesis by (simp only: split bar)
    next
      case caret
      with "1.prems"(1) i have b: "bs = i" and f: "flat_loop p bs alts (i + 1) = Inr ()"
        by (auto simp: unf c_def Let_def REPETITION_OR_GROUP_META_def split: if_splits)
      with caret i "1.IH"(4) [of c] "1.prems"(2) have "flat (32 - alts) False s"
        by (simp add: c_def s_def REPETITION_OR_GROUP_META_def)
      with split caret b show ?thesis by (simp add: flat_caret)
    next
      case dollar
      with "1.prems"(1) i have b: "Suc i < length p \<longrightarrow> p ! Suc i = CHR ''|''"
        and f: "flat_loop p bs alts (i + 1) = Inr ()"
        by (auto simp: unf c_def Let_def REPETITION_OR_GROUP_META_def split: if_splits)
      with dollar i "1.IH"(4) [of c] "1.prems"(2,3) have "flat (32 - alts) False s"
        by (simp add: c_def s_def REPETITION_OR_GROUP_META_def)
      moreover have "s = [] \<or> hd s = CHR ''|''"
        using b by (cases "Suc i < length p") (auto simp: s_def hd_drop_conv_nth)
      ultimately show ?thesis using split dollar by (auto intro: flat_dollar)
    next
      case char
      with "1.prems"(1) i have f: "flat_loop p bs alts (i + 1) = Inr ()"
        by (auto simp: unf c_def Let_def split: if_splits)
      with char i "1.IH"(4) [of c] "1.prems"(2,3) have "flat (32 - alts) False s"
        by (simp add: c_def s_def)
      with split char show ?thesis by (auto intro: flat_char)
    qed
  qed
qed

lemma flat_loop_complete:
  "flat n b s \<Longrightarrow> drop i p = s \<Longrightarrow> (b \<longrightarrow> bs = i) \<Longrightarrow> (\<not> b \<longrightarrow> bs < i) \<Longrightarrow> n + alts = 32
     \<Longrightarrow> flat_loop p bs alts i = Inr ()"
proof (induction n b s arbitrary: i bs alts rule: flat.induct)
  case (flat_end n b)
  then show ?case by (simp add: flat_loop.simps [of p bs alts i] flat_loop.simps [of p i alts i])
next
  case (flat_escape c n s b)
  from drop_Cons_nth [OF flat_escape.prems(1)] have i: "i < length p" "p ! i = BACKSLASH"
    and d: "drop (Suc i) p = c # s" by auto
  from drop_Cons_nth [OF d] have d2: "Suc i < length p" "p ! Suc i = c" "drop (i + 2) p = s" by auto
  have "flat_loop p bs alts (i + 2) = Inr ()"
    using flat_escape.IH [of "i + 2" bs alts] flat_escape.prems d2 by (cases b) auto
  with i d2 flat_escape.hyps show ?case
    by (auto simp: flat_loop.simps [of p bs alts i] flat_loop.simps [of p i alts i] Let_def bindE_Inr_iff consume_escape_iff)
next
  case (flat_class cls n s b)
  from drop_Cons_nth [OF flat_class.prems(1)] have i: "i < length p" "p ! i = CHR ''[''" by auto
  have c: "consume_character_class p i = Inr (i + length cls + 2)"
    using flat_class.hyps(1) flat_class.prems(1) by (rule consume_class_complete)
  have "drop (i + length cls + 2) p = drop (length cls + 2) (drop i p)"
    by (simp add: drop_drop add.assoc add.commute)
  then have "drop (i + length cls + 2) p = s" using flat_class.prems(1) by simp
  then have "flat_loop p bs alts (i + length cls + 2) = Inr ()"
    using flat_class.IH [of "i + length cls + 2" bs alts] flat_class.prems by (cases b) auto
  with i c show ?case
    by (simp add: flat_loop.simps [of p bs alts i] flat_loop.simps [of p i alts i] Let_def)
next
  case (flat_bar n s b)
  from drop_Cons_nth [OF flat_bar.prems(1)] flat_bar show ?case
    by (auto simp: flat_loop.simps [of p bs alts i] flat_loop.simps [of p i alts i] Let_def MAX_SAFE_NAME_REGEX_ALTERNATIVES_def)
next
  case (flat_caret n s)
  from drop_Cons_nth [OF flat_caret.prems(1)] flat_caret.prems
    flat_caret.IH [of "Suc i" bs alts] show ?case
    by (auto simp: flat_loop.simps [of p bs alts i] flat_loop.simps [of p i alts i] Let_def REPETITION_OR_GROUP_META_def)
next
  case (flat_dollar s n b)
  from drop_Cons_nth [OF flat_dollar.prems(1)] have i: "i < length p" "p ! i = CHR ''$''"
    "drop (Suc i) p = s" by auto
  then have "Suc i < length p \<longrightarrow> p ! Suc i = CHR ''|''"
    using flat_dollar.hyps(1) by (auto simp: hd_drop_conv_nth)
  with i flat_dollar show ?case
    by (cases b) (auto simp: flat_loop.simps [of p bs alts i] flat_loop.simps [of p i alts i] Let_def REPETITION_OR_GROUP_META_def)
next
  case (flat_char c n s b)
  from drop_Cons_nth [OF flat_char.prems(1)] flat_char show ?case
    by (cases b) (auto simp: flat_loop.simps [of p bs alts i] flat_loop.simps [of p i alts i] Let_def)
qed

lemma validate_flat_alternatives_iff:
  "validate_flat_alternatives e = Inr () \<longleftrightarrow> flat 31 True e"
  using flat_loop_sound [of e 0 1 0] flat_loop_complete [of 31 True e 0 e 0 1]
  by (auto simp: validate_flat_alternatives_def)

lemma meta_not_flat_start:
  "c \<in> REPETITION_OR_GROUP_META \<Longrightarrow> \<not> flat n b (c # s)"
  by (auto simp: REPETITION_OR_GROUP_META_def elim: flat.cases)

text \<open>
  C32: the gate accepts exactly the patterns of at most 256 characters whose core is in the flat
  grammar (escapes, classes, plain characters, anchors at branch ends, at most 31 bars) and which
  the engine compiles, and it returns the pattern unchanged; everything else is rejected.
\<close>
theorem validate_safe_name_regex_iff:
  "validate_safe_name_regex re_compiles p = Inr q \<longleftrightarrow>
     q = p \<and> length p \<le> 256 \<and> flat 31 True (regex_core p) \<and> re_compiles p"
  by (auto simp: validate_safe_name_regex_def MAX_SAFE_NAME_REGEX_LENGTH_def bindE_Inr_iff
      validate_flat_alternatives_iff split: if_splits)

end
