(* ===== verification/Models.thy ===== *)
theory Models
  imports PyNet SafeRegex
begin

text \<open>
  \<open>src/xray_e2e_prober/models.py\<close>: the enumerations, the configuration and result models, and their
  validators. A pydantic model is a record of its typed fields; \<open>validate_X\<close> is what constructing an
  \<open>X\<close> does: the field constraints and field validators in declaration order, then the \<open>after\<close> model
  validators. Pydantic collects the field errors of one model; the development keeps the first one.
  \<open>float\<close>s and \<open>datetime\<close>s (seconds since the epoch) are exact rationals. Whether an arbitrary
  regular expression compiles is the parameter \<open>re_compiles\<close> (the C engine behind \<open>re\<close>).
\<close>

section \<open>Display names and identifiers\<close>

definition CURRENT_SCHEMA_VERSION :: int where
  "CURRENT_SCHEMA_VERSION = 1"

definition MAX_DISPLAY_NAME_LENGTH :: nat where
  "MAX_DISPLAY_NAME_LENGTH = 160"

definition replace_char :: "char \<Rightarrow> char \<Rightarrow> string \<Rightarrow> string" where
  "replace_char a b s = map (\<lambda>c. if c = a then b else c) s"

definition clean_display_name :: "string \<Rightarrow> string" where
  "clean_display_name value =
     (let cleaned = replace_char LF (CHR '' '')
            (replace_char CR (CHR '' '') (filter (\<lambda>c. \<not> is_control c) value));
          cleaned = py_join '' '' (py_split cleaned);
          cut = take MAX_DISPLAY_NAME_LENGTH cleaned
      in if cut \<noteq> [] then cut else ''unnamed'')"

definition id_char :: "char \<Rightarrow> bool" where
  "id_char c \<longleftrightarrow> ascii_alnum c \<or> c \<in> set ''_.:-''"

text \<open>\<open>[A-Za-z0-9][A-Za-z0-9_.:-]{0,127}\<close>, matched in full.\<close>

definition safe_id :: "string \<Rightarrow> bool" where
  "safe_id value \<longleftrightarrow>
     (case value of [] \<Rightarrow> False
      | c # cs \<Rightarrow> ascii_alnum c \<and> list_all id_char cs \<and> length cs \<le> 127)"

definition validate_id :: "string \<Rightarrow> string + string" where
  "validate_id value =
     (if safe_id value then Inr value else Inl ''must be 1-128 safe identifier characters'')"

definition validate_opt :: "('a \<Rightarrow> 'e + 'a) \<Rightarrow> 'a option \<Rightarrow> 'e + 'a option" where
  "validate_opt f x = (case x of None \<Rightarrow> Inr None | Some a \<Rightarrow> bindE (f a) (\<lambda>b. Inr (Some b)))"

section \<open>Enumerations\<close>

datatype SourceKind = HTTP | FILE | DIRECTORY
datatype SourceFormat = AUTO | VLESS | VLESS_BASE64 | XRAY_JSON | XRAY_JSON_ARRAY
datatype EntryKind = VLESS_URI | XRAY_JSON
datatype CheckMode = CONNECTION | PROFILE
datatype RuntimeLifecycle = FRESH | PERSISTENT
datatype Compatibility = SUPPORTED | UNSUPPORTED | IDENTITY_CONFLICT
datatype ReachabilityState = UNKNOWN | SUCCESS | FAILURE | ERROR | STALE | DISABLED
datatype EgressState = MATCH | MISMATCH | UNKNOWN | ERROR | STALE | DISABLED
datatype Reason = CONNECT | PROXY | DNS | TIMEOUT | TLS | HTTP_STATUS | BODY_MISMATCH
  | EGRESS_MISMATCH | RESPONSE_INVALID | CONFIG_INVALID | UNSUPPORTED | RUNTIME_START
  | RUNTIME_EXIT | SCHEDULER | SOURCE_FETCH | SOURCE_PARSE | IDENTITY_CONFLICT | INTERNAL
datatype BodyMatchKind = EXACT | REGEX
datatype EgressResponseFormat = PLAIN | JSON
datatype HttpMethod = GET | POST
datatype Direction = Download | Upload

text \<open>The string value of an enumeration member (\<open>.value\<close>).\<close>

fun check_mode_value :: "CheckMode \<Rightarrow> string" where
  "check_mode_value CONNECTION = ''connection''"
| "check_mode_value PROFILE = ''profile''"

fun lifecycle_value :: "RuntimeLifecycle \<Rightarrow> string" where
  "lifecycle_value FRESH = ''fresh''"
| "lifecycle_value PERSISTENT = ''persistent''"

fun reachability_value :: "ReachabilityState \<Rightarrow> string" where
  "reachability_value ReachabilityState.UNKNOWN = ''unknown''"
| "reachability_value ReachabilityState.SUCCESS = ''success''"
| "reachability_value ReachabilityState.FAILURE = ''failure''"
| "reachability_value ReachabilityState.ERROR = ''error''"
| "reachability_value ReachabilityState.STALE = ''stale''"
| "reachability_value ReachabilityState.DISABLED = ''disabled''"

fun egress_value :: "EgressState \<Rightarrow> string" where
  "egress_value EgressState.MATCH = ''match''"
| "egress_value EgressState.MISMATCH = ''mismatch''"
| "egress_value EgressState.UNKNOWN = ''unknown''"
| "egress_value EgressState.ERROR = ''error''"
| "egress_value EgressState.STALE = ''stale''"
| "egress_value EgressState.DISABLED = ''disabled''"

fun reason_value :: "Reason \<Rightarrow> string" where
  "reason_value CONNECT = ''connect''"
| "reason_value PROXY = ''proxy''"
| "reason_value DNS = ''dns''"
| "reason_value TIMEOUT = ''timeout''"
| "reason_value TLS = ''tls''"
| "reason_value HTTP_STATUS = ''http_status''"
| "reason_value BODY_MISMATCH = ''body_mismatch''"
| "reason_value EGRESS_MISMATCH = ''egress_mismatch''"
| "reason_value RESPONSE_INVALID = ''response_invalid''"
| "reason_value CONFIG_INVALID = ''config_invalid''"
| "reason_value Reason.UNSUPPORTED = ''unsupported''"
| "reason_value RUNTIME_START = ''runtime_start''"
| "reason_value RUNTIME_EXIT = ''runtime_exit''"
| "reason_value SCHEDULER = ''scheduler''"
| "reason_value SOURCE_FETCH = ''source_fetch''"
| "reason_value SOURCE_PARSE = ''source_parse''"
| "reason_value Reason.IDENTITY_CONFLICT = ''identity_conflict''"
| "reason_value INTERNAL = ''internal''"

section \<open>Untyped input\<close>

text \<open>The Python values that JSON and YAML documents are made of.\<close>

datatype raw = RNone | RBool bool | RInt int | RFloat rat | RStr string
  | RList "raw list" | RDict "(string \<times> raw) list"

text \<open>
  \<open>for old, new in aliases.items(): if old in value and new not in value: value[new] = value.pop(old)\<close>:
  the accepted spellings with explicit units are renamed before validation.
\<close>

definition rename_alias :: "string \<Rightarrow> string \<Rightarrow> (string, 'v) dict \<Rightarrow> (string, 'v) dict" where
  "rename_alias old new value =
     (case dict_get value old of
        Some v \<Rightarrow> (if dict_get value new = None then dict_set new v (dict_pop old value) else value)
      | None \<Rightarrow> value)"

definition rename_aliases :: "(string \<times> string) list \<Rightarrow> (string, 'v) dict \<Rightarrow> (string, 'v) dict" where
  "rename_aliases aliases value = fold (\<lambda>(old, new). rename_alias old new) aliases value"

definition source_accept_explicit_unit_names :: "(string, raw) dict \<Rightarrow> (string, raw) dict" where
  "source_accept_explicit_unit_names =
     rename_aliases [(''refresh_interval_seconds'', ''refresh_interval''),
       (''timeout_seconds'', ''timeout''), (''max_response_bytes'', ''max_bytes'')]"

definition target_accept_legacy_names :: "(string, raw) dict \<Rightarrow> (string, raw) dict" where
  "target_accept_legacy_names value =
     (let value = rename_aliases [(''expected_status_codes'', ''expected_statuses''),
                    (''timeout_seconds'', ''timeout'')] value;
          body = (\<lambda>kind v. RDict [(''kind'', RStr kind), (''value'', v)]);
          value = (case dict_get value ''body_exact'' of
              Some v \<Rightarrow> (if dict_get value ''body'' = None
                         then dict_set ''body'' (body ''exact'' v) (dict_pop ''body_exact'' value)
                         else value)
            | None \<Rightarrow> value)
      in (case dict_get value ''body_regex'' of
              Some v \<Rightarrow> (if dict_get value ''body'' = None
                         then dict_set ''body'' (body ''regex'' v) (dict_pop ''body_regex'' value)
                         else value)
            | None \<Rightarrow> value))"

definition scheduler_accept_explicit_unit_names :: "(string, raw) dict \<Rightarrow> (string, raw) dict" where
  "scheduler_accept_explicit_unit_names =
     rename_aliases
       [(''interval_seconds'', ''interval''), (''check_interval_seconds'', ''interval''),
        (''request_timeout_seconds'', ''request_timeout''),
        (''runtime_start_timeout_seconds'', ''runtime_start_timeout''),
        (''runtime_restart_backoff_initial_seconds'', ''runtime_restart_backoff_initial''),
        (''runtime_restart_backoff_max_seconds'', ''runtime_restart_backoff_max''),
        (''observatory_warmup_delay_seconds'', ''observatory_warmup_delay''),
        (''observatory_warmup_timeout_seconds'', ''observatory_warmup_timeout''),
        (''max_result_age_seconds'', ''max_result_age'')]"

definition result_accept_status_code :: "(string, raw) dict \<Rightarrow> (string, raw) dict" where
  "result_accept_status_code = rename_alias ''status_code'' ''http_status''"

section \<open>Sources\<close>

record SecretRef =
  ref_file :: "string option"
  ref_env :: "string option"

definition env_name :: "string \<Rightarrow> bool" where
  "env_name s \<longleftrightarrow>
     (case s of [] \<Rightarrow> False
      | c # cs \<Rightarrow> (ascii_alpha c \<or> c = CHR ''_'')
          \<and> list_all (\<lambda>x. ascii_alnum x \<or> x = CHR ''_'') cs)"

definition validate_SecretRef :: "SecretRef \<Rightarrow> string + SecretRef" where
  "validate_SecretRef r =
     (if (ref_file r = None) = (ref_env r = None)
      then Inl ''exactly one of file or env is required''
      else if (case ref_file r of None \<Rightarrow> False | Some f \<Rightarrow> py_strip f = [])
      then Inl ''secret file reference must not be empty''
      else if (case ref_env r of None \<Rightarrow> False | Some e \<Rightarrow> \<not> env_name e)
      then Inl ''invalid secret environment variable name''
      else Inr r)"

record SourceConfig =
  source_id :: string
  source_name :: string
  source_kind :: SourceKind
  location :: "string option"
  location_ref :: "SecretRef option"
  source_format :: SourceFormat
  refresh_interval :: rat
  source_timeout :: rat
  max_bytes :: int
  allow_empty :: bool
  allow_insecure_http :: bool
  source_target_set_ids :: "string list"
  source_egress_assertion_ids :: "string list"
  headers :: "(string, string) dict"
  headers_ref :: "(string, SecretRef) dict"
  source_enabled :: bool
  source_tags :: "string set"

definition validate_reference_ids :: "string list \<Rightarrow> string + string list" where
  "validate_reference_ids values =
     (if has_duplicates values then Inl ''reference IDs must be unique''
      else mapE validate_id values)"

definition header_token :: "string \<Rightarrow> bool" where
  "header_token s \<longleftrightarrow>
     s \<noteq> [] \<and> list_all (\<lambda>c. ascii_alnum c \<or> c \<in> set ''!#$%&*+.^_`|~-'' \<or> c = CHR 0x27) s"

definition validate_header_names :: "(string, 'v) dict \<Rightarrow> string + (string, 'v) dict" where
  "validate_header_names values =
     (if list_all header_token (dict_keys values) then Inr values
      else Inl ''invalid HTTP header name'')"

definition http_url :: "string \<Rightarrow> bool" where
  "http_url s =
     (case urlsplit s of
        None \<Rightarrow> False
      | Some u \<Rightarrow> (url_scheme u = ''http'' \<or> url_scheme u = ''https'') \<and> url_netloc u \<noteq> [])"

definition source_valid_location :: "SourceConfig \<Rightarrow> string + SourceConfig" where
  "source_valid_location s =
     (if (location s = None) = (location_ref s = None)
      then Inl ''exactly one of location or location_ref is required''
      else if set (map py_lower (dict_keys (headers s)))
              \<inter> set (map py_lower (dict_keys (headers_ref s))) \<noteq> {}
      then Inl ''a header cannot have both an inline value and a secret reference''
      else case (source_kind s, location s) of
        (HTTP, Some raw) \<Rightarrow>
          (if \<not> http_url raw then Inl ''HTTP source location must be an absolute HTTP(S) URL''
           else if map_option url_scheme (urlsplit raw) = Some ''http'' \<and> \<not> allow_insecure_http s
           then Inl ''plain HTTP source requires allow_insecure_http=true''
           else Inr s)
      | _ \<Rightarrow> Inr s)"

definition validate_SourceConfig :: "SourceConfig \<Rightarrow> string + SourceConfig" where
  "validate_SourceConfig s =
     bindE (validate_id (source_id s)) (\<lambda>sid.
     bindE (validate_opt validate_SecretRef (location_ref s)) (\<lambda>lref.
     bindE (ensure (refresh_interval s > 0) ''refresh_interval must be greater than 0'') (\<lambda>_.
     bindE (ensure (source_timeout s > 0) ''timeout must be greater than 0'') (\<lambda>_.
     bindE (ensure (1 \<le> max_bytes s \<and> max_bytes s \<le> 64 * 1024 * 1024) ''max_bytes out of range'') (\<lambda>_.
     bindE (validate_reference_ids (source_target_set_ids s)) (\<lambda>tids.
     bindE (validate_reference_ids (source_egress_assertion_ids s)) (\<lambda>eids.
     bindE (validate_header_names (headers s)) (\<lambda>_.
     bindE (mapE validate_SecretRef (dict_values (headers_ref s))) (\<lambda>_.
     bindE (validate_header_names (headers_ref s)) (\<lambda>_.
     source_valid_location
       (s\<lparr>source_name := clean_display_name (source_name s)\<rparr>)))))))))))"

section \<open>Targets and target sets\<close>

record BodyMatcher =
  body_kind :: BodyMatchKind
  body_value :: string

definition validate_BodyMatcher :: "(string \<Rightarrow> bool) \<Rightarrow> BodyMatcher \<Rightarrow> string + BodyMatcher" where
  "validate_BodyMatcher re_compiles b =
     (if body_value b = [] \<or> length (body_value b) > 4096 then Inl ''body value length''
      else if body_kind b = REGEX \<and> \<not> re_compiles (body_value b)
      then Inl ''invalid body regular expression''
      else Inr b)"

record ThroughputConfig =
  direction :: Direction
  expected_bytes :: int
  tp_interval :: rat

definition validate_ThroughputConfig :: "ThroughputConfig \<Rightarrow> string + ThroughputConfig" where
  "validate_ThroughputConfig t =
     (if \<not> (64 * 1024 \<le> expected_bytes t \<and> expected_bytes t \<le> 64 * 1024 * 1024)
      then Inl ''expected_bytes out of range''
      else if \<not> (60 \<le> tp_interval t \<and> tp_interval t \<le> 24 * 60 * 60)
      then Inl ''interval out of range''
      else Inr t)"

record TargetConfig =
  target_id :: string
  target_name :: string
  target_url :: string
  target_method :: HttpMethod
  expected_statuses :: "int set"
  target_timeout :: "rat option"
  target_body :: "BodyMatcher option"
  throughput :: "ThroughputConfig option"
  max_body_bytes :: int
  follow_redirects :: bool
  max_redirects :: int
  target_enabled :: bool

text \<open>The \<open>url\<close> validators of targets (\<open>kind = ''target''\<close>) and of egress assertions.\<close>

definition validate_probe_url :: "string \<Rightarrow> string \<Rightarrow> string + string" where
  "validate_probe_url kind value =
     (if \<not> http_url value then Inl (kind @ '' URL must be absolute HTTP or HTTPS'')
      else case urlsplit value of
        None \<Rightarrow> Inl (kind @ '' URL must be absolute HTTP or HTTPS'')
      | Some u \<Rightarrow>
          if url_username u \<noteq> None \<or> url_password u \<noteq> None
          then Inl (kind @ '' URL must not contain userinfo'')
          else Inr value)"

definition valid_status_codes :: "int set \<Rightarrow> string + int set" where
  "valid_status_codes values =
     (if values = {} then Inl ''expected_statuses must not be empty''
      else if \<exists>v \<in> values. v < 100 \<or> v > 599
      then Inl ''expected HTTP statuses must be between 100 and 599''
      else Inr values)"

definition expected_method :: "Direction \<Rightarrow> HttpMethod" where
  "expected_method d = (case d of Upload \<Rightarrow> POST | Download \<Rightarrow> GET)"

definition valid_redirect_policy :: "TargetConfig \<Rightarrow> string + TargetConfig" where
  "valid_redirect_policy t =
     (if throughput t \<noteq> None \<and> target_body t \<noteq> None
      then Inl ''throughput targets cannot define a body matcher''
      else if throughput t = None \<and> target_method t \<noteq> GET
      then Inl ''POST is supported only for upload throughput targets''
      else bindE (case throughput t of
          None \<Rightarrow> Inr ()
        | Some tp \<Rightarrow>
            if target_method t \<noteq> expected_method (direction tp)
            then Inl ''throughput requires another method''
            else if direction tp = Upload \<and> follow_redirects t
            then Inl ''upload throughput targets cannot follow redirects''
            else Inr ())
        (\<lambda>_. if \<not> follow_redirects t \<and> max_redirects t \<noteq> 0
             then Inl ''max_redirects requires follow_redirects=true''
             else if follow_redirects t \<and> max_redirects t = 0
             then Inr (t\<lparr>max_redirects := 5\<rparr>)
             else Inr t))"

definition positive_opt :: "rat option \<Rightarrow> bool" where
  "positive_opt x = (case x of None \<Rightarrow> True | Some v \<Rightarrow> v > 0)"

definition validate_TargetConfig :: "(string \<Rightarrow> bool) \<Rightarrow> TargetConfig \<Rightarrow> string + TargetConfig" where
  "validate_TargetConfig re_compiles t =
     bindE (validate_id (target_id t)) (\<lambda>_.
     bindE (validate_probe_url ''target'' (target_url t)) (\<lambda>_.
     bindE (valid_status_codes (expected_statuses t)) (\<lambda>_.
     bindE (ensure (positive_opt (target_timeout t)) ''timeout must be greater than 0'') (\<lambda>_.
     bindE (validate_opt (validate_BodyMatcher re_compiles) (target_body t)) (\<lambda>_.
     bindE (validate_opt validate_ThroughputConfig (throughput t)) (\<lambda>_.
     bindE (ensure (1 \<le> max_body_bytes t \<and> max_body_bytes t \<le> 16 * 1024 * 1024) ''max_body_bytes'') (\<lambda>_.
     bindE (ensure (0 \<le> max_redirects t \<and> max_redirects t \<le> 20) ''max_redirects'') (\<lambda>_.
     valid_redirect_policy
       (t\<lparr>target_name := clean_display_name (target_name t)\<rparr>)))))))))"

record TargetSetConfig =
  target_set_id :: string
  target_set_name :: string
  targets :: "TargetConfig list"
  quorum :: int
  target_set_enabled :: bool

definition enabled_count :: "TargetConfig list \<Rightarrow> int" where
  "enabled_count ts = int (length (filter (\<lambda>t. target_enabled t \<and> throughput t = None) ts))"

definition valid_quorum :: "TargetSetConfig \<Rightarrow> string + TargetSetConfig" where
  "valid_quorum s =
     (if has_duplicates (map target_id (targets s))
      then Inl ''target IDs must be unique within a target set''
      else if quorum s > enabled_count (targets s)
      then Inl ''quorum cannot exceed the number of enabled reachability targets''
      else Inr s)"

definition validate_TargetSetConfig ::
  "(string \<Rightarrow> bool) \<Rightarrow> TargetSetConfig \<Rightarrow> string + TargetSetConfig" where
  "validate_TargetSetConfig re_compiles s =
     bindE (validate_id (target_set_id s)) (\<lambda>_.
     bindE (mapE (validate_TargetConfig re_compiles) (targets s)) (\<lambda>ts.
     bindE (ensure (ts \<noteq> []) ''targets must not be empty'') (\<lambda>_.
     bindE (ensure (1 \<le> quorum s) ''quorum must be at least 1'') (\<lambda>_.
     valid_quorum (s\<lparr>target_set_name := clean_display_name (target_set_name s), targets := ts\<rparr>)))))"

section \<open>Assignments, egress assertions, scheduler limits\<close>

record AssignmentFilter =
  name_glob :: "string option"
  name_regex :: "string option"
  filter_protocol :: "string option"
  filter_transport :: "string option"
  filter_tags :: "string set"

definition validate_AssignmentFilter ::
  "(string \<Rightarrow> bool) \<Rightarrow> AssignmentFilter \<Rightarrow> string + AssignmentFilter" where
  "validate_AssignmentFilter re_compiles f =
     (if (case name_glob f of None \<Rightarrow> False | Some g \<Rightarrow> length g > MAX_SAFE_NAME_REGEX_LENGTH)
      then Inl ''assignment name_glob exceeds 256 characters''
      else bindE (validate_opt (validate_safe_name_regex re_compiles) (name_regex f)) (\<lambda>_. Inr f))"

record AssignmentRule =
  assignment_id :: string
  rule_selection_id :: "string option"
  rule_entry_id :: "string option"
  rule_source_id :: "string option"
  rule_filter :: "AssignmentFilter option"
  rule_enabled :: bool
  rule_target_set_ids :: "string list"
  rule_mode :: "CheckMode option"
  rule_runtime_lifecycle :: "RuntimeLifecycle option"
  rule_outbound_tag :: "string option"
  rule_inbound_tag :: "string option"
  rule_egress_assertion_ids :: "string list"

definition has_selector :: "AssignmentRule \<Rightarrow> string + AssignmentRule" where
  "has_selector r =
     (if rule_entry_id r = None \<and> rule_source_id r = None \<and> rule_filter r = None
      then Inl ''assignment requires entry_id, source_id, or filter''
      else if has_duplicates (rule_target_set_ids r) then Inl ''target_set_ids must be unique''
      else if has_duplicates (rule_egress_assertion_ids r)
      then Inl ''egress_assertion_ids must be unique''
      else Inr r)"

definition validate_AssignmentRule ::
  "(string \<Rightarrow> bool) \<Rightarrow> AssignmentRule \<Rightarrow> string + AssignmentRule" where
  "validate_AssignmentRule re_compiles r =
     bindE (validate_id (assignment_id r)) (\<lambda>_.
     bindE (validate_opt validate_id (rule_selection_id r)) (\<lambda>_.
     bindE (validate_opt validate_id (rule_entry_id r)) (\<lambda>_.
     bindE (validate_opt validate_id (rule_source_id r)) (\<lambda>_.
     bindE (validate_opt (validate_AssignmentFilter re_compiles) (rule_filter r)) (\<lambda>_.
     has_selector r)))))"

record EgressAssertionConfig =
  assertion_id :: string
  assertion_name :: string
  assertion_url :: string
  expected_cidrs :: "string list"
  response_format :: EgressResponseFormat
  json_field :: "string option"
  assertion_timeout :: "rat option"
  assertion_enabled :: bool

definition valid_expected_cidrs :: "string list \<Rightarrow> string + string list" where
  "valid_expected_cidrs values =
     (if values = [] then Inl ''expected_cidrs must not be empty''
      else if list_all (\<lambda>v. ip_network v \<noteq> None) values then Inr values
      else Inl ''expected_cidrs contains an invalid network'')"

definition validate_EgressAssertionConfig :: "EgressAssertionConfig \<Rightarrow> string + EgressAssertionConfig" where
  "validate_EgressAssertionConfig a =
     bindE (validate_id (assertion_id a)) (\<lambda>_.
     bindE (validate_probe_url ''egress'' (assertion_url a)) (\<lambda>_.
     bindE (valid_expected_cidrs (expected_cidrs a)) (\<lambda>_.
     bindE (ensure (positive_opt (assertion_timeout a)) ''timeout must be greater than 0'') (\<lambda>_.
     if response_format a = JSON \<and> \<not> truthy (json_field a)
     then Inl ''json_field is required for a JSON egress response''
     else Inr (a\<lparr>assertion_name := clean_display_name (assertion_name a)\<rparr>)))))"

record SchedulerConfig =
  interval :: rat
  request_timeout :: rat
  runtime_start_timeout :: rat
  runtime_restart_backoff_initial :: rat
  runtime_restart_backoff_max :: rat
  observatory_warmup_delay :: rat
  observatory_warmup_timeout :: rat
  max_active_runtimes :: int
  max_parallel_requests :: int
  max_parallel_throughput_requests :: int
  max_queue_size :: int
  max_result_age :: rat

definition valid_runtime_timing :: "SchedulerConfig \<Rightarrow> string + SchedulerConfig" where
  "valid_runtime_timing c =
     (if runtime_restart_backoff_initial c > runtime_restart_backoff_max c
      then Inl ''initial runtime restart backoff exceeds its maximum''
      else if observatory_warmup_delay c > observatory_warmup_timeout c
      then Inl ''observatory warm-up delay exceeds its timeout''
      else Inr c)"

definition validate_SchedulerConfig :: "SchedulerConfig \<Rightarrow> string + SchedulerConfig" where
  "validate_SchedulerConfig c =
     bindE (ensure (interval c > 0 \<and> request_timeout c > 0 \<and> runtime_start_timeout c > 0)
       ''scheduler timing must be greater than 0'') (\<lambda>_.
     bindE (ensure (0 \<le> runtime_restart_backoff_initial c \<and> runtime_restart_backoff_initial c \<le> 300
         \<and> 0 \<le> runtime_restart_backoff_max c \<and> runtime_restart_backoff_max c \<le> 3600)
       ''restart backoff out of range'') (\<lambda>_.
     bindE (ensure (0 \<le> observatory_warmup_delay c \<and> observatory_warmup_delay c \<le> 300
         \<and> 0 < observatory_warmup_timeout c \<and> observatory_warmup_timeout c \<le> 300)
       ''observatory warm-up out of range'') (\<lambda>_.
     bindE (ensure (1 \<le> max_active_runtimes c \<and> 1 \<le> max_parallel_requests c
         \<and> 1 \<le> max_parallel_throughput_requests c \<and> max_parallel_throughput_requests c \<le> 8
         \<and> 1 \<le> max_queue_size c) ''scheduler limit out of range'') (\<lambda>_.
     bindE (ensure (max_result_age c > 0) ''max_result_age must be greater than 0'') (\<lambda>_.
     valid_runtime_timing c)))))"

record ApiConfig =
  api_host :: string
  api_port :: int

definition validate_ApiConfig :: "ApiConfig \<Rightarrow> string + ApiConfig" where
  "validate_ApiConfig a =
     (if 1 \<le> api_port a \<and> api_port a \<le> 65535 then Inr a else Inl ''port out of range'')"

section \<open>The application configuration\<close>

record AppConfig =
  schema_version :: int
  instance_id :: string
  sources :: "SourceConfig list"
  target_sets :: "TargetSetConfig list"
  assignments :: "AssignmentRule list"
  egress_assertions :: "EgressAssertionConfig list"
  scheduler :: SchedulerConfig
  api :: ApiConfig
  default_target_set_ids :: "string list"

definition unique_ids :: "AppConfig \<Rightarrow> string + unit" where
  "unique_ids c =
     (if has_duplicates (default_target_set_ids c) then Inl ''default_target_set_ids must be unique''
      else if has_duplicates (map source_id (sources c)) then Inl ''duplicate source ID''
      else if has_duplicates (map target_set_id (target_sets c)) then Inl ''duplicate target set ID''
      else if has_duplicates (map assertion_id (egress_assertions c))
      then Inl ''duplicate egress assertion ID''
      else if has_duplicates (map assignment_id (assignments c)) then Inl ''duplicate assignment ID''
      else Inr ())"

definition throughput_timeouts_ok :: "AppConfig \<Rightarrow> bool" where
  "throughput_timeouts_ok c \<longleftrightarrow>
     (\<forall>s \<in> set (target_sets c). \<forall>t \<in> set (targets s).
        throughput t = None \<or> \<not> target_enabled t
        \<or> (case target_timeout t of Some v \<Rightarrow> v | None \<Rightarrow> request_timeout (scheduler c))
            < interval (scheduler c))"

definition validate_references :: "AppConfig \<Rightarrow> string + AppConfig" where
  "validate_references c =
     bindE (unique_ids c) (\<lambda>_.
     let known_sets = set (map target_set_id (target_sets c));
         known_sources = set (map source_id (sources c));
         known_assertions = set (map assertion_id (egress_assertions c))
     in if \<not> set (default_target_set_ids c) \<subseteq> known_sets
        then Inl ''default_target_set_ids contains an unknown target set''
        else if \<exists>s \<in> set (sources c). \<not> set (source_target_set_ids s) \<subseteq> known_sets
                \<or> \<not> set (source_egress_assertion_ids s) \<subseteq> known_assertions
        then Inl ''source references an unknown target set or egress assertion''
        else if \<exists>a \<in> set (assignments c).
                (case rule_source_id a of None \<Rightarrow> False | Some i \<Rightarrow> i \<notin> known_sources)
                \<or> \<not> set (rule_target_set_ids a) \<subseteq> known_sets
                \<or> \<not> set (rule_egress_assertion_ids a) \<subseteq> known_assertions
        then Inl ''assignment references an unknown source, target set or egress assertion''
        else if \<not> throughput_timeouts_ok c
        then Inl ''throughput target timeout must be less than scheduler interval''
        else Inr c)"

definition validate_AppConfig :: "(string \<Rightarrow> bool) \<Rightarrow> AppConfig \<Rightarrow> string + AppConfig" where
  "validate_AppConfig re_compiles c =
     bindE (ensure (schema_version c = CURRENT_SCHEMA_VERSION) ''schema_version'') (\<lambda>_.
     bindE (validate_id (instance_id c)) (\<lambda>_.
     bindE (mapE validate_SourceConfig (sources c)) (\<lambda>ss.
     bindE (mapE (validate_TargetSetConfig re_compiles) (target_sets c)) (\<lambda>tss.
     bindE (mapE (validate_AssignmentRule re_compiles) (assignments c)) (\<lambda>rs.
     bindE (mapE validate_EgressAssertionConfig (egress_assertions c)) (\<lambda>es.
     bindE (validate_SchedulerConfig (scheduler c)) (\<lambda>_.
     bindE (validate_ApiConfig (api c)) (\<lambda>_.
     validate_references
       (c\<lparr>sources := ss, target_sets := tss, assignments := rs, egress_assertions := es\<rparr>)))))))))"

section \<open>Entries\<close>

record ImportedEntry =
  candidate_id :: string
  imp_source_id :: "string option"
  imp_name :: string
  imp_kind :: EntryKind
  imp_mode :: CheckMode
  imp_payload :: "raw option"
  imp_profile :: "raw option"
  imp_outbound_tag :: "string option"
  imp_inbound_tag :: "string option"
  imp_external_id :: "string option"
  imp_protocol :: string
  imp_transport :: "string option"
  imp_security :: "string option"
  imp_compatibility :: Compatibility
  imp_compatibility_reason :: "string option"
  imp_identity_name :: string
  imp_connection_fingerprint :: "string option"
  imp_safe_display :: string
  imp_metadata :: "(string, raw) dict"

record EntryRecord =
  entry_id :: string
  entry_source_id :: string
  entry_name :: string
  entry_kind :: EntryKind
  entry_mode :: CheckMode
  payload :: "raw option"
  profile :: "raw option"
  entry_outbound_tag :: "string option"
  entry_inbound_tag :: "string option"
  entry_generation :: string
  entry_enabled :: bool
  compatibility :: Compatibility
  compatibility_reason :: "string option"
  protocol :: string
  transport :: "string option"
  security :: "string option"
  external_id :: "string option"
  identity_name :: "string option"
  connection_fingerprint :: "string option"
  safe_display :: "string option"
  entry_tags :: "string set"
  metadata :: "(string, raw) dict"

definition validate_ImportedEntry :: "ImportedEntry \<Rightarrow> string + ImportedEntry" where
  "validate_ImportedEntry e =
     bindE (validate_id (candidate_id e)) (\<lambda>_.
     if imp_payload e = None \<and> imp_profile e = None
     then Inl ''imported entry requires payload or profile''
     else Inr (e\<lparr>imp_name := clean_display_name (imp_name e),
                 imp_identity_name := clean_display_name (imp_identity_name e),
                 imp_safe_display := clean_display_name (imp_safe_display e)\<rparr>))"

definition truthy_list :: "string option list \<Rightarrow> string list" where
  "truthy_list xs = map the (filter truthy xs)"

definition fill_safe_display :: "EntryRecord \<Rightarrow> string + EntryRecord" where
  "fill_safe_display e =
     (if payload e = None \<and> profile e = None then Inl ''entry requires payload or profile''
      else Inr (e\<lparr>safe_display :=
        (case safe_display e of
           Some d \<Rightarrow> Some (clean_display_name d)
         | None \<Rightarrow>
             (let details = py_join ''/'' (truthy_list [Some (protocol e), transport e, security e])
              in Some (if details \<noteq> [] then entry_name e @ '' ('' @ details @ '')''
                       else entry_name e)))\<rparr>))"

definition validate_EntryRecord :: "EntryRecord \<Rightarrow> string + EntryRecord" where
  "validate_EntryRecord e =
     bindE (validate_id (entry_id e)) (\<lambda>_.
     bindE (validate_id (entry_source_id e)) (\<lambda>_.
     bindE (validate_id (entry_generation e)) (\<lambda>_.
     fill_safe_display (e\<lparr>entry_name := clean_display_name (entry_name e)\<rparr>))))"

text \<open>\<open>ImportedEntry.to_entry_record\<close>: a profile is not stored a second time as the payload.\<close>

definition to_entry_record :: "ImportedEntry \<Rightarrow> string \<Rightarrow> string \<Rightarrow> string + EntryRecord" where
  "to_entry_record e eid generation =
     validate_EntryRecord
       \<lparr>entry_id = eid,
        entry_source_id = (case imp_source_id e of Some s \<Rightarrow> (if s \<noteq> [] then s else ''unassigned'')
                           | None \<Rightarrow> ''unassigned''),
        entry_name = imp_name e, entry_kind = imp_kind e, entry_mode = imp_mode e,
        payload = (if imp_profile e \<noteq> None then None else imp_payload e),
        profile = imp_profile e,
        entry_outbound_tag = imp_outbound_tag e, entry_inbound_tag = imp_inbound_tag e,
        entry_generation = generation, entry_enabled = True,
        compatibility = imp_compatibility e,
        compatibility_reason = imp_compatibility_reason e,
        protocol = imp_protocol e, transport = imp_transport e, security = imp_security e,
        external_id = imp_external_id e, identity_name = Some (imp_identity_name e),
        connection_fingerprint = imp_connection_fingerprint e,
        safe_display = Some (imp_safe_display e), entry_tags = {}, metadata = imp_metadata e\<rparr>"

section \<open>Checks and their results\<close>

record CheckDefinition =
  check_id :: string
  chk_entry_id :: string
  chk_source_id :: string
  chk_target_set_id :: string
  chk_mode :: CheckMode
  chk_generation :: string
  chk_outbound_tag :: "string option"
  chk_inbound_tag :: "string option"
  runtime_lifecycle :: "RuntimeLifecycle option"
  chk_egress_assertion_ids :: "string list"
  chk_enabled :: bool

definition default_lifecycle :: "CheckDefinition \<Rightarrow> CheckDefinition" where
  "default_lifecycle d =
     (if runtime_lifecycle d = None
      then d\<lparr>runtime_lifecycle := Some (if chk_mode d = CONNECTION then FRESH else PERSISTENT)\<rparr>
      else d)"

definition validate_CheckDefinition :: "CheckDefinition \<Rightarrow> string + CheckDefinition" where
  "validate_CheckDefinition d =
     bindE (validate_id (check_id d)) (\<lambda>_.
     bindE (validate_id (chk_entry_id d)) (\<lambda>_.
     bindE (validate_id (chk_source_id d)) (\<lambda>_.
     bindE (validate_id (chk_target_set_id d)) (\<lambda>_.
     bindE (validate_id (chk_generation d)) (\<lambda>_.
     Inr (default_lifecycle d))))))"

record TargetResult =
  tr_target_id :: string
  tr_state :: ReachabilityState
  tr_success :: "bool option"
  tr_reason :: "Reason option"
  http_status :: "int option"
  duration_seconds :: "rat option"
  ttfb_seconds :: "rat option"
  bytes_read :: "int option"
  bytes_written :: "int option"
  transfer_seconds :: "rat option"
  throughput_mbps :: "rat option"
  measurement_timestamp :: "rat option"
  tr_error :: "string option"

definition coherent_success :: "TargetResult \<Rightarrow> string + TargetResult" where
  "coherent_success r =
     (let expected = (case tr_state r of
            ReachabilityState.SUCCESS \<Rightarrow> Some True
          | ReachabilityState.FAILURE \<Rightarrow> Some False
          | _ \<Rightarrow> None)
      in if tr_success r = None then Inr (r\<lparr>tr_success := expected\<rparr>)
         else if expected \<noteq> None \<and> tr_success r \<noteq> expected
         then Inl ''success is inconsistent with target state''
         else Inr r)"

record EgressResult =
  er_assertion_id :: string
  er_state :: EgressState
  er_reason :: "Reason option"
  observed_ip :: "string option"
  er_duration_seconds :: "rat option"
  er_error :: "string option"

record ReachabilityResult =
  rr_state :: ReachabilityState
  success_count :: nat
  rr_quorum :: int
  rr_targets :: "TargetResult list"

record CycleResult =
  cy_check_id :: string
  cy_generation :: string
  reachability :: ReachabilityResult
  egress :: "EgressResult list"
  started_at :: rat
  completed_at :: rat

definition overall_state :: "CycleResult \<Rightarrow> ReachabilityState" where
  "overall_state c =
     (let egress_states = set (map er_state (egress c)); r = rr_state (reachability c)
      in if r = ReachabilityState.ERROR \<or> EgressState.ERROR \<in> egress_states
         then ReachabilityState.ERROR
         else if r = ReachabilityState.STALE \<or> EgressState.STALE \<in> egress_states
         then ReachabilityState.STALE
         else if r = ReachabilityState.UNKNOWN \<or> EgressState.UNKNOWN \<in> egress_states
         then ReachabilityState.UNKNOWN
         else if r = ReachabilityState.FAILURE \<or> EgressState.MISMATCH \<in> egress_states
         then ReachabilityState.FAILURE
         else r)"

record RunResult =
  run_id :: string
  run_check_id :: string
  run_instance_id :: string
  run_source_id :: string
  run_entry_id :: string
  run_mode :: CheckMode
  run_target_set_id :: string
  run_generation :: string
  config_revision :: "string option"
  run_state :: ReachabilityState
  run_running :: bool
  run_started_at :: rat
  run_completed_at :: "rat option"
  run_success_count :: nat
  run_quorum :: int
  target_results :: "TargetResult list"
  egress_results :: "EgressResult list"
  run_reason :: "Reason option"
  run_error :: "string option"

definition valid_times :: "RunResult \<Rightarrow> string + RunResult" where
  "valid_times r =
     (case run_completed_at r of
        Some c \<Rightarrow> (if c < run_started_at r then Inl ''completed_at cannot precede started_at'' else Inr r)
      | None \<Rightarrow> Inr r)"

record SourceGeneration =
  gen_source_id :: string
  generation :: string
  accepted_at :: rat
  entries :: "EntryRecord list"
  gen_metadata :: "(string, raw) dict"

definition validate_SourceGeneration :: "SourceGeneration \<Rightarrow> string + SourceGeneration" where
  "validate_SourceGeneration g =
     bindE (validate_id (gen_source_id g)) (\<lambda>_.
     bindE (validate_id (generation g)) (\<lambda>_. Inr g))"

section \<open>What accepted models satisfy\<close>

definition display_char :: "char \<Rightarrow> bool" where
  "display_char c \<longleftrightarrow> c = CHR '' '' \<or> (\<not> is_control c \<and> \<not> py_isspace c)"

lemma set_split_join:
  "set (py_join '' '' (py_split s)) \<subseteq> {c. c = CHR '' '' \<or> (c \<in> set s \<and> \<not> py_isspace c)}"
  using set_py_join [of "'' ''" "py_split s"] py_split_words [of _ s] by fastforce

lemma set_replace_char: "c \<in> set (replace_char a b s) \<Longrightarrow> c = b \<or> c \<in> set s"
  by (auto simp: replace_char_def)

lemma not_control_space [simp]: "\<not> is_control (CHR '' '')"
  by (simp add: char_class_defs)

text \<open>
  Whatever text an untrusted subscription supplies, the cleaned name is never empty, has at most
  160 characters and contains no control character and no whitespace other than the plain space: it
  cannot break a terminal line or smuggle an escape sequence.
\<close>
theorem clean_display_name_safe:
  "clean_display_name v \<noteq> [] \<and> length (clean_display_name v) \<le> 160
     \<and> list_all display_char (clean_display_name v)"
proof -
  define s where "s = replace_char LF (CHR '' '')
    (replace_char CR (CHR '' '') (filter (\<lambda>c. \<not> is_control c) v))"
  define cut where "cut = take 160 (py_join '' '' (py_split s))"
  have clean: "clean_display_name v = (if cut \<noteq> [] then cut else ''unnamed'')"
    by (simp add: clean_display_name_def Let_def MAX_DISPLAY_NAME_LENGTH_def cut_def s_def)
  have "\<not> is_control c" if "c \<in> set s" for c
    using that by (auto simp: s_def dest!: set_replace_char)
  then have "list_all display_char cut"
    using set_split_join [of s] set_take_subset [of 160 "py_join '' '' (py_split s)"]
    by (fastforce simp: cut_def display_char_def list_all_iff)
  moreover have "length cut \<le> 160" by (simp add: cut_def)
  moreover have "list_all display_char ''unnamed''"
    by (simp add: display_char_def char_class_defs)
  ultimately show ?thesis by (simp add: clean)
qed

text \<open>
  A line break never separates words in a cleaned name. The control-character filter deletes it
  before the two replacements by a space can act, so a name with a line break is cleaned exactly as
  the same name without it.
\<close>
theorem clean_display_name_joins_lines:
  "clean_display_name (a @ LF # b) = clean_display_name (a @ b)
   \<and> clean_display_name (a @ CR # b) = clean_display_name (a @ b)"
proof -
  have "is_control LF" "is_control CR" by (simp_all add: char_class_defs)
  then show ?thesis by (simp add: clean_display_name_def)
qed

definition target_ok :: "TargetConfig \<Rightarrow> bool" where
  "target_ok t \<longleftrightarrow> safe_id (target_id t)
     \<and> expected_statuses t \<noteq> {} \<and> expected_statuses t \<subseteq> {100..599}
     \<and> 0 \<le> max_redirects t \<and> max_redirects t \<le> 20
     \<and> (follow_redirects t \<longleftrightarrow> max_redirects t \<noteq> 0)
     \<and> (target_method t = POST \<longleftrightarrow> map_option direction (throughput t) = Some Upload)
     \<and> (target_method t = POST \<longrightarrow> \<not> follow_redirects t)
     \<and> (throughput t \<noteq> None \<longrightarrow> target_body t = None)
     \<and> (case throughput t of None \<Rightarrow> True
        | Some tp \<Rightarrow> 65536 \<le> expected_bytes tp \<and> expected_bytes tp \<le> 67108864)"

definition target_set_ok :: "TargetSetConfig \<Rightarrow> bool" where
  "target_set_ok s \<longleftrightarrow> distinct (map target_id (targets s)) \<and> list_all target_ok (targets s)
     \<and> 1 \<le> quorum s \<and> quorum s \<le> enabled_count (targets s)"

definition references_ok :: "AppConfig \<Rightarrow> bool" where
  "references_ok c \<longleftrightarrow>
     (let sets = set (map target_set_id (target_sets c));
          asserts = set (map assertion_id (egress_assertions c))
      in set (default_target_set_ids c) \<subseteq> sets
         \<and> (\<forall>s \<in> set (sources c). set (source_target_set_ids s) \<subseteq> sets
              \<and> set (source_egress_assertion_ids s) \<subseteq> asserts)
         \<and> (\<forall>a \<in> set (assignments c). set (rule_target_set_ids a) \<subseteq> sets
              \<and> set (rule_egress_assertion_ids a) \<subseteq> asserts
              \<and> set_option (rule_source_id a) \<subseteq> set (map source_id (sources c))))"

definition config_ok :: "AppConfig \<Rightarrow> bool" where
  "config_ok c \<longleftrightarrow> references_ok c
     \<and> distinct (map source_id (sources c)) \<and> distinct (map target_set_id (target_sets c))
     \<and> distinct (map assertion_id (egress_assertions c))
     \<and> distinct (map assignment_id (assignments c))
     \<and> list_all target_set_ok (target_sets c)
     \<and> 1 \<le> max_active_runtimes (scheduler c) \<and> 1 \<le> max_queue_size (scheduler c)
     \<and> runtime_restart_backoff_initial (scheduler c) \<le> runtime_restart_backoff_max (scheduler c)"

lemma validate_id_Inr [simp]: "validate_id v = Inr w \<longleftrightarrow> w = v \<and> safe_id v"
  by (auto simp: validate_id_def)

lemma validate_opt_Inr:
  "validate_opt f x = Inr y \<longleftrightarrow>
     (x = None \<and> y = None) \<or> (\<exists>a b. x = Some a \<and> f a = Inr b \<and> y = Some b)"
  by (auto simp: validate_opt_def bindE_Inr_iff split: option.splits)

lemma valid_status_codes_Inr [simp]:
  "valid_status_codes v = Inr w \<longleftrightarrow> w = v \<and> v \<noteq> {} \<and> v \<subseteq> {100..599}"
  by (auto simp: valid_status_codes_def)

lemma validate_ThroughputConfig_Inr [simp]:
  "validate_ThroughputConfig t = Inr u \<longleftrightarrow>
     u = t \<and> 65536 \<le> expected_bytes t \<and> expected_bytes t \<le> 67108864
     \<and> 60 \<le> tp_interval t \<and> tp_interval t \<le> 86400"
  by (auto simp: validate_ThroughputConfig_def)

lemma valid_redirect_policy_Inr:
  assumes "valid_redirect_policy t = Inr u"
  shows "u = t\<lparr>max_redirects := max_redirects u\<rparr>
    \<and> max_redirects u \<in> {max_redirects t, 5}
    \<and> (follow_redirects t \<longleftrightarrow> max_redirects u \<noteq> 0)
    \<and> (target_method t = POST \<longleftrightarrow> map_option direction (throughput t) = Some Upload)
    \<and> (target_method t = POST \<longrightarrow> \<not> follow_redirects t)
    \<and> (throughput t \<noteq> None \<longrightarrow> target_body t = None)"
proof -
  have m: "target_method t \<noteq> GET \<longleftrightarrow> target_method t = POST" by (cases "target_method t") auto
  show ?thesis
    using assms m
    by (cases "throughput t")
       (auto simp: valid_redirect_policy_def bindE_Inr_iff expected_method_def
         split: if_splits Direction.splits)
qed

lemma validate_TargetConfig_ok:
  assumes "validate_TargetConfig re t = Inr u"
  shows "target_ok u"
proof -
  have p: "valid_redirect_policy (t\<lparr>target_name := clean_display_name (target_name t)\<rparr>) = Inr u"
    and q: "safe_id (target_id t)" "expected_statuses t \<noteq> {}" "expected_statuses t \<subseteq> {100..599}"
      "0 \<le> max_redirects t" "max_redirects t \<le> 20"
      "case throughput t of None \<Rightarrow> True
        | Some tp \<Rightarrow> 65536 \<le> expected_bytes tp \<and> expected_bytes tp \<le> 67108864"
    using assms by (auto simp: validate_TargetConfig_def result_iffs validate_opt_Inr split: option.splits)
  obtain k where u: "u = t\<lparr>target_name := clean_display_name (target_name t), max_redirects := k\<rparr>"
    using valid_redirect_policy_Inr [OF p] by metis
  show ?thesis
    using valid_redirect_policy_Inr [OF p] q unfolding u target_ok_def by auto
qed

lemma validate_TargetSetConfig_ok:
  assumes "validate_TargetSetConfig re s = Inr u"
  shows "target_set_ok u"
proof -
  from assms obtain ts where ts: "mapE (validate_TargetConfig re) (targets s) = Inr ts" "1 \<le> quorum s"
    "valid_quorum (s\<lparr>target_set_name := clean_display_name (target_set_name s), targets := ts\<rparr>) = Inr u"
    by (auto simp: validate_TargetSetConfig_def result_iffs)
  then have u: "targets u = ts" "quorum u = quorum s" "distinct (map target_id ts)"
    "quorum s \<le> enabled_count ts"
    by (auto simp: valid_quorum_def split: if_splits)
  from ts(1) have "list_all target_ok ts"
    by (auto simp: mapE_Inr_iff list_all2_conv_all_nth list_all_length dest: validate_TargetConfig_ok)
  with ts(2) u show ?thesis by (simp add: target_set_ok_def)
qed

lemma validate_references_Inr:
  "validate_references c = Inr d \<Longrightarrow> d = c \<and> references_ok c
     \<and> distinct (map source_id (sources c)) \<and> distinct (map target_set_id (target_sets c))
     \<and> distinct (map assertion_id (egress_assertions c))
     \<and> distinct (map assignment_id (assignments c))"
  by (auto simp: validate_references_def unique_ids_def references_ok_def Let_def bindE_Inr_iff
      split: if_splits option.splits)

lemma validated_config_ok:
  assumes "validate_AppConfig re_compiles c = Inr d"
  shows "config_ok d"
proof -
  from assms obtain ss tss rs es where
    tss: "mapE (validate_TargetSetConfig re_compiles) (target_sets c) = Inr tss" and
    sch: "validate_SchedulerConfig (scheduler c) = Inr (scheduler c)" and
    ref: "validate_references (c\<lparr>sources := ss, target_sets := tss, assignments := rs,
      egress_assertions := es\<rparr>) = Inr d"
    by (auto simp: validate_AppConfig_def result_iffs validate_SchedulerConfig_def
        valid_runtime_timing_def split: if_splits)
  from ref have "d = c\<lparr>sources := ss, target_sets := tss, assignments := rs, egress_assertions := es\<rparr>"
    by (blast dest: validate_references_Inr)
  then have d: "target_sets d = tss" "scheduler d = scheduler c" by simp_all
  from tss have "list_all target_set_ok tss"
    by (auto simp: mapE_Inr_iff list_all2_conv_all_nth list_all_length dest: validate_TargetSetConfig_ok)
  moreover from sch have "1 \<le> max_active_runtimes (scheduler c)" "1 \<le> max_queue_size (scheduler c)"
    "runtime_restart_backoff_initial (scheduler c) \<le> runtime_restart_backoff_max (scheduler c)"
    by (auto simp: validate_SchedulerConfig_def valid_runtime_timing_def result_iffs split: if_splits)
  ultimately show ?thesis
    using validate_references_Inr [OF ref] d by (simp add: config_ok_def)
qed


text \<open>The identifiers that a source or a rule lists are distinct.\<close>

lemma validated_assertion_ids:
  assumes "validate_AppConfig re_compiles c = Inr d"
  shows "\<forall>s \<in> set (sources d). distinct (source_egress_assertion_ids s)"
    and "\<forall>a \<in> set (assignments d). distinct (rule_egress_assertion_ids a)"
proof -
  from assms obtain ss tss rs es where
    ss: "mapE validate_SourceConfig (sources c) = Inr ss" and
    rs: "mapE (validate_AssignmentRule re_compiles) (assignments c) = Inr rs" and
    ref: "validate_references (c\<lparr>sources := ss, target_sets := tss, assignments := rs,
      egress_assertions := es\<rparr>) = Inr d"
    by (auto simp: validate_AppConfig_def result_iffs)
  have d: "sources d = ss" "assignments d = rs" using validate_references_Inr [OF ref] by auto
  have "validate_SourceConfig x = Inr y \<Longrightarrow> distinct (source_egress_assertion_ids y)" for x y
    by (auto simp: validate_SourceConfig_def result_iffs validate_reference_ids_def source_valid_location_def
        split: if_splits SourceKind.splits option.splits)
  then show "\<forall>s \<in> set (sources d). distinct (source_egress_assertion_ids s)"
    unfolding d by (auto dest!: mapE_mem [OF ss])
  have "validate_AssignmentRule re_compiles x = Inr y \<Longrightarrow> distinct (rule_egress_assertion_ids y)" for x y
    by (auto simp: validate_AssignmentRule_def result_iffs has_selector_def split: if_splits)
  then show "\<forall>a \<in> set (assignments d). distinct (rule_egress_assertion_ids a)"
    unfolding d by (auto dest!: mapE_mem [OF rs])
qed

text \<open>A small complete configuration: one file source, one target set with one target.\<close>

definition example_target :: TargetConfig where
  "example_target = \<lparr>target_id = ''t1'', target_name = ''home'', target_url = ''https://a.b/'',
     target_method = GET, expected_statuses = {200}, target_timeout = None, target_body = None,
     throughput = None, max_body_bytes = 65536, follow_redirects = False, max_redirects = 0,
     target_enabled = True\<rparr>"

definition example_target_set :: TargetSetConfig where
  "example_target_set = \<lparr>target_set_id = ''s1'', target_set_name = ''net'',
     targets = [example_target], quorum = 1, target_set_enabled = True\<rparr>"

definition example_source :: SourceConfig where
  "example_source = \<lparr>source_id = ''src'', source_name = ''subs'', source_kind = FILE,
     location = Some ''/a'', location_ref = None, source_format = AUTO, refresh_interval = 300,
     source_timeout = 30, max_bytes = 4194304, allow_empty = False, allow_insecure_http = False,
     source_target_set_ids = [''s1''], source_egress_assertion_ids = [], headers = [],
     headers_ref = [], source_enabled = True, source_tags = {}\<rparr>"

definition example_scheduler :: SchedulerConfig where
  "example_scheduler = \<lparr>interval = 60, request_timeout = 15, runtime_start_timeout = 10,
     runtime_restart_backoff_initial = 1, runtime_restart_backoff_max = 60,
     observatory_warmup_delay = 5, observatory_warmup_timeout = 30, max_active_runtimes = 8,
     max_parallel_requests = 32, max_parallel_throughput_requests = 1, max_queue_size = 1024,
     max_result_age = 180\<rparr>"

definition example_config :: AppConfig where
  "example_config = \<lparr>schema_version = 1, instance_id = ''i1'', sources = [example_source],
     target_sets = [example_target_set], assignments = [], egress_assertions = [],
     scheduler = example_scheduler, api = \<lparr>api_host = ''127.0.0.1'', api_port = 8080\<rparr>,
     default_target_set_ids = [''s1'']\<rparr>"

lemmas example_defs = example_target_def example_target_set_def example_source_def
  example_scheduler_def example_config_def

lemma example_clean:
  "clean_display_name ''home'' = ''home''" "clean_display_name ''net'' = ''net''"
  "clean_display_name ''subs'' = ''subs''"
  by (simp_all add: clean_display_name_def py_split_def replace_char_def char_class_defs
      MAX_DISPLAY_NAME_LENGTH_def)

lemma example_ids:
  "safe_id ''t1''" "safe_id ''s1''" "safe_id ''src''" "safe_id ''i1''"
  by (simp_all add: safe_id_def id_char_def char_class_defs)

lemma example_url: "validate_probe_url ''target'' ''https://a.b/'' = Inr ''https://a.b/''"
  by (simp add: validate_probe_url_def http_url_def urlsplit_def Let_def char_class_defs
      scheme_char_def py_lower_def lower_char_def url_username_def url_password_def
      url_userinfo_def py_rpartition_def py_partition_def)

lemma example_target_valid: "validate_TargetConfig re example_target = Inr example_target"
  by (simp add: validate_TargetConfig_def example_target_def example_ids example_url example_clean
      positive_opt_def validate_opt_def valid_redirect_policy_def
      ensure_def valid_status_codes_def validate_id_def)

lemma example_config_valid: "validate_AppConfig re example_config = Inr example_config"
proof -
  have "validate_SourceConfig example_source = Inr example_source"
    by (simp add: validate_SourceConfig_def example_source_def example_ids example_clean ensure_def
        validate_opt_def validate_reference_ids_def validate_header_names_def source_valid_location_def
        validate_id_def)
  moreover have "validate_TargetSetConfig re example_target_set = Inr example_target_set"
    using example_target_valid [of re]
    by (simp add: validate_TargetSetConfig_def example_target_set_def example_ids example_clean
        ensure_def valid_quorum_def enabled_count_def validate_id_def)
       (simp add: example_target_def)
  ultimately show ?thesis
    by (simp add: validate_AppConfig_def example_config_def example_ids ensure_def
        CURRENT_SCHEMA_VERSION_def validate_SchedulerConfig_def valid_runtime_timing_def
        example_scheduler_def validate_ApiConfig_def validate_references_def unique_ids_def Let_def
        throughput_timeouts_ok_def validate_id_def)
       (simp add: example_source_def example_target_set_def example_target_def)
qed


section \<open>The overall state of a cycle\<close>

text \<open>How bad a reachability or egress outcome is; a cycle is as bad as its worst part.\<close>

fun severity :: "ReachabilityState \<Rightarrow> nat" where
  "severity ReachabilityState.ERROR = 4"
| "severity ReachabilityState.STALE = 3"
| "severity ReachabilityState.UNKNOWN = 2"
| "severity ReachabilityState.FAILURE = 1"
| "severity _ = 0"

fun egress_severity :: "EgressState \<Rightarrow> nat" where
  "egress_severity EgressState.ERROR = 4"
| "egress_severity EgressState.STALE = 3"
| "egress_severity EgressState.UNKNOWN = 2"
| "egress_severity EgressState.MISMATCH = 1"
| "egress_severity _ = 0"

definition worst :: "nat list \<Rightarrow> nat" where
  "worst xs = fold max xs 0"

lemma worst_ge_iff: "0 < k \<Longrightarrow> k \<le> worst xs \<longleftrightarrow> (\<exists>x \<in> set xs. k \<le> x)"
proof -
  have "k \<le> fold max xs a \<longleftrightarrow> k \<le> a \<or> (\<exists>x \<in> set xs. k \<le> x)" for a
    by (induction xs arbitrary: a) (auto simp: max_def)
  then show "0 < k \<Longrightarrow> k \<le> worst xs \<longleftrightarrow> (\<exists>x \<in> set xs. k \<le> x)"
    by (simp add: worst_def)
qed

lemma severity_ge:
  "4 \<le> severity r \<longleftrightarrow> r = ReachabilityState.ERROR"
  "3 \<le> severity r \<longleftrightarrow> r \<in> {ReachabilityState.ERROR, ReachabilityState.STALE}"
  "2 \<le> severity r \<longleftrightarrow> r \<in> {ReachabilityState.ERROR, ReachabilityState.STALE, ReachabilityState.UNKNOWN}"
  "1 \<le> severity r \<longleftrightarrow> r \<notin> {ReachabilityState.SUCCESS, ReachabilityState.DISABLED}"
  by (cases r; simp)+

lemma egress_severity_ge:
  "4 \<le> egress_severity e \<longleftrightarrow> e = EgressState.ERROR"
  "3 \<le> egress_severity e \<longleftrightarrow> e \<in> {EgressState.ERROR, EgressState.STALE}"
  "2 \<le> egress_severity e \<longleftrightarrow> e \<in> {EgressState.ERROR, EgressState.STALE, EgressState.UNKNOWN}"
  "1 \<le> egress_severity e \<longleftrightarrow> e \<notin> {EgressState.MATCH, EgressState.DISABLED}"
  by (cases e; simp)+

lemma severity_le_4: "severity r \<le> 4" "egress_severity e \<le> 4"
  by (cases r; simp) (cases e; simp)

lemma nat_le4_eqI:
  "a \<le> 4 \<Longrightarrow> b \<le> (4::nat) \<Longrightarrow> (\<And>k. k \<in> {1, 2, 3, 4} \<Longrightarrow> k \<le> a \<longleftrightarrow> k \<le> b) \<Longrightarrow> a = b"
proof -
  assume ab: "a \<le> 4" "b \<le> 4" and k: "\<And>k. k \<in> {1, 2, 3, 4} \<Longrightarrow> k \<le> a \<longleftrightarrow> k \<le> b"
  show "a = b"
    using ab k [of 1] k [of 2] k [of 3] k [of 4] by auto
qed

lemma worst_parts:
  "0 < k \<Longrightarrow> k \<le> worst (severity r # map (egress_severity \<circ> er_state) es) \<longleftrightarrow>
     k \<le> severity r \<or> (\<exists>e \<in> er_state ` set es. k \<le> egress_severity e)"
  by (simp add: worst_ge_iff)

lemma overall_state_cases:
  fixes c :: CycleResult
  defines "r \<equiv> rr_state (reachability c)" and "es \<equiv> er_state ` set (egress c)"
  shows "4 \<le> severity (overall_state c) \<longleftrightarrow> 4 \<le> severity r \<or> (\<exists>e \<in> es. 4 \<le> egress_severity e)"
    and "3 \<le> severity (overall_state c) \<longleftrightarrow> 3 \<le> severity r \<or> (\<exists>e \<in> es. 3 \<le> egress_severity e)"
    and "2 \<le> severity (overall_state c) \<longleftrightarrow> 2 \<le> severity r \<or> (\<exists>e \<in> es. 2 \<le> egress_severity e)"
    and "1 \<le> severity (overall_state c) \<longleftrightarrow> 1 \<le> severity r \<or> (\<exists>e \<in> es. 1 \<le> egress_severity e)"
    and "overall_state c = ReachabilityState.SUCCESS \<longleftrightarrow>
      r = ReachabilityState.SUCCESS \<and> es \<subseteq> {EgressState.MATCH, EgressState.DISABLED}"
proof -
  have unf: "overall_state c =
     (if r = ReachabilityState.ERROR \<or> EgressState.ERROR \<in> es then ReachabilityState.ERROR
      else if r = ReachabilityState.STALE \<or> EgressState.STALE \<in> es then ReachabilityState.STALE
      else if r = ReachabilityState.UNKNOWN \<or> EgressState.UNKNOWN \<in> es then ReachabilityState.UNKNOWN
      else if r = ReachabilityState.FAILURE \<or> EgressState.MISMATCH \<in> es then ReachabilityState.FAILURE
      else r)"
    by (simp add: overall_state_def Let_def r_def es_def)
  have fine: "(\<exists>e \<in> es. 1 \<le> egress_severity e) \<longleftrightarrow> EgressState.ERROR \<in> es \<or> EgressState.STALE \<in> es
      \<or> EgressState.UNKNOWN \<in> es \<or> EgressState.MISMATCH \<in> es"
    by (metis EgressState.exhaust egress_severity.simps(1-4) egress_severity.simps(5,6)
        not_one_le_zero one_le_numeral order_refl)
  have sub: "es \<subseteq> {EgressState.MATCH, EgressState.DISABLED} \<longleftrightarrow> \<not> (\<exists>e \<in> es. 1 \<le> egress_severity e)"
    using egress_severity_ge(4) by fast
  show "4 \<le> severity (overall_state c) \<longleftrightarrow> 4 \<le> severity r \<or> (\<exists>e \<in> es. 4 \<le> egress_severity e)"
    by (simp add: unf severity_ge egress_severity_ge)
  show "3 \<le> severity (overall_state c) \<longleftrightarrow> 3 \<le> severity r \<or> (\<exists>e \<in> es. 3 \<le> egress_severity e)"
    by (auto simp: unf severity_ge egress_severity_ge)
  show "2 \<le> severity (overall_state c) \<longleftrightarrow> 2 \<le> severity r \<or> (\<exists>e \<in> es. 2 \<le> egress_severity e)"
    by (auto simp: unf severity_ge egress_severity_ge)
  show "1 \<le> severity (overall_state c) \<longleftrightarrow> 1 \<le> severity r \<or> (\<exists>e \<in> es. 1 \<le> egress_severity e)"
    by (cases r) (simp_all add: unf fine [simplified])
  show "overall_state c = ReachabilityState.SUCCESS \<longleftrightarrow>
      r = ReachabilityState.SUCCESS \<and> es \<subseteq> {EgressState.MATCH, EgressState.DISABLED}"
    by (cases r) (simp_all add: unf sub fine [simplified])
qed

text \<open>
  The overall state of a cycle is exactly as severe as its worst part, reachability or egress, in
  the order error, stale, unknown, failure or mismatch, and fine. In particular a cycle is a success
  only where the quorum was reached and every egress assertion matched or is disabled.
\<close>
theorem overall_state_worst:
  "severity (overall_state c) =
     worst (severity (rr_state (reachability c)) # map (egress_severity \<circ> er_state) (egress c))
   \<and> (overall_state c = ReachabilityState.SUCCESS \<longleftrightarrow>
        rr_state (reachability c) = ReachabilityState.SUCCESS
        \<and> set (map er_state (egress c)) \<subseteq> {EgressState.MATCH, EgressState.DISABLED})"
  (is "severity _ = worst ?xs \<and> ?success")
proof -
  have worst4: "worst ?xs \<le> 4"
  proof (rule ccontr)
    assume "\<not> worst ?xs \<le> 4"
    then have "5 \<le> worst ?xs" by simp
    then obtain x where x: "x \<in> set ?xs" "5 \<le> x" using worst_ge_iff [of 5 ?xs] by auto
    from x(1) have "x \<le> 4" by (auto simp: severity_le_4)
    with x show False by simp
  qed
  have "k \<le> severity (overall_state c) \<longleftrightarrow> k \<le> worst ?xs" if "k \<in> {1, 2, 3, 4}" for k
  proof -
    from that have "0 < k" by auto
    then show ?thesis
      unfolding worst_parts [OF \<open>0 < k\<close>]
      using that overall_state_cases(1-4) [of c] by blast
  qed
  then have "severity (overall_state c) = worst ?xs"
    by (rule nat_le4_eqI [OF severity_le_4(1) worst4])
  moreover have ?success
    using overall_state_cases(5) [of c] by simp
  ultimately show ?thesis by blast
qed

end
