(* ===== verification/Assignments.thy ===== *)
theory Assignments
  imports Models
begin

text \<open>
  \<open>src/xray_e2e_prober/assignments.py\<close>: which target sets, mode and lifecycle an imported entry gets.
  The callers pass pydantic models, so \<open>_get\<close> is a record field (the fields the models do not have,
  \<open>entry_ids\<close>, \<open>rule_id\<close> and \<open>selector\<close>, read as their defaults). Name globs are matched by
  \<open>fnmatchcase\<close>; name regexes go through the gate of \<open>SafeRegex\<close>.
\<close>

section \<open>Matching\<close>

definition text_opt :: "string option \<Rightarrow> string" where
  "text_opt x = (case x of None \<Rightarrow> ''None'' | Some s \<Rightarrow> s)"

text \<open>\<open>a or b\<close> on optional strings.\<close>

definition or_opt :: "string option \<Rightarrow> string option \<Rightarrow> string option" where
  "or_opt a b = (if truthy a then a else b)"

record regex_engine =
  re_compiles :: "string \<Rightarrow> bool"
  re_search :: "string \<Rightarrow> string \<Rightarrow> bool"

definition matches_filter ::
  "regex_engine \<Rightarrow> EntryRecord \<Rightarrow> AssignmentFilter option \<Rightarrow> string + bool" where
  "matches_filter re entry selector =
     (case selector of
        None \<Rightarrow> Inr True
      | Some f \<Rightarrow>
          if (case name_glob f of
                Some g \<Rightarrow> g \<noteq> [] \<and> \<not> fnmatchcase (py_casefold (entry_name entry)) (py_casefold g)
              | None \<Rightarrow> False)
          then Inr False
          else bindE (case name_regex f of
                Some r \<Rightarrow> (if r = [] then Inr True
                           else safe_name_regex_search (re_compiles re) (re_search re) r (entry_name entry))
              | None \<Rightarrow> Inr True)
            (\<lambda>found. Inr (found
               \<and> (case filter_protocol f of None \<Rightarrow> True | Some p \<Rightarrow> protocol entry = p)
               \<and> (case filter_transport f of None \<Rightarrow> True | Some t \<Rightarrow> text_opt (transport entry) = t)
               \<and> filter_tags f \<subseteq> entry_tags entry)))"

section \<open>Decisions\<close>

record AssignmentDecision =
  dec_enabled :: bool
  dec_target_set_ids :: "string list"
  dec_rule :: string
  dec_mode :: string
  dec_runtime_lifecycle :: "string option"
  dec_outbound_tag :: "string option"
  dec_inbound_tag :: "string option"
  dec_selection_id :: "string option"
  dec_egress_assertion_ids :: "string list"

definition decision :: "EntryRecord \<Rightarrow> AssignmentRule \<Rightarrow> string \<Rightarrow> AssignmentDecision" where
  "decision entry rule name =
     \<lparr>dec_enabled = rule_enabled rule,
      dec_target_set_ids = rule_target_set_ids rule,
      dec_rule = name,
      dec_mode = check_mode_value
        (case rule_mode rule of Some m \<Rightarrow> m | None \<Rightarrow> entry_mode entry),
      dec_runtime_lifecycle = map_option lifecycle_value (rule_runtime_lifecycle rule),
      dec_outbound_tag = rule_outbound_tag rule,
      dec_inbound_tag = rule_inbound_tag rule,
      dec_selection_id =
        (case rule_selection_id rule of
           Some s \<Rightarrow> Some s
         | None \<Rightarrow> (if rule_outbound_tag rule \<noteq> None \<or> rule_inbound_tag rule \<noteq> None
                    then Some (assignment_id rule) else None)),
      dec_egress_assertion_ids = rule_egress_assertion_ids rule\<rparr>"

definition default_decision ::
  "EntryRecord \<Rightarrow> bool \<Rightarrow> string list \<Rightarrow> string list \<Rightarrow> string list \<Rightarrow> AssignmentDecision" where
  "default_decision entry source_on source_sets source_asserts global_sets =
     \<lparr>dec_enabled = source_on,
      dec_target_set_ids = (if source_sets \<noteq> [] then source_sets else global_sets),
      dec_rule = (if source_sets \<noteq> [] then ''source-default'' else ''global-default''),
      dec_mode = check_mode_value (entry_mode entry),
      dec_runtime_lifecycle = None, dec_outbound_tag = None, dec_inbound_tag = None,
      dec_selection_id = None, dec_egress_assertion_ids = source_asserts\<rparr>"

text \<open>The second loop: saved rules in their persisted order.\<close>

fun first_matching_rule ::
  "regex_engine \<Rightarrow> EntryRecord \<Rightarrow> AssignmentRule list \<Rightarrow> string + AssignmentRule option" where
  "first_matching_rule re entry [] = Inr None"
| "first_matching_rule re entry (rule # rules) =
     (if truthy (rule_entry_id rule) then first_matching_rule re entry rules
      else if truthy (rule_source_id rule) \<and> rule_source_id rule \<noteq> Some (entry_source_id entry)
      then first_matching_rule re entry rules
      else bindE (matches_filter re entry (rule_filter rule))
        (\<lambda>hit. if hit then Inr (Some rule) else first_matching_rule re entry rules))"

definition resolve_assignment ::
  "regex_engine \<Rightarrow> EntryRecord \<Rightarrow> AssignmentRule list \<Rightarrow> string list \<Rightarrow> string list
     \<Rightarrow> string list \<Rightarrow> bool \<Rightarrow> string + AssignmentDecision" where
  "resolve_assignment re entry rules source_sets source_asserts global_sets source_on =
     (case List.find (\<lambda>r. rule_entry_id r = Some (entry_id entry)) rules of
        Some rule \<Rightarrow> Inr (decision entry rule (''entry:'' @ assignment_id rule))
      | None \<Rightarrow>
          bindE (first_matching_rule re entry rules)
            (\<lambda>hit. case hit of
               Some rule \<Rightarrow> Inr (decision entry rule (''rule:'' @ assignment_id rule))
             | None \<Rightarrow> Inr (default_decision entry source_on source_sets source_asserts global_sets)))"

section \<open>Precedence\<close>

text \<open>Whether a rule applies to an entry through its selector (not through an entry ID).\<close>

definition selects :: "regex_engine \<Rightarrow> EntryRecord \<Rightarrow> AssignmentRule \<Rightarrow> bool" where
  "selects re entry rule \<longleftrightarrow>
     \<not> truthy (rule_entry_id rule)
     \<and> \<not> (truthy (rule_source_id rule) \<and> rule_source_id rule \<noteq> Some (entry_source_id entry))
     \<and> matches_filter re entry (rule_filter rule) = Inr True"

lemma first_matching_rule_Inr:
  "first_matching_rule re entry rules = Inr hit \<Longrightarrow> hit = List.find (selects re entry) rules"
proof (induction rules)
  case Nil
  then show ?case by simp
next
  case (Cons rule rules)
  show ?case
  proof (cases "selects re entry rule")
    case True
    with Cons.prems show ?thesis by (auto simp: selects_def split: if_splits)
  next
    case False
    with Cons show ?thesis
      by (auto simp: selects_def bindE_Inr_iff split: if_splits)
  qed
qed

definition explicit_for :: "EntryRecord \<Rightarrow> AssignmentRule \<Rightarrow> bool" where
  "explicit_for entry rule \<longleftrightarrow> rule_entry_id rule = Some (entry_id entry)"

lemma resolve_assignment_Inr:
  "resolve_assignment re entry rules ss sa gs on = Inr d \<Longrightarrow>
     d = (case List.find (explicit_for entry) rules of
            Some rule \<Rightarrow> decision entry rule (''entry:'' @ assignment_id rule)
          | None \<Rightarrow> (case List.find (selects re entry) rules of
                Some rule \<Rightarrow> decision entry rule (''rule:'' @ assignment_id rule)
              | None \<Rightarrow> default_decision entry on ss sa gs))"
  by (auto simp: resolve_assignment_def explicit_for_def [abs_def] bindE_Inr_iff
      split: option.splits dest!: first_matching_rule_Inr)

text \<open>The egress assertions of a decision are those of the source or of one rule.\<close>

lemma resolve_assignment_assertions:
  assumes "resolve_assignment re entry rules ss sa gs on = Inr d"
  shows "dec_egress_assertion_ids d \<in> insert sa (rule_egress_assertion_ids ` set rules)"
  using resolve_assignment_Inr [OF assms]
  by (auto simp: decision_def default_decision_def find_Some_iff split: option.splits)

text \<open>
  C33: assignment is decided by three layers in a fixed order. A rule that names the entry wins
  wherever it stands in the list; otherwise the first saved rule whose selector matches decides;
  only an entry that no rule matches falls back to the defaults of its source, or to the global
  ones where the source has none.
\<close>
theorem resolve_assignment_precedence:
  assumes "resolve_assignment re entry rules ss sa gs on = Inr d"
  shows "(filter (explicit_for entry) rules = r # rs \<longrightarrow>
            d = decision entry r (''entry:'' @ assignment_id r))
    \<and> (filter (explicit_for entry) rules = [] \<and> filter (selects re entry) rules = r # rs \<longrightarrow>
            d = decision entry r (''rule:'' @ assignment_id r))
    \<and> (filter (explicit_for entry) rules = [] \<and> filter (selects re entry) rules = [] \<longrightarrow>
            d = default_decision entry on ss sa gs)"
proof -
  have find: "List.find P xs = (case filter P xs of [] \<Rightarrow> None | y # ys \<Rightarrow> Some y)"
    for P and xs :: "AssignmentRule list"
    by (induction xs) auto
  show ?thesis
    using resolve_assignment_Inr [OF assms] by (auto simp: find)
qed

definition example_entry :: EntryRecord where
  "example_entry = \<lparr>entry_id = ''e1'', entry_source_id = ''src'', entry_name = ''NL node'',
     entry_kind = VLESS_URI, entry_mode = CONNECTION, payload = Some (RStr ''vless''),
     profile = None, entry_outbound_tag = None, entry_inbound_tag = None,
     entry_generation = ''g1'', entry_enabled = True, compatibility = SUPPORTED,
     compatibility_reason = None, protocol = ''vless'', transport = Some ''raw'', security = None,
     external_id = None, identity_name = None, connection_fingerprint = None,
     safe_display = Some ''NL node'', entry_tags = {''eu''}, metadata = []\<rparr>"

definition example_rule :: AssignmentRule where
  "example_rule = \<lparr>assignment_id = ''a1'', rule_selection_id = None, rule_entry_id = None,
     rule_source_id = Some ''src'', rule_filter = None, rule_enabled = False,
     rule_target_set_ids = [], rule_mode = None, rule_runtime_lifecycle = None,
     rule_outbound_tag = None, rule_inbound_tag = None, rule_egress_assertion_ids = []\<rparr>"

definition example_explicit_rule :: AssignmentRule where
  "example_explicit_rule = example_rule\<lparr>assignment_id := ''a2'', rule_source_id := None,
     rule_entry_id := Some ''e1'', rule_enabled := True, rule_target_set_ids := [''s1'']\<rparr>"

definition example_engine :: regex_engine where
  "example_engine = \<lparr>re_compiles = (\<lambda>_. True), re_search = (\<lambda>p s. False)\<rparr>"

lemmas example_rule_defs = example_entry_def example_rule_def example_explicit_rule_def

text \<open>The explicit rule stands behind a rule that matches too, and still decides.\<close>

theorem resolve_assignment_precedence_witness:
  "resolve_assignment example_engine example_entry [example_rule, example_explicit_rule] [] [] [] True
     = Inr (decision example_entry example_explicit_rule ''entry:a2'')
   \<and> filter (explicit_for example_entry) [example_rule, example_explicit_rule] = [example_explicit_rule]
   \<and> selects example_engine example_entry example_rule"
proof -
  have r: "resolve_assignment example_engine example_entry [example_rule, example_explicit_rule] [] [] [] True
     = Inr (decision example_entry example_explicit_rule ''entry:a2'')"
    by (simp add: resolve_assignment_def example_rule_defs)
  moreover have f: "filter (explicit_for example_entry) [example_rule, example_explicit_rule]
      = [example_explicit_rule]"
    by (simp add: explicit_for_def example_rule_defs)
  moreover have "decision example_entry example_explicit_rule ''entry:a2''
      = decision example_entry example_explicit_rule (''entry:'' @ assignment_id example_explicit_rule)"
    using resolve_assignment_precedence [OF r, of example_explicit_rule "[]"] f by blast
  moreover have "selects example_engine example_entry example_rule"
    by (simp add: selects_def matches_filter_def example_rule_defs)
  ultimately show ?thesis by blast
qed

end
