(* ===== verification/Inventory.thy ===== *)
theory Inventory
  imports Assignments
begin

text \<open>
  \<open>src/xray_e2e_prober/inventory.py\<close> and \<open>stable_check_id\<close> of \<open>identity.py\<close>: accepted source
  generations are compiled into the effective checks. SHA-256 is the parameter \<open>sha256_hex\<close> (the C
  implementation behind \<open>hashlib\<close>), applied to the text that the code encodes.
\<close>

section \<open>Check identifiers\<close>

definition check_id_text :: "string \<Rightarrow> CheckMode \<Rightarrow> string \<Rightarrow> string option \<Rightarrow> string" where
  "check_id_text eid mode tsid selection =
     py_join [NUL] [''check-v2'', eid, check_mode_value mode, tsid,
       (case selection of Some s \<Rightarrow> s | None \<Rightarrow> [])]"

definition stable_check_id ::
  "(string \<Rightarrow> string) \<Rightarrow> string \<Rightarrow> CheckMode \<Rightarrow> string \<Rightarrow> string option \<Rightarrow> string" where
  "stable_check_id sha256_hex eid mode tsid selection =
     ''check_'' @ sha256_hex (check_id_text eid mode tsid selection)"

section \<open>Compilation\<close>

datatype InventoryFailure = InventoryError string | ValueError string

record CompiledCheck =
  definition_of :: CheckDefinition
  cc_entry :: EntryRecord
  cc_target_set :: TargetSetConfig
  cc_egress_assertions :: "EgressAssertionConfig list"
  assignment_reason :: string

definition raising :: "string + 'a \<Rightarrow> InventoryFailure + 'a" where
  "raising r = (case r of Inl m \<Rightarrow> Inl (ValueError m) | Inr a \<Rightarrow> Inr a)"

fun check_mode_of :: "string \<Rightarrow> string + CheckMode" where
  "check_mode_of s =
     (if s = ''connection'' then Inr CONNECTION
      else if s = ''profile'' then Inr PROFILE else Inl ''not a valid CheckMode'')"

fun lifecycle_of :: "string option \<Rightarrow> string + RuntimeLifecycle option" where
  "lifecycle_of None = Inr None"
| "lifecycle_of (Some s) =
     (if s = ''fresh'' then Inr (Some FRESH)
      else if s = ''persistent'' then Inr (Some PERSISTENT) else Inl ''runtime_lifecycle'')"

definition effective_entry :: "EntryRecord \<Rightarrow> SourceConfig \<Rightarrow> EntryRecord" where
  "effective_entry entry source = entry\<lparr>entry_tags := entry_tags entry \<union> source_tags source\<rparr>"

text \<open>The \<open>CheckDefinition\<close> and the \<open>CompiledCheck\<close> built for one target set of one entry.\<close>

definition check_definition ::
  "(string \<Rightarrow> string) \<Rightarrow> SourceConfig \<Rightarrow> SourceGeneration \<Rightarrow> EntryRecord \<Rightarrow> AssignmentDecision
     \<Rightarrow> TargetSetConfig \<Rightarrow> CheckMode \<Rightarrow> RuntimeLifecycle option \<Rightarrow> CheckDefinition" where
  "check_definition sha256_hex source gen entry dec ts mode lifecycle =
     \<lparr>check_id = stable_check_id sha256_hex (entry_id entry) mode (target_set_id ts) (dec_selection_id dec),
      chk_entry_id = entry_id entry, chk_source_id = source_id source,
      chk_target_set_id = target_set_id ts, chk_mode = mode, chk_generation = generation gen,
      chk_outbound_tag = or_opt (dec_outbound_tag dec) (entry_outbound_tag entry),
      chk_inbound_tag = or_opt (dec_inbound_tag dec) (entry_inbound_tag entry),
      runtime_lifecycle = lifecycle,
      chk_egress_assertion_ids = dec_egress_assertion_ids dec,
      chk_enabled = source_enabled source \<and> entry_enabled entry \<and> dec_enabled dec
        \<and> target_set_enabled ts\<rparr>"

definition selected_assertions :: "AppConfig \<Rightarrow> string list \<Rightarrow> EgressAssertionConfig list" where
  "selected_assertions config ids =
     (let asserts = dict_of (map (\<lambda>a. (assertion_id a, a)) (egress_assertions config))
      in map (\<lambda>i. the (dict_get asserts i)) (filter (\<lambda>i. dict_get asserts i \<noteq> None) ids))"

definition compiled_check ::
  "AppConfig \<Rightarrow> SourceConfig \<Rightarrow> EntryRecord \<Rightarrow> AssignmentDecision \<Rightarrow> TargetSetConfig
     \<Rightarrow> CheckDefinition \<Rightarrow> CompiledCheck" where
  "compiled_check config source entry dec ts d =
     \<lparr>definition_of = d, cc_entry = effective_entry entry source, cc_target_set = ts,
      cc_egress_assertions = selected_assertions config (dec_egress_assertion_ids dec),
      assignment_reason = dec_rule dec\<rparr>"

text \<open>The body of the innermost loop: one target set of one entry.\<close>

definition compile_target ::
  "(string \<Rightarrow> string) \<Rightarrow> AppConfig \<Rightarrow> SourceConfig \<Rightarrow> SourceGeneration \<Rightarrow> EntryRecord
     \<Rightarrow> AssignmentDecision \<Rightarrow> string \<Rightarrow> (string, CompiledCheck) dict
     \<Rightarrow> InventoryFailure + (string, CompiledCheck) dict" where
  "compile_target sha256_hex config source gen entry dec tsid compiled =
     (case dict_get (dict_of (map (\<lambda>s. (target_set_id s, s)) (target_sets config))) tsid of
        None \<Rightarrow> Inr compiled
      | Some ts \<Rightarrow>
          bindE (raising (check_mode_of (dec_mode dec))) (\<lambda>mode.
          bindE (raising (lifecycle_of (dec_runtime_lifecycle dec))) (\<lambda>lifecycle.
          bindE (raising (validate_CheckDefinition
              (check_definition sha256_hex source gen entry dec ts mode lifecycle))) (\<lambda>d.
            Inr (dict_set (check_id d) (compiled_check config source entry dec ts d) compiled)))))"

definition compile_entry ::
  "(string \<Rightarrow> string) \<Rightarrow> regex_engine \<Rightarrow> AppConfig \<Rightarrow> SourceConfig \<Rightarrow> SourceGeneration \<Rightarrow> EntryRecord
     \<Rightarrow> (string, CompiledCheck) dict \<Rightarrow> InventoryFailure + (string, CompiledCheck) dict" where
  "compile_entry sha256_hex re config source gen entry compiled =
     bindE (raising (resolve_assignment re (effective_entry entry source) (assignments config)
         (source_target_set_ids source) (source_egress_assertion_ids source)
         (default_target_set_ids config) (source_enabled source \<and> entry_enabled entry)))
       (\<lambda>dec. if compatibility entry \<noteq> SUPPORTED then Inr compiled
              else foldE (compile_target sha256_hex config source gen entry dec)
                     (dec_target_set_ids dec) compiled)"

definition compile_generation ::
  "(string \<Rightarrow> string) \<Rightarrow> regex_engine \<Rightarrow> AppConfig \<Rightarrow> string \<times> SourceGeneration
     \<Rightarrow> (string, CompiledCheck) dict \<Rightarrow> InventoryFailure + (string, CompiledCheck) dict" where
  "compile_generation sha256_hex re config sg compiled =
     (case dict_get (dict_of (map (\<lambda>s. (source_id s, s)) (sources config))) (fst sg) of
        None \<Rightarrow> Inr compiled
      | Some source \<Rightarrow>
          foldE (compile_entry sha256_hex re config source (snd sg)) (entries (snd sg)) compiled)"

type_synonym profile_id = "string \<times> CheckMode \<times> string option \<times> string option \<times> string"

definition profile_key :: "CompiledCheck \<Rightarrow> profile_id" where
  "profile_key c =
     (let d = definition_of c
      in (chk_entry_id d, chk_mode d, chk_outbound_tag d, chk_inbound_tag d, chk_generation d))"

definition enabled_checks :: "(string, CompiledCheck) dict \<Rightarrow> CompiledCheck list" where
  "enabled_checks compiled = filter (\<lambda>c. chk_enabled (definition_of c)) (dict_values compiled)"

definition persistent_profiles :: "(string, CompiledCheck) dict \<Rightarrow> profile_id set" where
  "persistent_profiles compiled =
     set (map profile_key
       (filter (\<lambda>c. runtime_lifecycle (definition_of c) = Some PERSISTENT) (enabled_checks compiled)))"

definition has_fresh :: "(string, CompiledCheck) dict \<Rightarrow> bool" where
  "has_fresh compiled \<longleftrightarrow>
     (\<exists>c \<in> set (enabled_checks compiled). runtime_lifecycle (definition_of c) = Some FRESH)"

definition capacity_check ::
  "AppConfig \<Rightarrow> (string, CompiledCheck) dict \<Rightarrow> InventoryFailure + (string, CompiledCheck) dict" where
  "capacity_check config compiled =
     (let n = int (card (persistent_profiles compiled)); limit = max_active_runtimes (scheduler config)
      in if n > limit
         then Inl (InventoryError ''persistent profiles exceed scheduler.max_active_runtimes'')
         else if has_fresh compiled \<and> n \<ge> limit
         then Inl (InventoryError ''persistent profiles leave no runtime slot for fresh checks'')
         else Inr compiled)"

definition compile_inventory ::
  "(string \<Rightarrow> string) \<Rightarrow> regex_engine \<Rightarrow> AppConfig \<Rightarrow> (string, SourceGeneration) dict
     \<Rightarrow> InventoryFailure + (string, CompiledCheck) dict" where
  "compile_inventory sha256_hex re config generations =
     bindE (foldE (compile_generation sha256_hex re config) generations [])
       (capacity_check config)"

section \<open>Soundness of the inventory\<close>

lemma check_mode_round [simp]: "check_mode_of (check_mode_value m) = Inr m"
  by (cases m) auto

lemma lifecycle_round [simp]: "lifecycle_of (map_option lifecycle_value l) = Inr l"
  by (cases l; (cases "the l")?) auto

text \<open>
  What an inventory entry is made of: one configured source, one of its accepted supported entries,
  one configured target set, an identifier derived from durable identifiers only, and an enabled
  flag that nothing disabled.
\<close>

definition made_from ::
  "(string \<Rightarrow> string) \<Rightarrow> AppConfig \<Rightarrow> SourceConfig \<Rightarrow> SourceGeneration \<Rightarrow> EntryRecord
     \<Rightarrow> string \<Rightarrow> CompiledCheck \<Rightarrow> bool" where
  "made_from sha256_hex config source gen entry cid c \<longleftrightarrow>
     compatibility entry = SUPPORTED
     \<and> cc_entry c = effective_entry entry source
     \<and> cc_target_set c \<in> set (target_sets config)
     \<and> set (cc_egress_assertions c) \<subseteq> set (egress_assertions config)
     \<and> (\<exists>ids \<in> insert (source_egress_assertion_ids source) (rule_egress_assertion_ids ` set (assignments config)).
          cc_egress_assertions c = selected_assertions config ids)
     \<and> check_id (definition_of c) = cid
     \<and> chk_source_id (definition_of c) = source_id source
     \<and> chk_entry_id (definition_of c) = entry_id entry
     \<and> chk_generation (definition_of c) = generation gen
     \<and> chk_target_set_id (definition_of c) = target_set_id (cc_target_set c)
     \<and> (\<exists>selection. cid = stable_check_id sha256_hex (entry_id entry) (chk_mode (definition_of c))
            (chk_target_set_id (definition_of c)) selection)
     \<and> runtime_lifecycle (definition_of c) \<noteq> None
     \<and> (chk_enabled (definition_of c) \<longrightarrow>
          source_enabled source \<and> entry_enabled entry \<and> target_set_enabled (cc_target_set c))"

definition check_sound ::
  "(string \<Rightarrow> string) \<Rightarrow> AppConfig \<Rightarrow> (string, SourceGeneration) dict \<Rightarrow> string \<Rightarrow> CompiledCheck \<Rightarrow> bool" where
  "check_sound sha256_hex config generations cid c \<longleftrightarrow>
     (\<exists>source \<in> set (sources config). \<exists>(sid, gen) \<in> set generations. \<exists>entry \<in> set (entries gen).
        sid = source_id source \<and> made_from sha256_hex config source gen entry cid c)"

definition inventory_sound ::
  "(string \<Rightarrow> string) \<Rightarrow> AppConfig \<Rightarrow> (string, SourceGeneration) dict
     \<Rightarrow> (string, CompiledCheck) dict \<Rightarrow> bool" where
  "inventory_sound sha256_hex config generations compiled \<longleftrightarrow>
     dict_ok compiled
     \<and> (\<forall>(cid, c) \<in> set compiled. check_sound sha256_hex config generations cid c)"

lemma raising_Inr [simp]: "raising r = Inr a \<longleftrightarrow> r = Inr a"
  by (auto simp: raising_def split: sum.splits)

lemma keyed_dict_get:
  "dict_get (dict_of (map (\<lambda>x. (key x, x)) xs)) k = Some x \<Longrightarrow> x \<in> set xs \<and> key x = k"
  by (auto simp: dict_get_of dest!: map_of_SomeD)

lemma validate_CheckDefinition_Inr:
  "validate_CheckDefinition d = Inr e \<Longrightarrow> e = default_lifecycle d"
  by (auto simp: validate_CheckDefinition_def result_iffs)

lemma default_lifecycle_fields [simp]:
  "check_id (default_lifecycle d) = check_id d"
  "chk_entry_id (default_lifecycle d) = chk_entry_id d"
  "chk_source_id (default_lifecycle d) = chk_source_id d"
  "chk_target_set_id (default_lifecycle d) = chk_target_set_id d"
  "chk_mode (default_lifecycle d) = chk_mode d"
  "chk_generation (default_lifecycle d) = chk_generation d"
  "chk_enabled (default_lifecycle d) = chk_enabled d"
  "runtime_lifecycle (default_lifecycle d) \<noteq> None"
  by (auto simp: default_lifecycle_def)

lemma selected_assertions_subset:
  "set (selected_assertions config ids) \<subseteq> set (egress_assertions config)"
proof
  fix a
  assume "a \<in> set (selected_assertions config ids)"
  then obtain i where
    "dict_get (dict_of (map (\<lambda>a. (assertion_id a, a)) (egress_assertions config))) i = Some a"
    by (fastforce simp: selected_assertions_def Let_def)
  then show "a \<in> set (egress_assertions config)" by (blast dest: keyed_dict_get)
qed

lemma compiled_check_sound:
  assumes "source \<in> set (sources config)" "(source_id source, gen) \<in> set gens"
    and "entry \<in> set (entries gen)" "compatibility entry = SUPPORTED" "ts \<in> set (target_sets config)"
    and dec: "dec_egress_assertion_ids dec
      \<in> insert (source_egress_assertion_ids source) (rule_egress_assertion_ids ` set (assignments config))"
    and d: "d = default_lifecycle (check_definition sha source gen entry dec ts mode lifecycle)"
  shows "check_sound sha config gens (check_id d) (compiled_check config source entry dec ts d)"
proof -
  have "made_from sha config source gen entry (check_id d) (compiled_check config source entry dec ts d)"
    unfolding made_from_def using assms(4,5) dec selected_assertions_subset default_lifecycle_fields(8)
    by (auto simp: compiled_check_def check_definition_def d)
  then show ?thesis
    using assms(1-3) unfolding check_sound_def by blast
qed

lemma compile_target_sound:
  assumes "inventory_sound sha config gens compiled"
    and "source \<in> set (sources config)" "(source_id source, gen) \<in> set gens"
    and "entry \<in> set (entries gen)" "compatibility entry = SUPPORTED"
    and "compile_target sha config source gen entry dec tsid compiled = Inr out"
    and dec: "dec_egress_assertion_ids dec
      \<in> insert (source_egress_assertion_ids source) (rule_egress_assertion_ids ` set (assignments config))"
  shows "inventory_sound sha config gens out"
proof (cases "dict_get (dict_of (map (\<lambda>s. (target_set_id s, s)) (target_sets config))) tsid")
  case None
  with assms(1,6) show ?thesis by (simp add: compile_target_def)
next
  case (Some ts)
  from keyed_dict_get [OF Some] have ts: "ts \<in> set (target_sets config)" by auto
  from assms(6) Some obtain d mode lifecycle where
    d: "d = default_lifecycle (check_definition sha source gen entry dec ts mode lifecycle)" and
    out: "out = dict_set (check_id d) (compiled_check config source entry dec ts d) compiled"
    by (auto simp: compile_target_def bindE_Inr_iff dest!: validate_CheckDefinition_Inr)
  from compiled_check_sound [OF assms(2-5) ts dec d] assms(1) show ?thesis
    unfolding out inventory_sound_def by (auto dest!: dict_set_mem)
qed

lemma compile_entry_sound:
  assumes "inventory_sound sha config gens compiled"
    and "source \<in> set (sources config)" "(source_id source, gen) \<in> set gens"
    and "entry \<in> set (entries gen)"
    and "compile_entry sha re config source gen entry compiled = Inr out"
  shows "inventory_sound sha config gens out"
proof -
  from assms(5) obtain dec where
    "out = compiled \<or> (compatibility entry = SUPPORTED
      \<and> foldE (compile_target sha config source gen entry dec) (dec_target_set_ids dec) compiled = Inr out)"
    and dec: "dec_egress_assertion_ids dec
      \<in> insert (source_egress_assertion_ids source) (rule_egress_assertion_ids ` set (assignments config))"
    using resolve_assignment_assertions by (fastforce simp: compile_entry_def bindE_Inr_iff split: if_splits)
  then show ?thesis
    using assms(1-4) compile_target_sound [OF _ _ _ _ _ _ dec] by (blast intro: foldE_invariant)
qed

lemma compile_generation_sound:
  assumes "inventory_sound sha config gens compiled" and "sg \<in> set gens"
    and "compile_generation sha re config sg compiled = Inr out"
  shows "inventory_sound sha config gens out"
proof (cases "dict_get (dict_of (map (\<lambda>s. (source_id s, s)) (sources config))) (fst sg)")
  case None
  with assms(1,3) show ?thesis by (simp add: compile_generation_def)
next
  case (Some source)
  from keyed_dict_get [OF Some] have "source \<in> set (sources config)" "source_id source = fst sg"
    by auto
  moreover from Some assms(3) have
    "foldE (compile_entry sha re config source (snd sg)) (entries (snd sg)) compiled = Inr out"
    by (simp add: compile_generation_def)
  moreover have "(fst sg, snd sg) \<in> set gens" using assms(2) by simp
  ultimately show ?thesis
    using assms(1) compile_entry_sound [of sha config gens _ source "snd sg"]
    by (elim foldE_invariant) auto
qed

lemma compile_inventory_Inr:
  "compile_inventory sha re config gens = Inr cc \<Longrightarrow>
     foldE (compile_generation sha re config) gens [] = Inr cc
     \<and> int (card (persistent_profiles cc)) \<le> max_active_runtimes (scheduler config)
     \<and> (has_fresh cc \<longrightarrow> int (card (persistent_profiles cc)) < max_active_runtimes (scheduler config))"
  by (auto simp: compile_inventory_def bindE_Inr_iff capacity_check_def Let_def split: if_splits)

lemma compiled_inventory_sound:
  assumes "compile_inventory sha256_hex re config generations = Inr inventory"
  shows "inventory_sound sha256_hex config generations inventory"
proof -
  have "inventory_sound sha256_hex config generations []" by (simp add: inventory_sound_def)
  then show ?thesis
    using compile_inventory_Inr [OF assms] compile_generation_sound by (blast intro: foldE_invariant)
qed

text \<open>
  C2: every check of a compiled inventory is justified: it belongs to one supported entry of an
  accepted generation of a configured source and to a configured target set, it carries that
  generation, its identifier is derived from durable identifiers alone, its lifecycle is decided,
  and it is enabled only where the source, the entry and the target set are.
\<close>
theorem compile_inventory_sound:
  assumes "compile_inventory sha256_hex re config generations = Inr inventory"
  shows "inventory_sound sha256_hex config generations inventory"
  using assms by (rule compiled_inventory_sound)

text \<open>
  An accepted inventory fits the executor: the distinct persistent runtimes of its enabled checks
  never exceed the runtime limit, and where some enabled check needs a fresh runtime at least one
  slot is left over for it.
\<close>
theorem compile_inventory_capacity:
  assumes "compile_inventory sha256_hex re config generations = Inr inventory"
  shows "int (card (persistent_profiles inventory)) + (if has_fresh inventory then 1 else 0)
    \<le> max_active_runtimes (scheduler config)"
  using compile_inventory_Inr [OF assms] by auto

text \<open>
  Check identifiers do not collide: the hashed text determines the entry, the mode, the target set
  and the selection it was made from (an absent selection and an empty one are the same), as long as
  the identifiers are free of NUL, which every accepted identifier is.
\<close>
theorem check_id_text_injective:
  assumes "NUL \<notin> set e1 \<union> set t1 \<union> \<Union> (set ` set_option s1)"
    and "NUL \<notin> set e2 \<union> set t2 \<union> \<Union> (set ` set_option s2)"
    and "check_id_text e1 m1 t1 s1 = check_id_text e2 m2 t2 s2"
  shows "e1 = e2 \<and> m1 = m2 \<and> t1 = t2 \<and> text_opt (or_opt s1 (Some [])) = text_opt (or_opt s2 (Some []))"
proof -
  let ?parts = "\<lambda>e m t s. [''check-v2'', e, check_mode_value m, t, (case s of Some x \<Rightarrow> x | None \<Rightarrow> [])]"
  have m: "NUL \<notin> set (check_mode_value m)" for m by (cases m) auto
  have split: "split_on NUL (check_id_text e m t s) = ?parts e m t s"
    if "NUL \<notin> set e \<union> set t \<union> \<Union> (set ` set_option s)" for e m t s
    unfolding check_id_text_def by (rule split_on_join) (use that m [of m] in \<open>auto split: option.splits\<close>)
  have "?parts e1 m1 t1 s1 = ?parts e2 m2 t2 s2"
    using assms(3) split [OF assms(1), of m1] split [OF assms(2), of m2] by simp
  moreover have "check_mode_value m1 = check_mode_value m2 \<Longrightarrow> m1 = m2"
    by (cases m1; cases m2) auto
  ultimately show ?thesis
    by (auto simp: or_opt_def text_opt_def truthy_def split: option.splits)
qed

section \<open>A compiled example\<close>

definition example_generation :: SourceGeneration where
  "example_generation = \<lparr>gen_source_id = ''src'', generation = ''g1'', accepted_at = 0,
     entries = [example_entry], gen_metadata = []\<rparr>"

definition example_sha :: "string \<Rightarrow> string" where
  "example_sha s = ''0a''"

definition example_decision :: AssignmentDecision where
  "example_decision = default_decision (effective_entry example_entry example_source) True
     [''s1''] [] [''s1'']"

definition example_definition :: CheckDefinition where
  "example_definition = default_lifecycle (check_definition example_sha example_source
     example_generation example_entry example_decision example_target_set CONNECTION None)"

definition example_inventory :: "(string, CompiledCheck) dict" where
  "example_inventory = [(''check_0a'', compiled_check example_config example_source example_entry
     example_decision example_target_set example_definition)]"

lemma example_id_facts:
  "check_id example_definition = ''check_0a''" "chk_enabled example_definition"
  "runtime_lifecycle example_definition = Some FRESH" "chk_generation example_definition = ''g1''"
  "chk_entry_id example_definition = ''e1''" "chk_target_set_id example_definition = ''s1''"
  by (simp_all add: example_definition_def default_lifecycle_def check_definition_def
      stable_check_id_def example_sha_def example_defs example_entry_def example_decision_def
      default_decision_def example_generation_def)

lemma example_decision_facts:
  "dec_mode example_decision = ''connection''" "dec_runtime_lifecycle example_decision = None"
  "dec_target_set_ids example_decision = [''s1'']" "compatibility example_entry = SUPPORTED"
  by (simp_all add: example_decision_def default_decision_def effective_entry_def example_entry_def)

lemma example_definition_valid:
  "validate_CheckDefinition (check_definition example_sha example_source example_generation
     example_entry example_decision example_target_set CONNECTION None) = Inr example_definition"
  by (simp add: validate_CheckDefinition_def example_definition_def check_definition_def
      stable_check_id_def example_sha_def example_source_def example_generation_def
      example_entry_def example_target_set_def validate_id_def safe_id_def id_char_def char_class_defs)

lemma example_compiled:
  "compile_inventory example_sha example_engine example_config [(''src'', example_generation)]
     = Inr example_inventory"
proof -
  have sets: "dict_of (map (\<lambda>s. (target_set_id s, s)) (target_sets example_config))
      = [(''s1'', example_target_set)]"
    by (simp add: dict_of_def example_config_def example_target_set_def)
  have srcs: "dict_of (map (\<lambda>s. (source_id s, s)) (sources example_config))
      = [(''src'', example_source)]"
    by (simp add: dict_of_def example_config_def example_source_def)
  have dec: "resolve_assignment example_engine (effective_entry example_entry example_source)
      (assignments example_config) (source_target_set_ids example_source)
      (source_egress_assertion_ids example_source) (default_target_set_ids example_config)
      (source_enabled example_source \<and> entry_enabled example_entry) = Inr example_decision"
    by (simp add: resolve_assignment_def example_config_def example_source_def example_decision_def
        example_entry_def)
  have "compile_target example_sha example_config example_source example_generation example_entry
      example_decision ''s1'' [] = Inr example_inventory"
    by (simp add: compile_target_def sets raising_def example_definition_valid
        example_inventory_def example_id_facts example_decision_facts)
  then have "compile_entry example_sha example_engine example_config example_source
      example_generation example_entry [] = Inr example_inventory"
    by (simp add: compile_entry_def dec raising_def example_decision_facts)
  then have "compile_generation example_sha example_engine example_config
      (''src'', example_generation) [] = Inr example_inventory"
    by (simp add: compile_generation_def srcs) (simp add: example_generation_def)
  moreover have "capacity_check example_config example_inventory = Inr example_inventory"
    by (simp add: capacity_check_def persistent_profiles_def enabled_checks_def example_inventory_def
        compiled_check_def example_id_facts has_fresh_def)
       (simp add: example_config_def example_scheduler_def)
  ultimately show ?thesis by (simp add: compile_inventory_def)
qed

theorem compile_inventory_sound_witness:
  "inventory_sound example_sha example_config [(''src'', example_generation)] example_inventory
   \<and> example_inventory \<noteq> []"
  using compile_inventory_sound [OF example_compiled] by (simp add: example_inventory_def)

theorem compile_inventory_capacity_witness:
  "has_fresh example_inventory
   \<and> int (card (persistent_profiles example_inventory)) + 1 \<le> max_active_runtimes (scheduler example_config)"
proof -
  have "has_fresh example_inventory"
    by (simp add: has_fresh_def enabled_checks_def example_inventory_def compiled_check_def example_id_facts)
  then show ?thesis using compile_inventory_capacity [OF example_compiled] by simp
qed

theorem check_id_text_injective_witness:
  "check_id_text ''e1'' PROFILE ''s1'' None = check_id_text ''e1'' PROFILE ''s1'' (Some [])
   \<and> text_opt (or_opt None (Some [])) = text_opt (or_opt (Some []) (Some []))"
proof -
  have h: "check_id_text ''e1'' PROFILE ''s1'' None = check_id_text ''e1'' PROFILE ''s1'' (Some [])"
    by (simp add: check_id_text_def)
  show ?thesis
    using check_id_text_injective [OF _ _ h] h by simp
qed

end
