(* ===== verification/Identity.thy ===== *)
theory Identity
  imports Inventory
begin

text \<open>
  \<open>src/xray_e2e_prober/identity.py\<close>: public identifiers and the registry that keeps an entry's ID
  across refreshes of its source. \<open>uuid4\<close> is a supply of fresh texts (\<open>fresh n\<close> is the n-th ID a
  reconciliation draws), \<open>uuid5\<close> a parameter. A registry maps a source to its list of bindings;
  \<open>reconcile\<close> runs five matching phases over an explicit state of assignments, used entries and
  conflicts, each a loop over the groups that the code builds with \<open>setdefault(...).append\<close>.
\<close>

section \<open>Identifiers\<close>

definition existing_or_new :: "string \<Rightarrow> string \<Rightarrow> string option \<Rightarrow> string + string" where
  "existing_or_new uuid_hex kind existing =
     (case existing of
        Some e \<Rightarrow> (if safe_id e then Inr e else Inl ''existing identifier is invalid'')
      | None \<Rightarrow> Inr (kind @ ''_'' @ uuid_hex))"

definition stable_source_id :: "string \<Rightarrow> string option \<Rightarrow> string + string" where
  "stable_source_id uuid_hex existing = existing_or_new uuid_hex ''src'' existing"

definition stable_entry_id :: "string \<Rightarrow> string option \<Rightarrow> string + string" where
  "stable_entry_id uuid_hex existing = existing_or_new uuid_hex ''entry'' existing"

definition stable_target_id ::
  "(string \<Rightarrow> string) \<Rightarrow> string \<Rightarrow> string option \<Rightarrow> string option \<Rightarrow> string + string" where
  "stable_target_id uuid5_hex uuid_hex stable_key existing =
     (if existing \<noteq> None then existing_or_new uuid_hex ''target'' existing
      else case stable_key of
        None \<Rightarrow> existing_or_new uuid_hex ''target'' None
      | Some k \<Rightarrow> Inr (''target_'' @ uuid5_hex (''target'' @ NUL # k)))"

definition stable_target_set_id ::
  "(string \<Rightarrow> string) \<Rightarrow> string \<Rightarrow> string option \<Rightarrow> string option \<Rightarrow> string + string" where
  "stable_target_set_id uuid5_hex uuid_hex stable_key existing =
     (if existing \<noteq> None then existing_or_new uuid_hex ''set'' existing
      else case stable_key of
        None \<Rightarrow> existing_or_new uuid_hex ''set'' None
      | Some k \<Rightarrow> Inr (''set_'' @ uuid5_hex (''target-set'' @ NUL # k)))"

definition new_generation_id :: "string \<Rightarrow> string" where
  "new_generation_id uuid_hex = ''gen_'' @ uuid_hex"

definition new_run_id :: "string \<Rightarrow> string" where
  "new_run_id uuid_hex = ''run_'' @ uuid_hex"

definition normalized_identity_name :: "string \<Rightarrow> string" where
  "normalized_identity_name name = py_casefold (clean_display_name name)"

text \<open>Every issued identifier passes the validators of the models, given the 32 hexadecimal
  digits that \<open>uuid.hex\<close> is documented to have.\<close>

definition uuid_text :: "string \<Rightarrow> bool" where
  "uuid_text h \<longleftrightarrow> length h = 32 \<and> list_all ascii_hex h"

lemma uuid_text_id_chars: "uuid_text h \<Longrightarrow> list_all id_char h"
  by (auto simp: uuid_text_def list_all_iff id_char_def char_class_defs)

lemma prefixed_uuid_safe:
  assumes "uuid_text h" "safe_id p" "length p \<le> 90"
  shows "safe_id (p @ ''_'' @ h)"
  using assms uuid_text_id_chars [OF assms(1)]
  by (auto simp: safe_id_def id_char_def uuid_text_def split: list.splits)

section \<open>Candidates, bindings and registries\<close>

record CandidateIdentity =
  cand_id :: string
  cand_name_key :: string
  cand_fingerprint :: "string option"
  cand_external_id :: "string option"

definition from_entry :: "ImportedEntry \<Rightarrow> CandidateIdentity" where
  "from_entry e =
     \<lparr>cand_id = candidate_id e,
      cand_name_key = (if imp_identity_name e \<noteq> [] then imp_identity_name e
                       else normalized_identity_name (imp_name e)),
      cand_fingerprint = imp_connection_fingerprint e,
      cand_external_id = imp_external_id e\<rparr>"

record IdentityBinding =
  bind_entry_id :: string
  bind_external_id :: "string option"
  bind_name_key :: "string option"
  bind_fingerprint :: "string option"
  bind_active :: bool

record IdentityConflict =
  conflict_candidates :: "string list"
  conflict_entries :: "string list"
  conflict_message :: string

record ReconciliationResult =
  rec_source_id :: string
  rec_assignments :: "(string, string) dict"
  new_entry_ids :: "string list"
  disappeared_entry_ids :: "string list"
  rec_conflicts :: "IdentityConflict list"

definition rec_ok :: "ReconciliationResult \<Rightarrow> bool" where
  "rec_ok r \<longleftrightarrow> rec_conflicts r = []"

definition entry_id_for :: "ReconciliationResult \<Rightarrow> string \<Rightarrow> string + string" where
  "entry_id_for r cid =
     (case dict_get (rec_assignments r) cid of
        Some e \<Rightarrow> Inr e | None \<Rightarrow> Inl ''candidate has no reconciled entry ID'')"

type_synonym IdentityRegistry = "(string, IdentityBinding list) dict"

definition bindings_of :: "string \<Rightarrow> IdentityRegistry \<Rightarrow> IdentityBinding list" where
  "bindings_of sid reg = (case dict_get reg sid of Some bs \<Rightarrow> bs | None \<Rightarrow> [])"

definition matchable :: "IdentityBinding \<Rightarrow> bool" where
  "matchable b \<longleftrightarrow> bind_active b \<or> bind_external_id b \<noteq> None \<or> bind_name_key b \<noteq> None
     \<or> bind_fingerprint b \<noteq> None"

definition prune_step :: "string \<times> IdentityBinding list \<Rightarrow> IdentityRegistry \<times> nat
     \<Rightarrow> IdentityRegistry \<times> nat" where
  "prune_step item acc =
     (let (sid, bs) = item; (reg, removed) = acc; retained = filter matchable bs
      in (if retained \<noteq> [] then dict_set sid retained reg else dict_pop sid reg,
          removed + (length bs - length retained)))"

definition prune_unmatchable_inactive :: "IdentityRegistry \<Rightarrow> IdentityRegistry \<times> nat" where
  "prune_unmatchable_inactive reg = fold prune_step reg (reg, 0)"

section \<open>The matching phases\<close>

record recon =
  rc_assignments :: "(string, string) dict"
  rc_used :: "string set"
  rc_conflicts :: "IdentityConflict list"

text \<open>\<open>blocked\<close>: every conflict that is recorded adds its candidates.\<close>

definition blocked :: "recon \<Rightarrow> string set" where
  "blocked st = (\<Union>c \<in> set (rc_conflicts st). set (conflict_candidates c))"

definition available :: "recon \<Rightarrow> IdentityBinding list \<Rightarrow> IdentityBinding list" where
  "available st bs = filter (\<lambda>b. bind_entry_id b \<notin> rc_used st) bs"

definition assign_to :: "CandidateIdentity \<Rightarrow> IdentityBinding \<Rightarrow> recon \<Rightarrow> recon" where
  "assign_to c b st =
     st\<lparr>rc_assignments := dict_set (cand_id c) (bind_entry_id b) (rc_assignments st),
        rc_used := insert (bind_entry_id b) (rc_used st)\<rparr>"

definition add_conflict ::
  "CandidateIdentity list \<Rightarrow> IdentityBinding list \<Rightarrow> string \<Rightarrow> recon \<Rightarrow> recon" where
  "add_conflict g old message st =
     st\<lparr>rc_conflicts := rc_conflicts st @
       [\<lparr>conflict_candidates = map cand_id g, conflict_entries = map bind_entry_id old,
         conflict_message = message\<rparr>]\<rparr>"

text \<open>Grouping by an optional key skips the items whose key is missing or empty.\<close>

definition keyed :: "('x \<Rightarrow> string option) \<Rightarrow> 'x list \<Rightarrow> (string, 'x list) dict" where
  "keyed f xs = group_by (\<lambda>x. the (f x)) (filter (\<lambda>x. truthy (f x)) xs)"

definition rows :: "('x \<Rightarrow> string option) \<Rightarrow> 'x list \<Rightarrow> string \<Rightarrow> 'x list" where
  "rows f xs k = (case dict_get (keyed f xs) k of Some r \<Rightarrow> r | None \<Rightarrow> [])"

definition open_candidates :: "CandidateIdentity list \<Rightarrow> recon \<Rightarrow> CandidateIdentity list" where
  "open_candidates cs st =
     filter (\<lambda>c. cand_id c \<notin> set (dict_keys (rc_assignments st)) \<and> cand_id c \<notin> blocked st) cs"

definition external_step ::
  "IdentityBinding list \<Rightarrow> string \<times> CandidateIdentity list \<Rightarrow> recon \<Rightarrow> recon" where
  "external_step previous kg st =
     (let (k, g) = kg; old = rows bind_external_id previous k
      in if length g > 1 \<or> length old > 1
         then add_conflict g old ''duplicate source-provided stable identity'' st
         else if length old = 1 then assign_to (hd g) (hd old) st
         else st)"

definition name_step ::
  "IdentityBinding list \<Rightarrow> string \<times> CandidateIdentity list \<Rightarrow> recon \<Rightarrow> recon" where
  "name_step previous kg st =
     (let (k, g) = kg; old = available st (rows bind_name_key previous k)
      in if length g = 1 \<and> length old = 1 then assign_to (hd g) (hd old) st else st)"

definition fingerprint_step ::
  "IdentityBinding list \<Rightarrow> string \<times> CandidateIdentity list \<Rightarrow> recon \<Rightarrow> recon" where
  "fingerprint_step previous kg st =
     (let (k, g) = kg; old = available st (rows bind_fingerprint previous k)
      in if length g = 1 \<and> length old = 1 then assign_to (hd g) (hd old) st
         else if old \<noteq> []
         then add_conflict g old ''entries cannot be distinguished by non-secret semantics'' st
         else st)"

definition changed_step ::
  "IdentityBinding list \<Rightarrow> string \<times> CandidateIdentity list \<Rightarrow> recon \<Rightarrow> recon" where
  "changed_step previous kg st =
     (let (k, g) = kg; old = available st (rows bind_name_key previous k)
      in if old \<noteq> []
         then add_conflict g old ''changed entries with this name require manual reconciliation'' st
         else st)"

definition duplicate_step ::
  "(string \<times> string option) \<times> CandidateIdentity list \<Rightarrow> recon \<Rightarrow> recon" where
  "duplicate_step kg st =
     (if length (snd kg) > 1 then add_conflict (snd kg) [] ''new entries are indistinguishable'' st
      else st)"

definition match_candidates :: "CandidateIdentity list \<Rightarrow> IdentityBinding list \<Rightarrow> recon" where
  "match_candidates cs previous =
     (let st = fold (external_step previous) (keyed cand_external_id cs)
            \<lparr>rc_assignments = [], rc_used = {}, rc_conflicts = []\<rparr>;
          st = fold (name_step previous) (group_by cand_name_key (open_candidates cs st)) st;
          st = fold (fingerprint_step previous) (keyed cand_fingerprint (open_candidates cs st)) st;
          st = fold (changed_step previous) (group_by cand_name_key (open_candidates cs st)) st
      in fold duplicate_step
           (group_by (\<lambda>c. (cand_name_key c, cand_fingerprint c)) (open_candidates cs st)) st)"

section \<open>Applying a reconciliation\<close>

fun update_last :: "('x \<Rightarrow> bool) \<Rightarrow> ('x \<Rightarrow> 'x) \<Rightarrow> 'x list \<Rightarrow> 'x list" where
  "update_last p f [] = []"
| "update_last p f (x # xs) =
     (if (\<exists>y \<in> set xs. p y) then x # update_last p f xs
      else if p x then f x # xs else x # xs)"

definition rekey :: "CandidateIdentity \<Rightarrow> IdentityBinding \<Rightarrow> IdentityBinding" where
  "rekey c b = b\<lparr>bind_external_id := cand_external_id c, bind_name_key := Some (cand_name_key c),
     bind_fingerprint := cand_fingerprint c, bind_active := True\<rparr>"

text \<open>\<open>by_entry\<close> finds the last binding with the entry ID; a missing one is appended.\<close>

definition rebind ::
  "(string, string) dict \<Rightarrow> CandidateIdentity \<Rightarrow> IdentityBinding list \<Rightarrow> IdentityBinding list" where
  "rebind asg c bs =
     (let eid = the (dict_get asg (cand_id c))
      in if eid \<in> set (map bind_entry_id bs)
         then update_last (\<lambda>b. bind_entry_id b = eid) (rekey c) bs
         else bs @ [rekey c \<lparr>bind_entry_id = eid, bind_external_id = None, bind_name_key = None,
                     bind_fingerprint = None, bind_active = True\<rparr>])"

definition apply_assignments ::
  "CandidateIdentity list \<Rightarrow> (string, string) dict \<Rightarrow> IdentityBinding list \<Rightarrow> IdentityBinding list" where
  "apply_assignments cs asg previous =
     fold (rebind asg) cs (map (\<lambda>b. b\<lparr>bind_active := False\<rparr>) previous)"

definition reconcile ::
  "(nat \<Rightarrow> string) \<Rightarrow> string \<Rightarrow> CandidateIdentity list \<Rightarrow> bool \<Rightarrow> IdentityRegistry
     \<Rightarrow> string + IdentityRegistry \<times> ReconciliationResult" where
  "reconcile fresh sid cs apply reg =
     (if has_duplicates (map cand_id cs) then Inl ''candidate IDs are not unique''
      else
        let previous = bindings_of sid reg;
            st = match_candidates cs previous;
            news = open_candidates cs st;
            new_ids = map fresh [0..<length news];
            asg = fold (\<lambda>(c, e). dict_set (cand_id c) e) (zip news new_ids) (rc_assignments st);
            result = \<lparr>rec_source_id = sid, rec_assignments = asg, new_entry_ids = new_ids,
              disappeared_entry_ids =
                map bind_entry_id
                  (filter (\<lambda>b. bind_active b \<and> bind_entry_id b \<notin> rc_used st) previous),
              rec_conflicts = rc_conflicts st\<rparr>
        in Inr (if apply \<and> rec_ok result
                then dict_set sid (apply_assignments cs asg previous) reg else reg, result))"

definition apply_manual_mapping ::
  "string \<Rightarrow> CandidateIdentity list \<Rightarrow> (string, string) dict \<Rightarrow> IdentityRegistry
     \<Rightarrow> string + IdentityRegistry \<times> ReconciliationResult" where
  "apply_manual_mapping sid cs mapping reg =
     (if set (dict_keys mapping) \<noteq> set (map cand_id cs)
         \<or> card (set (dict_values mapping)) \<noteq> length mapping
      then Inl ''manual mapping must assign every candidate exactly once''
      else
        let previous = bindings_of sid reg;
            known = set (map bind_entry_id previous);
            others = (\<Union>(osid, bs) \<in> set reg. if osid \<noteq> sid then set (map bind_entry_id bs) else {})
        in if set (dict_values mapping) \<inter> others \<noteq> {}
           then Inl ''manual mapping reuses an entry ID from another source''
           else if \<exists>e \<in> set (dict_values mapping). e \<notin> known \<and> \<not> safe_id e
           then Inl ''manual mapping contains an invalid entry ID''
           else let bs = apply_assignments cs mapping previous
             in Inr (dict_set sid bs reg,
                  \<lparr>rec_source_id = sid, rec_assignments = mapping,
                   new_entry_ids = filter (\<lambda>e. e \<notin> known) (dict_values mapping),
                   disappeared_entry_ids =
                     filter (\<lambda>e. e \<notin> set (dict_values mapping)) (map bind_entry_id bs),
                   rec_conflicts = []\<rparr>))"

section \<open>Groups\<close>

lemma rows_eq: "rows f xs k = filter (\<lambda>x. truthy (f x) \<and> the (f x) = k) xs"
proof -
  have "filter (\<lambda>x. the (f x) = k) (filter (\<lambda>x. truthy (f x)) xs)
      = filter (\<lambda>x. truthy (f x) \<and> the (f x) = k) xs"
    by (induction xs) auto
  then show ?thesis
    by (simp add: rows_def keyed_def dict_get_group_by filter_empty_conv split: option.split)
qed

lemma keyed_mem:
  "(k, g) \<in> set (keyed f xs)
     \<longleftrightarrow> g = filter (\<lambda>x. truthy (f x) \<and> the (f x) = k) xs \<and> g \<noteq> []"
proof -
  have "filter (\<lambda>x. the (f x) = k) (filter (\<lambda>x. truthy (f x)) xs)
      = filter (\<lambda>x. truthy (f x) \<and> the (f x) = k) xs"
    by (induction xs) auto
  then show ?thesis by (simp add: keyed_def group_by_mem)
qed

definition cand_ids :: "CandidateIdentity list \<Rightarrow> string set" where
  "cand_ids g = cand_id ` set g"

text \<open>What a loop over groups may assume: the groups hold different candidates.\<close>

definition separate :: "('k \<times> CandidateIdentity list) list \<Rightarrow> bool" where
  "separate gs \<longleftrightarrow> distinct (map fst gs)
     \<and> (\<forall>k g j h. (k, g) \<in> set gs \<and> (j, h) \<in> set gs \<and> k \<noteq> j \<longrightarrow> cand_ids g \<inter> cand_ids h = {})"

lemma separate_tl: "separate (kg # gs) \<Longrightarrow> separate gs"
  unfolding separate_def by (rule conjI) (simp, meson list.set_intros(2))

lemma separate_group_by:
  assumes "distinct (map cand_id cs)"
  shows "separate (group_by f cs)"
proof -
  have "dict_ok (group_by f cs)" by simp
  then show ?thesis
    using assms unfolding separate_def dict_ok_def
    by (fastforce simp: group_by_mem cand_ids_def distinct_map dest: inj_onD)
qed

lemma distinct_map_filter': "distinct (map f xs) \<Longrightarrow> distinct (map f (filter P xs))"
  by (rule distinct_map_filter)

lemma separate_keyed: "distinct (map cand_id cs) \<Longrightarrow> separate (keyed f cs)"
  unfolding keyed_def by (rule separate_group_by) (rule distinct_map_filter')

section \<open>The invariant of the matching state\<close>

definition touched :: "recon \<Rightarrow> string set" where
  "touched st = set (dict_keys (rc_assignments st)) \<union> blocked st"

definition recon_inv :: "CandidateIdentity list \<Rightarrow> IdentityBinding list \<Rightarrow> recon \<Rightarrow> bool" where
  "recon_inv cs previous st \<longleftrightarrow>
     distinct (dict_keys (rc_assignments st)) \<and> distinct (dict_values (rc_assignments st))
     \<and> rc_used st = set (dict_values (rc_assignments st))
     \<and> rc_used st \<subseteq> bind_entry_id ` set previous
     \<and> touched st \<subseteq> cand_ids cs
     \<and> set (dict_keys (rc_assignments st)) \<inter> blocked st = {}"

lemma blocked_simps [simp]:
  "blocked (assign_to c b st) = blocked st"
  "blocked (add_conflict g old m st) = blocked st \<union> cand_ids g"
  by (auto simp: blocked_def assign_to_def add_conflict_def cand_ids_def)

lemma rc_simps [simp]:
  "rc_assignments (assign_to c b st) = dict_set (cand_id c) (bind_entry_id b) (rc_assignments st)"
  "rc_used (assign_to c b st) = insert (bind_entry_id b) (rc_used st)"
  "rc_assignments (add_conflict g old m st) = rc_assignments st"
  "rc_used (add_conflict g old m st) = rc_used st"
  by (simp_all add: assign_to_def add_conflict_def)

lemma dict_set_fresh: "k \<notin> set (dict_keys d) \<Longrightarrow> dict_set k v d = d @ [(k, v)]"
  by (induction d) auto

lemma touched_assign [simp]: "touched (assign_to c b st) = insert (cand_id c) (touched st)"
  by (auto simp: touched_def dom_update)

lemma touched_conflict [simp]: "touched (add_conflict g old m st) = touched st \<union> cand_ids g"
  by (auto simp: touched_def)

lemma recon_inv_assign:
  assumes "recon_inv cs previous st" "c \<in> set cs" "b \<in> set previous"
    "cand_id c \<notin> touched st" "bind_entry_id b \<notin> rc_used st"
  shows "recon_inv cs previous (assign_to c b st)"
  using assms unfolding recon_inv_def
  by (auto simp: dict_set_fresh touched_def cand_ids_def)

lemma recon_inv_conflict:
  assumes "recon_inv cs previous st" "set g \<subseteq> set cs" "cand_ids g \<inter> touched st = {}"
  shows "recon_inv cs previous (add_conflict g old m st)"
  using assms unfolding recon_inv_def
  by (auto simp: touched_def cand_ids_def)

lemma phase_inv:
  assumes step: "\<And>k g st. I st \<Longrightarrow> (k, g) \<in> set gs \<Longrightarrow> cand_ids g \<inter> touched st = {}
      \<Longrightarrow> I (step (k, g) st) \<and> touched (step (k, g) st) \<subseteq> touched st \<union> cand_ids g"
    and "separate gs" "I st" "\<forall>(k, g) \<in> set gs. cand_ids g \<inter> touched st = {}"
  shows "I (fold step gs st)"
  using assms
proof (induction gs arbitrary: st)
  case Nil
  then show ?case by simp
next
  case (Cons kg gs)
  obtain k g where kg: "kg = (k, g)" by (cases kg)
  have free: "cand_ids g \<inter> touched st = {}" using Cons.prems(4) kg by auto
  have new: "I (step (k, g) st)" "touched (step (k, g) st) \<subseteq> touched st \<union> cand_ids g"
    using Cons.prems(1) [OF Cons.prems(3) _ free] unfolding kg by simp_all
  have sep: "cand_ids h \<inter> cand_ids g = {}" if "(j, h) \<in> set gs" for j h
  proof -
    have "k \<notin> fst ` set gs" using Cons.prems(2) unfolding separate_def kg by simp
    then have "j \<noteq> k" using image_eqI [of j fst "(j, h)" "set gs"] that by auto
    moreover have "(j, h) \<in> set (kg # gs)" "(k, g) \<in> set (kg # gs)" using that kg by simp_all
    ultimately show ?thesis using Cons.prems(2) unfolding separate_def by blast
  qed
  have free': "cand_ids h \<inter> touched (step (k, g) st) = {}" if "(j, h) \<in> set gs" for j h
  proof -
    have "cand_ids h \<inter> touched st = {}" using Cons.prems(4) that by auto
    then show ?thesis using new(2) sep [OF that] by blast
  qed
  have "I (fold step gs (step (k, g) st))"
  proof (rule Cons.IH)
    show "separate gs" by (rule separate_tl [OF Cons.prems(2)])
    show "\<forall>(j, h) \<in> set gs. cand_ids h \<inter> touched (step (k, g) st) = {}"
      using free' by blast
    show "I (step (k, g) st)" by (rule new(1))
    fix j h st'
    assume "I st'" "(j, h) \<in> set gs" "cand_ids h \<inter> touched st' = {}"
    then show "I (step (j, h) st') \<and> touched (step (j, h) st') \<subseteq> touched st' \<union> cand_ids h"
      by (intro Cons.prems(1)) simp_all
  qed
  then show ?case by (simp add: kg)
qed

section \<open>The phases\<close>

lemma pick_one: "length xs = 1 \<Longrightarrow> hd xs \<in> set xs"
  by (cases xs) auto

lemma open_group_free:
  assumes "g = filter P (open_candidates cs st)"
  shows "set g \<subseteq> set cs" "cand_ids g \<inter> touched st = {}"
  using assms by (auto simp: open_candidates_def cand_ids_def touched_def)

text \<open>The four phases after the first: groups of open candidates, matched by available bindings.\<close>

lemma available_mem:
  "b \<in> set (available st (rows f previous k)) \<Longrightarrow> b \<in> set previous \<and> bind_entry_id b \<notin> rc_used st"
  by (simp add: available_def rows_eq)

lemma group_of_open:
  "(k, g) \<in> set (group_by f (open_candidates cs st)) \<Longrightarrow> set g \<subseteq> set cs \<and> cand_ids g \<inter> touched st = {}"
  using open_group_free [of g "\<lambda>c. f c = k" cs st] by (simp add: group_by_mem)

lemma keyed_of_open:
  "(k, g) \<in> set (keyed f (open_candidates cs st)) \<Longrightarrow> set g \<subseteq> set cs \<and> cand_ids g \<inter> touched st = {}"
  using open_group_free [of g "\<lambda>c. truthy (f c) \<and> the (f c) = k" cs st] by (simp add: keyed_mem)

lemma name_step_inv:
  assumes "recon_inv cs previous st" "set g \<subseteq> set cs" "cand_ids g \<inter> touched st = {}"
  shows "recon_inv cs previous (name_step previous (k, g) st)
    \<and> touched (name_step previous (k, g) st) \<subseteq> touched st \<union> cand_ids g"
proof (cases "length g = 1 \<and> length (available st (rows bind_name_key previous k)) = 1")
  case True
  then have "hd g \<in> set g" "hd (available st (rows bind_name_key previous k))
      \<in> set (available st (rows bind_name_key previous k))"
    by (auto intro: pick_one)
  with True assms show ?thesis
    by (auto simp: name_step_def Let_def cand_ids_def intro!: recon_inv_assign dest: available_mem)
next
  case False
  with assms show ?thesis by (auto simp: name_step_def Let_def)
qed

lemma fingerprint_step_inv:
  assumes "recon_inv cs previous st" "set g \<subseteq> set cs" "cand_ids g \<inter> touched st = {}"
  shows "recon_inv cs previous (fingerprint_step previous (k, g) st)
    \<and> touched (fingerprint_step previous (k, g) st) \<subseteq> touched st \<union> cand_ids g"
proof (cases "length g = 1 \<and> length (available st (rows bind_fingerprint previous k)) = 1")
  case True
  then have "hd g \<in> set g" "hd (available st (rows bind_fingerprint previous k))
      \<in> set (available st (rows bind_fingerprint previous k))"
    by (auto intro: pick_one)
  with True assms show ?thesis
    by (auto simp: fingerprint_step_def Let_def cand_ids_def intro!: recon_inv_assign
        dest: available_mem)
next
  case False
  with assms show ?thesis
    by (auto simp: fingerprint_step_def Let_def intro!: recon_inv_conflict)
qed

lemma changed_step_inv:
  assumes "recon_inv cs previous st" "set g \<subseteq> set cs" "cand_ids g \<inter> touched st = {}"
  shows "recon_inv cs previous (changed_step previous (k, g) st)
    \<and> touched (changed_step previous (k, g) st) \<subseteq> touched st \<union> cand_ids g"
  using assms by (auto simp: changed_step_def Let_def intro!: recon_inv_conflict)

lemma duplicate_step_inv:
  assumes "recon_inv cs previous st" "set g \<subseteq> set cs" "cand_ids g \<inter> touched st = {}"
  shows "recon_inv cs previous (duplicate_step (k, g) st)
    \<and> touched (duplicate_step (k, g) st) \<subseteq> touched st \<union> cand_ids g"
  using assms by (auto simp: duplicate_step_def intro!: recon_inv_conflict)

text \<open>In the first phase a used entry is one whose external key has been assigned.\<close>

definition external_inv :: "CandidateIdentity list \<Rightarrow> IdentityBinding list \<Rightarrow> recon \<Rightarrow> bool" where
  "external_inv cs previous st \<longleftrightarrow> recon_inv cs previous st
     \<and> (\<forall>e \<in> rc_used st. \<exists>b \<in> set previous. \<exists>c \<in> set cs.
          bind_entry_id b = e \<and> cand_id c \<in> touched st \<and> cand_external_id c = bind_external_id b)"

lemma external_step_inv:
  assumes inv: "external_inv cs previous st" and dist: "distinct (map bind_entry_id previous)"
    and kg: "(k, g) \<in> set (keyed cand_external_id cs)" and free: "cand_ids g \<inter> touched st = {}"
  shows "external_inv cs previous (external_step previous (k, g) st)
    \<and> touched (external_step previous (k, g) st) \<subseteq> touched st \<union> cand_ids g"
proof -
  define old where "old = rows bind_external_id previous k"
  have g: "set g = {c \<in> set cs. truthy (cand_external_id c) \<and> the (cand_external_id c) = k}"
    using kg by (simp add: keyed_mem)
  show ?thesis
  proof (cases "length g \<le> 1 \<and> length old = 1")
    case True
    have "g \<noteq> []" using kg unfolding keyed_mem by blast
    with True have lens: "length g = 1" "length old = 1" by (cases g; simp)+
    define b c where "b = hd old" and "c = hd g"
    have b: "b \<in> set previous" "bind_external_id b = Some k"
      using pick_one [OF lens(2)] by (auto simp: b_def old_def rows_eq truthy_def)
    have c: "c \<in> set g" "c \<in> set cs" "cand_external_id c = Some k"
      using pick_one [OF lens(1)] g by (auto simp: c_def truthy_def)
    have k: "k \<noteq> []" using c(1) g by (auto simp: truthy_def)
    have "bind_entry_id b \<notin> rc_used st"
    proof
      assume "bind_entry_id b \<in> rc_used st"
      then obtain b' c' where b': "b' \<in> set previous" "bind_entry_id b' = bind_entry_id b"
          and c': "c' \<in> set cs" "cand_id c' \<in> touched st" "cand_external_id c' = bind_external_id b'"
        using inv unfolding external_inv_def by blast
      have "b' = b" using dist b(1) b' by (auto simp: distinct_map dest: inj_onD)
      then have "c' \<in> set g" using c' b(2) k by (simp add: g)
      then show False using free c'(2) by (auto simp: cand_ids_def)
    qed
    moreover have "cand_id c \<notin> touched st" using free c(1) by (auto simp: cand_ids_def)
    ultimately have "recon_inv cs previous (assign_to c b st)"
      using inv b c by (auto simp: external_inv_def intro!: recon_inv_assign)
    moreover have "\<exists>b' \<in> set previous. \<exists>c' \<in> set cs. bind_entry_id b' = e
        \<and> cand_id c' \<in> touched (assign_to c b st) \<and> cand_external_id c' = bind_external_id b'"
      if "e \<in> rc_used (assign_to c b st)" for e
    proof (cases "e = bind_entry_id b")
      case True
      with b c show ?thesis by (intro bexI [of _ b] bexI [of _ c]) simp_all
    next
      case False
      with that inv show ?thesis unfolding external_inv_def by simp blast
    qed
    ultimately have "external_inv cs previous (assign_to c b st)"
      unfolding external_inv_def by blast
    then show ?thesis
      using lens c(1) by (auto simp: external_step_def Let_def old_def [symmetric] b_def c_def cand_ids_def)
  next
    case False
    have "recon_inv cs previous (add_conflict g old m st)" for m
      using inv free g unfolding external_inv_def by (auto intro!: recon_inv_conflict)
    moreover have "touched st \<subseteq> touched (add_conflict g old m st)" for m by simp
    ultimately have "external_inv cs previous (add_conflict g old m st)" for m
      using inv unfolding external_inv_def rc_simps(4) by blast
    with False inv show ?thesis
      by (auto simp: external_step_def Let_def old_def [symmetric])
  qed
qed

lemma later_phase_inv:
  assumes step: "\<And>k g st. recon_inv cs previous st \<Longrightarrow> set g \<subseteq> set cs \<Longrightarrow> cand_ids g \<inter> touched st = {}
      \<Longrightarrow> recon_inv cs previous (step (k, g) st)
        \<and> touched (step (k, g) st) \<subseteq> touched st \<union> cand_ids g"
    and gs: "separate gs"
      "\<And>k g. (k, g) \<in> set gs \<Longrightarrow> set g \<subseteq> set cs \<and> cand_ids g \<inter> touched st = {}"
    and inv: "recon_inv cs previous st"
  shows "recon_inv cs previous (fold step gs st)"
proof (rule phase_inv [where I = "recon_inv cs previous"])
  fix k g st'
  assume "recon_inv cs previous st'" "(k, g) \<in> set gs" "cand_ids g \<inter> touched st' = {}"
  then show "recon_inv cs previous (step (k, g) st')
      \<and> touched (step (k, g) st') \<subseteq> touched st' \<union> cand_ids g"
    using gs(2) step by blast
qed (use gs inv in auto)

lemma match_candidates_inv:
  assumes ids: "distinct (map cand_id cs)" and dist: "distinct (map bind_entry_id previous)"
  shows "recon_inv cs previous (match_candidates cs previous)"
proof -
  define s0 where "s0 = \<lparr>rc_assignments = [], rc_used = {}, rc_conflicts = []\<rparr>"
  define s1 where "s1 = fold (external_step previous) (keyed cand_external_id cs) s0"
  define s2 where "s2 = fold (name_step previous) (group_by cand_name_key (open_candidates cs s1)) s1"
  define s3 where "s3 = fold (fingerprint_step previous) (keyed cand_fingerprint (open_candidates cs s2)) s2"
  define s4 where "s4 = fold (changed_step previous) (group_by cand_name_key (open_candidates cs s3)) s3"
  have op: "distinct (map cand_id (open_candidates cs st))" for st
    unfolding open_candidates_def by (rule distinct_map_filter') (rule ids)
  have t0: "touched s0 = {}" by (simp add: s0_def touched_def blocked_def)
  have i0: "external_inv cs previous s0"
    by (simp add: s0_def external_inv_def recon_inv_def touched_def blocked_def)
  have "external_inv cs previous s1"
    unfolding s1_def
  proof (rule phase_inv [where I = "external_inv cs previous"])
    show "separate (keyed cand_external_id cs)" by (rule separate_keyed) (rule ids)
  qed (use i0 t0 external_step_inv [OF _ dist] in auto)
  then have i1: "recon_inv cs previous s1" by (simp add: external_inv_def)
  have i2: "recon_inv cs previous s2"
    unfolding s2_def by (rule later_phase_inv, rule name_step_inv, assumption+, rule separate_group_by [OF op],
        erule group_of_open, rule i1)
  have i3: "recon_inv cs previous s3"
    unfolding s3_def by (rule later_phase_inv, rule fingerprint_step_inv, assumption+, rule separate_keyed [OF op],
        erule keyed_of_open, rule i2)
  have i4: "recon_inv cs previous s4"
    unfolding s4_def by (rule later_phase_inv, rule changed_step_inv, assumption+, rule separate_group_by [OF op],
        erule group_of_open, rule i3)
  have "recon_inv cs previous (fold duplicate_step
      (group_by (\<lambda>c. (cand_name_key c, cand_fingerprint c)) (open_candidates cs s4)) s4)"
    by (rule later_phase_inv, rule duplicate_step_inv, assumption+, rule separate_group_by [OF op],
        erule group_of_open, rule i4)
  then show ?thesis
    by (simp add: match_candidates_def Let_def s0_def s1_def s2_def s3_def s4_def)
qed

section \<open>Rebinding\<close>

text \<open>The binding that a candidate ends up with.\<close>

definition bound :: "(string, string) dict \<Rightarrow> CandidateIdentity \<Rightarrow> IdentityBinding" where
  "bound asg c =
     \<lparr>bind_entry_id = the (dict_get asg (cand_id c)), bind_external_id = cand_external_id c,
      bind_name_key = Some (cand_name_key c), bind_fingerprint = cand_fingerprint c,
      bind_active = True\<rparr>"

abbreviation eids :: "IdentityBinding list \<Rightarrow> string list" where
  "eids bs \<equiv> map bind_entry_id bs"

lemma bound_id [simp]: "bind_entry_id (bound asg c) = the (dict_get asg (cand_id c))"
  by (simp add: bound_def)

lemma rekey_id [simp]: "bind_entry_id (rekey c b) = bind_entry_id b"
  by (simp add: rekey_def)

lemma rekey_bound: "bind_entry_id b = the (dict_get asg (cand_id c)) \<Longrightarrow> rekey c b = bound asg c"
  by (simp add: rekey_def bound_def)

lemma update_last_map:
  "distinct (eids bs) \<Longrightarrow> update_last (\<lambda>b. bind_entry_id b = e) f bs
     = map (\<lambda>b. if bind_entry_id b = e then f b else b) bs"
proof (induction bs)
  case Nil
  then show ?case by simp
next
  case (Cons x bs)
  show ?case
  proof (cases "\<exists>y \<in> set bs. bind_entry_id y = e")
    case True
    with Cons.prems have "bind_entry_id x \<noteq> e" by force
    with True Cons show ?thesis by simp
  next
    case False
    then have "map (\<lambda>b. if bind_entry_id b = e then f b else b) bs = bs" by (intro map_idI) auto
    with False show ?thesis by auto
  qed
qed

lemma rebind_present:
  assumes "distinct (eids bs)" "the (dict_get asg (cand_id c)) \<in> set (eids bs)"
  shows "rebind asg c bs
    = map (\<lambda>b. if bind_entry_id b = the (dict_get asg (cand_id c)) then rekey c b else b) bs"
  using assms(2) by (simp add: rebind_def Let_def update_last_map [OF assms(1)])

lemma rebind_absent:
  assumes "the (dict_get asg (cand_id c)) \<notin> set (eids bs)"
  shows "rebind asg c bs = bs @ [bound asg c]"
  using assms by (auto simp: rebind_def Let_def intro!: rekey_bound)

lemma eids_rekey: "eids (map (\<lambda>b. if P b then rekey c b else b) bs) = eids bs"
  by (induction bs) auto

lemma rebind_eids:
  assumes "distinct (eids bs)"
  shows "distinct (eids (rebind asg c bs))"
    "set (eids (rebind asg c bs)) = insert (the (dict_get asg (cand_id c))) (set (eids bs))"
proof -
  let ?e = "the (dict_get asg (cand_id c))"
  have "distinct (eids (rebind asg c bs))
    \<and> set (eids (rebind asg c bs)) = insert ?e (set (eids bs))"
  proof (cases "?e \<in> set (eids bs)")
    case True
    show ?thesis
      unfolding rebind_present [OF assms True] eids_rekey using True assms by auto
  next
    case False
    show ?thesis unfolding rebind_absent [OF False] using False assms by simp
  qed
  then show "distinct (eids (rebind asg c bs))"
    "set (eids (rebind asg c bs)) = insert ?e (set (eids bs))" by blast+
qed

lemma rebind_set:
  assumes "distinct (eids bs)"
  shows "set (rebind asg c bs)
    = {b \<in> set bs. bind_entry_id b \<noteq> the (dict_get asg (cand_id c))} \<union> {bound asg c}"
proof (cases "the (dict_get asg (cand_id c)) \<in> set (eids bs)")
  case True
  then obtain b0 where "b0 \<in> set bs" "bind_entry_id b0 = the (dict_get asg (cand_id c))" by auto
  then show ?thesis
    unfolding rebind_present [OF assms True] by (auto simp: rekey_bound intro!: image_eqI [of _ _ b0])
next
  case False
  then have "bind_entry_id b \<noteq> the (dict_get asg (cand_id c))" if "b \<in> set bs" for b
    using that by (metis image_eqI list.set_map)
  then show ?thesis unfolding rebind_absent [OF False] by auto
qed

lemma fold_rebind_eids:
  assumes "distinct (eids bs)"
  shows "distinct (eids (fold (rebind asg) cs bs))
    \<and> set (eids (fold (rebind asg) cs bs))
      = set (eids bs) \<union> (\<lambda>c. the (dict_get asg (cand_id c))) ` set cs"
  using assms
proof (induction cs arbitrary: bs)
  case Nil
  then show ?case by simp
next
  case (Cons c cs)
  show ?case
    using Cons.IH [OF rebind_eids(1) [OF Cons.prems]] rebind_eids(2) [OF Cons.prems] by auto
qed

lemma fold_rebind_set:
  assumes "distinct (eids bs)" "inj_on (\<lambda>c. the (dict_get asg (cand_id c))) (set cs)" "distinct cs"
  shows "set (fold (rebind asg) cs bs)
    = {b \<in> set bs. bind_entry_id b \<notin> (\<lambda>c. the (dict_get asg (cand_id c))) ` set cs} \<union> bound asg ` set cs"
  using assms
proof (induction cs arbitrary: bs)
  case Nil
  then show ?case by simp
next
  case (Cons c cs)
  have "the (dict_get asg (cand_id c)) \<notin> (\<lambda>c. the (dict_get asg (cand_id c))) ` set cs"
    using Cons.prems(2,3) by (auto dest: inj_onD)
  then show ?case
    using Cons.IH [OF rebind_eids(1) [OF Cons.prems(1)]] Cons.prems(2,3)
    by (auto simp: rebind_set [OF Cons.prems(1)] inj_on_insert)
qed

section \<open>Reconciliation\<close>

lemma bindings_of_set [simp]:
  "bindings_of sid (dict_set sid' bs reg) = (if sid = sid' then bs else bindings_of sid reg)"
  by (simp add: bindings_of_def)

lemma fold_dict_set_new:
  assumes "distinct (map cand_id ns)" "length es = length ns"
    "set (map cand_id ns) \<inter> set (dict_keys asg) = {}"
  shows "fold (\<lambda>(c, e). dict_set (cand_id c) e) (zip ns es) asg = asg @ zip (map cand_id ns) es"
  using assms
proof (induction ns arbitrary: es asg)
  case Nil
  then show ?case by simp
next
  case (Cons n ns)
  then obtain e es' where "es = e # es'" by (cases es) auto
  with Cons show ?case by (auto simp: dict_set_fresh)
qed

text \<open>What \<open>uuid4\<close> is relied on for: the IDs it hands out are new and differ from each other.\<close>

definition fresh_supply :: "(nat \<Rightarrow> string) \<Rightarrow> string set \<Rightarrow> bool" where
  "fresh_supply fresh taken \<longleftrightarrow> inj fresh \<and> range fresh \<inter> taken = {}"

lemma reconcile_Inr:
  assumes "reconcile fresh sid cs apply reg = Inr (reg', r)"
    "distinct (eids (bindings_of sid reg))" "fresh_supply fresh (set (eids (bindings_of sid reg)))"
  defines "st \<equiv> match_candidates cs (bindings_of sid reg)"
  shows "distinct (map cand_id cs)" "distinct (dict_keys (rec_assignments r))"
    "distinct (dict_values (rec_assignments r))"
    "set (dict_keys (rec_assignments r)) = cand_ids cs - blocked st"
    "rec_conflicts r = rc_conflicts st"
    "set (dict_values (rec_assignments r)) \<subseteq> set (eids (bindings_of sid reg)) \<union> range fresh"
    "reg' = (if apply \<and> rec_ok r
       then dict_set sid (apply_assignments cs (rec_assignments r) (bindings_of sid reg)) reg else reg)"
    "blocked st \<subseteq> cand_ids cs"
    "\<exists>more. rec_assignments r = rc_assignments st @ more"
proof -
  let ?prev = "bindings_of sid reg"
  let ?news = "open_candidates cs st"
  let ?ids = "map fresh [0..<length ?news]"
  show ids: "distinct (map cand_id cs)"
    using assms(1) by (auto simp: reconcile_def split: if_splits)
  have inv: "recon_inv cs ?prev st" unfolding st_def by (rule match_candidates_inv [OF ids assms(2)])
  have news: "distinct (map cand_id ?news)"
    unfolding open_candidates_def by (rule distinct_map_filter') (rule ids)
  have out: "set (map cand_id ?news) \<inter> set (dict_keys (rc_assignments st)) = {}"
    by (auto simp: open_candidates_def)
  have asg: "rec_assignments r = rc_assignments st @ zip (map cand_id ?news) ?ids"
    using assms(1) ids fold_dict_set_new [OF news _ out, of ?ids]
    by (auto simp: reconcile_def Let_def st_def)
  have ks: "dict_keys (rec_assignments r) = dict_keys (rc_assignments st) @ map cand_id ?news"
    and vs: "dict_values (rec_assignments r) = dict_values (rc_assignments st) @ ?ids"
    by (simp_all add: asg)
  show "\<exists>more. rec_assignments r = rc_assignments st @ more" using asg by blast
  show "distinct (dict_keys (rec_assignments r))"
    using inv news out unfolding ks recon_inv_def by auto
  have fr: "inj fresh" "range fresh \<inter> set (eids ?prev) = {}"
    using assms(3) by (simp_all add: fresh_supply_def)
  have sub: "set (dict_values (rc_assignments st)) \<subseteq> set (eids ?prev)"
    using inv unfolding recon_inv_def by auto
  then show "set (dict_values (rec_assignments r)) \<subseteq> set (eids ?prev) \<union> range fresh"
    unfolding vs by auto
  have "set (dict_values (rc_assignments st)) \<inter> set ?ids = {}" using sub fr(2) by auto
  then show "distinct (dict_values (rec_assignments r))"
    using inv fr(1) unfolding vs recon_inv_def by (auto simp: distinct_map intro: inj_on_subset)
  show "set (dict_keys (rec_assignments r)) = cand_ids cs - blocked st"
    using inv unfolding ks recon_inv_def touched_def
    by (auto simp: open_candidates_def cand_ids_def)
  show "blocked st \<subseteq> cand_ids cs" using inv by (auto simp: recon_inv_def touched_def)
  show "rec_conflicts r = rc_conflicts st"
    using assms(1) ids by (auto simp: reconcile_def Let_def st_def)
  show "reg' = (if apply \<and> rec_ok r
       then dict_set sid (apply_assignments cs (rec_assignments r) ?prev) reg else reg)"
    using assms(1) ids by (auto simp: reconcile_def Let_def)
qed

text \<open>
  C34: a reconciliation accounts for every candidate exactly once: it gets an entry ID or it is part
  of a reported conflict, never both; no two candidates get the same entry ID; and the IDs come from
  the source's own bindings or are new. A result with conflicts leaves the registry untouched.
\<close>
theorem reconcile_accounts:
  assumes "reconcile fresh sid cs apply reg = Inr (reg', r)"
    and "distinct (eids (bindings_of sid reg))"
    and "fresh_supply fresh (set (eids (bindings_of sid reg)))"
  shows "set (dict_keys (rec_assignments r)) \<union> (\<Union>c \<in> set (rec_conflicts r). set (conflict_candidates c))
      = cand_ids cs
    \<and> set (dict_keys (rec_assignments r)) \<inter> (\<Union>c \<in> set (rec_conflicts r). set (conflict_candidates c)) = {}
    \<and> distinct (dict_values (rec_assignments r))
    \<and> set (dict_values (rec_assignments r)) \<subseteq> set (eids (bindings_of sid reg)) \<union> range fresh
    \<and> (\<not> rec_ok r \<longrightarrow> reg' = reg)"
proof -
  note R = reconcile_Inr [OF assms]
  have "blocked (match_candidates cs (bindings_of sid reg))
      = (\<Union>c \<in> set (rec_conflicts r). set (conflict_candidates c))"
    by (simp add: blocked_def R(5))
  then show ?thesis using R(3,4,6,7,8) by auto
qed

lemma get_inj:
  assumes "distinct (dict_keys d)" "distinct (dict_values d)"
    "x \<in> set (dict_keys d)" "y \<in> set (dict_keys d)" "the (dict_get d x) = the (dict_get d y)"
  shows "x = y"
proof -
  obtain v where v: "(x, v) \<in> set d" using assms(3) by auto
  obtain w where w: "(y, w) \<in> set d" using assms(4) by auto
  have "v = w" using v w assms(1,5) by simp
  then show ?thesis
    using v w assms(2) inj_onD [of snd "set d" "(x, v)" "(y, w)"] by (simp add: distinct_map)
qed

lemma get_values:
  "distinct (dict_keys d) \<Longrightarrow> (\<lambda>x. the (dict_get d x)) ` set (dict_keys d) = set (dict_values d)"
  by (force simp: image_iff)

lemma apply_assignments_set:
  assumes "distinct (eids previous)" "distinct (map cand_id cs)" "distinct (dict_keys asg)"
    "distinct (dict_values asg)" "set (dict_keys asg) = cand_ids cs"
  shows "set (apply_assignments cs asg previous) = bound asg ` set cs
      \<union> {b\<lparr>bind_active := False\<rparr> | b. b \<in> set previous \<and> bind_entry_id b \<notin> set (dict_values asg)}"
proof -
  let ?off = "map (\<lambda>b. b\<lparr>bind_active := False\<rparr>) previous"
  let ?to = "\<lambda>c. the (dict_get asg (cand_id c))"
  have dist: "distinct (eids ?off)" using assms(1) by (simp add: o_def)
  have inj: "inj_on ?to (set cs)"
  proof (rule inj_onI)
    fix c d
    assume cd: "c \<in> set cs" "d \<in> set cs" "?to c = ?to d"
    then have "cand_id c = cand_id d" using get_inj [OF assms(3,4)] assms(5) by (simp add: cand_ids_def)
    then show "c = d" using assms(2) cd by (auto simp: distinct_map dest: inj_onD)
  qed
  have "?to ` set cs = (\<lambda>x. the (dict_get asg x)) ` cand_ids cs"
    by (simp add: cand_ids_def image_image)
  then have vals: "?to ` set cs = set (dict_values asg)"
    using get_values [OF assms(3)] unfolding assms(5) by simp
  have off: "{b \<in> set ?off. bind_entry_id b \<notin> W}
      = {b\<lparr>bind_active := False\<rparr> | b. b \<in> set previous \<and> bind_entry_id b \<notin> W}" for W
    by auto
  have "distinct cs" using assms(2) by (simp add: distinct_map)
  from fold_rebind_set [OF dist inj this] show ?thesis
    unfolding vals off apply_assignments_def by (simp only: Un_commute)
qed

text \<open>
  C35: an accepted reconciliation rewrites the source's bindings to exactly this: one active binding
  per candidate, under its assigned ID and with its current keys; every other binding the source had
  is kept, inactive, under its old ID. The bindings of all other sources are untouched.
\<close>
theorem reconcile_applied:
  assumes "reconcile fresh sid cs True reg = Inr (reg', r)" and "rec_ok r"
    and "distinct (eids (bindings_of sid reg))"
    and "fresh_supply fresh (set (eids (bindings_of sid reg)))"
  shows "set (bindings_of sid reg') = bound (rec_assignments r) ` set cs
      \<union> {b\<lparr>bind_active := False\<rparr> | b. b \<in> set (bindings_of sid reg)
           \<and> bind_entry_id b \<notin> set (dict_values (rec_assignments r))}
    \<and> set (dict_keys (rec_assignments r)) = cand_ids cs
    \<and> (\<forall>other. other \<noteq> sid \<longrightarrow> bindings_of other reg' = bindings_of other reg)"
proof -
  note R = reconcile_Inr [OF assms(1,3,4)]
  have "blocked (match_candidates cs (bindings_of sid reg)) = {}"
    using assms(2) R(5) by (simp add: blocked_def rec_ok_def)
  then have dom: "set (dict_keys (rec_assignments r)) = cand_ids cs" using R(4) by simp
  have "reg' = dict_set sid (apply_assignments cs (rec_assignments r) (bindings_of sid reg)) reg"
    using R(7) assms(2) by simp
  then show ?thesis
    using apply_assignments_set [OF assms(3) R(1,2,3) dom] dom by simp
qed

text \<open>
  A manual mapping is applied literally or rejected. When it is accepted every candidate is
  active under exactly the ID the operator gave it, no ID is given twice or taken from another source,
  IDs the source did not know are well formed, and the remaining bindings stay, inactive.
\<close>
theorem apply_manual_mapping_applied:
  assumes "apply_manual_mapping sid cs mapping reg = Inr (reg', r)"
    and "distinct (map cand_id cs)" "dict_ok mapping" "distinct (eids (bindings_of sid reg))"
  shows "rec_assignments r = mapping \<and> rec_ok r
    \<and> set (dict_keys mapping) = cand_ids cs \<and> distinct (dict_values mapping)
    \<and> (\<forall>other bs. (other, bs) \<in> set reg \<and> other \<noteq> sid \<longrightarrow> set (dict_values mapping) \<inter> set (eids bs) = {})
    \<and> (\<forall>e \<in> set (new_entry_ids r). safe_id e \<and> e \<notin> set (eids (bindings_of sid reg)))
    \<and> set (bindings_of sid reg') = bound mapping ` set cs
      \<union> {b\<lparr>bind_active := False\<rparr> | b. b \<in> set (bindings_of sid reg)
           \<and> bind_entry_id b \<notin> set (dict_values mapping)}"
proof -
  let ?prev = "bindings_of sid reg"
  let ?others = "\<Union>(osid, bs) \<in> set reg. if osid \<noteq> sid then set (eids bs) else {}"
  have keys: "set (dict_keys mapping) = cand_ids cs"
    and card: "card (set (dict_values mapping)) = length (dict_values mapping)"
    and apart: "set (dict_values mapping) \<inter> ?others = {}"
    and valid: "\<forall>e \<in> set (dict_values mapping). e \<in> set (eids ?prev) \<or> safe_id e"
    and reg': "reg' = dict_set sid (apply_assignments cs mapping ?prev) reg"
    and r: "rec_assignments r = mapping" "rec_conflicts r = []"
      "new_entry_ids r = filter (\<lambda>e. e \<notin> set (eids ?prev)) (dict_values mapping)"
    using assms(1) by (auto simp: apply_manual_mapping_def Let_def cand_ids_def split: if_splits)
  have vals: "distinct (dict_values mapping)" using card by (rule card_distinct)
  have "set (bindings_of sid reg') = bound mapping ` set cs
      \<union> {b\<lparr>bind_active := False\<rparr> | b. b \<in> set ?prev \<and> bind_entry_id b \<notin> set (dict_values mapping)}"
    using apply_assignments_set [OF assms(4,2) _ vals keys] assms(3) reg' by (simp add: dict_ok_def)
  moreover have "set (dict_values mapping) \<inter> set (eids bs) = {}"
    if "(other, bs) \<in> set reg" "other \<noteq> sid" for other bs
    using UN_upper [OF that(1), of "\<lambda>(osid, bs). if osid \<noteq> sid then set (eids bs) else {}"]
      apart that(2) by (auto simp del: set_map)
  moreover have "\<forall>e \<in> set (new_entry_ids r). safe_id e \<and> e \<notin> set (eids ?prev)"
    using valid r(3) by (auto simp del: set_map)
  ultimately show ?thesis using keys vals r(1,2) unfolding rec_ok_def by blast
qed

section \<open>Continuity by name\<close>

text \<open>The part of the state that a step leaves alone: every candidate outside its group.\<close>

definition local_step ::
  "('k \<times> CandidateIdentity list \<Rightarrow> recon \<Rightarrow> recon) \<Rightarrow> bool" where
  "local_step step \<longleftrightarrow> (\<forall>k g st x. g \<noteq> [] \<and> x \<notin> cand_ids g \<longrightarrow>
     dict_get (rc_assignments (step (k, g) st)) x = dict_get (rc_assignments st) x)"

lemma local_steps:
  "local_step (external_step previous)" "local_step (name_step previous)"
  "local_step (fingerprint_step previous)" "local_step (changed_step previous)"
  "local_step duplicate_step"
  by (auto simp: local_step_def external_step_def name_step_def fingerprint_step_def
      changed_step_def duplicate_step_def Let_def cand_ids_def)

lemma local_fold:
  assumes "local_step step" "\<And>k g. (k, g) \<in> set gs \<Longrightarrow> g \<noteq> [] \<and> x \<notin> cand_ids g"
  shows "dict_get (rc_assignments (fold step gs st)) x = dict_get (rc_assignments st) x"
  using assms(2)
proof (induction gs arbitrary: st)
  case Nil
  then show ?case by simp
next
  case (Cons kg gs)
  obtain k g where kg: "kg = (k, g)" by (cases kg)
  have "g \<noteq> [] \<and> x \<notin> cand_ids g" by (rule Cons.prems [of k]) (simp add: kg)
  then have "dict_get (rc_assignments (step (k, g) st)) x = dict_get (rc_assignments st) x"
    using assms(1) by (simp add: local_step_def)
  moreover have "dict_get (rc_assignments (fold step gs (step (k, g) st))) x
      = dict_get (rc_assignments (step (k, g) st)) x"
  proof (rule Cons.IH)
    fix j h
    assume "(j, h) \<in> set gs"
    then show "h \<noteq> [] \<and> x \<notin> cand_ids h" by (intro Cons.prems [of j]) simp
  qed
  ultimately show ?case by (simp add: kg)
qed

lemma later_untouched:
  assumes "x \<in> touched st"
  shows "(k, g) \<in> set (group_by f (open_candidates cs st)) \<Longrightarrow> g \<noteq> [] \<and> x \<notin> cand_ids g"
    and "(k', g') \<in> set (keyed h (open_candidates cs st)) \<Longrightarrow> g' \<noteq> [] \<and> x \<notin> cand_ids g'"
proof -
  assume a: "(k, g) \<in> set (group_by f (open_candidates cs st))"
  then have "g \<noteq> []" unfolding group_by_mem by blast
  then show "g \<noteq> [] \<and> x \<notin> cand_ids g" using group_of_open [OF a] assms by blast
next
  assume a: "(k', g') \<in> set (keyed h (open_candidates cs st))"
  then have "g' \<noteq> []" unfolding keyed_mem by blast
  then show "g' \<noteq> [] \<and> x \<notin> cand_ids g'" using keyed_of_open [OF a] assms by blast
qed

lemma local_groups:
  assumes "local_step step" "x \<in> touched st"
  shows "dict_get (rc_assignments (fold step (group_by f (open_candidates cs st)) st)) x
    = dict_get (rc_assignments st) x"
  by (rule local_fold [OF assms(1)]) (rule later_untouched(1) [OF assms(2)])

lemma local_keyed:
  assumes "local_step step" "x \<in> touched st"
  shows "dict_get (rc_assignments (fold step (keyed f (open_candidates cs st)) st)) x
    = dict_get (rc_assignments st) x"
  by (rule local_fold [OF assms(1)]) (rule later_untouched(2) [OF assms(2)])

text \<open>The external phase only touches candidates and bindings that share an external identity.\<close>

lemma external_phase_scope:
  assumes "\<And>k g. (k, g) \<in> set gs \<Longrightarrow> (k, g) \<in> set (keyed cand_external_id cs)"
    and "distinct (eids previous)" "b \<in> set previous"
    and "\<forall>d \<in> set cs. truthy (cand_external_id d) \<longrightarrow> cand_external_id d \<noteq> bind_external_id b"
    and "c \<in> set cs" "\<not> truthy (cand_external_id c)" "distinct (map cand_id cs)"
    and "bind_entry_id b \<notin> rc_used st" "cand_id c \<notin> touched st"
  shows "bind_entry_id b \<notin> rc_used (fold (external_step previous) gs st)
    \<and> cand_id c \<notin> touched (fold (external_step previous) gs st)"
  using assms(1,8,9)
proof (induction gs arbitrary: st)
  case Nil
  then show ?case by simp
next
  case (Cons kg gs)
  obtain k g where kg: "kg = (k, g)" by (cases kg)
  have mem: "(k, g) \<in> set (keyed cand_external_id cs)" using Cons.prems(1) kg by simp
  then have g: "g \<noteq> []" "\<And>d. d \<in> set g \<Longrightarrow> d \<in> set cs \<and> truthy (cand_external_id d) \<and> cand_external_id d = Some k"
    unfolding keyed_mem by (blast, auto simp: truthy_def)
  have cg: "cand_id c \<notin> cand_ids g"
    using g(2) assms(5,6,7) by (auto simp: cand_ids_def distinct_map dest: inj_onD)
  have other: "bind_entry_id b' \<noteq> bind_entry_id b"
    if "b' \<in> set (rows bind_external_id previous k)" for b'
  proof
    assume same: "bind_entry_id b' = bind_entry_id b"
    have "b' \<in> set previous" "bind_external_id b' = Some k"
      using that by (auto simp: rows_eq truthy_def)
    then have "bind_external_id b = Some k"
      using same assms(2,3) by (auto simp: distinct_map dest: inj_onD)
    moreover have "hd g \<in> set g" using g(1) by simp
    ultimately show False using g(2) assms(4) by metis
  qed
  have "bind_entry_id (hd (rows bind_external_id previous k)) \<noteq> bind_entry_id b"
    if "length (rows bind_external_id previous k) = 1"
    using other [OF pick_one [OF that]] .
  then have "bind_entry_id b \<notin> rc_used (external_step previous (k, g) st)"
    using Cons.prems(2) by (auto simp: external_step_def Let_def)
  moreover have "cand_id c \<notin> touched (external_step previous (k, g) st)"
    using Cons.prems(3) cg g(1) by (auto simp: external_step_def Let_def cand_ids_def)
  ultimately show ?case using Cons.IH Cons.prems(1) kg by simp
qed

text \<open>A group of one name leaves the bindings of every other name available.\<close>

lemma name_phase_keeps:
  assumes "k \<notin> fst ` set gs" "distinct (eids previous)" "b \<in> set previous" "bind_name_key b = Some k"
    "bind_entry_id b \<notin> rc_used st"
  shows "bind_entry_id b \<notin> rc_used (fold (name_step previous) gs st)"
  using assms(1,5)
proof (induction gs arbitrary: st)
  case Nil
  then show ?case by simp
next
  case (Cons jg gs)
  obtain j g where jg: "jg = (j, g)" by (cases jg)
  have other: "bind_entry_id b' \<noteq> bind_entry_id b"
    if "b' \<in> set (available st (rows bind_name_key previous j))" for b'
  proof
    assume same: "bind_entry_id b' = bind_entry_id b"
    have "b' \<in> set previous" "bind_name_key b' = Some j"
      using that by (auto simp: available_def rows_eq truthy_def)
    then have "bind_name_key b = Some j"
      using same assms(2,3) by (auto simp: distinct_map dest: inj_onD)
    then show False using assms(4) Cons.prems(1) jg by simp
  qed
  have "bind_entry_id (hd (available st (rows bind_name_key previous j))) \<noteq> bind_entry_id b"
    if "length (available st (rows bind_name_key previous j)) = 1"
    using other [OF pick_one [OF that]] .
  then have "bind_entry_id b \<notin> rc_used (name_step previous (j, g) st)"
    using Cons.prems(2) by (auto simp: name_step_def Let_def)
  then show ?case using Cons.IH Cons.prems(1) jg by simp
qed

lemma match_keeps_name:
  assumes ids: "distinct (map cand_id cs)" and dist: "distinct (eids previous)"
    and c: "c \<in> set cs" "filter (\<lambda>d. cand_name_key d = cand_name_key c) cs = [c]"
      "\<not> truthy (cand_external_id c)" "cand_name_key c \<noteq> []"
    and b: "filter (\<lambda>b. bind_name_key b = Some (cand_name_key c)) previous = [b]"
      "\<forall>d \<in> set cs. truthy (cand_external_id d) \<longrightarrow> cand_external_id d \<noteq> bind_external_id b"
  shows "dict_get (rc_assignments (match_candidates cs previous)) (cand_id c) = Some (bind_entry_id b)"
proof -
  let ?k = "cand_name_key c"
  define s0 where "s0 = \<lparr>rc_assignments = [], rc_used = {}, rc_conflicts = []\<rparr>"
  define s1 where "s1 = fold (external_step previous) (keyed cand_external_id cs) s0"
  define s2 where "s2 = fold (name_step previous) (group_by cand_name_key (open_candidates cs s1)) s1"
  define s3 where "s3 = fold (fingerprint_step previous) (keyed cand_fingerprint (open_candidates cs s2)) s2"
  define s4 where "s4 = fold (changed_step previous) (group_by cand_name_key (open_candidates cs s3)) s3"
  have bm: "b \<in> set previous" "bind_name_key b = Some ?k"
    using b(1) filter_set [of "\<lambda>b. bind_name_key b = Some ?k" previous] by auto
  have "bind_entry_id b \<notin> rc_used s0" "cand_id c \<notin> touched s0"
    by (simp_all add: s0_def touched_def blocked_def)
  then have s1: "bind_entry_id b \<notin> rc_used s1" "cand_id c \<notin> touched s1"
    using external_phase_scope [OF _ dist bm(1) b(2) c(1,3) ids, of "keyed cand_external_id cs" s0]
    unfolding s1_def by blast+
  let ?open = "open_candidates cs s1"
  let ?gs = "group_by cand_name_key ?open"
  have "filter (\<lambda>d. cand_name_key d = ?k) ?open = filter (\<lambda>d. cand_id d \<notin> touched s1) [c]"
    unfolding c(2) [symmetric]
    by (simp add: open_candidates_def touched_def conj_commute conj_left_commute)
  then have "(?k, [c]) \<in> set ?gs" using s1(2) by (simp add: group_by_mem)
  then obtain as bs where gs: "?gs = as @ (?k, [c]) # bs" by (meson split_list)
  have sep: "distinct (dict_keys ?gs)" using dict_ok_group_by [of cand_name_key ?open]
    by (simp add: dict_ok_def)
  define t where "t = fold (name_step previous) as s1"
  have free: "bind_entry_id b \<notin> rc_used t"
    unfolding t_def using sep
    by (intro name_phase_keeps [OF _ dist bm s1(1)]) (simp add: gs)
  have "rows bind_name_key previous ?k = [b]"
    using b(1) c(4) unfolding rows_eq
    by (subst filter_cong [OF refl, where Q = "\<lambda>b. bind_name_key b = Some ?k"]) (auto simp: truthy_def)
  then have "available t (rows bind_name_key previous ?k) = [b]" using free by (simp add: available_def)
  then have now: "dict_get (rc_assignments (name_step previous (?k, [c]) t)) (cand_id c)
      = Some (bind_entry_id b)"
    by (simp add: name_step_def)
  have "j \<noteq> ?k \<and> g \<noteq> [] \<and> cand_id c \<notin> cand_ids g" if "(j, g) \<in> set bs" for j g
  proof -
    have "?k \<notin> fst ` set bs" using sep unfolding gs by simp
    then have jk: "j \<noteq> ?k" using that by (metis fst_conv image_eqI)
    have mem: "(j, g) \<in> set ?gs" unfolding gs using that by simp
    have g: "g = filter (\<lambda>d. cand_name_key d = j) ?open" "g \<noteq> []"
      using mem unfolding group_by_mem by blast+
    have "c \<notin> set g" using jk unfolding g(1) by simp
    moreover have "set g \<subseteq> set cs" using group_of_open [OF mem] by blast
    ultimately have "cand_id c \<notin> cand_ids g"
      using ids c(1) inj_onD [of cand_id "set cs" c] by (auto simp: cand_ids_def distinct_map)
    then show ?thesis using jk g(2) by simp
  qed
  then have "dict_get (rc_assignments s2) (cand_id c) = Some (bind_entry_id b)"
    using local_fold [OF local_steps(2), of bs "cand_id c"] now
    by (simp add: s2_def gs t_def)
  then have g2: "dict_get (rc_assignments s2) (cand_id c) = Some (bind_entry_id b)" .
  have touch: "cand_id c \<in> touched st"
    if "dict_get (rc_assignments st) (cand_id c) = Some (bind_entry_id b)" for st
    using dict_get_in [OF that] by (force simp: touched_def)
  have g3: "dict_get (rc_assignments s3) (cand_id c) = Some (bind_entry_id b)"
    unfolding s3_def local_keyed [OF local_steps(3) touch [OF g2]] by (rule g2)
  have g4: "dict_get (rc_assignments s4) (cand_id c) = Some (bind_entry_id b)"
    unfolding s4_def local_groups [OF local_steps(4) touch [OF g3]] by (rule g3)
  have "dict_get (rc_assignments (match_candidates cs previous)) (cand_id c)
      = dict_get (rc_assignments s4) (cand_id c)"
    unfolding match_candidates_def Let_def s0_def [symmetric] s1_def [symmetric] s2_def [symmetric]
      s3_def [symmetric] s4_def [symmetric]
    by (rule local_groups [OF local_steps(5) touch [OF g4]])
  then show ?thesis using g4 by simp
qed

text \<open>
  A rotation of credentials keeps the public ID. A candidate without a source-provided identity
  whose name is unique in the refreshed source and belongs to exactly one binding keeps that binding's
  entry ID, whatever happened to its connection fingerprint (provided no other candidate claims the
  binding by its external identity).
\<close>
theorem reconcile_keeps_name:
  assumes "reconcile fresh sid cs apply reg = Inr (reg', r)"
    and "distinct (eids (bindings_of sid reg))"
    and "fresh_supply fresh (set (eids (bindings_of sid reg)))"
    and "c \<in> set cs" "filter (\<lambda>d. cand_name_key d = cand_name_key c) cs = [c]"
    and "\<not> truthy (cand_external_id c)" "cand_name_key c \<noteq> []"
    and "filter (\<lambda>b. bind_name_key b = Some (cand_name_key c)) (bindings_of sid reg) = [b]"
    and "\<forall>d \<in> set cs. truthy (cand_external_id d) \<longrightarrow> cand_external_id d \<noteq> bind_external_id b"
  shows "entry_id_for r (cand_id c) = Inr (bind_entry_id b)"
proof -
  note R = reconcile_Inr [OF assms(1-3)]
  from R(9) obtain more where
    "rec_assignments r = rc_assignments (match_candidates cs (bindings_of sid reg)) @ more" ..
  with match_keeps_name [OF R(1) assms(2,4-9)] show ?thesis
    by (simp add: entry_id_for_def map_add_def)
qed

section \<open>The registry as a whole\<close>

text \<open>Every source has one binding per entry ID, and sources share no entry ID.\<close>

definition registry_ok :: "IdentityRegistry \<Rightarrow> bool" where
  "registry_ok reg \<longleftrightarrow> dict_ok reg
     \<and> (\<forall>sid. distinct (eids (bindings_of sid reg)))
     \<and> (\<forall>sid sid'. sid \<noteq> sid' \<longrightarrow>
          set (eids (bindings_of sid reg)) \<inter> set (eids (bindings_of sid' reg)) = {})"

definition registry_eids :: "IdentityRegistry \<Rightarrow> string set" where
  "registry_eids reg = (\<Union>sid. set (eids (bindings_of sid reg)))"

lemma registry_ok_set:
  assumes "registry_ok reg" "distinct (eids bs)"
    "\<And>other. other \<noteq> sid \<Longrightarrow> set (eids bs) \<inter> set (eids (bindings_of other reg)) = {}"
  shows "registry_ok (dict_set sid bs reg)"
  using assms unfolding registry_ok_def
  by (auto simp del: set_map simp: Int_commute)

lemma apply_assignments_eids:
  assumes "distinct (eids previous)"
  shows "distinct (eids (apply_assignments cs asg previous))"
    "set (eids (apply_assignments cs asg previous))
      = set (eids previous) \<union> (\<lambda>c. the (dict_get asg (cand_id c))) ` set cs"
proof -
  let ?off = "map (\<lambda>b. b\<lparr>bind_active := False\<rparr>) previous"
  have off: "eids ?off = eids previous" by (simp add: o_def)
  have "distinct (eids ?off)" unfolding off by (rule assms)
  from fold_rebind_eids [OF this]
  show "distinct (eids (apply_assignments cs asg previous))"
    "set (eids (apply_assignments cs asg previous))
      = set (eids previous) \<union> (\<lambda>c. the (dict_get asg (cand_id c))) ` set cs"
    unfolding apply_assignments_def off by blast+
qed

lemma registry_ok_reconcile:
  assumes "reconcile fresh sid cs apply reg = Inr (reg', r)" "registry_ok reg"
    "fresh_supply fresh (registry_eids reg)"
  shows "registry_ok reg'"
proof -
  let ?prev = "bindings_of sid reg"
  have dist: "distinct (eids ?prev)" using assms(2) by (simp add: registry_ok_def)
  have fr: "fresh_supply fresh (set (eids ?prev))"
    using assms(3) by (auto simp: fresh_supply_def registry_eids_def)
  note R = reconcile_Inr [OF assms(1) dist fr]
  show ?thesis
  proof (cases "apply \<and> rec_ok r")
    case False
    then show ?thesis using R(7) assms(2) by auto
  next
    case True
    let ?bs = "apply_assignments cs (rec_assignments r) ?prev"
    note E = apply_assignments_eids [OF dist, of cs "rec_assignments r"]
    have none: "blocked (match_candidates cs ?prev) = {}"
      using True R(5) by (simp add: blocked_def rec_ok_def)
    have "(\<lambda>c. the (dict_get (rec_assignments r) (cand_id c))) ` set cs
        = (\<lambda>x. the (dict_get (rec_assignments r) x)) ` cand_ids cs"
      by (simp add: cand_ids_def image_image)
    also have "\<dots> = set (dict_values (rec_assignments r))"
      using get_values [OF R(2)] R(4) none by simp
    finally have "set (eids ?bs) \<subseteq> set (eids ?prev) \<union> range fresh" using E(2) R(6) by auto
    moreover have "range fresh \<inter> set (eids (bindings_of other reg)) = {}" for other
      using assms(3) by (auto simp: fresh_supply_def registry_eids_def)
    moreover have "set (eids ?prev) \<inter> set (eids (bindings_of other reg)) = {}" if "other \<noteq> sid" for other
      using assms(2) that unfolding registry_ok_def by blast
    ultimately have "registry_ok (dict_set sid ?bs reg)"
      by (intro registry_ok_set [OF assms(2) E(1)]) blast
    with True R(7) show ?thesis by simp
  qed
qed

lemma registry_ok_manual:
  assumes "apply_manual_mapping sid cs mapping reg = Inr (reg', r)" "registry_ok reg" "dict_ok mapping"
  shows "registry_ok reg'"
proof -
  let ?prev = "bindings_of sid reg"
  let ?bs = "apply_assignments cs mapping ?prev"
  let ?others = "\<Union>(osid, bs) \<in> set reg. if osid \<noteq> sid then set (eids bs) else {}"
  have reg': "reg' = dict_set sid ?bs reg"
    and keys: "set (dict_keys mapping) = cand_id ` set cs"
    and apart: "set (dict_values mapping) \<inter> ?others = {}"
    using assms(1) by (auto simp: apply_manual_mapping_def Let_def split: if_splits)
  have dist: "distinct (eids ?prev)" using assms(2) by (simp add: registry_ok_def)
  note E = apply_assignments_eids [OF dist, of cs mapping]
  have "(\<lambda>c. the (dict_get mapping (cand_id c))) ` set cs
      = (\<lambda>x. the (dict_get mapping x)) ` (cand_id ` set cs)"
    by (simp add: image_image)
  also have "\<dots> = set (dict_values mapping)"
    using get_values [of mapping] assms(3) keys by (simp add: dict_ok_def)
  finally have "set (eids ?bs) = set (eids ?prev) \<union> set (dict_values mapping)" using E(2) by simp
  moreover have "set (eids (bindings_of other reg)) \<subseteq> ?others" if "other \<noteq> sid" for other
  proof (cases "dict_get reg other")
    case None
    then show ?thesis by (simp add: bindings_of_def)
  next
    case (Some bs)
    then have "(other, bs) \<in> set reg" by (rule dict_get_in)
    from UN_upper [OF this, of "\<lambda>(osid, bs). if osid \<noteq> sid then set (eids bs) else {}"] that
    have "set (eids bs) \<subseteq> ?others" by simp
    with Some show ?thesis by (simp add: bindings_of_def)
  qed
  moreover have "set (eids ?prev) \<inter> set (eids (bindings_of other reg)) = {}" if "other \<noteq> sid" for other
    using assms(2) that unfolding registry_ok_def by blast
  ultimately have "registry_ok (dict_set sid ?bs reg)"
    using apart by (intro registry_ok_set [OF assms(2) E(1)]) blast
  then show ?thesis by (simp add: reg')
qed

lemma prune_fold:
  assumes "distinct (dict_keys items)"
    "\<And>sid bs. (sid, bs) \<in> set items \<Longrightarrow> bindings_of sid reg = bs"
  shows "bindings_of sid (fst (fold prune_step items (reg, n)))
    = (if sid \<in> set (dict_keys items) then filter matchable (bindings_of sid reg)
       else bindings_of sid reg)"
  using assms
proof (induction items arbitrary: reg n)
  case Nil
  then show ?case by simp
next
  case (Cons it items)
  obtain s bs where it: "it = (s, bs)" by (cases it)
  have bs: "bindings_of s reg = bs" using Cons.prems(2) it by simp
  define reg1 where "reg1 = fst (prune_step (s, bs) (reg, n))"
  obtain m where step: "prune_step (s, bs) (reg, n) = (reg1, m)"
    unfolding reg1_def by (cases "prune_step (s, bs) (reg, n)") simp
  have one: "bindings_of t reg1 = (if t = s then filter matchable bs else bindings_of t reg)" for t
    unfolding reg1_def by (auto simp: prune_step_def Let_def bindings_of_def)
  have "s \<notin> set (dict_keys items)" "distinct (dict_keys items)" using Cons.prems(1) it by simp_all
  moreover have "bindings_of t reg1 = cs" if "(t, cs) \<in> set items" for t cs
  proof -
    have "t \<noteq> s" using calculation(1) that by (metis fst_conv image_eqI list.set_map)
    then show ?thesis using one Cons.prems(2) [of t cs] that by simp
  qed
  ultimately show ?case
    using Cons.IH [of reg1 m] one bs by (auto simp: it step)
qed

lemma bindings_of_prune:
  assumes "dict_ok reg"
  shows "bindings_of sid (fst (prune_unmatchable_inactive reg)) = filter matchable (bindings_of sid reg)"
proof -
  have "bindings_of s reg = bs" if "(s, bs) \<in> set reg" for s bs
    using dict_mem_get [OF assms that] by (simp add: bindings_of_def)
  then have "bindings_of sid (fst (fold prune_step reg (reg, 0)))
      = (if sid \<in> set (dict_keys reg) then filter matchable (bindings_of sid reg)
         else bindings_of sid reg)"
    using assms by (intro prune_fold) (simp_all add: dict_ok_def)
  moreover have "bindings_of sid reg = []" if "sid \<notin> set (dict_keys reg)"
    using that unfolding dict_get_None_iff [symmetric] by (simp add: bindings_of_def)
  ultimately show ?thesis by (auto simp: prune_unmatchable_inactive_def)
qed

lemma dict_ok_prune: "dict_ok reg \<Longrightarrow> dict_ok (fst (prune_unmatchable_inactive reg))"
proof -
  have "dict_ok r \<Longrightarrow> dict_ok (fst (fold prune_step items (r, n)))" for items r n
    by (induction items arbitrary: r n) (auto simp: prune_step_def Let_def)
  then show "dict_ok reg \<Longrightarrow> dict_ok (fst (prune_unmatchable_inactive reg))"
    by (simp add: prune_unmatchable_inactive_def)
qed

lemma registry_ok_prune:
  assumes "registry_ok reg"
  shows "registry_ok (fst (prune_unmatchable_inactive reg))"
  using assms unfolding registry_ok_def
  by (fastforce simp: bindings_of_prune dict_ok_prune intro: distinct_map_filter)

lemma rows_matchable:
  assumes "\<And>b. truthy (f b) \<Longrightarrow> matchable b"
  shows "rows f (filter matchable bs) k = rows f bs k"
  unfolding rows_eq using assms by (induction bs) auto

lemma match_candidates_prune: "match_candidates cs (filter matchable bs) = match_candidates cs bs"
proof -
  have "rows bind_external_id (filter matchable bs) k = rows bind_external_id bs k"
    "rows bind_name_key (filter matchable bs) k = rows bind_name_key bs k"
    "rows bind_fingerprint (filter matchable bs) k = rows bind_fingerprint bs k" for k
    by (intro rows_matchable; auto simp: matchable_def truthy_def)+
  then have steps: "external_step (filter matchable bs) = external_step bs"
    "name_step (filter matchable bs) = name_step bs"
    "fingerprint_step (filter matchable bs) = fingerprint_step bs"
    "changed_step (filter matchable bs) = changed_step bs"
    by (auto simp: external_step_def name_step_def fingerprint_step_def changed_step_def fun_eq_iff)
  show ?thesis by (simp add: match_candidates_def steps)
qed

text \<open>
  Pruning the registry is invisible to reconciliation. Whatever the candidates are, reconciling
  against the pruned registry gives the same error or the same result (IDs, conflicts, disappeared
  entries), and pruning keeps every binding that is active or has a key.
\<close>
theorem prune_invisible:
  assumes "dict_ok reg"
  shows "map_sum id snd (reconcile fresh sid cs apply (fst (prune_unmatchable_inactive reg)))
      = map_sum id snd (reconcile fresh sid cs apply reg)
    \<and> bindings_of sid (fst (prune_unmatchable_inactive reg)) = filter matchable (bindings_of sid reg)"
proof -
  have "filter (\<lambda>b. bind_active b \<and> P b) (filter matchable bs) = filter (\<lambda>b. bind_active b \<and> P b) bs"
    for P bs by (induction bs) (auto simp: matchable_def)
  then show ?thesis
    by (simp add: reconcile_def Let_def bindings_of_prune [OF assms] match_candidates_prune)
qed

text \<open>The registry over its lifetime: any sequence of operations, with IDs that \<open>uuid4\<close> has not
  handed out before.\<close>

inductive registry_step :: "IdentityRegistry \<Rightarrow> IdentityRegistry \<Rightarrow> bool" where
  step_reconcile: "fresh_supply fresh (registry_eids reg)
     \<Longrightarrow> reconcile fresh sid cs apply reg = Inr (reg', r) \<Longrightarrow> registry_step reg reg'"
| step_manual: "dict_ok mapping \<Longrightarrow> apply_manual_mapping sid cs mapping reg = Inr (reg', r)
     \<Longrightarrow> registry_step reg reg'"
| step_prune: "registry_step reg (fst (prune_unmatchable_inactive reg))"

interpretation registry: invariant_system "\<lambda>reg. reg = []" registry_step registry_ok
proof
  show "registry_ok s" if "s = []" for s
    using that by (simp add: registry_ok_def bindings_of_def)
  show "registry_ok t" if "registry_ok s" "registry_step s t" for s t
    using that(2,1)
    by cases (auto intro: registry_ok_reconcile registry_ok_manual registry_ok_prune)
qed

text \<open>
  C36: in every registry that a sequence of reconciliations, manual mappings and prunings can build,
  each source has at most one binding per entry ID and no entry ID is bound in two sources.
\<close>
theorem registry_ids_unique:
  assumes "reachable (\<lambda>reg. reg = []) registry_step reg"
  shows "distinct (eids (bindings_of sid reg))
    \<and> (sid \<noteq> sid' \<longrightarrow> set (eids (bindings_of sid reg)) \<inter> set (eids (bindings_of sid' reg)) = {})"
  using registry.inv_reachable [OF assms] unfolding registry_ok_def by blast

section \<open>Concrete registries\<close>

definition example_fresh :: "nat \<Rightarrow> string" where
  "example_fresh n = ''entry_'' @ replicate n (CHR ''a'')"

definition cand :: "string \<Rightarrow> string \<Rightarrow> string \<Rightarrow> CandidateIdentity" where
  "cand i n f = \<lparr>cand_id = i, cand_name_key = n, cand_fingerprint = Some f, cand_external_id = None\<rparr>"

definition example_binding :: IdentityBinding where
  "example_binding = \<lparr>bind_entry_id = ''e1'', bind_external_id = None, bind_name_key = Some ''nl'',
     bind_fingerprint = Some ''f1'', bind_active = True\<rparr>"

definition example_registry :: IdentityRegistry where
  "example_registry = [(''src'', [example_binding])]"

definition example_cands :: "CandidateIdentity list" where
  "example_cands = [cand ''c1'' ''nl'' ''f2'', cand ''c2'' ''de'' ''f3'']"

definition twin_cands :: "CandidateIdentity list" where
  "twin_cands = [cand ''c1'' ''nl'' ''f1'', cand ''c2'' ''nl'' ''f2'',
     cand ''c3'' ''de'' ''f1'', cand ''c4'' ''de'' ''f2'']"

text \<open>
  A refresh that changes nothing can be refused. Four new entries with two names and two
  fingerprints, each pair of which is unique, are accepted at the first import; when the unchanged
  source is imported again, names and fingerprints are both ambiguous and the refresh conflicts.
\<close>
theorem identical_refresh_conflicts:
  "(case reconcile example_fresh ''src'' twin_cands True [] of
      Inl e \<Rightarrow> False
    | Inr (reg, first) \<Rightarrow>
        rec_ok first \<and>
        (case reconcile example_fresh ''src'' twin_cands True reg of
           Inl e \<Rightarrow> False
         | Inr (reg', again) \<Rightarrow> \<not> rec_ok again \<and> reg' = reg))"
  by code_simp

text \<open>The refresh of a source with one known entry whose credentials were rotated and a new entry.\<close>

definition example_result :: ReconciliationResult where
  "example_result = \<lparr>rec_source_id = ''src'', rec_assignments = [(''c1'', ''e1''), (''c2'', ''entry_'')],
     new_entry_ids = [''entry_''], disappeared_entry_ids = [], rec_conflicts = []\<rparr>"

definition example_registry' :: IdentityRegistry where
  "example_registry' = [(''src'', [bound (rec_assignments example_result) (cand ''c1'' ''nl'' ''f2''),
     bound (rec_assignments example_result) (cand ''c2'' ''de'' ''f3'')])]"

lemma example_reconciled:
  "reconcile example_fresh ''src'' example_cands True example_registry
     = Inr (example_registry', example_result)"
  by code_simp

lemma example_supply:
  "fresh_supply example_fresh (set (eids (bindings_of ''src'' example_registry)))"
  "distinct (eids (bindings_of ''src'' example_registry))"
proof -
  have "inj example_fresh"
    by (rule injI) (metis example_fresh_def append_same_eq length_replicate same_append_eq)
  moreover have "eids (bindings_of ''src'' example_registry) = [''e1'']" by code_simp
  ultimately show "fresh_supply example_fresh (set (eids (bindings_of ''src'' example_registry)))"
    "distinct (eids (bindings_of ''src'' example_registry))"
    by (auto simp: fresh_supply_def example_fresh_def)
qed

theorem reconcile_accounts_witness:
  "set (dict_keys (rec_assignments example_result)) = cand_ids example_cands
   \<and> distinct (dict_values (rec_assignments example_result))"
  using reconcile_accounts [OF example_reconciled example_supply(2,1)]
  by (auto simp: example_result_def)

theorem reconcile_applied_witness:
  "bindings_of ''other'' example_registry' = bindings_of ''other'' example_registry
   \<and> set (dict_keys (rec_assignments example_result)) = cand_ids example_cands"
  using reconcile_applied [OF example_reconciled _ example_supply(2,1)]
  by (simp add: rec_ok_def example_result_def)

theorem reconcile_keeps_name_witness:
  "entry_id_for example_result ''c1'' = Inr ''e1''"
proof -
  have c: "cand ''c1'' ''nl'' ''f2'' \<in> set example_cands" by (simp add: example_cands_def)
  show ?thesis
    using reconcile_keeps_name [OF example_reconciled example_supply(2,1) c, of example_binding]
    by (simp add: example_cands_def example_registry_def example_binding_def bindings_of_def cand_def)
qed

definition example_unkeyed :: IdentityBinding where
  "example_unkeyed = \<lparr>bind_entry_id = ''e0'', bind_external_id = None, bind_name_key = None,
     bind_fingerprint = None, bind_active = False\<rparr>"

theorem prune_invisible_witness:
  "map_sum id snd (reconcile example_fresh ''src'' example_cands True [(''src'', [example_binding])])
   = map_sum id snd (reconcile example_fresh ''src'' example_cands True
       [(''src'', [example_unkeyed, example_binding])])
   \<and> prune_unmatchable_inactive [(''src'', [example_unkeyed, example_binding])]
     = ([(''src'', [example_binding])], 1)"
proof -
  have "prune_unmatchable_inactive [(''src'', [example_unkeyed, example_binding])]
     = ([(''src'', [example_binding])], 1)"
    by code_simp
  then show ?thesis
    using prune_invisible [of "[(''src'', [example_unkeyed, example_binding])]" example_fresh
        "''src''" example_cands True]
    by (simp add: dict_ok_def)
qed

lemma example_reachable:
  "reachable (\<lambda>reg. reg = []) registry_step [(''a'', [bound [(''c1'', ''entry_'')] (cand ''c1'' ''nl'' ''f1'')])]"
proof (rule reachable_move [OF reachable_start [of _ "[]"]])
  let ?r = "\<lparr>rec_source_id = ''a'', rec_assignments = [(''c1'', ''entry_'')],
    new_entry_ids = [''entry_''], disappeared_entry_ids = [], rec_conflicts = []\<rparr>"
  have "reconcile example_fresh ''a'' [cand ''c1'' ''nl'' ''f1''] True []
      = Inr ([(''a'', [bound [(''c1'', ''entry_'')] (cand ''c1'' ''nl'' ''f1'')])], ?r)"
    by code_simp
  moreover have "fresh_supply example_fresh (registry_eids [])"
    using example_supply(1) by (simp add: fresh_supply_def registry_eids_def bindings_of_def)
  ultimately show "registry_step [] [(''a'', [bound [(''c1'', ''entry_'')] (cand ''c1'' ''nl'' ''f1'')])]"
    by (rule step_reconcile [rotated])
qed simp

theorem registry_ids_unique_witness:
  "distinct (eids (bindings_of ''a'' [(''a'', [bound [(''c1'', ''entry_'')] (cand ''c1'' ''nl'' ''f1'')])]))"
  using registry_ids_unique [OF example_reachable] by blast

theorem apply_manual_mapping_applied_witness:
  "\<exists>reg' r. apply_manual_mapping ''src'' example_cands [(''c1'', ''e9''), (''c2'', ''e1'')] example_registry
      = Inr (reg', r) \<and> rec_ok r \<and> bindings_of ''src'' reg' \<noteq> []"
proof -
  let ?m = "[(''c1'', ''e9''), (''c2'', ''e1'')]"
  let ?bs = "apply_assignments example_cands ?m (bindings_of ''src'' example_registry)"
  obtain reg' r where ok:
    "apply_manual_mapping ''src'' example_cands ?m example_registry = Inr (reg', r)"
  proof -
    have "\<not> isl (apply_manual_mapping ''src'' example_cands ?m example_registry)" by code_simp
    then show ?thesis using that
      by (cases "apply_manual_mapping ''src'' example_cands ?m example_registry") auto
  qed
  have "distinct (map cand_id example_cands)" "dict_ok ?m" by code_simp+
  from apply_manual_mapping_applied [OF ok this example_supply(2)]
  have "rec_ok r" "set (bindings_of ''src'' reg') \<noteq> {}" by (auto simp: example_cands_def)
  with ok show ?thesis by auto
qed

end
