(* ===== verification/Scheduler.thy ===== *)
theory Scheduler
  imports Prelude
begin

text \<open>
  \<open>src/xray_e2e_prober/scheduler.py\<close>. The scheduler runs on one event loop, so the code between two
  \<open>await\<close>s is atomic: every definition of the section ``Segments'' is one such stretch, and
  \<open>scheduler_step\<close> interleaves them in any order. Producers, workers and callers of \<open>run_once\<close> are
  the tasks; the runner and the error callback are free to return, raise or be cancelled at any time.
  Interval timing only decides when a producer ticks and is left open. Futures are numbered in the
  order in which \<open>run_once\<close> creates them.
\<close>

section \<open>State\<close>

record ScheduledCheck =
  sc_check_id :: string
  sc_generation :: string
  interval_seconds :: rat

record WorkItem =
  item_check :: ScheduledCheck
  item_future :: "nat option"

datatype future_state = FPending | FResult | FException string | FCancelled

text \<open>Where a worker task stands: waiting in \<open>queue.get()\<close>, awaiting the runner, awaiting the error
  callback after the runner raised, or ended.\<close>

datatype worker = WIdle | WRunning WorkItem | WReporting WorkItem | WEnded

record scheduler =
  concurrency :: nat
  max_queue :: nat
  queue :: "WorkItem list"
  jobs :: "string \<Rightarrow> ScheduledCheck option"
  producers :: "string \<Rightarrow> ScheduledCheck option"
  workers :: "worker list"
  queued :: "string set"
  running :: "string set"
  queued_generations :: "string \<Rightarrow> string option"
  running_generations :: "string \<Rightarrow> string option"
  known_generations :: "string \<Rightarrow> string option option"
  started :: bool
  stopping :: bool
  futures :: "future_state list"
  reports :: "(ScheduledCheck \<times> string) list"

definition new_scheduler :: "nat \<Rightarrow> nat \<Rightarrow> string + scheduler" where
  "new_scheduler conc maxq =
     (if conc < 1 \<or> maxq < 1 then Inl ''scheduler limits must be positive''
      else Inr \<lparr>concurrency = conc, max_queue = maxq, queue = [], jobs = (\<lambda>_. None),
        producers = (\<lambda>_. None), workers = [], queued = {}, running = {},
        queued_generations = (\<lambda>_. None), running_generations = (\<lambda>_. None),
        known_generations = (\<lambda>_. None), started = False, stopping = False, futures = [],
        reports = []\<rparr>)"

section \<open>Helpers\<close>

definition is_obsolete :: "scheduler \<Rightarrow> WorkItem \<Rightarrow> bool" where
  "is_obsolete s item =
     (let check = item_check item
      in case known_generations s (sc_check_id check) of
           Some g \<Rightarrow> g \<noteq> Some (sc_generation check)
         | None \<Rightarrow>
             (if item_future item \<noteq> None then False
              else case jobs s (sc_check_id check) of
                None \<Rightarrow> True
              | Some current \<Rightarrow> sc_generation current \<noteq> sc_generation check))"

definition conflicts_with_same_generation :: "scheduler \<Rightarrow> ScheduledCheck \<Rightarrow> bool" where
  "conflicts_with_same_generation s check \<longleftrightarrow>
     queued_generations s (sc_check_id check) = Some (sc_generation check)
     \<or> running_generations s (sc_check_id check) = Some (sc_generation check)"

definition forget_removed_generation :: "string \<Rightarrow> scheduler \<Rightarrow> scheduler" where
  "forget_removed_generation cid s =
     (if (known_generations s cid = None \<or> known_generations s cid = Some None)
         \<and> jobs s cid = None \<and> cid \<notin> queued s \<and> cid \<notin> running s
      then s\<lparr>known_generations := (known_generations s)(cid := None)\<rparr> else s)"

definition report_error :: "ScheduledCheck \<Rightarrow> string \<Rightarrow> scheduler \<Rightarrow> scheduler" where
  "report_error check reason s = s\<lparr>reports := reports s @ [(check, reason)]\<rparr>"

text \<open>\<open>if item.future and not item.future.done(): ...\<close>\<close>

definition settle :: "WorkItem \<Rightarrow> future_state \<Rightarrow> scheduler \<Rightarrow> scheduler" where
  "settle item v s =
     (case item_future item of
        None \<Rightarrow> s
      | Some f \<Rightarrow> (if f < length (futures s) \<and> futures s ! f = FPending
                  then s\<lparr>futures := (futures s)[f := v]\<rparr> else s))"

section \<open>Segments\<close>

definition start :: "scheduler \<Rightarrow> scheduler" where
  "start s =
     (if started s then s
      else s\<lparr>started := True, stopping := False, workers := replicate (concurrency s) WIdle,
             producers := (\<lambda>cid. case jobs s cid of Some j \<Rightarrow> Some j | None \<Rightarrow> producers s cid)\<rparr>)"

definition desired_jobs :: "ScheduledCheck list \<Rightarrow> string \<Rightarrow> ScheduledCheck option" where
  "desired_jobs checks = dict_get (dict_of (map (\<lambda>c. (sc_check_id c, c)) checks))"

text \<open>The first two loops of \<open>update\<close>.\<close>

definition desired_generations ::
  "scheduler \<Rightarrow> (string \<Rightarrow> ScheduledCheck option) \<Rightarrow> string \<Rightarrow> string option option" where
  "desired_generations s desired cid =
     (case desired cid of
        Some check \<Rightarrow> Some (Some (sc_generation check))
      | None \<Rightarrow> (if jobs s cid \<noteq> None then Some None else known_generations s cid))"

definition update :: "ScheduledCheck list \<Rightarrow> scheduler \<Rightarrow> scheduler" where
  "update checks s =
     (let desired = desired_jobs checks;
          known = desired_generations s desired;
          kept = (\<lambda>cid. if desired cid = None \<or> jobs s cid \<noteq> desired cid then None
                        else producers s cid);
          known = (\<lambda>cid. if known cid = Some None \<and> cid \<notin> queued s \<and> cid \<notin> running s then None
                         else known cid)
      in s\<lparr>known_generations := known, jobs := desired,
           producers := (if started s
             then (\<lambda>cid. if desired cid \<noteq> None \<and> kept cid = None then desired cid else kept cid)
             else kept)\<rparr>)"

text \<open>The future of a rejected call is dropped before anyone awaits it, so it is not numbered.\<close>

datatype admission = Admitted nat | AlreadyScheduled | QueueFull

definition run_once :: "ScheduledCheck \<Rightarrow> scheduler \<Rightarrow> scheduler \<times> admission" where
  "run_once check s =
     (let cid = sc_check_id check
      in if cid \<in> running s \<or> cid \<in> queued s
         then (if conflicts_with_same_generation s check then report_error check ''scheduler'' s else s,
               AlreadyScheduled)
         else if length (queue s) \<ge> max_queue s
         then (report_error check ''scheduler'' s, QueueFull)
         else let f = length (futures s)
           in (s\<lparr>futures := futures s @ [FPending],
                 queue := queue s @ [\<lparr>item_check = check, item_future = Some f\<rparr>],
                 queued := insert cid (queued s),
                 queued_generations := (queued_generations s)(cid \<mapsto> sc_generation check)\<rparr>,
               Admitted f))"

definition enqueue_scheduled :: "ScheduledCheck \<Rightarrow> scheduler \<Rightarrow> scheduler" where
  "enqueue_scheduled check s =
     (let cid = sc_check_id check
      in if cid \<in> queued s \<or> cid \<in> running s
         then (if conflicts_with_same_generation s check then report_error check ''scheduler'' s else s)
         else if length (queue s) \<ge> max_queue s then report_error check ''scheduler'' s
         else s\<lparr>queue := queue s @ [\<lparr>item_check = check, item_future = None\<rparr>],
                queued := insert cid (queued s),
                queued_generations := (queued_generations s)(cid \<mapsto> sc_generation check)\<rparr>)"

text \<open>One turn of the loop of \<open>_produce\<close>, with the check its task was created for.\<close>

definition produce_tick :: "ScheduledCheck \<Rightarrow> scheduler \<Rightarrow> scheduler" where
  "produce_tick check s =
     (if jobs s (sc_check_id check) = Some check then enqueue_scheduled check s else s)"

definition set_worker :: "nat \<Rightarrow> worker \<Rightarrow> scheduler \<Rightarrow> scheduler" where
  "set_worker i w s = s\<lparr>workers := (workers s)[i := w]\<rparr>"

text \<open>A waiting worker takes the head of the queue, up to \<open>await self._runner(check)\<close>.\<close>

definition worker_get :: "nat \<Rightarrow> scheduler \<Rightarrow> scheduler" where
  "worker_get i s =
     (case queue s of
        [] \<Rightarrow> s
      | item # rest \<Rightarrow>
          let check = item_check item; cid = sc_check_id check;
              s1 = s\<lparr>queue := rest, queued := queued s - {cid},
                     queued_generations :=
                       (if queued_generations s cid = Some (sc_generation check)
                        then (queued_generations s)(cid := None) else queued_generations s)\<rparr>
          in if is_obsolete s1 item
             then forget_removed_generation cid
                    (settle item (FException ''check generation is obsolete'') s1)
             else set_worker i (WRunning item)
                    (s1\<lparr>running := insert cid (running s1),
                        running_generations := (running_generations s1)(cid \<mapsto> sc_generation check)\<rparr>))"

text \<open>The \<open>finally\<close> block.\<close>

definition finish_item :: "WorkItem \<Rightarrow> scheduler \<Rightarrow> scheduler" where
  "finish_item item s =
     (let check = item_check item; cid = sc_check_id check
      in forget_removed_generation cid
           (s\<lparr>running := running s - {cid},
              running_generations :=
                (if running_generations s cid = Some (sc_generation check)
                 then (running_generations s)(cid := None) else running_generations s)\<rparr>))"

definition worker_returned :: "nat \<Rightarrow> WorkItem \<Rightarrow> scheduler \<Rightarrow> scheduler" where
  "worker_returned i item s = set_worker i WIdle (finish_item item (settle item FResult s))"

definition worker_raised :: "nat \<Rightarrow> WorkItem \<Rightarrow> string \<Rightarrow> scheduler \<Rightarrow> scheduler" where
  "worker_raised i item e s =
     (if is_obsolete s item
      then set_worker i WIdle (finish_item item (settle item (FException e) s))
      else set_worker i (WReporting item) (report_error (item_check item) ''internal'' s))"

definition worker_reported :: "nat \<Rightarrow> WorkItem \<Rightarrow> string \<Rightarrow> scheduler \<Rightarrow> scheduler" where
  "worker_reported i item e s =
     set_worker i WIdle (finish_item item (settle item (FException e) s))"

definition worker_cancelled :: "nat \<Rightarrow> scheduler \<Rightarrow> scheduler" where
  "worker_cancelled i s =
     (case workers s ! i of
        WRunning item \<Rightarrow> set_worker i WEnded (finish_item item (settle item FCancelled s))
      | WReporting item \<Rightarrow> set_worker i WEnded (finish_item item (settle item FCancelled s))
      | _ \<Rightarrow> set_worker i WEnded s)"

text \<open>\<open>stop\<close> up to the gathering of the cancelled tasks, and after it.\<close>

definition stop_begin :: "scheduler \<Rightarrow> scheduler" where
  "stop_begin s = (if \<not> started s then s else s\<lparr>stopping := True\<rparr>)"

definition stop_finish :: "scheduler \<Rightarrow> scheduler" where
  "stop_finish s =
     (let s = fold (\<lambda>item. settle item FCancelled) (queue s) s
      in s\<lparr>producers := (\<lambda>_. None), workers := [], queue := [], queued := {}, running := {},
           queued_generations := (\<lambda>_. None), running_generations := (\<lambda>_. None),
           known_generations := (\<lambda>_. None), started := False\<rparr>)"

text \<open>The task that awaits \<open>run_once\<close> is cancelled from outside.\<close>

definition caller_cancelled :: "nat \<Rightarrow> scheduler \<Rightarrow> scheduler" where
  "caller_cancelled f s =
     (if f < length (futures s) \<and> futures s ! f = FPending
      then s\<lparr>futures := (futures s)[f := FCancelled]\<rparr> else s)"

inductive scheduler_step :: "scheduler \<Rightarrow> scheduler \<Rightarrow> bool" where
  "scheduler_step s (start s)"
| "scheduler_step s (update checks s)"
| "scheduler_step s (fst (run_once check s))"
| "scheduler_step s (produce_tick check s)"
| "i < length (workers s) \<Longrightarrow> workers s ! i = WIdle \<Longrightarrow> scheduler_step s (worker_get i s)"
| "i < length (workers s) \<Longrightarrow> workers s ! i = WRunning item
     \<Longrightarrow> scheduler_step s (worker_returned i item s)"
| "i < length (workers s) \<Longrightarrow> workers s ! i = WRunning item
     \<Longrightarrow> scheduler_step s (worker_raised i item e s)"
| "i < length (workers s) \<Longrightarrow> workers s ! i = WReporting item
     \<Longrightarrow> scheduler_step s (worker_reported i item e s)"
| "i < length (workers s) \<Longrightarrow> scheduler_step s (worker_cancelled i s)"
| "scheduler_step s (stop_begin s)"
| "started s \<Longrightarrow> stopping s \<Longrightarrow> set (workers s) \<subseteq> {WEnded} \<Longrightarrow> scheduler_step s (stop_finish s)"
| "scheduler_step s (caller_cancelled f s)"

section \<open>The invariant\<close>

fun held :: "worker \<Rightarrow> WorkItem list" where
  "held (WRunning item) = [item]"
| "held (WReporting item) = [item]"
| "held _ = []"

abbreviation cid_of :: "WorkItem \<Rightarrow> string" where
  "cid_of item \<equiv> sc_check_id (item_check item)"

abbreviation gen_of :: "WorkItem \<Rightarrow> string" where
  "gen_of item \<equiv> sc_generation (item_check item)"

definition held_items :: "scheduler \<Rightarrow> WorkItem list" where
  "held_items s = concat (map held (workers s))"

text \<open>A check is queued or held once at most; the sets mirror the queue and the workers.\<close>

definition inv_items :: "scheduler \<Rightarrow> bool" where
  "inv_items s \<longleftrightarrow> distinct (map cid_of (queue s) @ map cid_of (held_items s))
     \<and> queued s = cid_of ` set (queue s) \<and> running s = cid_of ` set (held_items s)
     \<and> length (queue s) \<le> max_queue s"

definition inv_generations :: "scheduler \<Rightarrow> bool" where
  "inv_generations s \<longleftrightarrow>
     (\<forall>item \<in> set (queue s). queued_generations s (cid_of item) = Some (gen_of item))
     \<and> (\<forall>cid. cid \<notin> queued s \<longrightarrow> queued_generations s cid = None)
     \<and> (\<forall>item \<in> set (held_items s). running_generations s (cid_of item) = Some (gen_of item))
     \<and> (\<forall>cid. cid \<notin> running s \<longrightarrow> running_generations s cid = None)"

definition inv_known :: "scheduler \<Rightarrow> bool" where
  "inv_known s \<longleftrightarrow> (\<forall>cid.
     (known_generations s cid = Some None \<longrightarrow> jobs s cid = None \<and> cid \<in> queued s \<union> running s)
     \<and> (\<forall>g. known_generations s cid = Some (Some g) \<longrightarrow> (\<exists>j. jobs s cid = Some j \<and> sc_generation j = g)))"

definition inv_futures :: "scheduler \<Rightarrow> bool" where
  "inv_futures s \<longleftrightarrow>
     (\<forall>f < length (futures s). futures s ! f = FPending \<longrightarrow>
        (\<exists>item \<in> set (queue s) \<union> set (held_items s). item_future item = Some f))"

definition inv_workers :: "scheduler \<Rightarrow> bool" where
  "inv_workers s \<longleftrightarrow> length (workers s) = (if started s then concurrency s else 0)"

definition scheduler_inv :: "scheduler \<Rightarrow> bool" where
  "scheduler_inv s \<longleftrightarrow> inv_items s \<and> inv_generations s \<and> inv_known s \<and> inv_futures s \<and> inv_workers s"

lemmas inv_defs = scheduler_inv_def inv_items_def inv_generations_def inv_known_def inv_futures_def
  inv_workers_def

section \<open>What the helpers touch\<close>

lemma settle_simps [simp]:
  "queue (settle item v s) = queue s" "workers (settle item v s) = workers s"
  "queued (settle item v s) = queued s" "running (settle item v s) = running s"
  "queued_generations (settle item v s) = queued_generations s"
  "running_generations (settle item v s) = running_generations s"
  "known_generations (settle item v s) = known_generations s" "jobs (settle item v s) = jobs s"
  "started (settle item v s) = started s" "concurrency (settle item v s) = concurrency s"
  "max_queue (settle item v s) = max_queue s" "length (futures (settle item v s)) = length (futures s)"
  "producers (settle item v s) = producers s" "stopping (settle item v s) = stopping s"
  "held_items (settle item v s) = held_items s"
  by (simp_all add: settle_def held_items_def split: option.split)

lemma settle_future:
  "v \<noteq> FPending \<Longrightarrow> f < length (futures s) \<Longrightarrow> futures (settle item v s) ! f = FPending
     \<longleftrightarrow> futures s ! f = FPending \<and> item_future item \<noteq> Some f"
  by (auto simp: settle_def nth_list_update split: option.split)

lemma forget_simps [simp]:
  "queue (forget_removed_generation cid s) = queue s"
  "workers (forget_removed_generation cid s) = workers s"
  "queued (forget_removed_generation cid s) = queued s"
  "running (forget_removed_generation cid s) = running s"
  "queued_generations (forget_removed_generation cid s) = queued_generations s"
  "running_generations (forget_removed_generation cid s) = running_generations s"
  "jobs (forget_removed_generation cid s) = jobs s"
  "started (forget_removed_generation cid s) = started s"
  "concurrency (forget_removed_generation cid s) = concurrency s"
  "max_queue (forget_removed_generation cid s) = max_queue s"
  "futures (forget_removed_generation cid s) = futures s"
  "held_items (forget_removed_generation cid s) = held_items s"
  by (simp_all add: forget_removed_generation_def held_items_def)

lemma forget_known:
  "known_generations (forget_removed_generation cid s) k =
     (if k = cid \<and> (known_generations s cid = None \<or> known_generations s cid = Some None)
         \<and> jobs s cid = None \<and> cid \<notin> queued s \<and> cid \<notin> running s
      then None else known_generations s k)"
  by (auto simp: forget_removed_generation_def)

lemma inv_known_forget:
  assumes "\<And>k. known_generations s k = Some None \<Longrightarrow> jobs s k = None \<and> (k = cid \<or> k \<in> queued s \<union> running s)"
    and "\<And>k g. known_generations s k = Some (Some g) \<Longrightarrow> \<exists>j. jobs s k = Some j \<and> sc_generation j = g"
  shows "inv_known (forget_removed_generation cid s)"
  unfolding inv_known_def
proof (intro allI conjI impI)
  fix k
  assume "known_generations (forget_removed_generation cid s) k = Some None"
  then have k: "known_generations s k = Some None"
      "\<not> (k = cid \<and> jobs s cid = None \<and> cid \<notin> queued s \<and> cid \<notin> running s)"
    by (auto simp: forget_known split: if_splits)
  then show "jobs (forget_removed_generation cid s) k = None"
    "k \<in> queued (forget_removed_generation cid s) \<union> running (forget_removed_generation cid s)"
    using assms(1) [OF k(1)] by auto
next
  fix k g
  assume "known_generations (forget_removed_generation cid s) k = Some (Some g)"
  then show "\<exists>j. jobs (forget_removed_generation cid s) k = Some j \<and> sc_generation j = g"
    using assms(2) by (auto simp: forget_known split: if_splits)
qed

lemma held_split:
  assumes "i < length (workers s)"
  obtains xs ys where "held_items s = xs @ held (workers s ! i) @ ys"
    and "\<And>w s'. workers s' = workers s \<Longrightarrow> held_items (set_worker i w s') = xs @ held w @ ys"
proof
  let ?xs = "concat (map held (take i (workers s)))" and ?ys = "concat (map held (drop (Suc i) (workers s)))"
  show "held_items s = ?xs @ held (workers s ! i) @ ?ys"
    unfolding held_items_def by (subst id_take_nth_drop [OF assms]) simp
  show "held_items (set_worker i w s') = ?xs @ held w @ ?ys" if "workers s' = workers s" for w s'
    unfolding held_items_def set_worker_def using assms that by (simp add: upd_conv_take_nth_drop)
qed

lemma set_worker_simps [simp]:
  "queue (set_worker i w s) = queue s" "queued (set_worker i w s) = queued s"
  "running (set_worker i w s) = running s"
  "queued_generations (set_worker i w s) = queued_generations s"
  "running_generations (set_worker i w s) = running_generations s"
  "known_generations (set_worker i w s) = known_generations s" "jobs (set_worker i w s) = jobs s"
  "started (set_worker i w s) = started s" "concurrency (set_worker i w s) = concurrency s"
  "max_queue (set_worker i w s) = max_queue s" "futures (set_worker i w s) = futures s"
  "length (workers (set_worker i w s)) = length (workers s)"
  by (simp_all add: set_worker_def)

section \<open>Preservation\<close>

lemma inv_same:
  assumes "scheduler_inv s"
    "queue t = queue s" "held_items t = held_items s" "queued t = queued s" "running t = running s"
    "queued_generations t = queued_generations s" "running_generations t = running_generations s"
    "known_generations t = known_generations s" "jobs t = jobs s" "futures t = futures s"
    "max_queue t = max_queue s" "length (workers t) = length (workers s)" "started t = started s"
    "concurrency t = concurrency s"
  shows "scheduler_inv t"
  using assms(1) unfolding inv_defs assms(2-14) .

lemma held_items_cong: "workers t = workers s \<Longrightarrow> held_items t = held_items s"
  by (simp add: held_items_def)

lemma inv_report: "scheduler_inv s \<Longrightarrow> scheduler_inv (report_error check reason s)"
  by (erule inv_same) (simp_all add: report_error_def held_items_def)

lemma inv_new: "new_scheduler conc maxq = Inr s \<Longrightarrow> scheduler_inv s"
  by (auto simp: new_scheduler_def inv_defs held_items_def split: if_splits)

lemma held_items_idle [simp]: "concat (map held (replicate n WIdle)) = []"
  by (induction n) auto

lemma inv_start: "scheduler_inv s \<Longrightarrow> scheduler_inv (start s)"
  by (cases "started s") (auto simp: start_def inv_defs held_items_def)

lemma update_simps [simp]:
  "queue (update checks s) = queue s" "workers (update checks s) = workers s"
  "queued (update checks s) = queued s" "running (update checks s) = running s"
  "queued_generations (update checks s) = queued_generations s"
  "running_generations (update checks s) = running_generations s"
  "jobs (update checks s) = desired_jobs checks" "started (update checks s) = started s"
  "concurrency (update checks s) = concurrency s" "max_queue (update checks s) = max_queue s"
  "futures (update checks s) = futures s" "held_items (update checks s) = held_items s"
  by (simp_all add: update_def Let_def held_items_def)

lemma update_known:
  "known_generations (update checks s) cid =
     (case desired_jobs checks cid of
        Some check \<Rightarrow> Some (Some (sc_generation check))
      | None \<Rightarrow> (if (jobs s cid \<noteq> None \<or> known_generations s cid = Some None)
                   \<and> cid \<in> queued s \<union> running s then Some None
                else if jobs s cid \<noteq> None \<or> known_generations s cid = Some None then None
                else known_generations s cid))"
  by (auto simp: update_def Let_def desired_generations_def split: option.splits)

lemma inv_update:
  assumes "scheduler_inv s"
  shows "scheduler_inv (update checks s)"
proof -
  have known: "inv_known s" using assms by (simp add: scheduler_inv_def)
  have "inv_known (update checks s)"
    unfolding inv_known_def
  proof (intro allI)
    fix cid
    have "known_generations s cid = Some (Some g) \<Longrightarrow> jobs s cid \<noteq> None" for g
      using known unfolding inv_known_def by blast
    then show "(known_generations (update checks s) cid = Some None \<longrightarrow>
          jobs (update checks s) cid = None \<and> cid \<in> queued (update checks s) \<union> running (update checks s))
        \<and> (\<forall>g. known_generations (update checks s) cid = Some (Some g) \<longrightarrow>
            (\<exists>j. jobs (update checks s) cid = Some j \<and> sc_generation j = g))"
      by (auto simp: update_known split: option.splits if_splits)
  qed
  moreover have "inv_items (update checks s) \<and> inv_generations (update checks s)
      \<and> inv_futures (update checks s) \<and> inv_workers (update checks s)"
    using assms
    unfolding scheduler_inv_def inv_items_def inv_generations_def inv_futures_def inv_workers_def
      update_simps by blast
  ultimately show ?thesis by (simp add: scheduler_inv_def)
qed

lemma inv_enqueue:
  assumes "scheduler_inv s" "sc_check_id check \<notin> queued s \<union> running s" "length (queue s) < max_queue s"
    "item = \<lparr>item_check = check, item_future = fut\<rparr>"
    "futs = futures s \<or> fut = Some (length (futures s)) \<and> futs = futures s @ [FPending]"
  shows "scheduler_inv (s\<lparr>futures := futs, queue := queue s @ [item],
     queued := insert (sc_check_id check) (queued s),
     queued_generations := (queued_generations s)(sc_check_id check \<mapsto> sc_generation check)\<rparr>)"
  using assms unfolding inv_defs
  by (auto simp: held_items_def nth_append less_Suc_eq)

lemma inv_run_once:
  assumes "scheduler_inv s"
  shows "scheduler_inv (fst (run_once check s))"
proof (cases "sc_check_id check \<in> queued s \<union> running s \<or> length (queue s) \<ge> max_queue s")
  case True
  with assms show ?thesis by (auto simp: run_once_def Let_def intro: inv_report)
next
  case False
  with inv_enqueue [OF assms, of check _ "Some (length (futures s))"] show ?thesis
    by (auto simp: run_once_def Let_def not_le)
qed

lemma inv_produce_tick:
  assumes "scheduler_inv s"
  shows "scheduler_inv (produce_tick check s)"
proof (cases "sc_check_id check \<in> queued s \<union> running s \<or> length (queue s) \<ge> max_queue s
    \<or> jobs s (sc_check_id check) \<noteq> Some check")
  case True
  with assms show ?thesis
    by (auto simp: produce_tick_def enqueue_scheduled_def Let_def intro: inv_report)
next
  case False
  with inv_enqueue [OF assms, of check _ None "futures s"] show ?thesis
    by (simp add: produce_tick_def enqueue_scheduled_def Let_def not_le)
qed

text \<open>The head of the queue leaves it, and an obsolete item goes no further.\<close>

definition dequeue :: "WorkItem \<Rightarrow> WorkItem list \<Rightarrow> scheduler \<Rightarrow> scheduler" where
  "dequeue item rest s =
     (let cid = cid_of item
      in s\<lparr>queue := rest, queued := queued s - {cid},
           queued_generations :=
             (if queued_generations s cid = Some (gen_of item)
              then (queued_generations s)(cid := None) else queued_generations s)\<rparr>)"

lemma dequeue_simps [simp]:
  "queue (dequeue item rest s) = rest" "workers (dequeue item rest s) = workers s"
  "queued (dequeue item rest s) = queued s - {cid_of item}" "running (dequeue item rest s) = running s"
  "running_generations (dequeue item rest s) = running_generations s"
  "known_generations (dequeue item rest s) = known_generations s" "jobs (dequeue item rest s) = jobs s"
  "started (dequeue item rest s) = started s" "concurrency (dequeue item rest s) = concurrency s"
  "max_queue (dequeue item rest s) = max_queue s" "futures (dequeue item rest s) = futures s"
  "held_items (dequeue item rest s) = held_items s"
  by (simp_all add: dequeue_def Let_def held_items_def)

lemma dequeue_generations:
  assumes "scheduler_inv s" "queue s = item # rest"
  shows "queued_generations (dequeue item rest s) = (queued_generations s)(cid_of item := None)"
  using assms by (auto simp: dequeue_def Let_def scheduler_inv_def inv_generations_def)

lemma worker_get_eq:
  assumes "queue s = item # rest"
  shows "worker_get i s =
    (let s1 = dequeue item rest s
     in if is_obsolete s1 item
        then forget_removed_generation (cid_of item)
               (settle item (FException ''check generation is obsolete'') s1)
        else set_worker i (WRunning item)
               (s1\<lparr>running := insert (cid_of item) (running s1),
                   running_generations := (running_generations s1)(cid_of item \<mapsto> gen_of item)\<rparr>))"
  by (simp add: worker_get_def assms dequeue_def Let_def)

lemma is_obsolete_dequeue [simp]: "is_obsolete (dequeue item rest s) it = is_obsolete s it"
  by (simp only: is_obsolete_def dequeue_simps)

lemma inv_worker_get:
  assumes inv: "scheduler_inv s" and i: "i < length (workers s)" "workers s ! i = WIdle"
  shows "scheduler_inv (worker_get i s)"
proof (cases "queue s")
  case Nil
  with inv show ?thesis by (simp add: worker_get_def)
next
  case (Cons item rest)
  note gens = dequeue_generations [OF inv Cons]
  obtain xs ys where held: "held_items s = xs @ held (workers s ! i) @ ys"
      "\<And>w s'. workers s' = workers s \<Longrightarrow> held_items (set_worker i w s') = xs @ held w @ ys"
    by (rule held_split [OF i(1)]) (rule that)
  have cid: "cid_of item \<notin> cid_of ` set rest" "cid_of item \<notin> running s"
    using inv Cons by (auto simp: scheduler_inv_def inv_items_def)
  have other: "cid_of it \<noteq> cid_of item" if "it \<in> set rest \<union> set (held_items s)" for it
    using that inv Cons unfolding scheduler_inv_def inv_items_def
    by (metis Un_iff cid(1,2) image_eqI)
  show ?thesis
  proof (cases "is_obsolete s item")
    case True
    let ?t = "settle item (FException ''check generation is obsolete'') (dequeue item rest s)"
    have "inv_known (forget_removed_generation (cid_of item) ?t)"
      by (rule inv_known_forget)
         (use inv Cons in \<open>auto simp: scheduler_inv_def inv_known_def inv_items_def\<close>)
    moreover have "inv_items (forget_removed_generation (cid_of item) ?t)"
      "inv_futures (forget_removed_generation (cid_of item) ?t)"
      "inv_workers (forget_removed_generation (cid_of item) ?t)"
      "inv_generations (forget_removed_generation (cid_of item) ?t)"
      using inv Cons cid other unfolding inv_defs by (auto simp: gens settle_future)
    ultimately have "scheduler_inv (forget_removed_generation (cid_of item) ?t)"
      by (simp add: scheduler_inv_def)
    with True show ?thesis by (simp add: worker_get_eq [OF Cons] Let_def)
  next
    case False
    show ?thesis
      using inv Cons cid other False unfolding inv_defs
      by (auto simp: worker_get_eq [OF Cons] Let_def held i(2) gens)
  qed
qed

lemma finish_simps [simp]:
  "queue (finish_item item s) = queue s" "workers (finish_item item s) = workers s"
  "queued (finish_item item s) = queued s" "running (finish_item item s) = running s - {cid_of item}"
  "queued_generations (finish_item item s) = queued_generations s" "jobs (finish_item item s) = jobs s"
  "started (finish_item item s) = started s" "concurrency (finish_item item s) = concurrency s"
  "max_queue (finish_item item s) = max_queue s" "futures (finish_item item s) = futures s"
  "held_items (finish_item item s) = held_items s"
  by (simp_all add: finish_item_def Let_def held_items_def)

lemma finish_generations:
  assumes "scheduler_inv s" "item \<in> set (held_items s)"
  shows "running_generations (finish_item item (settle item v s))
    = (running_generations s)(cid_of item := None)"
  using assms by (auto simp: finish_item_def Let_def scheduler_inv_def inv_generations_def)

lemma inv_finish:
  assumes inv: "scheduler_inv s" and i: "i < length (workers s)" "held (workers s ! i) = [item]"
    and w: "held w = []" and v: "v \<noteq> FPending"
  shows "scheduler_inv (set_worker i w (finish_item item (settle item v s)))"
proof -
  let ?t = "set_worker i w (finish_item item (settle item v s))"
  obtain xs ys where held: "held_items s = xs @ held (workers s ! i) @ ys"
      "\<And>w s'. workers s' = workers s \<Longrightarrow> held_items (set_worker i w s') = xs @ held w @ ys"
    by (rule held_split [OF i(1)]) (rule that)
  have old: "held_items s = xs @ item # ys" using held(1) i(2) by simp
  have new: "held_items ?t = xs @ ys" using held(2) w by simp
  have gens: "running_generations ?t = (running_generations s)(cid_of item := None)"
    using finish_generations [OF inv, of item v] old by simp
  have other: "cid_of it \<noteq> cid_of item" if "it \<in> set (queue s) \<union> set xs \<union> set ys" for it
    using that inv old unfolding scheduler_inv_def inv_items_def by (auto simp: image_iff)
  have fut: "futures ?t ! f = FPending \<longleftrightarrow> futures s ! f = FPending \<and> item_future item \<noteq> Some f"
    if "f < length (futures s)" for f
    using settle_future [OF v that] by simp
  define u where "u = settle item v s\<lparr>running := running s - {cid_of item},
    running_generations := running_generations (finish_item item (settle item v s))\<rparr>"
  have "finish_item item (settle item v s) = forget_removed_generation (cid_of item) u"
    by (simp add: finish_item_def Let_def u_def)
  moreover have "inv_known (forget_removed_generation (cid_of item) u)"
    by (rule inv_known_forget)
       (use inv in \<open>auto simp: u_def scheduler_inv_def inv_known_def\<close>)
  ultimately have "inv_known ?t" by (simp add: inv_known_def)
  moreover have "inv_items ?t"
    using inv old new other unfolding scheduler_inv_def inv_items_def by auto
  moreover have "inv_generations ?t"
    using inv old new gens other unfolding scheduler_inv_def inv_generations_def inv_items_def
    by auto
  moreover have "inv_futures ?t"
    using inv old new fut unfolding scheduler_inv_def inv_futures_def by auto
  moreover have "inv_workers ?t" using inv unfolding scheduler_inv_def inv_workers_def by simp
  ultimately show ?thesis by (simp add: scheduler_inv_def)
qed

lemma inv_swap:
  assumes inv: "scheduler_inv s" and i: "i < length (workers s)" "held (workers s ! i) = held w"
  shows "scheduler_inv (set_worker i w s)"
proof -
  obtain xs ys where held: "held_items s = xs @ held (workers s ! i) @ ys"
      "\<And>w s'. workers s' = workers s \<Longrightarrow> held_items (set_worker i w s') = xs @ held w @ ys"
    by (rule held_split [OF i(1)]) (rule that)
  have "held_items (set_worker i w s) = held_items s" using held i(2) by simp
  then show ?thesis by (intro inv_same [OF inv]) (simp_all add: set_worker_def)
qed

lemma inv_worker_raised:
  assumes "scheduler_inv s" "i < length (workers s)" "workers s ! i = WRunning item"
  shows "scheduler_inv (worker_raised i item e s)"
proof -
  have "scheduler_inv (set_worker i (WReporting item) (report_error (item_check item) ''internal'' s))"
    using assms inv_report [OF assms(1)] by (intro inv_swap) (simp_all add: report_error_def)
  then show ?thesis using inv_finish [OF assms(1,2)] assms(3) by (simp add: worker_raised_def)
qed

lemma inv_worker_cancelled:
  assumes "scheduler_inv s" "i < length (workers s)"
  shows "scheduler_inv (worker_cancelled i s)"
  using inv_finish [OF assms] inv_swap [OF assms]
  by (auto simp: worker_cancelled_def split: worker.split)

lemma settle_fold_futures:
  "length (futures (fold (\<lambda>item. settle item FCancelled) items s)) = length (futures s)
   \<and> (\<forall>f < length (futures s). futures (fold (\<lambda>item. settle item FCancelled) items s) ! f = FPending
       \<longleftrightarrow> futures s ! f = FPending \<and> (\<forall>item \<in> set items. item_future item \<noteq> Some f))"
proof (induction items arbitrary: s)
  case Nil
  then show ?case by simp
next
  case (Cons item items)
  show ?case
    using Cons.IH [of "settle item FCancelled s"] settle_future [of FCancelled _ s item] by auto
qed

lemma settle_fold_simps [simp]:
  "concurrency (fold (\<lambda>item. settle item v) items s) = concurrency s"
  "max_queue (fold (\<lambda>item. settle item v) items s) = max_queue s"
  "jobs (fold (\<lambda>item. settle item v) items s) = jobs s"
  by (induction items arbitrary: s) simp_all

text \<open>When \<open>stop\<close> returns, no caller is left waiting.\<close>

lemma stop_finish_settles:
  assumes "scheduler_inv s" "set (workers s) \<subseteq> {WEnded}"
  shows "FPending \<notin> set (futures (stop_finish s))"
proof -
  have "held_items s = []" using assms(2) by (auto simp: held_items_def)
  then have "\<forall>f < length (futures s). futures s ! f = FPending
      \<longrightarrow> (\<exists>item \<in> set (queue s). item_future item = Some f)"
    using assms(1) by (auto simp: scheduler_inv_def inv_futures_def)
  with settle_fold_futures [of "queue s" s] show ?thesis
    by (auto simp: stop_finish_def Let_def in_set_conv_nth)
qed

lemma inv_stop_finish:
  assumes "scheduler_inv s" "set (workers s) \<subseteq> {WEnded}"
  shows "scheduler_inv (stop_finish s)"
proof -
  have "futures (stop_finish s) ! f \<noteq> FPending" if "f < length (futures (stop_finish s))" for f
    using stop_finish_settles [OF assms] nth_mem [OF that] by metis
  then show ?thesis
    by (auto simp: inv_defs) (auto simp: stop_finish_def Let_def held_items_def)
qed

lemma inv_caller_cancelled: "scheduler_inv s \<Longrightarrow> scheduler_inv (caller_cancelled f s)"
  by (auto simp: caller_cancelled_def inv_defs held_items_def nth_list_update)

lemma inv_stop_begin: "scheduler_inv s \<Longrightarrow> scheduler_inv (stop_begin s)"
  by (erule inv_same) (simp_all add: stop_begin_def held_items_def)

interpretation sched: invariant_system
  "\<lambda>s. \<exists>conc maxq. new_scheduler conc maxq = Inr s" scheduler_step scheduler_inv
proof
  show "scheduler_inv s" if "\<exists>conc maxq. new_scheduler conc maxq = Inr s" for s
    using that by (auto dest: inv_new)
  show "scheduler_inv t" if "scheduler_inv s" "scheduler_step s t" for s t
    using that(2,1)
  proof cases
    case 6
    then show ?thesis using that(1) inv_finish by (simp add: worker_returned_def)
  next
    case 8
    then show ?thesis using that(1) inv_finish by (simp add: worker_reported_def)
  qed (use that(1) in \<open>auto intro: inv_start inv_update inv_run_once
         inv_produce_tick inv_worker_get inv_worker_raised inv_worker_cancelled inv_stop_finish
         inv_caller_cancelled inv_stop_begin\<close>)
qed

section \<open>What the scheduler promises\<close>

abbreviation scheduler_reachable :: "scheduler \<Rightarrow> bool" where
  "scheduler_reachable \<equiv> reachable (\<lambda>s. \<exists>conc maxq. new_scheduler conc maxq = Inr s) scheduler_step"

lemma distinct_concat_workers:
  "distinct (map cid_of (concat (map held ws))) \<Longrightarrow> i < j \<Longrightarrow> j < length ws
     \<Longrightarrow> it \<in> set (held (ws ! i)) \<Longrightarrow> jt \<in> set (held (ws ! j)) \<Longrightarrow> cid_of it \<noteq> cid_of jt"
proof (induction ws arbitrary: i j)
  case Nil
  then show ?case by simp
next
  case (Cons w ws)
  obtain j' where j: "j = Suc j'" "j' < length ws" using Cons.prems(2,3) by (cases j) auto
  show ?case
  proof (cases i)
    case 0
    have "jt \<in> set (concat (map held ws))" using Cons.prems(5) j by auto
    with 0 Cons.prems(1,4) show ?thesis by (auto simp: image_iff)
  next
    case (Suc i')
    with Cons j show ?thesis by auto
  qed
qed

text \<open>
  C19: a check never runs twice at the same time. In every reachable state two workers hold different
  checks, a check that a worker holds is not queued as well, the queue holds every check at most once
  and never exceeds its bound, and no more checks run than the configured concurrency.
\<close>
theorem scheduler_no_overlap:
  assumes "scheduler_reachable s"
  shows "(\<forall>i j it jt. i < j \<and> j < length (workers s) \<and> it \<in> set (held (workers s ! i))
        \<and> jt \<in> set (held (workers s ! j)) \<longrightarrow> cid_of it \<noteq> cid_of jt)
    \<and> queued s \<inter> running s = {} \<and> distinct (map cid_of (queue s))
    \<and> length (queue s) \<le> max_queue s \<and> card (running s) \<le> concurrency s"
proof -
  have inv: "inv_items s" "inv_workers s"
    using sched.inv_reachable [OF assms] by (simp_all add: scheduler_inv_def)
  have one: "length (held w) \<le> 1" for w by (cases w) auto
  have "length (concat (map held ws)) \<le> length ws" for ws
  proof (induction ws)
    case (Cons w ws)
    then show ?case using one [of w] by simp
  qed simp
  then have "card (cid_of ` set (held_items s)) \<le> length (workers s)"
    unfolding held_items_def using card_image_le card_length le_trans finite_set by metis
  then have "card (running s) \<le> concurrency s"
    using inv unfolding inv_items_def inv_workers_def by (auto split: if_splits)
  moreover have "cid_of it \<noteq> cid_of jt" if "i < j" "j < length (workers s)"
    "it \<in> set (held (workers s ! i))" "jt \<in> set (held (workers s ! j))" for i j it jt
    using distinct_concat_workers [OF _ that] inv(1) unfolding inv_items_def held_items_def by simp
  ultimately show ?thesis using inv(1) unfolding inv_items_def by auto
qed


text \<open>
  A reconfiguration takes effect on work that is already queued or running. After \<open>update\<close> every
  such item is obsolete when its generation is not the one now configured for its check, if the item
  is periodic or its check was or is a configured job; and the map of known generations never outgrows
  the jobs, the queue and the running checks.
\<close>
theorem update_obsoletes:
  assumes "scheduler_reachable s" and "item \<in> set (queue s) \<union> set (held_items s)"
    and "\<forall>j. desired_jobs checks (cid_of item) = Some j \<longrightarrow> sc_generation j \<noteq> gen_of item"
    and "item_future item = None \<or> jobs s (cid_of item) \<noteq> None \<or> desired_jobs checks (cid_of item) \<noteq> None"
  shows "is_obsolete (update checks s) item
    \<and> {cid. known_generations (update checks s) cid \<noteq> None}
      \<subseteq> {cid. desired_jobs checks cid \<noteq> None} \<union> queued s \<union> running s"
proof -
  have inv: "inv_known s" "inv_items s"
    using sched.inv_reachable [OF assms(1)] by (simp_all add: scheduler_inv_def)
  have here: "cid_of item \<in> queued s \<union> running s"
    using assms(2) inv(2) by (auto simp: inv_items_def)
  have tracked: "known_generations s (cid_of item) = Some (Some g) \<Longrightarrow> jobs s (cid_of item) \<noteq> None" for g
    using inv(1) unfolding inv_known_def by blast
  have "is_obsolete (update checks s) item"
  proof (cases "desired_jobs checks (cid_of item)")
    case (Some j)
    with assms(3) show ?thesis by (simp add: is_obsolete_def update_known)
  next
    case None
    show ?thesis
    proof (cases "known_generations s (cid_of item)")
      case (Some g)
      with None here tracked show ?thesis
        by (cases g) (auto simp: is_obsolete_def update_known)
    next
      case None': None
      with None here assms(4) show ?thesis by (auto simp: is_obsolete_def update_known)
    qed
  qed
  moreover have "inv_known (update checks s)"
    using inv_update sched.inv_reachable [OF assms(1)] by (simp add: scheduler_inv_def)
  then have "known_generations (update checks s) cid \<noteq> None
      \<Longrightarrow> desired_jobs checks cid \<noteq> None \<or> cid \<in> queued s \<union> running s" for cid
    unfolding inv_known_def by (cases "known_generations (update checks s) cid"; cases "the (known_generations (update checks s) cid)") auto
  ultimately show ?thesis by auto
qed

text \<open>
  C21: stopping leaves nobody waiting. When the cancelled tasks have ended and \<open>stop\<close> returns, every
  future that \<open>run_once\<close> ever handed out is settled, and queue and running set are empty; before that,
  a pending future always belongs to an item that is queued or held by a worker.
\<close>
theorem stop_settles_all:
  assumes "scheduler_reachable s"
  shows "(\<forall>f < length (futures s). futures s ! f = FPending \<longrightarrow>
        (\<exists>item \<in> set (queue s) \<union> set (held_items s). item_future item = Some f))
    \<and> (set (workers s) \<subseteq> {WEnded} \<longrightarrow> FPending \<notin> set (futures (stop_finish s))
        \<and> length (futures (stop_finish s)) = length (futures s)
        \<and> queue (stop_finish s) = [] \<and> running (stop_finish s) = {})"
proof -
  have inv: "scheduler_inv s" by (rule sched.inv_reachable [OF assms])
  then have "inv_futures s" by (simp add: scheduler_inv_def)
  moreover have "FPending \<notin> set (futures (stop_finish s))" if "set (workers s) \<subseteq> {WEnded}"
    by (rule stop_finish_settles [OF inv that])
  moreover have "length (futures (stop_finish s)) = length (futures s)"
    using settle_fold_futures [of "queue s" s] by (simp add: stop_finish_def Let_def)
  moreover have "queue (stop_finish s) = []" "running (stop_finish s) = {}"
    by (simp_all add: stop_finish_def Let_def)
  ultimately show ?thesis unfolding inv_futures_def by blast
qed

section \<open>A concrete run\<close>

definition example_check :: ScheduledCheck where
  "example_check = \<lparr>sc_check_id = ''c1'', sc_generation = ''g1'', interval_seconds = 60\<rparr>"

definition example_new :: scheduler where
  "example_new = \<lparr>concurrency = 1, max_queue = 1, queue = [], jobs = (\<lambda>_. None),
     producers = (\<lambda>_. None), workers = [], queued = {}, running = {},
     queued_generations = (\<lambda>_. None), running_generations = (\<lambda>_. None),
     known_generations = (\<lambda>_. None), started = False, stopping = False, futures = [], reports = []\<rparr>"

definition example_ticked :: scheduler where
  "example_ticked = produce_tick example_check (start (update [example_check] example_new))"

definition example_running :: scheduler where
  "example_running = fst (run_once (example_check\<lparr>sc_check_id := ''c2''\<rparr>) (worker_get 0 example_ticked))"

definition example_stopping :: scheduler where
  "example_stopping = worker_cancelled 0 (stop_begin example_running)"

lemma example_reach:
  "scheduler_reachable example_ticked" "scheduler_reachable example_running"
  "scheduler_reachable example_stopping"
proof -
  note move = reachable_move [where move = scheduler_step]
  have "new_scheduler 1 1 = Inr example_new" by (simp add: new_scheduler_def example_new_def)
  then have "scheduler_reachable example_new" by (intro reachable_start) blast
  then show ticked: "scheduler_reachable example_ticked"
    unfolding example_ticked_def
    by (intro move [OF _ scheduler_step.intros(4)] move [OF _ scheduler_step.intros(1)]
        move [OF _ scheduler_step.intros(2)])
  have "0 < length (workers example_ticked)" "workers example_ticked ! 0 = WIdle" by code_simp+
  then have "scheduler_reachable (worker_get 0 example_ticked)"
    by (rule move [OF ticked scheduler_step.intros(5)])
  then show running: "scheduler_reachable example_running"
    unfolding example_running_def by (rule move [OF _ scheduler_step.intros(3)])
  have "0 < length (workers (stop_begin example_running))" by code_simp
  then show "scheduler_reachable example_stopping"
    unfolding example_stopping_def
    by (rule move [OF move [OF running scheduler_step.intros(10)]
          scheduler_step.intros(9)])
qed

theorem scheduler_no_overlap_witness:
  "running example_running = {''c1''} \<and> queued example_running = {''c2''}
   \<and> queued example_running \<inter> running example_running = {}"
proof -
  have "running example_running = {''c1''}" "queued example_running = {''c2''}" by code_simp+
  then show ?thesis using scheduler_no_overlap [OF example_reach(2)] by blast
qed


theorem update_obsoletes_witness:
  "is_obsolete (update [] example_running) \<lparr>item_check = example_check, item_future = None\<rparr>"
proof -
  have "held_items example_running = [\<lparr>item_check = example_check, item_future = None\<rparr>]" by code_simp
  moreover have "desired_jobs [] cid = None" for cid by (simp add: desired_jobs_def dict_of_def)
  ultimately show ?thesis
    using update_obsoletes [OF example_reach(2), of "\<lparr>item_check = example_check, item_future = None\<rparr>" "[]"]
    by simp
qed

theorem stop_settles_all_witness:
  "futures example_stopping = [FPending] \<and> futures (stop_finish example_stopping) = [FCancelled]
   \<and> FPending \<notin> set (futures (stop_finish example_stopping))"
proof -
  have "set (workers example_stopping) \<subseteq> {WEnded}" "futures example_stopping = [FPending]"
    "futures (stop_finish example_stopping) = [FCancelled]" by code_simp+
  then show ?thesis using stop_settles_all [OF example_reach(3)] by blast
qed

end
