(* ===== verification/PyUrl.thy ===== *)
theory PyUrl
  imports PyNet
begin

text \<open>
  The rest of \<open>urllib.parse\<close> that redirects need (\<open>urlparse\<close>, \<open>urlunparse\<close>, \<open>urljoin\<close>) and the text of
  an IP address (\<open>str\<close> of the classes of \<open>ipaddress\<close>, Python 3.13). The split of scheme and network
  location is the one of \<open>PyNet\<close>.
\<close>

section \<open>Splitting and joining URLs\<close>

record parsed_url =
  pu_scheme :: string
  pu_netloc :: string
  pu_path :: string
  pu_params :: string
  pu_query :: string
  pu_fragment :: string

definition uses_relative :: "string set" where
  "uses_relative = {'''', ''ftp'', ''http'', ''gopher'', ''nntp'', ''imap'', ''wais'', ''file'',
     ''https'', ''shttp'', ''mms'', ''prospero'', ''rtsp'', ''rtsps'', ''rtspu'', ''sftp'', ''svn'',
     ''svn+ssh'', ''ws'', ''wss''}"

definition uses_netloc :: "string set" where
  "uses_netloc = {'''', ''ftp'', ''http'', ''gopher'', ''nntp'', ''telnet'', ''imap'', ''wais'',
     ''file'', ''mms'', ''https'', ''shttp'', ''snews'', ''prospero'', ''rtsp'', ''rtsps'', ''rtspu'',
     ''rsync'', ''svn'', ''svn+ssh'', ''sftp'', ''nfs'', ''git'', ''git+ssh'', ''ws'', ''wss''}"

definition uses_params :: "string set" where
  "uses_params = {'''', ''ftp'', ''hdl'', ''prospero'', ''http'', ''imap'', ''https'', ''shttp'',
     ''rtsp'', ''rtsps'', ''rtspu'', ''sip'', ''sips'', ''mms'', ''sftp'', ''tel''}"

text \<open>What \<open>urlsplit\<close> leaves after scheme and network location.\<close>

definition url_tail :: "string \<Rightarrow> string" where
  "url_tail url0 =
     (let url1 = filter (\<lambda>c. c \<notin> {TAB, CR, LF}) (dropWhile (\<lambda>c. code c \<le> 32) url0);
          sch = takeWhile (\<lambda>c. c \<noteq> CHR '':'') url1;
          has = CHR '':'' \<in> set url1 \<and> sch \<noteq> [] \<and> ascii_alpha (hd sch) \<and> list_all scheme_char sch;
          rest = (if has then drop (Suc (length sch)) url1 else url1)
      in if take 2 rest = ''//'' then dropWhile (\<lambda>c. c \<notin> set ''/?#'') (drop 2 rest) else rest)"

text \<open>\<open>_splitparams\<close>: the first semicolon of the last path segment.\<close>

definition split_params :: "string \<Rightarrow> string \<times> string" where
  "split_params path =
     (let (dir, sep, seg) = py_rpartition (CHR ''/'') path;
          (name, _, params) = py_partition (CHR '';'') seg
      in if sep then (dir @ ''/'' @ name, params) else (name, params))"

definition urlparse :: "string \<Rightarrow> string \<Rightarrow> parsed_url option" where
  "urlparse url scheme0 =
     map_option (\<lambda>u.
       let scheme = (if url_scheme u = [] then scheme0 else url_scheme u);
           (rest, _, fragment) = py_partition (CHR ''#'') (url_tail url);
           (path, _, query) = py_partition (CHR ''?'') rest;
           (path, params) = (if scheme \<in> uses_params \<and> CHR '';'' \<in> set path
                             then split_params path else (path, []))
       in \<lparr>pu_scheme = scheme, pu_netloc = url_netloc u, pu_path = path, pu_params = params,
           pu_query = query, pu_fragment = fragment\<rparr>) (urlsplit url)"

definition urlunparse :: "parsed_url \<Rightarrow> string" where
  "urlunparse p =
     (let url = (if pu_params p \<noteq> [] then pu_path p @ '';'' @ pu_params p else pu_path p);
          url = (if pu_netloc p \<noteq> [] \<or> (pu_scheme p \<noteq> [] \<and> pu_scheme p \<in> uses_netloc)
                    \<or> take 2 url = ''//''
                 then ''//'' @ pu_netloc p
                   @ (if url \<noteq> [] \<and> take 1 url \<noteq> ''/'' then ''/'' @ url else url)
                 else url);
          url = (if pu_scheme p \<noteq> [] then pu_scheme p @ '':'' @ url else url);
          url = (if pu_query p \<noteq> [] then url @ ''?'' @ pu_query p else url)
      in if pu_fragment p \<noteq> [] then url @ ''#'' @ pu_fragment p else url)"

text \<open>The loop over the segments: \<open>..\<close> pops, \<open>.\<close> is skipped.\<close>

fun resolve_segments :: "string list \<Rightarrow> string list \<Rightarrow> string list" where
  "resolve_segments [] resolved = resolved"
| "resolve_segments (seg # segs) resolved =
     (if seg = ''..'' then resolve_segments segs (butlast resolved)
      else if seg = ''.'' then resolve_segments segs resolved
      else resolve_segments segs (resolved @ [seg]))"

text \<open>\<open>segments[1:-1] = filter(None, segments[1:-1])\<close>.\<close>

definition drop_empty_middle :: "string list \<Rightarrow> string list" where
  "drop_empty_middle segs =
     (if length segs \<le> 2 then segs
      else hd segs # filter (\<lambda>s. s \<noteq> []) (butlast (tl segs)) @ [last segs])"

definition resolve_path :: "string \<Rightarrow> string \<Rightarrow> string" where
  "resolve_path bpath path =
     (let base_parts = split_on (CHR ''/'') bpath;
          base_parts = (if last base_parts \<noteq> [] then butlast base_parts else base_parts);
          segments = (if take 1 path = ''/'' then split_on (CHR ''/'') path
                      else drop_empty_middle (base_parts @ split_on (CHR ''/'') path));
          resolved = resolve_segments segments [];
          resolved = (if last segments \<in> {''.'', ''..''} then resolved @ [[]] else resolved);
          joined = py_join ''/'' resolved
      in if joined = [] then ''/'' else joined)"

definition urljoin :: "string \<Rightarrow> string \<Rightarrow> string option" where
  "urljoin base url =
     (if base = [] then Some url
      else if url = [] then Some base
      else case urlparse base [] of
        None \<Rightarrow> None
      | Some b \<Rightarrow>
          (case urlparse url (pu_scheme b) of
             None \<Rightarrow> None
           | Some u \<Rightarrow>
               if pu_scheme u \<noteq> pu_scheme b \<or> pu_scheme u \<notin> uses_relative then Some url
               else if pu_scheme u \<in> uses_netloc \<and> pu_netloc u \<noteq> [] then Some (urlunparse u)
               else
                 let u1 = (if pu_scheme u \<in> uses_netloc then u\<lparr>pu_netloc := pu_netloc b\<rparr> else u)
                 in if pu_path u = [] \<and> pu_params u = []
                    then Some (urlunparse (u1\<lparr>pu_path := pu_path b, pu_params := pu_params b,
                           pu_query := (if pu_query u = [] then pu_query b else pu_query u)\<rparr>))
                    else Some (urlunparse (u1\<lparr>pu_path := resolve_path (pu_path b) (pu_path u)\<rparr>))))"

section \<open>The text of an address\<close>

definition digit_char :: "nat \<Rightarrow> char" where
  "digit_char d = ''0123456789abcdef'' ! d"

function number_text :: "nat \<Rightarrow> nat \<Rightarrow> string" where
  "number_text base n =
     (if n < base \<or> base < 2 then [digit_char (n mod 16)]
      else number_text base (n div base) @ [digit_char (n mod base)])"
  by pat_completeness auto
termination by (relation "measure snd") auto

declare number_text.simps [simp del]

lemma digits_value_append:
  "digits_value b a (xs @ ys) = digits_value b (digits_value b a xs) ys"
  by (induction xs arbitrary: a) simp_all

lemma digit_char_value:
  assumes "d < 10"
  shows "digits_value 10 a [digit_char d] = 10 * a + d"
proof -
  have "d \<in> {0, 1, 2, 3, 4, 5, 6, 7, 8, 9}" using assms by auto
  then show ?thesis by (auto simp: digit_char_def char_class_defs)
qed

text \<open>A decimal numeral is read back as the number it was written for.\<close>

lemma number_text_value: "digits_value 10 0 (number_text 10 n) = n"
proof (induction "10 :: nat" n rule: number_text.induct)
  case (1 n)
  show ?case
  proof (cases "n < 10")
    case True
    then show ?thesis by (subst number_text.simps) (simp add: digit_char_value del: digits_value.simps)
  next
    case False
    then have "digits_value 10 0 (number_text 10 (n div 10)) = n div 10" using 1 by simp
    then show ?thesis using False
      by (subst number_text.simps)
        (simp add: digits_value_append digit_char_value del: digits_value.simps)
  qed
qed

lemma number_text_inject: "number_text 10 m = number_text 10 n \<longleftrightarrow> m = n"
  using number_text_value by metis

definition ipv4_text :: "nat \<Rightarrow> string" where
  "ipv4_text n = py_join ''.'' (map (\<lambda>i. number_text 10 (n div 256 ^ i mod 256)) [3, 2, 1, 0])"

text \<open>\<open>_compress_hextets\<close>: the longest run of zeros, the first one of that length.\<close>

fun zero_run :: "string list \<Rightarrow> nat \<Rightarrow> nat \<Rightarrow> nat \<times> nat \<Rightarrow> nat \<times> nat" where
  "zero_run [] i len best = best"
| "zero_run (h # hs) i len best =
     (if h = ''0''
      then zero_run hs (Suc i) (Suc len)
             (if Suc len > snd best then (i - len, Suc len) else best)
      else zero_run hs (Suc i) 0 best)"

definition compress_hextets :: "string list \<Rightarrow> string list" where
  "compress_hextets hs =
     (let (start, len) = zero_run hs 0 0 (0, 0)
      in if len > 1
         then (if start = 0 then [[]] else []) @ take start hs @ [[]] @ drop (start + len) hs
              @ (if start + len = length hs then [[]] else [])
         else hs)"

definition ipv6_text :: "nat \<Rightarrow> string" where
  "ipv6_text n =
     (if n div 2 ^ 32 = 65535 then ''::ffff:'' @ ipv4_text (n mod 2 ^ 32)
      else py_join '':'' (compress_hextets
        (map (\<lambda>i. number_text 16 (n div 65536 ^ i mod 65536)) [7, 6, 5, 4, 3, 2, 1, 0])))"

fun ip_text :: "ip_addr \<Rightarrow> string" where
  "ip_text (IPv4 n) = ipv4_text n"
| "ip_text (IPv6 n scope) =
     ipv6_text n @ (case scope of None \<Rightarrow> [] | Some z \<Rightarrow> (if z = [] then [] else ''%'' @ z))"

end
