(* ===== verification/Probe.thy ===== *)
theory Probe
  imports Models PyUrl
begin

text \<open>
  \<open>src/xray_e2e_prober/checker.py\<close>, first half: the checks on a target before it is used, the
  classification of exceptions, one HTTP request with its redirects and body bounds, and the verdict
  on one target. HTTPX, the codecs, the JSON parser and the process that evaluates body expressions are
  the record \<open>probe_env\<close> and the function \<open>fetch\<close> (what the n-th request of a chain returns or raises); the
  readings of the clocks are the record \<open>probe_clock\<close>. Semaphores only delay and are not modelled.
\<close>

section \<open>Exceptions\<close>

datatype exn_class = Cancelled | AsyncTimeout | HttpxTimeout | SslError | GaiError | TooManyRedirects
  | InvalidURL | UnsupportedProtocol | ConnectError | NetworkError | ProxyError | DecodingError
  | RemoteProtocolError | HttpxError | InvalidResponse | BodyTooLarge int
  | CheckerConfigurationError string | PyValueError | OtherException

text \<open>An exception with its \<open>__cause__\<close> (or \<open>__context__\<close>).\<close>

datatype exn = Exn exn_class "exn option"

fun exn_class_of :: "exn \<Rightarrow> exn_class" where
  "exn_class_of (Exn c _) = c"

fun exception_chain :: "exn \<Rightarrow> exn_class list" where
  "exception_chain (Exn c None) = [c]"
| "exception_chain (Exn c (Some e)) = c # exception_chain e"

abbreviation raises :: "exn_class \<Rightarrow> exn" where
  "raises c \<equiv> Exn c None"

abbreviation config_error :: "string \<Rightarrow> exn" where
  "config_error m \<equiv> Exn (CheckerConfigurationError m) None"

definition classify_exception :: "exn \<Rightarrow> Reason \<times> string" where
  "classify_exception e =
     (let c = exn_class_of e; chain = set (exception_chain e)
      in if c \<in> {AsyncTimeout, HttpxTimeout} then (TIMEOUT, ''request deadline exceeded'')
         else if SslError \<in> chain then (TLS, ''target TLS verification failed'')
         else if GaiError \<in> chain then (DNS, ''target name resolution failed'')
         else if c = TooManyRedirects then (RESPONSE_INVALID, ''redirect limit exceeded'')
         else if c \<in> {InvalidURL, UnsupportedProtocol} then (CONFIG_INVALID, ''target URL is invalid'')
         else if c = ConnectError then (PROXY, ''request failed through SOCKS proxy'')
         else if c \<in> {NetworkError, ProxyError} then (PROXY, ''request failed through SOCKS proxy'')
         else if c \<in> {DecodingError, RemoteProtocolError, InvalidResponse}
         then (RESPONSE_INVALID, ''target returned an invalid response'')
         else case c of
             BodyTooLarge n \<Rightarrow> (RESPONSE_INVALID, ''response body limit exceeded'')
           | CheckerConfigurationError m \<Rightarrow> (CONFIG_INVALID, m)
           | HttpxError \<Rightarrow> (CONNECT, ''HTTP request failed'')
           | _ \<Rightarrow> (INTERNAL, ''internal checker error''))"

definition network_failure :: "Reason \<Rightarrow> bool" where
  "network_failure r \<longleftrightarrow>
     r \<in> {CONNECT, PROXY, DNS, TIMEOUT, TLS, HTTP_STATUS, BODY_MISMATCH, RESPONSE_INVALID}"

section \<open>Building results\<close>

text \<open>The constraints of the model \<open>TargetResult\<close>; a violation is pydantic's \<open>ValidationError\<close>, a
  \<open>ValueError\<close>.\<close>

definition opt_ok :: "('a \<Rightarrow> bool) \<Rightarrow> 'a option \<Rightarrow> bool" where
  "opt_ok p x = (case x of None \<Rightarrow> True | Some v \<Rightarrow> p v)"

lemma opt_ok_simps [simp]: "opt_ok p None" "opt_ok p (Some v) \<longleftrightarrow> p v"
  by (simp_all add: opt_ok_def)

definition target_fields_ok :: "TargetResult \<Rightarrow> bool" where
  "target_fields_ok r \<longleftrightarrow>
     opt_ok (\<lambda>s. 100 \<le> s \<and> s \<le> 599) (http_status r)
     \<and> opt_ok (\<lambda>d. 0 \<le> d) (duration_seconds r) \<and> opt_ok (\<lambda>d. 0 \<le> d) (ttfb_seconds r)
     \<and> opt_ok (\<lambda>n. 0 \<le> n) (bytes_read r) \<and> opt_ok (\<lambda>n. 0 \<le> n) (bytes_written r)
     \<and> opt_ok (\<lambda>d. 0 < d) (transfer_seconds r) \<and> opt_ok (\<lambda>d. 0 \<le> d) (throughput_mbps r)
     \<and> opt_ok (\<lambda>m. length m \<le> 240) (tr_error r)"

definition make_TargetResult :: "TargetResult \<Rightarrow> exn + TargetResult" where
  "make_TargetResult r =
     (if \<not> target_fields_ok r then Inl (raises PyValueError)
      else case coherent_success r of Inl _ \<Rightarrow> Inl (raises PyValueError) | Inr r' \<Rightarrow> Inr r')"

definition plain_result :: "string \<Rightarrow> ReachabilityState \<Rightarrow> TargetResult" where
  "plain_result tid s =
     \<lparr>tr_target_id = tid, tr_state = s, tr_success = None, tr_reason = None, http_status = None,
      duration_seconds = None, ttfb_seconds = None, bytes_read = None, bytes_written = None,
      transfer_seconds = None, throughput_mbps = None, measurement_timestamp = None, tr_error = None\<rparr>"

definition target_error_result ::
  "string \<Rightarrow> exn \<Rightarrow> rat option \<Rightarrow> rat option \<Rightarrow> exn + TargetResult" where
  "target_error_result tid e duration ttfb =
     (let (reason, safe_error) = classify_exception e
      in make_TargetResult ((plain_result tid
           (if network_failure reason then ReachabilityState.FAILURE else ReachabilityState.ERROR))
         \<lparr>tr_reason := Some reason, duration_seconds := duration, ttfb_seconds := ttfb,
          bytes_read := (case exn_class_of e of BodyTooLarge n \<Rightarrow> Some n | _ \<Rightarrow> None),
          tr_error := Some safe_error\<rparr>))"

section \<open>Checks before the request\<close>

record probe_env =
  url_accepted :: "string \<Rightarrow> bool"
  pattern_compiles :: "string \<Rightarrow> bool"
  codec_replace :: "string \<Rightarrow> (string \<Rightarrow> string) option"
  utf8_replace :: "string \<Rightarrow> string"
  codec_strict :: "string \<Rightarrow> string \<Rightarrow> string option"
  regex_process :: "string \<Rightarrow> string \<Rightarrow> exn + int \<times> string"
  json_loads :: "string \<Rightarrow> raw option"

definition checked_target_id :: "TargetConfig \<Rightarrow> exn + string" where
  "checked_target_id t =
     (if target_id t = [] then Inl (config_error ''target_id is required'') else Inr (target_id t))"

definition absolute_http_url :: "string \<Rightarrow> string \<Rightarrow> exn + string" where
  "absolute_http_url kind value =
     (case urlsplit value of
        None \<Rightarrow> Inl (raises PyValueError)
      | Some parsed \<Rightarrow>
          if url_scheme parsed \<notin> {''http'', ''https''} \<or> \<not> truthy (url_hostname parsed)
          then Inl (config_error (kind @ '' URL must be absolute HTTP or HTTPS''))
          else if url_username parsed \<noteq> None \<or> url_password parsed \<noteq> None
          then Inl (config_error (kind @ '' URL must not contain userinfo''))
          else Inr value)"

text \<open>\<open>_redirect_url\<close>: \<open>urljoin\<close>, \<open>urlsplit\<close> and \<open>port\<close> raise \<open>ValueError\<close>, HTTPX its \<open>InvalidURL\<close>.\<close>

definition redirect_url :: "probe_env \<Rightarrow> string \<Rightarrow> string \<Rightarrow> exn + string" where
  "redirect_url env base loc =
     (case urljoin base loc of
        None \<Rightarrow> Inl (raises InvalidResponse)
      | Some candidate \<Rightarrow>
          (case urlsplit candidate of
             None \<Rightarrow> Inl (raises InvalidResponse)
           | Some parsed \<Rightarrow>
               if url_port parsed = None \<or> \<not> url_accepted env candidate
               then Inl (raises InvalidResponse)
               else if py_casefold (url_scheme parsed) \<notin> {''http'', ''https''}
                    \<or> \<not> truthy (url_hostname parsed)
                    \<or> url_username parsed \<noteq> None \<or> url_password parsed \<noteq> None
               then Inl (raises InvalidResponse)
               else Inr candidate))"

definition positive_timeout :: "rat option \<Rightarrow> rat \<Rightarrow> exn + rat" where
  "positive_timeout value fallback =
     (let v = (case value of None \<Rightarrow> fallback | Some v \<Rightarrow> v)
      in if v \<le> 0 then Inl (config_error ''request timeout must be positive'') else Inr v)"

definition body_limit :: "int option \<Rightarrow> int \<Rightarrow> exn + int" where
  "body_limit value fallback =
     (let v = (case value of None \<Rightarrow> fallback | Some v \<Rightarrow> v)
      in if v < 1 then Inl (config_error ''response body limit must be positive'') else Inr v)"

definition throughput_settings :: "TargetConfig \<Rightarrow> exn + ThroughputConfig option" where
  "throughput_settings t =
     (case throughput t of
        None \<Rightarrow> Inr None
      | Some tp \<Rightarrow>
          if \<not> (65536 \<le> expected_bytes tp \<and> expected_bytes tp \<le> 67108864)
          then Inl (config_error ''throughput expected_bytes must be between 65536 and 67108864'')
          else if \<not> (60 \<le> tp_interval tp \<and> tp_interval tp \<le> 86400)
          then Inl (config_error ''throughput interval must be between 60 and 86400 seconds'')
          else Inr (Some tp))"

definition checked_statuses :: "TargetConfig \<Rightarrow> exn + int set" where
  "checked_statuses t =
     (if expected_statuses t = {} \<or> (\<exists>v \<in> expected_statuses t. \<not> (100 \<le> v \<and> v \<le> 599))
      then Inl (config_error ''expected HTTP statuses are invalid'')
      else Inr (expected_statuses t))"

definition matcher :: "probe_env \<Rightarrow> TargetConfig \<Rightarrow> exn + BodyMatcher option" where
  "matcher env t =
     (case target_body t of
        None \<Rightarrow> Inr None
      | Some b \<Rightarrow>
          if body_kind b = REGEX \<and> \<not> pattern_compiles env (body_value b)
          then Inl (config_error ''invalid body regular expression'')
          else Inr (Some b))"

definition redirect_limit :: "TargetConfig \<Rightarrow> exn + int" where
  "redirect_limit t =
     (if max_redirects t < 0 then Inl (config_error ''max_redirects is invalid'')
      else Inr (if follow_redirects t \<and> max_redirects t = 0 then 5 else max_redirects t))"

definition validate_target :: "probe_env \<Rightarrow> TargetConfig \<Rightarrow> rat \<Rightarrow> int \<Rightarrow> exn + unit" where
  "validate_target env t default_timeout default_body_limit =
     bindE (checked_target_id t) (\<lambda>_.
     bindE (absolute_http_url ''target'' (target_url t)) (\<lambda>_.
     bindE (checked_statuses t) (\<lambda>_.
     bindE (positive_timeout (target_timeout t) default_timeout) (\<lambda>_.
     bindE (throughput_settings t) (\<lambda>tp.
     let expected = (case tp of Some c \<Rightarrow> (if direction c = Upload then POST else GET) | None \<Rightarrow> GET)
     in if target_method t \<noteq> expected then Inl (config_error ''target requires another method'')
        else bindE (body_limit (Some (max_body_bytes t)) default_body_limit) (\<lambda>_.
     bindE (redirect_limit t) (\<lambda>redirects.
     if redirects \<noteq> 0 \<and> \<not> follow_redirects t
     then Inl (config_error ''max_redirects requires redirects to be enabled'')
     else bindE (matcher env t) (\<lambda>m.
     if tp \<noteq> None \<and> m \<noteq> None
     then Inl (config_error ''throughput targets cannot define a body matcher'')
     else if map_option direction tp = Some Upload \<and> follow_redirects t
     then Inl (config_error ''upload throughput targets cannot follow redirects'')
     else Inr ()))))))))"

section \<open>Matching the body\<close>

definition or_utf8 :: "string option \<Rightarrow> string" where
  "or_utf8 encoding = (if truthy encoding then the encoding else ''utf-8'')"

definition decode_body :: "probe_env \<Rightarrow> string \<Rightarrow> string option \<Rightarrow> string" where
  "decode_body env body encoding =
     (case codec_replace env (or_utf8 encoding) of
        Some decode \<Rightarrow> decode body
      | None \<Rightarrow> utf8_replace env body)"

definition regex_search :: "probe_env \<Rightarrow> string \<Rightarrow> string \<Rightarrow> exn + bool" where
  "regex_search env pattern txt =
     bindE (regex_process env pattern txt) (\<lambda>(code, out).
       if code \<noteq> 0 \<or> out \<notin> {''0'', ''1''}
       then Inl (config_error ''body regular expression could not be evaluated'')
       else Inr (out = ''1''))"

definition decode_and_match ::
  "probe_env \<Rightarrow> string \<Rightarrow> string option \<Rightarrow> BodyMatcher \<Rightarrow> exn + bool" where
  "decode_and_match env body encoding m =
     (let actual = decode_body env body encoding
      in case body_kind m of
           EXACT \<Rightarrow> Inr (actual = body_value m)
         | REGEX \<Rightarrow> regex_search env (body_value m) actual)"

section \<open>One request\<close>

definition REDIRECT_STATUSES :: "int set" where
  "REDIRECT_STATUSES = {301, 302, 303, 307, 308}"

record http_response =
  resp_status :: int
  resp_url :: string
  resp_location :: "string option"
  resp_encoding :: "string option"
  resp_content_length :: "string option"
  resp_content_encoding :: "string option"
  resp_chunks :: "string list"
  resp_stream_error :: "exn option"
  resp_transfer :: rat
  resp_upload :: "(int \<times> rat option) option"

record request_params =
  rp_url :: string
  rp_body_limit :: int
  rp_follow :: bool
  rp_max_redirects :: int
  rp_accepted :: "int set"
  rp_read_body :: bool
  rp_retain :: bool
  rp_expected :: "int option"
  rp_upload :: "int option"

record ResponseData =
  rd_status :: int
  rd_body :: string
  rd_bytes_read :: int
  rd_bytes_written :: int
  rd_duration :: rat
  rd_ttfb :: "rat option"
  rd_transfer :: "rat option"
  rd_encoding :: "string option"
  rd_redirects :: nat

record probe_clock =
  ck_duration :: rat
  ck_request :: rat
  ck_failed :: rat
  ck_first_byte :: "rat option"
  ck_now :: rat

definition elapsed :: "probe_clock \<Rightarrow> rat option" where
  "elapsed ck = map_option (\<lambda>d. max 0 d) (ck_first_byte ck)"

definition at_least_nano :: "rat \<Rightarrow> rat" where
  "at_least_nano d = max d (1 / 10 ^ 9)"

fun read_chunks :: "int \<Rightarrow> bool \<Rightarrow> string list \<Rightarrow> int \<Rightarrow> string \<Rightarrow> exn + int \<times> string" where
  "read_chunks limit retain [] n body = Inr (n, body)"
| "read_chunks limit retain (c # cs) n body =
     (let n' = n + int (length c)
      in if n' > limit then Inl (raises (BodyTooLarge n'))
         else read_chunks limit retain cs n' (if retain then body @ c else body))"

definition declared_length :: "http_response \<Rightarrow> int option" where
  "declared_length resp =
     (case resp_content_length resp of
        Some d \<Rightarrow> (if d \<noteq> [] \<and> list_all ascii_digit d then Some (int (digits_value 10 0 d)) else None)
      | None \<Rightarrow> None)"

definition check_declared :: "request_params \<Rightarrow> http_response \<Rightarrow> exn + unit" where
  "check_declared P resp =
     (case declared_length resp of
        None \<Rightarrow> Inr ()
      | Some d \<Rightarrow>
          (if rp_expected P \<noteq> None \<and> Some d \<noteq> rp_expected P then Inl (raises InvalidResponse)
           else if d > rp_body_limit P then Inl (raises (BodyTooLarge d))
           else Inr ()))"

definition identity_encoding :: "http_response \<Rightarrow> bool" where
  "identity_encoding resp =
     (py_strip (py_casefold (case resp_content_encoding resp of Some e \<Rightarrow> e | None \<Rightarrow> ''identity''))
        \<in> {[], ''identity''})"

definition read_body :: "request_params \<Rightarrow> http_response \<Rightarrow> exn + int \<times> string" where
  "read_body P resp =
     bindE (check_declared P resp) (\<lambda>_.
     if \<not> identity_encoding resp then Inl (raises InvalidResponse)
     else bindE (read_chunks (rp_body_limit P) (rp_retain P) (resp_chunks resp) 0 []) (\<lambda>(n, body).
     case resp_stream_error resp of
       Some e \<Rightarrow> Inl e
     | None \<Rightarrow>
         if rp_expected P \<noteq> None \<and> Some n \<noteq> rp_expected P then Inl (raises InvalidResponse)
         else Inr (n, body)))"

definition finish_response ::
  "probe_clock \<Rightarrow> request_params \<Rightarrow> http_response \<Rightarrow> nat \<Rightarrow> int \<Rightarrow> rat option \<Rightarrow> exn + ResponseData" where
  "finish_response ck P resp redirects written transfer =
     (let result = (\<lambda>n body tr. \<lparr>rd_status = resp_status resp, rd_body = body, rd_bytes_read = n,
            rd_bytes_written = written, rd_duration = ck_request ck, rd_ttfb = elapsed ck,
            rd_transfer = tr, rd_encoding = resp_encoding resp, rd_redirects = redirects\<rparr>)
      in if resp_status resp \<in> rp_accepted P \<and> rp_read_body P
         then bindE (read_body P resp)
                (\<lambda>(n, body). Inr (result n body (Some (at_least_nano (resp_transfer resp)))))
         else Inr (result 0 [] transfer))"

text \<open>Bytes and time of the upload stream of this turn, if there was one and it was started.\<close>

definition upload_written :: "http_response \<Rightarrow> int \<Rightarrow> int" where
  "upload_written resp written =
     (case resp_upload resp of Some (n, _) \<Rightarrow> n | None \<Rightarrow> written)"

definition upload_transfer :: "http_response \<Rightarrow> rat option \<Rightarrow> rat option" where
  "upload_transfer resp transfer =
     (case resp_upload resp of Some (_, Some d) \<Rightarrow> Some (at_least_nano d) | _ \<Rightarrow> transfer)"

text \<open>The loop of \<open>_request\<close>; a chain ends because every further turn has followed one more redirect.\<close>

function request_loop ::
  "probe_env \<Rightarrow> probe_clock \<Rightarrow> (nat \<Rightarrow> string \<Rightarrow> exn + http_response) \<Rightarrow> request_params \<Rightarrow> nat
     \<Rightarrow> string \<Rightarrow> int \<Rightarrow> rat option \<Rightarrow> exn + ResponseData" where
  "request_loop env ck fetch P redirects url written transfer =
     bindE (fetch redirects url) (\<lambda>resp.
       let written = upload_written resp written; transfer = upload_transfer resp transfer
       in if rp_follow P \<and> resp_status resp \<in> REDIRECT_STATUSES \<and> resp_location resp \<noteq> None
          then (if int redirects \<ge> rp_max_redirects P then Inl (raises TooManyRedirects)
                else bindE (redirect_url env (resp_url resp) (the (resp_location resp)))
                  (\<lambda>next. request_loop env ck fetch P (Suc redirects) next written transfer))
          else if int redirects > rp_max_redirects P then Inl (raises TooManyRedirects)
          else finish_response ck P resp redirects written transfer)"
  by pat_completeness auto
termination
  by (relation "measure (\<lambda>(env, ck, fetch, P, n, url, w, t). nat (rp_max_redirects P) - n)") auto

declare request_loop.simps [simp del]

definition request ::
  "probe_env \<Rightarrow> probe_clock \<Rightarrow> (nat \<Rightarrow> string \<Rightarrow> exn + http_response) \<Rightarrow> request_params
     \<Rightarrow> exn + ResponseData" where
  "request env ck fetch P = request_loop env ck fetch P 0 (rp_url P) 0 None"

section \<open>One target\<close>

record Checker =
  request_timeout :: rat
  default_body_limit :: int
  egress_body_limit :: int
  max_parallel_requests :: int
  max_parallel_throughput_requests :: int
  throughput_initial_due :: "string \<Rightarrow> rat option"

definition new_checker :: "rat \<Rightarrow> int \<Rightarrow> int \<Rightarrow> int \<Rightarrow> int \<Rightarrow> exn + Checker" where
  "new_checker timeout par par_tp body egr =
     bindE (positive_timeout (Some timeout) 15) (\<lambda>t.
     if par < 1 then Inl (config_error ''max_parallel_requests must be positive'')
     else if \<not> (1 \<le> par_tp \<and> par_tp \<le> 8)
     then Inl (config_error ''max_parallel_throughput_requests must be between 1 and 8'')
     else bindE (body_limit (Some body) (64 * 1024)) (\<lambda>b.
     bindE (body_limit (Some egr) 4096) (\<lambda>e.
     Inr \<lparr>request_timeout = t, default_body_limit = b, egress_body_limit = e,
          max_parallel_requests = par, max_parallel_throughput_requests = par_tp,
          throughput_initial_due = (\<lambda>_. None)\<rparr>)))"

definition download_bytes :: "ThroughputConfig option \<Rightarrow> int option" where
  "download_bytes tp =
     (case tp of Some c \<Rightarrow> (if direction c = Download then Some (expected_bytes c) else None) | None \<Rightarrow> None)"

definition upload_bytes :: "ThroughputConfig option \<Rightarrow> int option" where
  "upload_bytes tp =
     (case tp of Some c \<Rightarrow> (if direction c = Upload then Some (expected_bytes c) else None) | None \<Rightarrow> None)"

text \<open>The arguments that \<open>check_target\<close> hands to \<open>_request\<close>.\<close>

definition target_request ::
  "probe_env \<Rightarrow> Checker \<Rightarrow> TargetConfig \<Rightarrow> exn + request_params \<times> BodyMatcher option" where
  "target_request env ch t =
     bindE (absolute_http_url ''target'' (target_url t)) (\<lambda>url.
     bindE (checked_statuses t) (\<lambda>statuses.
     bindE (matcher env t) (\<lambda>m.
     bindE (throughput_settings t) (\<lambda>tp.
     bindE (positive_timeout (target_timeout t) (request_timeout ch)) (\<lambda>_.
     bindE (case download_bytes tp of Some n \<Rightarrow> Inr n
            | None \<Rightarrow> body_limit (Some (max_body_bytes t)) (default_body_limit ch)) (\<lambda>limit.
     bindE (redirect_limit t) (\<lambda>redirects.
     Inr (\<lparr>rp_url = url, rp_body_limit = limit, rp_follow = follow_redirects t,
           rp_max_redirects = redirects, rp_accepted = statuses,
           rp_read_body = (m \<noteq> None \<or> download_bytes tp \<noteq> None), rp_retain = (m \<noteq> None),
           rp_expected = download_bytes tp, rp_upload = upload_bytes tp\<rparr>, m))))))))"

text \<open>What follows the response: status, body, throughput.\<close>

definition target_verdict ::
  "probe_env \<Rightarrow> probe_clock \<Rightarrow> TargetConfig \<Rightarrow> ThroughputConfig option \<Rightarrow> request_params
     \<Rightarrow> BodyMatcher option \<Rightarrow> ResponseData \<Rightarrow> exn + TargetResult" where
  "target_verdict env ck t tp P m resp =
     bindE (if rd_status resp \<in> rp_accepted P
            then (case m of Some b \<Rightarrow> decode_and_match env (rd_body resp) (rd_encoding resp) b
                  | None \<Rightarrow> Inr True)
            else Inr True) (\<lambda>matched.
     let measured = (if tp \<noteq> None then Some (ck_now ck) else None)
     in if rd_status resp \<notin> rp_accepted P
        then make_TargetResult ((plain_result (target_id t) ReachabilityState.FAILURE)
          \<lparr>tr_reason := Some HTTP_STATUS, http_status := Some (rd_status resp),
           duration_seconds := Some (ck_duration ck), ttfb_seconds := rd_ttfb resp,
           bytes_read := Some (rd_bytes_read resp), bytes_written := Some (rd_bytes_written resp),
           transfer_seconds := rd_transfer resp, measurement_timestamp := measured,
           tr_error := Some ''unexpected HTTP status''\<rparr>)
        else if m \<noteq> None \<and> \<not> matched
        then make_TargetResult ((plain_result (target_id t) ReachabilityState.FAILURE)
          \<lparr>tr_reason := Some BODY_MISMATCH, http_status := Some (rd_status resp),
           duration_seconds := Some (ck_duration ck), ttfb_seconds := rd_ttfb resp,
           bytes_read := Some (rd_bytes_read resp),
           tr_error := Some ''response body did not match''\<rparr>)
        else if tp \<noteq> None \<and> (case rd_transfer resp of None \<Rightarrow> True | Some d \<Rightarrow> d \<le> 0)
        then Inl (raises InvalidResponse)
        else make_TargetResult ((plain_result (target_id t) ReachabilityState.SUCCESS)
          \<lparr>http_status := Some (rd_status resp), duration_seconds := Some (ck_duration ck),
           ttfb_seconds := rd_ttfb resp, bytes_read := Some (rd_bytes_read resp),
           bytes_written := Some (rd_bytes_written resp), transfer_seconds := rd_transfer resp,
           throughput_mbps := (case (tp, rd_transfer resp) of
               (Some c, Some d) \<Rightarrow>
                 Some (of_int (if direction c = Upload then rd_bytes_written resp
                               else rd_bytes_read resp) * 8 / d / 1000000)
             | _ \<Rightarrow> None),
           measurement_timestamp := measured\<rparr>))"

definition attempt_target ::
  "probe_env \<Rightarrow> Checker \<Rightarrow> probe_clock \<Rightarrow> (nat \<Rightarrow> string \<Rightarrow> exn + http_response) \<Rightarrow> TargetConfig
     \<Rightarrow> exn + TargetResult" where
  "attempt_target env ch ck fetch t =
     bindE (validate_target env t (request_timeout ch) (default_body_limit ch)) (\<lambda>_.
     bindE (target_request env ch t) (\<lambda>(P, m).
     bindE (request env ck fetch P) (\<lambda>resp.
     bindE (throughput_settings t) (\<lambda>tp. target_verdict env ck t tp P m resp))))"

text \<open>The handlers: cancellation passes, everything else becomes a result. \<open>throughput\<close> is still unset
  when the validation itself failed.\<close>

definition check_target ::
  "probe_env \<Rightarrow> Checker \<Rightarrow> probe_clock \<Rightarrow> (nat \<Rightarrow> string \<Rightarrow> exn + http_response) \<Rightarrow> TargetConfig
     \<Rightarrow> exn + TargetResult" where
  "check_target env ch ck fetch t =
     (case attempt_target env ch ck fetch t of
        Inr r \<Rightarrow> Inr r
      | Inl e \<Rightarrow>
          if exn_class_of e = Cancelled then Inl e
          else
            let tid = (if target_id t = [] then ''invalid-target'' else target_id t);
                validated = (validate_target env t (request_timeout ch) (default_body_limit ch) = Inr ())
            in bindE (target_error_result tid e (Some (max 0 (ck_failed ck)))
                        (if validated then elapsed ck else None))
                 (\<lambda>r. Inr (if validated \<and> throughput t \<noteq> None
                           then r\<lparr>measurement_timestamp := Some (ck_now ck)\<rparr> else r)))"

section \<open>Bounds of a request\<close>

lemma read_chunks_Inr:
  "read_chunks limit retain cs n body = Inr (n', body') \<Longrightarrow> n \<le> limit
     \<Longrightarrow> n' \<le> limit \<and> n' = n + int (length (concat cs))
       \<and> body' = (if retain then body @ concat cs else body)"
proof (induction cs arbitrary: n body)
  case Nil
  then show ?case by auto
next
  case (Cons c cs)
  then have le: "n + int (length c) \<le> limit"
    and rest: "read_chunks limit retain cs (n + int (length c)) (if retain then body @ c else body)
      = Inr (n', body')"
    by (auto simp: Let_def split: if_splits)
  from Cons.IH [OF rest le] show ?case by auto
qed

definition response_ok :: "request_params \<Rightarrow> ResponseData \<Rightarrow> bool" where
  "response_ok P rd \<longleftrightarrow>
     0 \<le> rd_bytes_read rd \<and> rd_bytes_read rd \<le> rp_body_limit P
     \<and> int (length (rd_body rd)) \<le> rd_bytes_read rd
     \<and> int (rd_redirects rd) \<le> rp_max_redirects P
     \<and> (\<not> rp_follow P \<longrightarrow> rd_redirects rd = 0)
     \<and> (rd_status rd \<in> rp_accepted P \<and> rp_read_body P \<and> rp_expected P \<noteq> None
          \<longrightarrow> Some (rd_bytes_read rd) = rp_expected P)
     \<and> opt_ok (\<lambda>d. 0 < d) (rd_transfer rd) \<and> opt_ok (\<lambda>d. 0 \<le> d) (rd_ttfb rd)"

lemma elapsed_ok: "opt_ok (\<lambda>d. 0 \<le> d) (elapsed ck)"
  by (simp add: elapsed_def opt_ok_def split: option.split)

lemma at_least_nano_pos: "0 < at_least_nano d"
  by (simp add: at_least_nano_def less_max_iff_disj)

lemma finish_response_ok:
  assumes "finish_response ck P resp n w tr = Inr rd" "int n \<le> rp_max_redirects P"
    "\<not> rp_follow P \<longrightarrow> n = 0" "0 \<le> rp_body_limit P" "opt_ok (\<lambda>d. 0 < d) tr"
  shows "response_ok P rd"
proof (cases "resp_status resp \<in> rp_accepted P \<and> rp_read_body P")
  case True
  with assms(1) obtain k body where rb: "read_body P resp = Inr (k, body)"
      and rd: "rd_bytes_read rd = k" "rd_body rd = body" "rd_redirects rd = n"
        "rd_transfer rd = Some (at_least_nano (resp_transfer resp))" "rd_ttfb rd = elapsed ck"
    by (auto simp: finish_response_def Let_def bindE_Inr_iff)
  from rb have ch: "read_chunks (rp_body_limit P) (rp_retain P) (resp_chunks resp) 0 [] = Inr (k, body)"
      and ex: "rp_expected P \<noteq> None \<longrightarrow> Some k = rp_expected P"
    by (auto simp: read_body_def bindE_Inr_iff split: if_splits option.splits)
  from read_chunks_Inr [OF ch assms(4)] have "0 \<le> k" "k \<le> rp_body_limit P" "int (length body) \<le> k"
    by auto
  with assms rd ex show ?thesis
    by (simp add: response_ok_def elapsed_ok) (simp add: opt_ok_def at_least_nano_pos)
next
  case False
  with assms show ?thesis
    by (auto simp: finish_response_def Let_def response_ok_def elapsed_ok)
qed

lemma upload_transfer_ok: "opt_ok (\<lambda>d. 0 < d) tr \<Longrightarrow> opt_ok (\<lambda>d. 0 < d) (upload_transfer resp tr)"
  by (auto simp: upload_transfer_def opt_ok_def at_least_nano_pos split: option.splits)

lemma request_loop_ok:
  "request_loop env ck fetch P n url w tr = Inr rd \<Longrightarrow> int n \<le> rp_max_redirects P
     \<Longrightarrow> \<not> rp_follow P \<longrightarrow> n = 0 \<Longrightarrow> 0 \<le> rp_body_limit P \<Longrightarrow> opt_ok (\<lambda>d. 0 < d) tr
     \<Longrightarrow> response_ok P rd"
proof (induction env ck fetch P n url w tr rule: request_loop.induct)
  case (1 env ck fetch P n url w tr)
  from "1.prems"(1) obtain resp where resp: "fetch n url = Inr resp"
    by (subst (asm) request_loop.simps) (auto simp: bindE_Inr_iff)
  note tr' = upload_transfer_ok [OF "1.prems"(5), of resp]
  note unf = "1.prems"(1) [unfolded request_loop.simps [of env ck fetch P n url w tr] resp bindE_simps
      Let_def]
  show ?case
  proof (cases "rp_follow P \<and> resp_status resp \<in> REDIRECT_STATUSES \<and> resp_location resp \<noteq> None")
    case True
    with unf have lt: "\<not> int n \<ge> rp_max_redirects P" by (auto split: if_splits)
    with unf True obtain u where u: "redirect_url env (resp_url resp) (the (resp_location resp)) = Inr u"
        "request_loop env ck fetch P (Suc n) u (upload_written resp w) (upload_transfer resp tr) = Inr rd"
      by (auto simp: bindE_Inr_iff)
    show ?thesis
      by (rule "1.IH" [OF resp refl refl True lt u]) (use True lt "1.prems"(4) tr' in auto)
  next
    case False
    with unf have "finish_response ck P resp n (upload_written resp w) (upload_transfer resp tr) = Inr rd"
      by (auto split: if_splits)
    then show ?thesis by (rule finish_response_ok) (use "1.prems" tr' in auto)
  qed
qed

lemma request_ok:
  "request env ck fetch P = Inr rd \<Longrightarrow> 0 \<le> rp_max_redirects P \<Longrightarrow> 0 \<le> rp_body_limit P
     \<Longrightarrow> response_ok P rd"
  unfolding request_def by (rule request_loop_ok) (auto simp: opt_ok_def)

section \<open>Where requests may go\<close>

definition safe_url :: "string \<Rightarrow> bool" where
  "safe_url url \<longleftrightarrow> (\<exists>p. urlsplit url = Some p \<and> py_casefold (url_scheme p) \<in> {''http'', ''https''}
     \<and> truthy (url_hostname p) \<and> url_username p = None \<and> url_password p = None)"

lemma redirect_url_safe: "redirect_url env base loc = Inr u \<Longrightarrow> safe_url u"
  by (auto simp: redirect_url_def safe_url_def split: option.splits if_splits)

lemma casefold_http: "s \<in> {''http'', ''https''} \<Longrightarrow> py_casefold s \<in> {''http'', ''https''}"
proof -
  have "py_casefold ''http'' = ''http''" "py_casefold ''https'' = ''https''" by code_simp+
  then show "s \<in> {''http'', ''https''} \<Longrightarrow> py_casefold s \<in> {''http'', ''https''}" by auto
qed

lemma absolute_http_url_safe: "absolute_http_url kind v = Inr u \<Longrightarrow> u = v \<and> safe_url u"
  using casefold_http unfolding absolute_http_url_def safe_url_def
  by (auto split: option.splits if_splits)

lemma request_loop_safe:
  "(\<And>n u. safe_url u \<Longrightarrow> fetch n u = fetch' n u) \<Longrightarrow> safe_url url
     \<Longrightarrow> request_loop env ck fetch P n url w tr = request_loop env ck fetch' P n url w tr"
proof (induction env ck fetch P n url w tr rule: request_loop.induct)
  case (1 env ck fetch P n url w tr)
  have same: "fetch' n url = fetch n url" using "1.prems" by simp
  show ?case
  proof (cases "fetch n url")
    case (Inl e)
    with same show ?thesis by (simp add: request_loop.simps [of env ck _ P n url w tr])
  next
    case (Inr resp)
    let ?go = "rp_follow P \<and> resp_status resp \<in> REDIRECT_STATUSES \<and> resp_location resp \<noteq> None"
    have eq: "bindE (redirect_url env (resp_url resp) (the (resp_location resp)))
        (\<lambda>next. request_loop env ck fetch P (Suc n) next (upload_written resp w) (upload_transfer resp tr))
      = bindE (redirect_url env (resp_url resp) (the (resp_location resp)))
        (\<lambda>next. request_loop env ck fetch' P (Suc n) next (upload_written resp w) (upload_transfer resp tr))"
      if "?go" "\<not> int n \<ge> rp_max_redirects P"
    proof (rule bindE_cong [OF refl])
      fix u
      assume u: "redirect_url env (resp_url resp) (the (resp_location resp)) = Inr u"
      show "request_loop env ck fetch P (Suc n) u (upload_written resp w) (upload_transfer resp tr)
        = request_loop env ck fetch' P (Suc n) u (upload_written resp w) (upload_transfer resp tr)"
        by (rule "1.IH" [OF Inr refl refl that u]) (use "1.prems"(1) redirect_url_safe [OF u] in auto)
    qed
    show ?thesis
      unfolding request_loop.simps [of env ck _ P n url w tr] same Inr bindE_simps Let_def
      by (rule if_cong [OF refl], rule if_cong [OF refl refl], rule eq, assumption+) (rule refl)
  qed
qed

lemma request_safe:
  "(\<And>n u. safe_url u \<Longrightarrow> fetch n u = fetch' n u) \<Longrightarrow> safe_url (rp_url P)
     \<Longrightarrow> request env ck fetch P = request env ck fetch' P"
  unfolding request_def by (rule request_loop_safe)

lemma target_request_url:
  "target_request env ch t = Inr (P, m) \<Longrightarrow> safe_url (rp_url P)"
  by (auto simp: target_request_def bindE_Inr_iff dest: absolute_http_url_safe)

text \<open>
  C25: a probe only ever talks to HTTP(S) URLs with a host and without credentials. Two networks that
  agree on those URLs give the same result for every target, whatever its URL and whatever redirects
  the servers send.
\<close>
theorem check_target_safe_urls:
  assumes "\<And>n u. safe_url u \<Longrightarrow> fetch n u = fetch' n u"
  shows "check_target env ch ck fetch t = check_target env ch ck fetch' t"
proof -
  have "attempt_target env ch ck fetch t = attempt_target env ch ck fetch' t"
    unfolding attempt_target_def
  proof (rule bindE_cong [OF refl], rule bindE_cong [OF refl])
    fix u Pm
    assume Pm: "target_request env ch t = Inr Pm"
    obtain P m where pm: "Pm = (P, m)" by (cases Pm)
    with Pm have "safe_url (rp_url P)" by (intro target_request_url) simp
    from request_safe [OF assms this] pm
    show "(case Pm of (P, m) \<Rightarrow> bindE (request env ck fetch P) (\<lambda>resp.
        bindE (throughput_settings t) (\<lambda>tp. target_verdict env ck t tp P m resp)))
      = (case Pm of (P, m) \<Rightarrow> bindE (request env ck fetch' P) (\<lambda>resp.
        bindE (throughput_settings t) (\<lambda>tp. target_verdict env ck t tp P m resp)))"
      by simp
  qed
  then show ?thesis by (simp add: check_target_def)
qed


section \<open>Every probe ends in a verdict\<close>

definition bounded_exn :: "exn \<Rightarrow> bool" where
  "bounded_exn e =
     (case exn_class_of e of
        BodyTooLarge n \<Rightarrow> 0 \<le> n
      | CheckerConfigurationError m \<Rightarrow> length m \<le> 240
      | _ \<Rightarrow> True)"

definition only_bounded :: "exn + 'a \<Rightarrow> bool" where
  "only_bounded r \<longleftrightarrow> (\<forall>e. r = Inl e \<longrightarrow> bounded_exn e)"

named_theorems bounded_intros \<open>which exceptions an operation can raise\<close>

lemma only_bounded_simps [simp]:
  "only_bounded (Inr a)" "only_bounded (Inl e) \<longleftrightarrow> bounded_exn e"
  by (simp_all add: only_bounded_def)

lemma only_bounded_bind [bounded_intros]:
  "only_bounded r \<Longrightarrow> (\<And>a. r = Inr a \<Longrightarrow> only_bounded (f a)) \<Longrightarrow> only_bounded (bindE r f)"
  by (cases r) auto

lemma bounded_exn_simps [simp]:
  "bounded_exn (Exn (CheckerConfigurationError m) c) \<longleftrightarrow> length m \<le> 240"
  "bounded_exn (Exn (BodyTooLarge n) c) \<longleftrightarrow> 0 \<le> n"
  "bounded_exn (Exn InvalidResponse c)" "bounded_exn (Exn PyValueError c)"
  "bounded_exn (Exn TooManyRedirects c)"
  by (simp_all add: bounded_exn_def)

lemma bounded_checks [bounded_intros]:
  "only_bounded (checked_target_id t)" "only_bounded (absolute_http_url ''target'' v)"
  "only_bounded (absolute_http_url ''egress'' v)"
  "only_bounded (positive_timeout x y)" "only_bounded (body_limit m n)"
  "only_bounded (throughput_settings t)" "only_bounded (checked_statuses t)"
  "only_bounded (matcher env t)" "only_bounded (redirect_limit t)"
  "only_bounded (redirect_url env b l)"
  by (auto simp: checked_target_id_def absolute_http_url_def positive_timeout_def body_limit_def
      throughput_settings_def checked_statuses_def matcher_def redirect_limit_def redirect_url_def Let_def
      split: option.splits if_splits)

lemma bounded_validate [bounded_intros]: "only_bounded (validate_target env t d b)"
  unfolding validate_target_def Let_def by (intro bounded_intros) (auto intro!: bounded_intros)

lemma bounded_target_request [bounded_intros]: "only_bounded (target_request env ch t)"
  unfolding target_request_def
  by (intro bounded_intros) (auto intro!: bounded_intros split: option.split)

text \<open>What the environment is relied on for: exceptions of other libraries are not this module's own.\<close>

definition transport_ok :: "probe_env \<Rightarrow> (nat \<Rightarrow> string \<Rightarrow> exn + http_response) \<Rightarrow> bool" where
  "transport_ok env fetch \<longleftrightarrow>
     (\<forall>n u. only_bounded (fetch n u)
        \<and> (\<forall>resp. fetch n u = Inr resp \<longrightarrow> opt_ok bounded_exn (resp_stream_error resp)))
     \<and> (\<forall>p x. only_bounded (regex_process env p x))"

lemma bounded_read_chunks: "0 \<le> n \<Longrightarrow> only_bounded (read_chunks limit retain cs n body)"
  by (induction cs arbitrary: n body) (auto simp: Let_def)

lemma bounded_read_body:
  assumes "opt_ok bounded_exn (resp_stream_error resp)"
  shows "only_bounded (read_body P resp)"
proof -
  have "declared_length resp = Some d \<Longrightarrow> 0 \<le> d" for d
    by (auto simp: declared_length_def split: option.splits if_splits)
  then have "only_bounded (check_declared P resp)"
    by (auto simp: check_declared_def split: option.split)
  then show ?thesis
    unfolding read_body_def using assms
    by (intro only_bounded_bind)
       (auto intro!: only_bounded_bind bounded_read_chunks simp: opt_ok_def split: option.splits)
qed

lemma bounded_request_loop:
  "transport_ok env fetch \<Longrightarrow> only_bounded (request_loop env ck fetch P n url w tr)"
proof (induction env ck fetch P n url w tr rule: request_loop.induct)
  case (1 env ck fetch P n url w tr)
  show ?case
  proof (cases "fetch n url")
    case (Inl e)
    with "1.prems" have "bounded_exn e" by (metis transport_ok_def only_bounded_simps(2))
    with Inl show ?thesis by (simp add: request_loop.simps [of env ck fetch P n url w tr])
  next
    case (Inr resp)
    with "1.prems" have "opt_ok bounded_exn (resp_stream_error resp)" by (simp add: transport_ok_def)
    then have fin: "only_bounded (finish_response ck P resp k v x)" for k v x
      by (auto simp: finish_response_def Let_def intro!: only_bounded_bind bounded_read_body)
    let ?go = "rp_follow P \<and> resp_status resp \<in> REDIRECT_STATUSES \<and> resp_location resp \<noteq> None"
    have follow: "only_bounded (bindE (redirect_url env (resp_url resp) (the (resp_location resp)))
        (\<lambda>next. request_loop env ck fetch P (Suc n) next (upload_written resp w) (upload_transfer resp tr)))"
      if "?go" "\<not> int n \<ge> rp_max_redirects P"
      by (rule only_bounded_bind [OF bounded_checks(10)])
         (rule "1.IH" [OF Inr refl refl that _ "1.prems"])
    show ?thesis
      unfolding request_loop.simps [of env ck fetch P n url w tr] Inr bindE_simps Let_def
      using follow fin by simp
  qed
qed

lemma bounded_match:
  assumes "transport_ok env fetch"
  shows "only_bounded (decode_and_match env body enc m)"
  using assms unfolding decode_and_match_def regex_search_def Let_def
  by (auto simp: transport_ok_def intro!: only_bounded_bind split: BodyMatchKind.split)

lemma bounded_make [bounded_intros]: "only_bounded (make_TargetResult r)"
  by (auto simp: make_TargetResult_def split: sum.split)

lemma bounded_verdict:
  assumes "transport_ok env fetch"
  shows "only_bounded (target_verdict env ck t tp P m resp)"
  unfolding target_verdict_def Let_def
  by (intro only_bounded_bind) (auto intro!: bounded_match [OF assms] bounded_make split: option.splits)

lemma bounded_attempt:
  assumes "transport_ok env fetch"
  shows "only_bounded (attempt_target env ch ck fetch t)"
  unfolding attempt_target_def request_def
  by (auto intro!: only_bounded_bind bounded_validate bounded_target_request bounded_checks(6)
      bounded_request_loop [OF assms] bounded_verdict [OF assms])

lemma classify_network:
  "network_failure (fst (classify_exception e)) \<or> fst (classify_exception e) \<in> {CONFIG_INVALID, INTERNAL}"
  by (auto simp: classify_exception_def Let_def network_failure_def split: exn_class.split)

lemma classify_message: "bounded_exn e \<Longrightarrow> length (snd (classify_exception e)) \<le> 240"
  by (auto simp: classify_exception_def Let_def bounded_exn_def split: exn_class.splits)

text \<open>The fields of an error result.\<close>

lemma target_error_result_Inr:
  assumes "bounded_exn e" "opt_ok (\<lambda>d. 0 \<le> d) duration" "opt_ok (\<lambda>d. 0 \<le> d) ttfb"
  obtains r where "target_error_result tid e duration ttfb = Inr r" "tr_target_id r = tid"
    "tr_reason r = Some (fst (classify_exception e))"
    "tr_state r = (if network_failure (fst (classify_exception e)) then ReachabilityState.FAILURE
       else ReachabilityState.ERROR)"
    "tr_success r = (if network_failure (fst (classify_exception e)) then Some False else None)"
proof -
  obtain reason msg where c: "classify_exception e = (reason, msg)" by (cases "classify_exception e")
  have "length msg \<le> 240" using classify_message [OF assms(1)] c by simp
  moreover have "opt_ok (\<lambda>n. 0 \<le> n) (case exn_class_of e of BodyTooLarge n \<Rightarrow> Some n | _ \<Rightarrow> None)"
    using assms(1) by (auto simp: bounded_exn_def opt_ok_def split: exn_class.splits)
  ultimately show ?thesis
    using assms(2,3) that
    by (cases "network_failure reason")
       (simp_all add: target_error_result_def c make_TargetResult_def target_fields_ok_def
          plain_result_def coherent_success_def)
qed

text \<open>
  C24: a probe of one target always ends in a result. Whatever the network, the codecs and the body
  matcher do, \<open>check_target\<close> raises nothing except the cancellation of its own task.
\<close>
theorem check_target_total:
  assumes "transport_ok env fetch"
  shows "(\<exists>r. check_target env ch ck fetch t = Inr r)
    \<or> (\<exists>e. check_target env ch ck fetch t = Inl e \<and> exn_class_of e = Cancelled)"
proof (cases "attempt_target env ch ck fetch t")
  case (Inr r)
  then show ?thesis by (simp add: check_target_def)
next
  case (Inl e)
  have "bounded_exn e" using bounded_attempt [OF assms, of ch ck t] Inl by (simp add: only_bounded_def)
  then obtain r where "target_error_result (if target_id t = [] then ''invalid-target'' else target_id t) e
      (Some (max 0 (ck_failed ck)))
      (if validate_target env t (request_timeout ch) (default_body_limit ch) = Inr () then elapsed ck
       else None) = Inr r"
    by (rule target_error_result_Inr) (auto simp: elapsed_ok)
  with Inl show ?thesis by (simp add: check_target_def Let_def)
qed

lemma make_TargetResult_Inr:
  "make_TargetResult r = Inr r' \<Longrightarrow> tr_state r' = tr_state r \<and> tr_reason r' = tr_reason r
     \<and> tr_target_id r' = tr_target_id r \<and> http_status r' = http_status r"
  by (auto simp: make_TargetResult_def coherent_success_def Let_def split: if_splits sum.splits)

lemma target_verdict_Inr:
  assumes "target_verdict env ck t tp P m rd = Inr r"
  shows "tr_target_id r = target_id t \<and> http_status r = Some (rd_status rd)
    \<and> ((tr_state r = ReachabilityState.SUCCESS \<and> rd_status rd \<in> rp_accepted P
         \<and> (\<forall>b. m = Some b \<longrightarrow> decode_and_match env (rd_body rd) (rd_encoding rd) b = Inr True))
       \<or> (tr_state r = ReachabilityState.FAILURE \<and> rd_status rd \<notin> rp_accepted P
         \<and> tr_reason r = Some HTTP_STATUS)
       \<or> (tr_state r = ReachabilityState.FAILURE \<and> tr_reason r = Some BODY_MISMATCH \<and> m \<noteq> None))"
  using assms
  by (auto simp: target_verdict_def Let_def bindE_Inr_iff plain_result_def
      dest!: make_TargetResult_Inr split: if_splits option.splits)

text \<open>
  C23: what the verdict on a target means. SUCCESS means that the bounded request returned a response
  whose status is expected and whose body matched; FAILURE always names a reason on the network's or
  the server's side; ERROR is reported only for an invalid configuration or an internal error. The
  result carries the target's own ID.
\<close>
theorem check_target_verdict:
  assumes "check_target env ch ck fetch t = Inr r" and "transport_ok env fetch"
  shows "(tr_state r = ReachabilityState.SUCCESS
        \<and> (\<exists>P m rd. target_request env ch t = Inr (P, m) \<and> request env ck fetch P = Inr rd
            \<and> rd_status rd \<in> expected_statuses t \<and> http_status r = Some (rd_status rd)
            \<and> (\<forall>b. m = Some b \<longrightarrow> decode_and_match env (rd_body rd) (rd_encoding rd) b = Inr True)))
    \<or> (tr_state r = ReachabilityState.FAILURE \<and> (\<exists>x. tr_reason r = Some x \<and> network_failure x))
    \<or> (tr_state r = ReachabilityState.ERROR \<and> tr_reason r \<in> {Some CONFIG_INVALID, Some INTERNAL})"
proof (cases "attempt_target env ch ck fetch t")
  case (Inr r')
  then have r: "attempt_target env ch ck fetch t = Inr r" using assms(1) by (simp add: check_target_def)
  then obtain P m rd tp where *: "target_request env ch t = Inr (P, m)" "request env ck fetch P = Inr rd"
      "target_verdict env ck t tp P m rd = Inr r"
    by (auto simp: attempt_target_def bindE_Inr_iff)
  moreover have "rp_accepted P = expected_statuses t"
    using *(1) by (auto simp: target_request_def bindE_Inr_iff checked_statuses_def split: if_splits)
  ultimately show ?thesis
    using target_verdict_Inr [OF *(3)] by (auto simp: network_failure_def)
next
  case (Inl e)
  have b: "bounded_exn e" using bounded_attempt [OF assms(2), of ch ck t] Inl by (simp add: only_bounded_def)
  have nc: "exn_class_of e \<noteq> Cancelled" using assms(1) Inl by (auto simp: check_target_def)
  obtain r' where r': "target_error_result (if target_id t = [] then ''invalid-target'' else target_id t) e
      (Some (max 0 (ck_failed ck)))
      (if validate_target env t (request_timeout ch) (default_body_limit ch) = Inr () then elapsed ck
       else None) = Inr r'" "tr_reason r' = Some (fst (classify_exception e))"
    "tr_state r' = (if network_failure (fst (classify_exception e)) then ReachabilityState.FAILURE
       else ReachabilityState.ERROR)"
    by (rule target_error_result_Inr [OF b]) (auto simp: elapsed_ok)
  have "tr_state r = tr_state r' \<and> tr_reason r = tr_reason r'"
    using assms(1) Inl nc r'(1) by (auto simp: check_target_def Let_def split: if_splits)
  then show ?thesis using r'(2,3) classify_network [of e] by auto
qed

lemma validated_request:
  assumes "validate_target env t (request_timeout ch) (default_body_limit ch) = Inr ()"
  obtains P m where "target_request env ch t = Inr (P, m)" "rp_url P = target_url t"
    "rp_accepted P = expected_statuses t" "expected_statuses t \<subseteq> {100..599}" "0 \<le> rp_max_redirects P"
proof -
  from assms have
    "\<exists>u. absolute_http_url ''target'' (target_url t) = Inr u" "\<exists>s. checked_statuses t = Inr s"
    "\<exists>n. positive_timeout (target_timeout t) (request_timeout ch) = Inr n"
    "\<exists>tp. throughput_settings t = Inr tp" "\<exists>m. matcher env t = Inr m"
    "\<exists>b. body_limit (Some (max_body_bytes t)) (default_body_limit ch) = Inr b"
    "\<exists>k. redirect_limit t = Inr k"
    unfolding validate_target_def Let_def bindE_Inr_iff by (auto simp: bindE_Inr_iff split: if_splits)
  then obtain u s n tp m b k where v:
    "absolute_http_url ''target'' (target_url t) = Inr u" "checked_statuses t = Inr s"
    "positive_timeout (target_timeout t) (request_timeout ch) = Inr n"
    "throughput_settings t = Inr tp" "matcher env t = Inr m"
    "body_limit (Some (max_body_bytes t)) (default_body_limit ch) = Inr b" "redirect_limit t = Inr k"
    by blast
  have "u = target_url t" "s = expected_statuses t" "expected_statuses t \<subseteq> {100..599}" "0 \<le> k"
    using v absolute_http_url_safe [OF v(1)]
    by (auto simp: checked_statuses_def redirect_limit_def split: if_splits)
  with v have "\<exists>P m. target_request env ch t = Inr (P, m) \<and> rp_url P = target_url t
      \<and> rp_accepted P = expected_statuses t \<and> 0 \<le> rp_max_redirects P"
    by (cases "download_bytes tp") (simp_all add: target_request_def)
  with \<open>expected_statuses t \<subseteq> {100..599}\<close> that show ?thesis by blast
qed

text \<open>
  A server that answers with a status above 599 is reported as an internal error. The verdict for
  an unexpected status builds a result whose \<open>http_status\<close> field accepts 100 to 599 only, so the
  validation fails inside the probe and the target becomes ERROR instead of FAILURE.
\<close>
theorem large_status_is_error:
  assumes "validate_target env t (request_timeout ch) (default_body_limit ch) = Inr ()"
    and "fetch 0 (target_url t) = Inr resp" "599 < resp_status resp"
  shows "\<exists>r. check_target env ch ck fetch t = Inr r \<and> tr_state r = ReachabilityState.ERROR
    \<and> tr_reason r = Some INTERNAL"
proof -
  obtain P m where P: "target_request env ch t = Inr (P, m)" "rp_url P = target_url t"
    "rp_accepted P = expected_statuses t" "expected_statuses t \<subseteq> {100..599}" "0 \<le> rp_max_redirects P"
    by (rule validated_request [OF assms(1)])
  have odd: "resp_status resp \<notin> REDIRECT_STATUSES" "resp_status resp \<notin> rp_accepted P"
    using assms(3) P(3,4) by (auto simp: REDIRECT_STATUSES_def)
  have "request env ck fetch P
      = finish_response ck P resp 0 (upload_written resp 0) (upload_transfer resp None)"
    using odd assms(2) P(2,5) by (simp add: request_def request_loop.simps [of env ck fetch P 0] Let_def)
  then obtain rd where rd: "request env ck fetch P = Inr rd" "rd_status rd = resp_status resp"
    using odd by (auto simp: finish_response_def Let_def)
  obtain tp where tp: "throughput_settings t = Inr tp"
    using P(1) by (auto simp: target_request_def bindE_Inr_iff)
  have "target_verdict env ck t tp P m rd = Inl (raises PyValueError)"
    using odd(2) assms(3) rd(2)
    by (simp add: target_verdict_def Let_def make_TargetResult_def target_fields_ok_def plain_result_def
        opt_ok_def)
  then have fail: "attempt_target env ch ck fetch t = Inl (raises PyValueError)"
    using assms(1) P(1) rd(1) tp by (simp add: attempt_target_def)
  obtain r where "target_error_result (if target_id t = [] then ''invalid-target'' else target_id t)
      (raises PyValueError) (Some (max 0 (ck_failed ck))) (elapsed ck) = Inr r"
    "tr_reason r = Some INTERNAL" "tr_state r = ReachabilityState.ERROR"
    by (rule target_error_result_Inr [of "raises PyValueError"])
       (auto simp: elapsed_ok classify_exception_def network_failure_def)
  then show ?thesis
    using fail assms(1) by (auto simp: check_target_def Let_def)
qed

section \<open>A concrete probe\<close>

definition example_env :: probe_env where
  "example_env = \<lparr>url_accepted = (\<lambda>_. True), pattern_compiles = (\<lambda>_. True),
     codec_replace = (\<lambda>_. Some (\<lambda>b. b)), utf8_replace = (\<lambda>b. b), codec_strict = (\<lambda>_ b. Some b),
     regex_process = (\<lambda>_ _. Inr (0, ''0'')), json_loads = (\<lambda>_. None)\<rparr>"

definition example_checker :: Checker where
  "example_checker = \<lparr>request_timeout = 15, default_body_limit = 65536, egress_body_limit = 4096,
     max_parallel_requests = 8, max_parallel_throughput_requests = 1,
     throughput_initial_due = (\<lambda>_. None)\<rparr>"

definition example_clock :: probe_clock where
  "example_clock = \<lparr>ck_duration = 1, ck_request = 1, ck_failed = 1, ck_first_byte = Some (1 / 2),
     ck_now = 1000\<rparr>"

definition example_response :: "int \<Rightarrow> http_response" where
  "example_response status = \<lparr>resp_status = status, resp_url = ''https://a.b/'', resp_location = None,
     resp_encoding = None, resp_content_length = None, resp_content_encoding = None,
     resp_chunks = [], resp_stream_error = None, resp_transfer = 1, resp_upload = None\<rparr>"

definition example_fetch :: "int \<Rightarrow> nat \<Rightarrow> string \<Rightarrow> exn + http_response" where
  "example_fetch status n url =
     (if url = ''ftp://a.b/'' then Inl (raises ConnectError) else Inr (example_response status))"

lemma example_transport: "transport_ok example_env (example_fetch status)"
  by (simp add: transport_ok_def example_env_def example_fetch_def example_response_def bounded_exn_def)

definition example_verdict :: TargetResult where
  "example_verdict = (plain_result ''t1'' ReachabilityState.SUCCESS)
     \<lparr>tr_success := Some True, http_status := Some 200, duration_seconds := Some 1,
      ttfb_seconds := Some (1 / 2), bytes_read := Some 0, bytes_written := Some 0\<rparr>"

lemma example_checked:
  "check_target example_env example_checker example_clock (example_fetch 200) example_target
     = Inr example_verdict"
  by code_simp

theorem check_target_safe_urls_witness:
  "check_target example_env example_checker example_clock (example_fetch 200) example_target
   = check_target example_env example_checker example_clock
       (\<lambda>n url. Inr (example_response 200)) example_target"
proof (rule check_target_safe_urls)
  fix n u
  assume "safe_url u"
  moreover have "map_option url_scheme (urlsplit ''ftp://a.b/'') = Some ''ftp''"
    "py_casefold ''ftp'' = ''ftp''"
    by code_simp+
  ultimately have "u \<noteq> ''ftp://a.b/''" by (auto simp: safe_url_def)
  then show "example_fetch 200 n u = Inr (example_response 200)" by (simp add: example_fetch_def)
qed

definition example_params :: request_params where
  "example_params = \<lparr>rp_url = ''https://a.b/'', rp_body_limit = 65536, rp_follow = False,
     rp_max_redirects = 0, rp_accepted = {200}, rp_read_body = False, rp_retain = False,
     rp_expected = None, rp_upload = None\<rparr>"


theorem check_target_total_witness:
  "(\<exists>r. check_target example_env example_checker example_clock (example_fetch 200) example_target = Inr r)
   \<or> (\<exists>e. check_target example_env example_checker example_clock (example_fetch 200) example_target = Inl e
        \<and> exn_class_of e = Cancelled)"
  by (rule check_target_total [OF example_transport])

theorem check_target_verdict_witness:
  "tr_state example_verdict = ReachabilityState.SUCCESS \<and> http_status example_verdict = Some 200
   \<and> (\<exists>P m rd. target_request example_env example_checker example_target = Inr (P, m)
        \<and> request example_env example_clock (example_fetch 200) P = Inr rd \<and> rd_status rd \<in> {200})"
proof -
  have "tr_state example_verdict = ReachabilityState.SUCCESS" "http_status example_verdict = Some 200"
    by (simp_all add: example_verdict_def plain_result_def)
  then show ?thesis
    using check_target_verdict [OF example_checked example_transport]
    by (auto simp: example_target_def)
qed

theorem large_status_is_error_witness:
  "\<exists>r. check_target example_env example_checker example_clock (example_fetch 999) example_target = Inr r
     \<and> tr_state r = ReachabilityState.ERROR \<and> tr_reason r = Some INTERNAL"
proof (rule large_status_is_error)
  show "validate_target example_env example_target (request_timeout example_checker)
      (default_body_limit example_checker) = Inr ()"
    by code_simp
  show "example_fetch 999 0 (target_url example_target) = Inr (example_response 999)"
    by (simp add: example_fetch_def example_target_def)
  show "599 < resp_status (example_response 999)" by (simp add: example_response_def)
qed

end
