(* ===== verification/TargetSets.thy ===== *)
theory TargetSets
  imports Probe
begin

text \<open>
  \<open>src/xray_e2e_prober/checker.py\<close>, second half: the SOCKS address, egress assertions, the cycle over a
  target set (which throughput measurements are due, which results are carried over) and the quorum.
  \<open>run\<close> and \<open>run_egress\<close> are what \<open>check_target\<close> and \<open>check_egress\<close> give in this cycle, \<open>digest64\<close> is the
  number in the first eight bytes of the SHA-256 digest of a text.
\<close>

section \<open>The proxy\<close>

definition proxy_url :: "string \<Rightarrow> int \<Rightarrow> exn + string" where
  "proxy_url host port =
     (case ip_address host of
        None \<Rightarrow> Inl (config_error ''SOCKS host must be a loopback IP'')
      | Some address \<Rightarrow>
          if \<not> is_loopback address then Inl (config_error ''SOCKS host must be a loopback IP'')
          else if \<not> (1 \<le> port \<and> port \<le> 65535) then Inl (config_error ''SOCKS port is invalid'')
          else Inr (''socks5://'' @ (if ip_version address = 6 then ''['' @ host @ '']'' else host)
                    @ '':'' @ number_text 10 (nat port)))"

section \<open>Egress assertions\<close>

definition plain_egress :: "string \<Rightarrow> EgressState \<Rightarrow> EgressResult" where
  "plain_egress aid s = \<lparr>er_assertion_id = aid, er_state = s, er_reason = None, observed_ip = None,
     er_duration_seconds = None, er_error = None\<rparr>"

definition make_EgressResult :: "EgressResult \<Rightarrow> exn + EgressResult" where
  "make_EgressResult r =
     (if opt_ok (\<lambda>d. 0 \<le> d) (er_duration_seconds r) \<and> opt_ok (\<lambda>m. length m \<le> 240) (er_error r)
      then Inr r else Inl (raises PyValueError))"

definition egress_networks :: "EgressAssertionConfig \<Rightarrow> exn + ip_net list" where
  "egress_networks a =
     (case those (map ip_network (expected_cidrs a)) of
        None \<Rightarrow> Inl (config_error ''expected CIDR is invalid'')
      | Some [] \<Rightarrow> Inl (config_error ''at least one expected CIDR is required'')
      | Some networks \<Rightarrow> Inr networks)"

text \<open>The walk along the dotted field name.\<close>

fun json_walk :: "string list \<Rightarrow> raw \<Rightarrow> raw option" where
  "json_walk [] v = Some v"
| "json_walk (part # parts) v =
     (case v of
        RDict d \<Rightarrow> (case dict_get d part of Some w \<Rightarrow> json_walk parts w | None \<Rightarrow> None)
      | _ \<Rightarrow> None)"

definition egress_candidate :: "probe_env \<Rightarrow> EgressAssertionConfig \<Rightarrow> string \<Rightarrow> exn + raw" where
  "egress_candidate env a txt =
     (case response_format a of
        PLAIN \<Rightarrow> Inr (RStr (py_strip txt))
      | JSON \<Rightarrow>
          if \<not> truthy (json_field a) then Inl (config_error ''JSON egress field is required'')
          else (case json_loads env txt of
                  None \<Rightarrow> Inl (raises PyValueError)
                | Some v \<Rightarrow>
                    (case json_walk (split_on (CHR ''.'') (the (json_field a))) v of
                       None \<Rightarrow> Inl (raises PyValueError)
                     | Some w \<Rightarrow> Inr w)))"

definition egress_address :: "probe_env \<Rightarrow> EgressAssertionConfig \<Rightarrow> ResponseData \<Rightarrow> exn + ip_addr" where
  "egress_address env a rd =
     (if rd_status rd \<noteq> 200 then Inl (raises PyValueError)
      else case codec_strict env (or_utf8 (rd_encoding rd)) (rd_body rd) of
        None \<Rightarrow> Inl (raises PyValueError)
      | Some txt \<Rightarrow>
          bindE (egress_candidate env a txt) (\<lambda>candidate.
            case candidate of
              RStr s \<Rightarrow> (case ip_address (py_strip s) of
                           None \<Rightarrow> Inl (raises PyValueError) | Some ip \<Rightarrow> Inr ip)
            | _ \<Rightarrow> Inl (raises PyValueError)))"

definition egress_params :: "Checker \<Rightarrow> string \<Rightarrow> request_params" where
  "egress_params ch url = \<lparr>rp_url = url, rp_body_limit = egress_body_limit ch, rp_follow = False,
     rp_max_redirects = 0, rp_accepted = {200}, rp_read_body = True, rp_retain = True,
     rp_expected = None, rp_upload = None\<rparr>"

definition attempt_egress ::
  "probe_env \<Rightarrow> Checker \<Rightarrow> probe_clock \<Rightarrow> (nat \<Rightarrow> string \<Rightarrow> exn + http_response)
     \<Rightarrow> EgressAssertionConfig \<Rightarrow> string \<Rightarrow> exn + EgressResult" where
  "attempt_egress env ch ck fetch a aid =
     bindE (absolute_http_url ''egress'' (assertion_url a)) (\<lambda>url.
     bindE (positive_timeout (assertion_timeout a) (request_timeout ch)) (\<lambda>_.
     bindE (egress_networks a) (\<lambda>networks.
     bindE (request env ck fetch (egress_params ch url)) (\<lambda>rd.
     bindE (egress_address env a rd) (\<lambda>observed.
     let matches = list_ex (\<lambda>n. ip_version observed = net_version n \<and> in_network observed n) networks
     in make_EgressResult ((plain_egress aid (if matches then EgressState.MATCH else EgressState.MISMATCH))
          \<lparr>er_reason := (if matches then None else Some EGRESS_MISMATCH),
           observed_ip := Some (ip_text observed), er_duration_seconds := Some (rd_duration rd),
           er_error := (if matches then None else Some ''egress IP is outside expected networks'')\<rparr>))))))"

definition check_egress ::
  "probe_env \<Rightarrow> Checker \<Rightarrow> probe_clock \<Rightarrow> (nat \<Rightarrow> string \<Rightarrow> exn + http_response)
     \<Rightarrow> EgressAssertionConfig \<Rightarrow> exn + EgressResult" where
  "check_egress env ch ck fetch a =
     (let aid = (if assertion_id a = [] then ''invalid-assertion'' else assertion_id a)
      in if \<not> assertion_enabled a then make_EgressResult (plain_egress aid EgressState.DISABLED)
         else case attempt_egress env ch ck fetch a aid of
           Inr r \<Rightarrow> Inr r
         | Inl e \<Rightarrow>
             if exn_class_of e = Cancelled then Inl e
             else
               let (reason, safe_error) =
                 (if exn_class_of e = PyValueError then (RESPONSE_INVALID, ''egress response is invalid'')
                  else classify_exception e)
               in make_EgressResult ((plain_egress aid EgressState.ERROR)
                    \<lparr>er_reason := Some reason, er_duration_seconds := Some (max 0 (ck_failed ck)),
                     er_error := Some safe_error\<rparr>))"

section \<open>Which targets run\<close>

definition initial_due :: "nat \<Rightarrow> rat \<Rightarrow> rat \<Rightarrow> rat" where
  "initial_due digest period now =
     (let offset = of_nat digest / 2 ^ 64 * period
      in (of_int (floor ((now - offset) / period)) + 1) * period + offset)"

record cycle_plan =
  pl_due :: "string \<Rightarrow> rat option"
  pl_cached :: "(string, TargetResult) dict"
  pl_run :: "TargetConfig list"

definition plan_target ::
  "(string \<Rightarrow> nat) \<Rightarrow> string option \<Rightarrow> bool \<Rightarrow> rat \<Rightarrow> (string, TargetResult) dict \<Rightarrow> TargetConfig
     \<Rightarrow> cycle_plan \<Rightarrow> exn + cycle_plan" where
  "plan_target digest64 schedule_key force now previous_by_id t pl =
     bindE (checked_target_id t) (\<lambda>tid.
     bindE (throughput_settings t) (\<lambda>tp.
     let previous = dict_get previous_by_id tid;
         measured_at = (case previous of Some r \<Rightarrow> measurement_timestamp r | None \<Rightarrow> None)
     in case (tp, measured_at) of
          (Some c, Some m) \<Rightarrow>
            if \<not> force \<and> 0 \<le> now - m \<and> now - m < tp_interval c
            then Inr (pl\<lparr>pl_cached := dict_set tid (the previous) (pl_cached pl)\<rparr>)
            else Inr (pl\<lparr>pl_run := pl_run pl @ [t]\<rparr>)
        | (Some c, None) \<Rightarrow>
            if \<not> force \<and> schedule_key \<noteq> None
            then
              let schedule_id = the schedule_key @ NUL # tid;
                  due = (case pl_due pl schedule_id of
                           Some d \<Rightarrow> d
                         | None \<Rightarrow> initial_due (digest64 schedule_id) (tp_interval c) now)
              in if now < due
                 then bindE (make_TargetResult (plain_result tid ReachabilityState.UNKNOWN)) (\<lambda>r.
                        Inr (pl\<lparr>pl_due := (pl_due pl)(schedule_id \<mapsto> due),
                                pl_cached := dict_set tid r (pl_cached pl)\<rparr>))
                 else Inr (pl\<lparr>pl_due := (pl_due pl)(schedule_id := None), pl_run := pl_run pl @ [t]\<rparr>)
            else Inr (pl\<lparr>pl_run := pl_run pl @ [t]\<rparr>)
        | (None, _) \<Rightarrow> Inr (pl\<lparr>pl_run := pl_run pl @ [t]\<rparr>)))"

section \<open>The cycle over a target set\<close>

definition health_targets :: "TargetConfig list \<Rightarrow> exn + TargetConfig list" where
  "health_targets ts =
     bindE (mapE throughput_settings ts) (\<lambda>tps.
       Inr (map fst (filter (\<lambda>(t, tp). tp = None) (zip ts tps))))"

definition failed_target :: "exn \<Rightarrow> rat \<Rightarrow> TargetConfig \<Rightarrow> exn + TargetResult" where
  "failed_target e failed_at t =
     bindE (checked_target_id t) (\<lambda>tid.
     bindE (target_error_result tid e None None) (\<lambda>r.
     bindE (throughput_settings t) (\<lambda>tp.
       Inr (if tp \<noteq> None then r\<lparr>measurement_timestamp := Some failed_at\<rparr> else r))))"

definition failed_egress :: "exn \<Rightarrow> EgressAssertionConfig \<Rightarrow> exn + EgressResult" where
  "failed_egress e a =
     make_EgressResult ((plain_egress (assertion_id a) EgressState.ERROR)
       \<lparr>er_reason := Some (fst (classify_exception e)), er_error := Some (snd (classify_exception e))\<rparr>)"

text \<open>The client is opened and closed around both \<open>gather\<close>s; its failure fails every probe of the cycle.\<close>

definition run_probes ::
  "exn option \<Rightarrow> (TargetConfig \<Rightarrow> exn + TargetResult) \<Rightarrow> (EgressAssertionConfig \<Rightarrow> exn + EgressResult)
     \<Rightarrow> rat \<Rightarrow> TargetConfig list \<Rightarrow> EgressAssertionConfig list
     \<Rightarrow> exn + TargetResult list \<times> EgressResult list" where
  "run_probes client_error run run_egress failed_at ts asserts =
     (case (case client_error of
              Some e \<Rightarrow> Inl e
            | None \<Rightarrow> bindE (mapE run ts) (\<lambda>rs.
                bindE (mapE run_egress asserts) (\<lambda>es. Inr (rs, es)))) of
        Inr results \<Rightarrow> Inr results
      | Inl e \<Rightarrow>
          if exn_class_of e = Cancelled then Inl e
          else bindE (mapE (failed_target e failed_at) ts) (\<lambda>rs.
               bindE (mapE (failed_egress e) asserts) (\<lambda>es. Inr (rs, es))))"

definition reachability_state :: "int \<Rightarrow> TargetResult list \<Rightarrow> ReachabilityState" where
  "reachability_state needed health =
     (if int (length (filter (\<lambda>r. tr_state r = ReachabilityState.SUCCESS) health)) \<ge> needed
      then ReachabilityState.SUCCESS
      else if list_ex (\<lambda>r. tr_state r = ReachabilityState.ERROR) health then ReachabilityState.ERROR
      else ReachabilityState.FAILURE)"

definition collect_results ::
  "TargetConfig list \<Rightarrow> (string, TargetResult) dict \<Rightarrow> TargetResult list \<Rightarrow> exn + TargetResult list" where
  "collect_results ts cached fresh =
     (let fresh_by_id = dict_of (map (\<lambda>r. (tr_target_id r, r)) fresh)
      in mapE (\<lambda>t. case dict_get cached (target_id t) of
                 Some r \<Rightarrow> Inr r
               | None \<Rightarrow> (case dict_get fresh_by_id (target_id t) of
                            Some r \<Rightarrow> Inr r | None \<Rightarrow> Inl (raises OtherException))) ts)"

definition check_target_set ::
  "(string \<Rightarrow> nat) \<Rightarrow> exn option \<Rightarrow> (TargetConfig \<Rightarrow> exn + TargetResult)
     \<Rightarrow> (EgressAssertionConfig \<Rightarrow> exn + EgressResult) \<Rightarrow> string \<Rightarrow> int \<Rightarrow> TargetSetConfig
     \<Rightarrow> EgressAssertionConfig list \<Rightarrow> TargetResult list \<Rightarrow> string option \<Rightarrow> bool \<Rightarrow> rat \<Rightarrow> rat \<Rightarrow> Checker
     \<Rightarrow> exn + Checker \<times> ReachabilityResult \<times> EgressResult list" where
  "check_target_set digest64 client_error run run_egress host port ts asserts previous schedule_key
       force now failed_at ch =
     (let enabled = filter target_enabled (targets ts)
      in bindE (health_targets enabled) (\<lambda>health.
         if quorum ts < 1 \<or> quorum ts > int (length health)
         then Inl (config_error ''target set quorum is invalid'')
         else if \<not> target_set_enabled ts
         then Inr (ch, \<lparr>rr_state = ReachabilityState.DISABLED, success_count = 0, rr_quorum = quorum ts,
                        rr_targets = []\<rparr>,
                   map (\<lambda>a. plain_egress (assertion_id a) EgressState.DISABLED) asserts)
         else bindE (foldE (plan_target digest64 schedule_key force now
                  (dict_of (map (\<lambda>r. (tr_target_id r, r)) previous))) enabled
                \<lparr>pl_due = throughput_initial_due ch, pl_cached = [], pl_run = []\<rparr>) (\<lambda>pl.
         bindE (proxy_url host port) (\<lambda>_.
         bindE (run_probes client_error run run_egress failed_at (pl_run pl) asserts) (\<lambda>(fresh, es).
         bindE (collect_results enabled (pl_cached pl) fresh) (\<lambda>results.
         let health_results = filter (\<lambda>r. tr_target_id r \<in> target_id ` set health) results
         in Inr (ch\<lparr>throughput_initial_due := pl_due pl\<rparr>,
                 \<lparr>rr_state = reachability_state (quorum ts) health_results,
                  success_count = length (filter (\<lambda>r. tr_state r = ReachabilityState.SUCCESS) health_results),
                  rr_quorum = quorum ts, rr_targets = results\<rparr>, es)))))))"

definition run_cycle ::
  "CheckDefinition \<Rightarrow> rat \<Rightarrow> rat \<Rightarrow> exn + Checker \<times> ReachabilityResult \<times> EgressResult list
     \<Rightarrow> exn + Checker \<times> CycleResult" where
  "run_cycle check started completed outcome =
     bindE outcome (\<lambda>(ch, reach, es).
       Inr (ch, \<lparr>cy_check_id = check_id check, cy_generation = chk_generation check,
                 reachability = reach, egress = es, started_at = started, completed_at = completed\<rparr>))"

section \<open>The plan\<close>

lemma throughput_settings_Inr: "throughput_settings t = Inr tp \<Longrightarrow> throughput t = tp"
  by (auto simp: throughput_settings_def split: option.splits if_splits)

lemma health_targets_Inr:
  assumes "health_targets ts = Inr health"
  shows "health = filter (\<lambda>t. throughput t = None) ts"
proof -
  obtain tps where tps: "mapE throughput_settings ts = Inr tps"
      "health = map fst (filter (\<lambda>(t, tp). tp = None) (zip ts tps))"
    using assms by (auto simp: health_targets_def bindE_Inr_iff)
  have "list_all2 (\<lambda>t tp. throughput_settings t = Inr tp) ts tps"
    using tps(1) by (simp add: mapE_Inr_iff)
  then have "map fst (filter (\<lambda>(t, tp). tp = None) (zip ts tps)) = filter (\<lambda>t. throughput t = None) ts"
    by (induction rule: list_all2_induct) (auto dest: throughput_settings_Inr)
  with tps(2) show ?thesis by simp
qed

lemma dict_of_by_id:
  assumes "dict_get (dict_of (map (\<lambda>r. (tr_target_id r, r)) rs)) k = Some r"
  shows "tr_target_id r = k \<and> r \<in> set rs"
proof -
  have "dict_get (rev (map (\<lambda>r. (tr_target_id r, r)) rs)) k = Some r"
    using assms by (simp add: dict_get_of)
  from dict_get_in [OF this] show ?thesis by auto
qed

text \<open>One step of the plan either runs the target or carries a result over, and only a throughput
  target is carried over.\<close>

lemma make_TargetResult_id: "make_TargetResult r = Inr r' \<Longrightarrow> tr_target_id r' = tr_target_id r"
  by (simp add: make_TargetResult_Inr)

lemma plan_target_Inr:
  assumes "plan_target digest64 key force now prev t pl = Inr pl'"
    "\<And>k r. dict_get prev k = Some r \<Longrightarrow> tr_target_id r = k"
  shows "(pl_run pl' = pl_run pl @ [t] \<and> pl_cached pl' = pl_cached pl)
    \<or> (pl_run pl' = pl_run pl \<and> throughput t \<noteq> None
       \<and> (\<exists>r. pl_cached pl' = dict_set (target_id t) r (pl_cached pl) \<and> tr_target_id r = target_id t))"
proof -
  from assms(1) obtain tp where tp: "throughput_settings t = Inr tp" "checked_target_id t = Inr (target_id t)"
    by (auto simp: plan_target_def bindE_Inr_iff checked_target_id_def split: if_splits)
  have "throughput t = tp" using tp(1) by (rule throughput_settings_Inr)
  then show ?thesis
    using assms tp
    by (auto simp: plan_target_def Let_def bindE_Inr_iff plain_result_def
        dest!: make_TargetResult_id split: option.splits if_splits)
qed

definition plan_of :: "cycle_plan \<Rightarrow> TargetConfig list \<Rightarrow> cycle_plan \<Rightarrow> bool" where
  "plan_of pl ts pl' \<longleftrightarrow>
     (\<forall>t \<in> set ts. throughput t = None \<longrightarrow> t \<in> set (pl_run pl'))
     \<and> set (pl_run pl) \<subseteq> set (pl_run pl') \<and> set (pl_run pl') \<subseteq> set (pl_run pl) \<union> set ts
     \<and> (\<forall>k. dict_get (pl_cached pl') k = dict_get (pl_cached pl) k
         \<or> (\<exists>t \<in> set ts. throughput t \<noteq> None \<and> target_id t = k))
     \<and> ((\<forall>k r. dict_get (pl_cached pl) k = Some r \<longrightarrow> tr_target_id r = k)
         \<longrightarrow> (\<forall>k r. dict_get (pl_cached pl') k = Some r \<longrightarrow> tr_target_id r = k))"

lemma plan_of_run:
  assumes "plan_of pl1 ts pl'" "pl_run pl1 = pl_run pl @ [t]" "pl_cached pl1 = pl_cached pl"
  shows "plan_of pl (t # ts) pl'"
  using assms(1) unfolding plan_of_def assms(2,3) list.set set_append by blast

lemma plan_of_cached:
  assumes "plan_of pl1 ts pl'" "pl_run pl1 = pl_run pl" "throughput t \<noteq> None"
    "pl_cached pl1 = dict_set (target_id t) r (pl_cached pl)" "tr_target_id r = target_id t"
  shows "plan_of pl (t # ts) pl'"
proof -
  have get: "dict_get (pl_cached pl1) k
      = (if k = target_id t then Some r else dict_get (pl_cached pl) k)" for k
    unfolding assms(4) by simp
  have ids: "\<forall>k r. dict_get (pl_cached pl1) k = Some r \<longrightarrow> tr_target_id r = k"
    if "\<forall>k r. dict_get (pl_cached pl) k = Some r \<longrightarrow> tr_target_id r = k"
    using that assms(5) by (simp add: get)
  have keep: "dict_get (pl_cached pl') k = dict_get (pl_cached pl) k
      \<or> (\<exists>t \<in> set (t # ts). throughput t \<noteq> None \<and> target_id t = k)" for k
  proof (cases "k = target_id t")
    case True
    with assms(3) show ?thesis by (intro disjI2 bexI [of _ t]) simp_all
  next
    case False
    have "dict_get (pl_cached pl') k = dict_get (pl_cached pl1) k
        \<or> (\<exists>t \<in> set ts. throughput t \<noteq> None \<and> target_id t = k)"
      using assms(1) unfolding plan_of_def by blast
    with get [of k] False show ?thesis by auto
  qed
  show ?thesis
    unfolding plan_of_def
    using assms(1,3) ids keep unfolding plan_of_def assms(2) list.set by blast
qed

lemma plan_fold:
  assumes "\<And>k r. dict_get prev k = Some r \<Longrightarrow> tr_target_id r = k"
  shows "foldE (plan_target digest64 key force now prev) ts pl = Inr pl' \<Longrightarrow> plan_of pl ts pl'"
proof (induction ts arbitrary: pl)
  case Nil
  then show ?case by (simp add: plan_of_def)
next
  case (Cons t ts)
  then obtain pl1 where one: "plan_target digest64 key force now prev t pl = Inr pl1"
      and rest: "foldE (plan_target digest64 key force now prev) ts pl1 = Inr pl'"
    by (auto simp: bindE_Inr_iff)
  have "plan_of pl1 ts pl'" by (rule Cons.IH [OF rest])
  moreover have "(pl_run pl1 = pl_run pl @ [t] \<and> pl_cached pl1 = pl_cached pl)
    \<or> (pl_run pl1 = pl_run pl \<and> throughput t \<noteq> None
       \<and> (\<exists>r. pl_cached pl1 = dict_set (target_id t) r (pl_cached pl) \<and> tr_target_id r = target_id t))"
    by (rule plan_target_Inr [OF one]) (rule assms)
  ultimately show ?case by (elim disjE conjE exE) (auto intro: plan_of_run plan_of_cached)
qed

lemma plan_fold_distinct:
  assumes "\<And>k r. dict_get prev k = Some r \<Longrightarrow> tr_target_id r = k"
  shows "foldE (plan_target digest64 key force now prev) ts pl = Inr pl'
    \<Longrightarrow> distinct (map target_id (pl_run pl @ ts)) \<Longrightarrow> distinct (map target_id (pl_run pl'))"
proof (induction ts arbitrary: pl)
  case (Cons t ts)
  then obtain pl1 where one: "plan_target digest64 key force now prev t pl = Inr pl1"
      and rest: "foldE (plan_target digest64 key force now prev) ts pl1 = Inr pl'"
    by (auto simp: bindE_Inr_iff)
  have "pl_run pl1 = pl_run pl @ [t] \<or> pl_run pl1 = pl_run pl"
    using plan_target_Inr [OF one] assms by blast
  then have "distinct (map target_id (pl_run pl1) @ map target_id ts)"
    using Cons.prems(2) unfolding map_append distinct_append by (elim disjE) (simp_all del: set_map)
  then show ?case using Cons.IH [OF rest] by (simp only: map_append)
qed simp

section \<open>The verdict of a cycle\<close>

lemma mapE_cong: "(\<And>x. x \<in> set xs \<Longrightarrow> f x = g x) \<Longrightarrow> mapE f xs = mapE g xs"
  by (induction xs) auto

lemma mapE_Inr_all: "mapE f xs = Inr ys \<Longrightarrow> ys = map (\<lambda>x. projr (f x)) xs \<and> (\<forall>x \<in> set xs. \<not> isl (f x))"
  by (induction xs arbitrary: ys) (auto simp: bindE_Inr_iff)

lemma mapE_all_Inr: "\<forall>x \<in> set xs. \<not> isl (f x) \<Longrightarrow> mapE f xs = Inr (map (\<lambda>x. projr (f x)) xs)"
proof (induction xs)
  case (Cons x xs)
  then show ?case by (cases "f x") auto
qed simp

lemma mapE_Inl: "mapE f xs = Inl e \<Longrightarrow> \<exists>x \<in> set xs. f x = Inl e"
proof (induction xs)
  case Nil
  then show ?case by simp
next
  case (Cons x xs)
  then show ?case by (cases "f x"; cases "mapE f xs") auto
qed

lemma run_probes_Inr:
  assumes "run_probes None run run_egress failed_at ts asserts = Inr (fresh, es)"
    and "\<And>t e. run t = Inl e \<Longrightarrow> exn_class_of e = Cancelled"
    and "\<And>a e. run_egress a = Inl e \<Longrightarrow> exn_class_of e = Cancelled"
  shows "mapE run ts = Inr fresh \<and> mapE run_egress asserts = Inr es"
proof -
  have c: "exn_class_of e = Cancelled" if "mapE run ts = Inl e" for e
    using mapE_Inl [OF that] assms(2) by blast
  have d: "exn_class_of e = Cancelled" if "mapE run_egress asserts = Inl e" for e
    using mapE_Inl [OF that] assms(3) by blast
  show ?thesis
    using assms(1) c d
    by (cases "mapE run ts"; cases "mapE run_egress asserts") (auto simp: run_probes_def)
qed

lemma collect_results_Inr:
  assumes "collect_results ts cached fresh = Inr results"
    and "\<And>k r. dict_get cached k = Some r \<Longrightarrow> tr_target_id r = k"
  shows "map tr_target_id results = map target_id ts"
proof -
  have "list_all2 (\<lambda>t r. tr_target_id r = target_id t) ts results"
    using assms(1) unfolding collect_results_def Let_def mapE_Inr_iff
    by (rule list_all2_mono) (auto dest: assms(2) dict_of_by_id split: option.splits)
  then show ?thesis
    by (induction rule: list_all2_induct) auto
qed

lemma dict_of_ids:
  assumes "distinct (map tr_target_id rs)" "r \<in> set rs"
  shows "dict_get (dict_of (map (\<lambda>r. (tr_target_id r, r)) rs)) (tr_target_id r) = Some r"
proof -
  have "distinct (map fst (map (\<lambda>r. (tr_target_id r, r)) rs))" using assms(1) by (simp add: o_def)
  then show ?thesis using assms(2) by (simp add: dict_get_of_distinct o_def)
qed

text \<open>The health results of a cycle are the results of the health targets, in their order.\<close>

lemma health_results:
  assumes col: "collect_results enabled (pl_cached pl) fresh = Inr results"
    and plan: "plan_of \<lparr>pl_due = due, pl_cached = [], pl_run = []\<rparr> enabled pl"
    and fresh: "mapE run (pl_run pl) = Inr fresh"
    and dist: "distinct (map target_id enabled)" and dist_run: "distinct (map target_id (pl_run pl))"
    and ids: "\<And>t r. run t = Inr r \<Longrightarrow> tr_target_id r = target_id t"
    and health: "health = filter (\<lambda>t. throughput t = None) enabled"
  shows "mapE run health = Inr (filter (\<lambda>r. tr_target_id r \<in> target_id ` set health) results)"
proof -
  have cached: "dict_get (pl_cached pl) k = Some r \<Longrightarrow> tr_target_id r = k" for k r
    using plan unfolding plan_of_def by simp
  have fr: "fresh = map (\<lambda>t. projr (run t)) (pl_run pl)" "\<forall>t \<in> set (pl_run pl). \<not> isl (run t)"
    using mapE_Inr_all [OF fresh] by simp_all
  have run_id: "tr_target_id (projr (run t)) = target_id t" if "t \<in> set (pl_run pl)" for t
    using fr(2) that ids by (cases "run t") auto
  have fresh_ids: "map tr_target_id fresh = map target_id (pl_run pl)"
    unfolding fr(1) using run_id by simp
  have get_fresh: "dict_get (dict_of (map (\<lambda>r. (tr_target_id r, r)) fresh)) (target_id t) = Some (projr (run t))"
    if "t \<in> set (pl_run pl)" for t
  proof -
    have "distinct (map tr_target_id fresh)" unfolding fresh_ids by (rule dist_run)
    moreover have "projr (run t) \<in> set fresh" using that unfolding fr(1) by simp
    ultimately show ?thesis using dict_of_ids [of fresh "projr (run t)"] run_id [OF that] by simp
  qed
  have inj_ids: "inj_on target_id (set enabled)" using dist by (simp add: distinct_map)
  have free: "dict_get (pl_cached pl) (target_id t) = None" if "t \<in> set health" for t
  proof (rule ccontr)
    assume "dict_get (pl_cached pl) (target_id t) \<noteq> None"
    moreover have "dict_get (pl_cached pl) (target_id t) = None
        \<or> (\<exists>u \<in> set enabled. throughput u \<noteq> None \<and> target_id u = target_id t)"
      using plan unfolding plan_of_def by simp
    ultimately have "\<exists>u. u \<in> set enabled \<and> throughput u \<noteq> None \<and> target_id u = target_id t"
      by auto
    then obtain u where u: "u \<in> set enabled" "throughput u \<noteq> None" "target_id u = target_id t"
      by blast
    have "t \<in> set enabled" using that health by simp
    then have "u = t" using inj_ids u(1,3) by (meson inj_onD)
    then show False using u(2) that health by simp
  qed
  have at: "tr_target_id r = target_id t \<and> (t \<in> set health \<longrightarrow> r = projr (run t) \<and> \<not> isl (run t))"
    if "t \<in> set enabled" "(case dict_get (pl_cached pl) (target_id t) of
          Some r \<Rightarrow> Inr r
        | None \<Rightarrow> (case dict_get (dict_of (map (\<lambda>r. (tr_target_id r, r)) fresh)) (target_id t) of
            Some r \<Rightarrow> Inr r | None \<Rightarrow> Inl (raises OtherException))) = Inr r" for t r
  proof -
    have "tr_target_id r = target_id t"
      using that(2) by (auto dest: cached dict_of_by_id split: option.splits)
    moreover have "r = projr (run t) \<and> \<not> isl (run t)" if h: "t \<in> set health"
    proof -
      have "t \<in> set (pl_run pl)" using plan h health unfolding plan_of_def by auto
      then show ?thesis
        using get_fresh fr(2) free [OF h] \<open>(case dict_get (pl_cached pl) (target_id t) of
          Some r \<Rightarrow> Inr r
        | None \<Rightarrow> (case dict_get (dict_of (map (\<lambda>r. (tr_target_id r, r)) fresh)) (target_id t) of
            Some r \<Rightarrow> Inr r | None \<Rightarrow> Inl (raises OtherException))) = Inr r\<close> by simp
    qed
    ultimately show ?thesis by blast
  qed
  have inj: "target_id t \<in> target_id ` set health \<longleftrightarrow> t \<in> set health" if "t \<in> set enabled" for t
    using that health inj_on_image_mem_iff [OF inj_ids that, of "set health"] by auto
  have "list_all2 (\<lambda>t r. t \<in> set enabled \<and> tr_target_id r = target_id t
      \<and> (t \<in> set health \<longrightarrow> r = projr (run t) \<and> \<not> isl (run t))) enabled results"
    using col at unfolding collect_results_def Let_def mapE_Inr_iff
    by (auto simp: list_all2_conv_all_nth)
  then have "list_all2 (\<lambda>t r. r = projr (run t) \<and> \<not> isl (run t))
      (filter (\<lambda>t. t \<in> set health) enabled)
      (filter (\<lambda>r. tr_target_id r \<in> target_id ` set health) results)"
    by (induction rule: list_all2_induct) (auto simp: inj)
  moreover have "filter (\<lambda>t. t \<in> set health) enabled = health"
    unfolding health by (auto intro: filter_cong)
  ultimately show ?thesis
    unfolding mapE_Inr_iff by (auto elim!: list_all2_mono simp: isl_def)
qed

text \<open>The steps of an enabled target set, for a cycle that returns.\<close>

lemma check_target_set_Inr:
  assumes "check_target_set digest64 client_error run run_egress host port ts asserts previous key
      force now failed_at ch = Inr (ch', rr, es)"
    and "target_set_enabled ts" "distinct (map target_id (filter target_enabled (targets ts)))"
    and probe: "\<And>rs fresh es. run_probes client_error run run_egress failed_at rs asserts = Inr (fresh, es)
      \<Longrightarrow> mapE g rs = Inr fresh"
    and ids: "\<And>t r. g t = Inr r \<Longrightarrow> tr_target_id r = target_id t"
  shows "\<exists>rs. mapE g (filter (\<lambda>t. target_enabled t \<and> throughput t = None) (targets ts)) = Inr rs
    \<and> rr_state rr = reachability_state (quorum ts) rs
    \<and> success_count rr = length (filter (\<lambda>r. tr_state r = ReachabilityState.SUCCESS) rs)
    \<and> 1 \<le> quorum ts \<and> quorum ts \<le> int (length rs)
    \<and> map tr_target_id (rr_targets rr) = map target_id (filter target_enabled (targets ts))"
proof -
  let ?enabled = "filter target_enabled (targets ts)"
  let ?prev = "dict_of (map (\<lambda>r. (tr_target_id r, r)) previous)"
  let ?start = "\<lparr>pl_due = throughput_initial_due ch, pl_cached = [], pl_run = []\<rparr>"
  from assms(1,2) obtain health pl fresh es' results where
    h: "health_targets ?enabled = Inr health" "\<not> (quorum ts < 1 \<or> quorum ts > int (length health))" and
    pl: "foldE (plan_target digest64 key force now ?prev) ?enabled ?start = Inr pl" and
    pr: "run_probes client_error run run_egress failed_at (pl_run pl) asserts = Inr (fresh, es')" and
    col: "collect_results ?enabled (pl_cached pl) fresh = Inr results" and
    rr: "rr = \<lparr>rr_state = reachability_state (quorum ts)
            (filter (\<lambda>r. tr_target_id r \<in> target_id ` set health) results),
          success_count = length (filter (\<lambda>r. tr_state r = ReachabilityState.SUCCESS)
            (filter (\<lambda>r. tr_target_id r \<in> target_id ` set health) results)),
          rr_quorum = quorum ts, rr_targets = results\<rparr>"
    by (auto simp: check_target_set_def Let_def bindE_Inr_iff split: if_splits)
  have prev: "tr_target_id r = k" if "dict_get ?prev k = Some r" for k r
    using dict_of_by_id [OF that] by simp
  have plan: "plan_of ?start ?enabled pl" by (rule plan_fold [OF prev pl])
  have dist: "distinct (map target_id (pl_run pl))"
    by (rule plan_fold_distinct [OF prev pl]) (simp_all add: assms(3))
  have health: "health = filter (\<lambda>t. throughput t = None) ?enabled" by (rule health_targets_Inr [OF h(1)])
  let ?rs = "filter (\<lambda>r. tr_target_id r \<in> target_id ` set health) results"
  have rs: "mapE g health = Inr ?rs"
    by (rule health_results [OF col plan probe [OF pr] assms(3) dist ids health])
  have len: "length ?rs = length health"
    using rs unfolding mapE_Inr_iff by (simp add: list_all2_lengthD)
  have "map tr_target_id results = map target_id ?enabled"
    by (rule collect_results_Inr [OF col]) (use plan in \<open>simp add: plan_of_def\<close>)
  moreover have "health = filter (\<lambda>t. target_enabled t \<and> throughput t = None) (targets ts)"
    unfolding health by (simp add: conj_commute)
  ultimately show ?thesis using rs h(2) len unfolding rr by auto
qed


lemma target_error_result_state:
  assumes "target_error_result tid e d f = Inr r"
  shows "tr_state r \<noteq> ReachabilityState.SUCCESS \<and> tr_target_id r = tid"
proof -
  obtain reason msg where c: "classify_exception e = (reason, msg)" by (cases "classify_exception e")
  from make_TargetResult_Inr [OF assms [unfolded target_error_result_def c Let_def prod.case]]
  show ?thesis by (simp add: plain_result_def)
qed

lemma failed_target_Inr:
  assumes "failed_target e failed_at t = Inr r"
  shows "tr_state r \<noteq> ReachabilityState.SUCCESS \<and> tr_target_id r = target_id t"
proof -
  from assms obtain tid r' where *: "checked_target_id t = Inr tid"
      "target_error_result tid e None None = Inr r'"
      "r = r' \<or> r = r'\<lparr>measurement_timestamp := Some failed_at\<rparr>"
    unfolding failed_target_def bindE_Inr_iff by (metis sum.inject(2))
  have "tid = target_id t" using *(1) by (simp add: checked_target_id_def split: if_splits)
  then show ?thesis using target_error_result_state [OF *(2)] *(3) by (elim disjE) simp_all
qed

text \<open>
  A cycle whose HTTP client cannot be opened or fails never reports success: every probe of the
  cycle gets the client's error, so no health target counts towards the quorum.
\<close>
theorem failed_client_is_never_success:
  assumes "check_target_set digest64 (Some e) run run_egress host port ts asserts previous key
      force now failed_at ch = Inr (ch', rr, es)"
    and "target_set_enabled ts" "distinct (map target_id (filter target_enabled (targets ts)))"
  shows "success_count rr = 0 \<and> rr_state rr \<in> {ReachabilityState.FAILURE, ReachabilityState.ERROR}"
proof -
  have state: "tr_state r \<noteq> ReachabilityState.SUCCESS \<and> tr_target_id r = target_id t"
    if "failed_target e failed_at t = Inr r" for t r
    using that by (rule failed_target_Inr)
  have "\<exists>rs. mapE (failed_target e failed_at)
        (filter (\<lambda>t. target_enabled t \<and> throughput t = None) (targets ts)) = Inr rs
    \<and> rr_state rr = reachability_state (quorum ts) rs
    \<and> success_count rr = length (filter (\<lambda>r. tr_state r = ReachabilityState.SUCCESS) rs)
    \<and> 1 \<le> quorum ts \<and> quorum ts \<le> int (length rs)
    \<and> map tr_target_id (rr_targets rr) = map target_id (filter target_enabled (targets ts))"
    by (rule check_target_set_Inr [OF assms])
       (use state in \<open>auto simp: run_probes_def bindE_Inr_iff split: if_splits\<close>)
  then obtain rs where rs: "mapE (failed_target e failed_at)
        (filter (\<lambda>t. target_enabled t \<and> throughput t = None) (targets ts)) = Inr rs"
      "rr_state rr = reachability_state (quorum ts) rs"
      "success_count rr = length (filter (\<lambda>r. tr_state r = ReachabilityState.SUCCESS) rs)"
      "1 \<le> quorum ts"
    by blast
  have "\<forall>r \<in> set rs. tr_state r \<noteq> ReachabilityState.SUCCESS"
  proof
    fix r
    assume "r \<in> set rs"
    then obtain t where "failed_target e failed_at t = Inr r"
      using rs(1) unfolding mapE_Inr_iff by (auto simp: list_all2_conv_all_nth in_set_conv_nth)
    then show "tr_state r \<noteq> ReachabilityState.SUCCESS" using state by blast
  qed
  then have "filter (\<lambda>r. tr_state r = ReachabilityState.SUCCESS) rs = []" by simp
  with rs(2,3,4) show ?thesis by (simp add: reachability_state_def)
qed

text \<open>
  The first due time of a throughput measurement is one interval away at most and never already
  past, and its phase depends on the digest of the schedule ID alone, so that checks spread over the
  interval and keep their slot across restarts.
\<close>
theorem initial_due_bounds:
  assumes "0 < period" and "digest < 2 ^ 64"
  shows "now < initial_due digest period now \<and> initial_due digest period now \<le> now + period
    \<and> (\<exists>k :: int. initial_due digest period now = of_int k * period + of_nat digest / 2 ^ 64 * period)
    \<and> 0 \<le> of_nat digest / 2 ^ 64 * period \<and> of_nat digest / 2 ^ 64 * period < period"
proof -
  let ?o = "of_nat digest / 2 ^ 64 * period :: rat"
  let ?q = "(now - ?o) / period"
  have "of_int (floor ?q) \<le> ?q" "?q < of_int (floor ?q) + 1" using floor_correct [of ?q] by simp_all
  then have "of_int (floor ?q) * period \<le> now - ?o" "now - ?o < (of_int (floor ?q) + 1) * period"
    using assms(1) by (simp_all only: pos_le_divide_eq [OF assms(1)] pos_divide_less_eq [OF assms(1)])
  moreover have "initial_due digest period now = (of_int (floor ?q) + 1) * period + ?o"
    by (simp add: initial_due_def Let_def)
  moreover have "(of_nat digest :: rat) / 2 ^ 64 < 1"
  proof -
    have "(of_nat digest :: rat) < of_nat (2 ^ 64)" using assms(2) by (simp only: of_nat_less_iff)
    then show ?thesis by simp
  qed
  then have "?o < period" using assms(1) by (simp add: field_simps)
  moreover have "\<exists>k :: int. (of_int (floor ?q) + 1) * period + ?o = of_int k * period + ?o"
    by (rule exI [of _ "floor ?q + 1"]) simp
  ultimately show ?thesis using assms(1) by (simp add: distrib_right)
qed

text \<open>A throughput target measured within its interval is never planned.\<close>

lemma plan_target_run:
  "plan_target digest64 key force now prev t pl = Inr pl1 \<Longrightarrow> set (pl_run pl1) \<subseteq> insert t (set (pl_run pl))"
  unfolding plan_target_def bindE_Inr_iff Let_def
  by (elim exE conjE) (simp split: option.splits if_splits; auto simp: bindE_Inr_iff)

lemma plan_fold_not_due:
  assumes "dict_get prev (target_id u) = Some r" "measurement_timestamp r = Some m"
    "throughput u = Some c" "\<not> force" "0 \<le> now - m" "now - m < tp_interval c"
  shows "foldE (plan_target digest64 key force now prev) ts pl = Inr pl' \<Longrightarrow> u \<notin> set (pl_run pl)
    \<Longrightarrow> u \<notin> set (pl_run pl')"
proof (induction ts arbitrary: pl)
  case (Cons t ts)
  then obtain pl1 where one: "plan_target digest64 key force now prev t pl = Inr pl1"
      and rest: "foldE (plan_target digest64 key force now prev) ts pl1 = Inr pl'"
    by (auto simp: bindE_Inr_iff)
  have "u \<notin> set (pl_run pl1)"
  proof (cases "t = u")
    case True
    from one obtain tid tp where "checked_target_id u = Inr tid" "throughput_settings u = Inr tp"
      unfolding plan_target_def bindE_Inr_iff True by blast
    then have ok: "checked_target_id u = Inr (target_id u)" "throughput_settings u = Inr (Some c)"
      using throughput_settings_Inr assms(3) by (auto simp: checked_target_id_def split: if_splits)
    have "pl1 = pl\<lparr>pl_cached := dict_set (target_id u) r (pl_cached pl)\<rparr>"
      using one assms unfolding True plan_target_def ok bindE_simps Let_def by simp
    then show ?thesis using Cons.prems(2) by simp
  next
    case False
    then show ?thesis using plan_target_run [OF one] Cons.prems(2) by auto
  qed
  then show ?case by (rule Cons.IH [OF rest])
qed simp

text \<open>
  A throughput target whose last measurement is younger than its interval is not probed again: what
  a probe of it would return does not matter to the cycle, and nothing is transferred.
\<close>
theorem recent_throughput_not_probed:
  assumes "dict_get (dict_of (map (\<lambda>r. (tr_target_id r, r)) previous)) (target_id u) = Some r"
    and "measurement_timestamp r = Some m" "throughput u = Some c" "\<not> force"
    and "0 \<le> now - m" "now - m < tp_interval c"
  shows "check_target_set digest64 client_error run run_egress host port ts asserts previous key
      force now failed_at ch
    = check_target_set digest64 client_error (run(u := other)) run_egress host port ts asserts previous key
      force now failed_at ch"
proof -
  have "run_probes client_error (run(u := other)) run_egress failed_at (pl_run pl) asserts
      = run_probes client_error run run_egress failed_at (pl_run pl) asserts"
    if "foldE (plan_target digest64 key force now (dict_of (map (\<lambda>r. (tr_target_id r, r)) previous)))
      (filter target_enabled (targets ts))
      \<lparr>pl_due = throughput_initial_due ch, pl_cached = [], pl_run = []\<rparr> = Inr pl" for pl
  proof -
    have "u \<notin> set (pl_run pl)" by (rule plan_fold_not_due [OF assms that]) simp
    then have "mapE (run(u := other)) (pl_run pl) = mapE run (pl_run pl)"
      by (intro mapE_cong) auto
    then show ?thesis by (simp only: run_probes_def)
  qed
  then show ?thesis
    unfolding check_target_set_def Let_def
    by (intro bindE_cong refl if_cong) simp
qed

section \<open>Egress verdicts\<close>

definition inside_networks :: "ip_addr \<Rightarrow> ip_net list \<Rightarrow> bool" where
  "inside_networks ip networks \<longleftrightarrow>
     (\<exists>n \<in> set networks. ip_version ip = net_version n \<and> in_network ip n)"

lemma bounded_egress_parts:
  "only_bounded (egress_networks a)" "only_bounded (egress_candidate env a txt)"
  "only_bounded (make_EgressResult r)"
  by (auto simp: egress_networks_def egress_candidate_def make_EgressResult_def Let_def
      split: option.split list.split EgressResponseFormat.split)

lemma bounded_egress_address: "only_bounded (egress_address env a rd)"
  unfolding egress_address_def
  by (auto intro!: only_bounded_bind bounded_egress_parts split: option.split raw.split)

lemma bounded_attempt_egress:
  assumes "transport_ok env fetch"
  shows "only_bounded (attempt_egress env ch ck fetch a aid)"
  unfolding attempt_egress_def request_def Let_def
  by (intro only_bounded_bind bounded_checks bounded_egress_parts bounded_egress_address
      bounded_request_loop assms)

text \<open>
  C27: an egress assertion always ends in a result, and MATCH is reported only for an address that the
  endpoint answered with status 200 and that lies in one of the configured networks; an address outside
  all of them is MISMATCH, everything else is ERROR with a reason, and a disabled assertion sends
  nothing.
\<close>
theorem check_egress_verdict:
  assumes "transport_ok env fetch"
  shows "(\<exists>e. check_egress env ch ck fetch a = Inl e \<and> exn_class_of e = Cancelled)
    \<or> (\<exists>r. check_egress env ch ck fetch a = Inr r
        \<and> (\<not> assertion_enabled a \<longrightarrow> er_state r = EgressState.DISABLED)
        \<and> (assertion_enabled a \<longrightarrow>
             (\<exists>networks rd ip. egress_networks a = Inr networks
                \<and> request env ck fetch (egress_params ch (assertion_url a)) = Inr rd \<and> rd_status rd = 200
                \<and> egress_address env a rd = Inr ip \<and> observed_ip r = Some (ip_text ip)
                \<and> er_state r = (if inside_networks ip networks then EgressState.MATCH
                                 else EgressState.MISMATCH))
             \<or> (er_state r = EgressState.ERROR \<and> er_reason r \<noteq> None \<and> observed_ip r = None)))"
proof (cases "assertion_enabled a")
  case False
  then show ?thesis by (simp add: check_egress_def Let_def make_EgressResult_def plain_egress_def)
next
  case True
  let ?aid = "if assertion_id a = [] then ''invalid-assertion'' else assertion_id a"
  show ?thesis
  proof (cases "attempt_egress env ch ck fetch a ?aid")
    case (Inr r)
    then obtain url t networks rd ip where
      url: "absolute_http_url ''egress'' (assertion_url a) = Inr url" and
      ok: "egress_networks a = Inr networks" "request env ck fetch (egress_params ch url) = Inr rd"
        "egress_address env a rd = Inr ip" and
      r: "make_EgressResult ((plain_egress ?aid
            (if inside_networks ip networks then EgressState.MATCH else EgressState.MISMATCH))
          \<lparr>er_reason := (if inside_networks ip networks then None else Some EGRESS_MISMATCH),
           observed_ip := Some (ip_text ip), er_duration_seconds := Some (rd_duration rd),
           er_error := (if inside_networks ip networks then None
             else Some ''egress IP is outside expected networks'')\<rparr>) = Inr r"
      unfolding attempt_egress_def bindE_Inr_iff Let_def inside_networks_def list_ex_iff by blast
    have "url = assertion_url a"
      using url by (simp add: absolute_http_url_def split: option.splits if_splits)
    moreover have "rd_status rd = 200" using ok(3) by (simp add: egress_address_def split: if_splits)
    moreover have "observed_ip r = Some (ip_text ip)"
      "er_state r = (if inside_networks ip networks then EgressState.MATCH else EgressState.MISMATCH)"
      using r by (auto simp: make_EgressResult_def plain_egress_def split: if_splits)
    moreover have "check_egress env ch ck fetch a = Inr r"
      using True Inr by (simp add: check_egress_def Let_def)
    ultimately show ?thesis using ok True by blast
  next
    case (Inl e)
    show ?thesis
    proof (cases "exn_class_of e = Cancelled")
      case True
      with Inl \<open>assertion_enabled a\<close> show ?thesis by (simp add: check_egress_def Let_def)
    next
      case False
      have b: "bounded_exn e"
        using bounded_attempt_egress [OF assms, of ch ck a ?aid] Inl by (simp add: only_bounded_def)
      obtain reason msg where c: "(if exn_class_of e = PyValueError
          then (RESPONSE_INVALID, ''egress response is invalid'') else classify_exception e) = (reason, msg)"
        by (cases "if exn_class_of e = PyValueError
          then (RESPONSE_INVALID, ''egress response is invalid'') else classify_exception e")
      have "length msg \<le> 240"
        using c classify_message [OF b] by (auto split: if_splits)
      then show ?thesis
        using Inl True False c
        by (simp add: check_egress_def Let_def make_EgressResult_def plain_egress_def)
    qed
  qed
qed

section \<open>A concrete cycle\<close>

definition example_throughput :: TargetConfig where
  "example_throughput = example_target\<lparr>target_id := ''t2'', target_name := ''speed'',
     throughput := Some \<lparr>direction = Download, expected_bytes = 65536, tp_interval = 600\<rparr>\<rparr>"

definition example_mixed_set :: TargetSetConfig where
  "example_mixed_set = example_target_set\<lparr>targets := [example_target, example_throughput]\<rparr>"

definition example_run :: "TargetConfig \<Rightarrow> exn + TargetResult" where
  "example_run t = Inr (plain_result (target_id t) ReachabilityState.SUCCESS)"

definition example_run_egress :: "EgressAssertionConfig \<Rightarrow> exn + EgressResult" where
  "example_run_egress a = Inr (plain_egress (assertion_id a) EgressState.MATCH)"

definition example_measured :: TargetResult where
  "example_measured = (plain_result ''t2'' ReachabilityState.SUCCESS)\<lparr>measurement_timestamp := Some 900\<rparr>"

definition example_reach :: "ReachabilityState \<Rightarrow> nat \<Rightarrow> TargetResult list \<Rightarrow> ReachabilityResult" where
  "example_reach s n rs = \<lparr>rr_state = s, success_count = n, rr_quorum = 1, rr_targets = rs\<rparr>"

definition example_cycle :: "exn option \<Rightarrow> exn + Checker \<times> ReachabilityResult \<times> EgressResult list" where
  "example_cycle client_error = check_target_set (\<lambda>_. 0) client_error example_run example_run_egress
     ''127.0.0.1'' 1080 example_mixed_set [] [example_measured] None False 1000 1001 example_checker"

lemma example_mixed_ids: "distinct (map target_id (filter target_enabled (targets example_mixed_set)))"
  by code_simp

lemma example_proxy: "\<not> isl (proxy_url ''127.0.0.1'' 1080)"
  by (simp add: proxy_url_def ip_address_def ipv4_int_def parse_octet_def Let_def is_loopback_def
      char_class_defs)

lemma example_plan:
  "foldE (plan_target (\<lambda>_. 0) None False 1000 (dict_of (map (\<lambda>r. (tr_target_id r, r)) [example_measured])))
     (targets example_mixed_set) \<lparr>pl_due = throughput_initial_due example_checker, pl_cached = [], pl_run = []\<rparr>
   = Inr \<lparr>pl_due = throughput_initial_due example_checker, pl_cached = [(''t2'', example_measured)],
       pl_run = [example_target]\<rparr>"
  by (simp add: example_mixed_set_def example_target_set_def example_target_def example_throughput_def
      throughput_settings_def plan_target_def checked_target_id_def Let_def dict_of_def
      example_measured_def plain_result_def)

lemma example_set:
  "health_targets (targets example_mixed_set) = Inr [example_target]"
  "filter target_enabled (targets example_mixed_set) = targets example_mixed_set"
  "\<not> (quorum example_mixed_set < 1 \<or> quorum example_mixed_set > int (length [example_target]))"
  "target_set_enabled example_mixed_set"
  by code_simp+

lemma example_returns:
  assumes "x \<in> {None, Some (raises ConnectError)}"
  shows "\<not> isl (example_cycle x)"
proof -
  have "\<not> isl (bindE (run_probes x example_run example_run_egress 1001 [example_target] []) (\<lambda>(fresh, es).
      collect_results (targets example_mixed_set) [(''t2'', example_measured)] fresh))"
    if "x = None \<or> x = Some (raises ConnectError)"
    using that by (elim disjE) (hypsubst, code_simp)+
  then obtain fresh es results where
    "run_probes x example_run example_run_egress 1001 [example_target] [] = Inr (fresh, es)"
    "collect_results (targets example_mixed_set) [(''t2'', example_measured)] fresh = Inr results"
    using assms by (cases "run_probes x example_run example_run_egress 1001 [example_target] []";
        cases "collect_results (targets example_mixed_set) [(''t2'', example_measured)]
          (fst (projr (run_probes x example_run example_run_egress 1001 [example_target] [])))") auto
  moreover obtain url where "proxy_url ''127.0.0.1'' 1080 = Inr url"
    using example_proxy by (cases "proxy_url ''127.0.0.1'' 1080") auto
  ultimately show ?thesis
    unfolding example_cycle_def check_target_set_def Let_def example_set bindE_simps
    using example_set(3,4) example_plan by simp
qed


theorem failed_client_is_never_success_witness:
  "\<exists>ch' rr es. example_cycle (Some (raises ConnectError)) = Inr (ch', rr, es) \<and> success_count rr = 0
     \<and> rr_state rr \<noteq> ReachabilityState.SUCCESS"
proof -
  obtain ch' rr es where r: "example_cycle (Some (raises ConnectError)) = Inr (ch', rr, es)"
    using example_returns [of "Some (raises ConnectError)"]
    by (cases "example_cycle (Some (raises ConnectError))") auto
  have "success_count rr = 0 \<and> rr_state rr \<in> {ReachabilityState.FAILURE, ReachabilityState.ERROR}"
    by (rule failed_client_is_never_success [OF r [unfolded example_cycle_def] _ example_mixed_ids])
       (simp add: example_mixed_set_def example_target_set_def)
  with r show ?thesis by auto
qed

theorem initial_due_bounds_witness:
  "1000 < initial_due (2 ^ 63) 600 1000 \<and> initial_due (2 ^ 63) 600 1000 \<le> 1600"
  using initial_due_bounds [of 600 "2 ^ 63" 1000] by simp

theorem recent_throughput_not_probed_witness:
  "example_cycle None = check_target_set (\<lambda>_. 0) None
     (example_run(example_throughput := Inl (raises ConnectError))) example_run_egress
     ''127.0.0.1'' 1080 example_mixed_set [] [example_measured] None False 1000 1001 example_checker"
  unfolding example_cycle_def
  by (rule recent_throughput_not_probed [where r = example_measured and m = 900
        and c = "\<lparr>direction = Download, expected_bytes = 65536, tp_interval = 600\<rparr>"])
     (simp_all add: example_measured_def example_throughput_def plain_result_def dict_of_def)

definition example_assertion :: EgressAssertionConfig where
  "example_assertion = \<lparr>assertion_id = ''a1'', assertion_name = ''home'', assertion_url = ''https://a.b/'',
     expected_cidrs = [''10.0.0.0/8''], response_format = PLAIN, json_field = None,
     assertion_timeout = None, assertion_enabled = True\<rparr>"

definition example_address_fetch :: "nat \<Rightarrow> string \<Rightarrow> exn + http_response" where
  "example_address_fetch n url = Inr ((example_response 200)\<lparr>resp_chunks := [''10.1.2.3'']\<rparr>)"

definition example_net :: ip_net where
  "example_net = \<lparr>net_version = 4, net_prefix = 8, net_base = 167772160\<rparr>"

lemma example_networks: "egress_networks example_assertion = Inr [example_net]"
  by (simp add: egress_networks_def example_assertion_def ip_network_def ipv4_network_def parse_octet_def
      Let_def ipv4_int_def prefix_digits_def masked_def max_prefix_def char_class_defs example_net_def)

lemma example_text:
  "ip_address ''10.1.2.3'' = Some (IPv4 167838211)" "ip_text (IPv4 167838211) = ''10.1.2.3''"
  "py_strip ''10.1.2.3'' = ''10.1.2.3''"
  by (simp add: ip_address_def ipv4_int_def parse_octet_def Let_def char_class_defs,
      simp add: ipv4_text_def number_text.simps digit_char_def, code_simp)

theorem check_egress_verdict_witness:
  "\<exists>r. check_egress example_env example_checker example_clock example_address_fetch example_assertion = Inr r
     \<and> er_state r = EgressState.MATCH \<and> observed_ip r = Some ''10.1.2.3''
     \<and> (\<exists>networks. egress_networks example_assertion = Inr networks)"
proof -
  have t: "transport_ok example_env example_address_fetch"
    by (simp add: transport_ok_def example_env_def example_address_fetch_def example_response_def
        bounded_exn_def)
  let ?rd = "\<lparr>rd_status = 200, rd_body = ''10.1.2.3'', rd_bytes_read = 8, rd_bytes_written = 0,
    rd_duration = 1, rd_ttfb = Some (1 / 2), rd_transfer = Some 1, rd_encoding = None, rd_redirects = 0\<rparr>"
  have ok: "absolute_http_url ''egress'' (assertion_url example_assertion) = Inr ''https://a.b/''"
    "positive_timeout (assertion_timeout example_assertion) (request_timeout example_checker) = Inr 15"
    "request example_env example_clock example_address_fetch (egress_params example_checker ''https://a.b/'')
      = Inr ?rd"
    by code_simp+
  have address: "egress_address example_env example_assertion ?rd = Inr (IPv4 167838211)"
    by (simp add: egress_address_def example_env_def egress_candidate_def example_assertion_def
        example_text or_utf8_def)
  have match: "in_network (IPv4 167838211) example_net"
    by (simp add: in_network_def example_net_def masked_def max_prefix_def Let_def)
  have "check_egress example_env example_checker example_clock example_address_fetch example_assertion
      = make_EgressResult ((plain_egress ''a1'' EgressState.MATCH)
          \<lparr>er_reason := None, observed_ip := Some ''10.1.2.3'', er_duration_seconds := Some 1,
           er_error := None\<rparr>)"
    using match
    by (simp add: check_egress_def attempt_egress_def ok example_networks address
        example_text(2) [unfolded ip_text.simps]
        make_EgressResult_def plain_egress_def Let_def example_net_def)
       (simp add: example_assertion_def)
  then show ?thesis
    using check_egress_verdict [OF t, of example_checker example_clock example_assertion]
    by (auto simp: example_assertion_def make_EgressResult_def plain_egress_def)
qed

end
