(* ===== verification/RuntimePool.thy ===== *)
theory RuntimePool
  imports Inventory
begin

text \<open>
  \<open>src/xray_e2e_prober/runtime_pool.py\<close>: the pool that owns the Xray children of fresh and persistent
  checks. A coroutine inside the pool is a \<open>flight\<close>; \<open>flight_next\<close> is the code between two \<open>await\<close>s of it,
  and a pool with its flights moves by one such segment at a time. The clock, the liveness of the
  children, what \<open>start_for\<close> and the body of \<open>async with\<close> do and whether \<open>stop\<close> raises are the
  environment of the segment. Children are numbered. A key lock is held exactly by the flights that
  are inside its \<open>async with\<close>; the start locks only delay and are left out, so every ordering the code
  allows (and more) is a run of the model.
\<close>

section \<open>State\<close>

text \<open>The tuple of entry ID, mode, outbound tag and inbound tag.\<close>

datatype pool_key = PoolKey string CheckMode "string option" "string option"

type_synonym effective_key = "pool_key \<times> string"

record Persistent =
  p_runtime :: nat
  p_generation :: string
  p_stable_after :: rat

record RestartBackoff =
  rb_failures :: nat
  rb_delay :: rat
  rb_retry_at :: rat

record RuntimePool =
  pool_limit :: nat
  backoff_initial :: rat
  backoff_max :: rat
  warmup_delay :: rat
  warmup_timeout :: rat
  slots :: nat
  persistent :: "(pool_key, Persistent) dict"
  locks :: "pool_key list"
  restart_backoffs :: "(effective_key, RestartBackoff) dict"
  desired_persistent :: "(pool_key, string) dict option"
  pool_closed :: bool

definition new_pool :: "int \<Rightarrow> rat \<Rightarrow> rat \<Rightarrow> rat \<Rightarrow> rat \<Rightarrow> string + RuntimePool" where
  "new_pool limit initial maximum delay timeout =
     (if limit < 1 then Inl ''runtime limit must be positive''
      else if initial < 0 then Inl ''initial runtime restart backoff must not be negative''
      else if maximum < initial then Inl ''maximum runtime restart backoff is too small''
      else if delay < 0 then Inl ''observatory warm-up delay must not be negative''
      else if timeout \<le> 0 then Inl ''observatory warm-up timeout must be positive''
      else if delay > timeout then Inl ''observatory warm-up delay exceeds its timeout''
      else Inr \<lparr>pool_limit = nat limit, backoff_initial = initial, backoff_max = maximum,
             warmup_delay = delay, warmup_timeout = timeout, slots = nat limit, persistent = [],
             locks = [], restart_backoffs = [], desired_persistent = None, pool_closed = False\<rparr>)"

definition pool_key :: "CompiledCheck \<Rightarrow> pool_key" where
  "pool_key c = (let d = definition_of c
     in PoolKey (chk_entry_id d) (chk_mode d) (chk_outbound_tag d) (chk_inbound_tag d))"

definition effective_key :: "CompiledCheck \<Rightarrow> effective_key" where
  "effective_key c = (pool_key c, chk_generation (definition_of c))"

definition is_persistent :: "CompiledCheck \<Rightarrow> bool" where
  "is_persistent c \<longleftrightarrow> runtime_lifecycle (definition_of c) = Some PERSISTENT"

text \<open>\<open>isinstance(v, dict) and any(name in v for name in ...)\<close> over the entry's profile, or over its
  payload when the profile is no object.\<close>

definition uses_observatory :: "CompiledCheck \<Rightarrow> bool" where
  "uses_observatory c =
     (if chk_mode (definition_of c) \<noteq> PROFILE then False
      else
        let pick = (case (profile (cc_entry c), payload (cc_entry c)) of
                      (Some (RDict d), _) \<Rightarrow> Some d
                    | (_, Some (RDict d)) \<Rightarrow> Some d
                    | _ \<Rightarrow> None)
        in (case pick of
              None \<Rightarrow> False
            | Some d \<Rightarrow> dict_get d ''observatory'' \<noteq> None \<or> dict_get d ''burstObservatory'' \<noteq> None))"

section \<open>Restart backoff\<close>

definition enforce_restart_backoff :: "rat \<Rightarrow> effective_key \<Rightarrow> RuntimePool \<Rightarrow> bool" where
  "enforce_restart_backoff now k p =
     (case dict_get (restart_backoffs p) k of
        None \<Rightarrow> True
      | Some b \<Rightarrow> \<not> rb_retry_at b - now > 0)"

definition record_restart_failure :: "rat \<Rightarrow> effective_key \<Rightarrow> RuntimePool \<Rightarrow> RuntimePool" where
  "record_restart_failure now k p =
     (let (failures, delay) =
        (case dict_get (restart_backoffs p) k of
           None \<Rightarrow> (1, backoff_initial p)
         | Some b \<Rightarrow> (rb_failures b + 1, min (backoff_max p) (rb_delay b * 2)))
      in p\<lparr>restart_backoffs := dict_set k \<lparr>rb_failures = failures, rb_delay = delay,
            rb_retry_at = now + delay\<rparr> (restart_backoffs p)\<rparr>)"

definition reset_if_stable :: "rat \<Rightarrow> pool_key \<Rightarrow> Persistent \<Rightarrow> RuntimePool \<Rightarrow> RuntimePool" where
  "reset_if_stable now k cur p =
     (if now \<ge> p_stable_after cur
      then p\<lparr>restart_backoffs := dict_pop (k, p_generation cur) (restart_backoffs p)\<rparr> else p)"

section \<open>Slots and persistent runtimes\<close>

definition slot_release :: "RuntimePool \<Rightarrow> RuntimePool" where
  "slot_release p = p\<lparr>slots := slots p + 1\<rparr>"

definition persistent_is_desired :: "CompiledCheck \<Rightarrow> RuntimePool \<Rightarrow> bool" where
  "persistent_is_desired c p =
     (case desired_persistent p of
        None \<Rightarrow> True
      | Some d \<Rightarrow> dict_get d (pool_key c) = Some (chk_generation (definition_of c)))"

text \<open>The \<open>finally\<close> block of \<open>_remove_persistent_locked\<close>, after \<open>stop\<close> has returned or raised.\<close>

definition remove_persistent :: "rat \<Rightarrow> pool_key \<Rightarrow> Persistent \<Rightarrow> bool \<Rightarrow> RuntimePool \<Rightarrow> RuntimePool" where
  "remove_persistent now k cur unexpected p =
     (let p = (if dict_get (persistent p) k = Some cur
               then slot_release (p\<lparr>persistent := dict_pop k (persistent p)\<rparr>) else p)
      in if unexpected then record_restart_failure now (k, p_generation cur) p else p)"

definition publish :: "rat \<Rightarrow> CompiledCheck \<Rightarrow> nat \<Rightarrow> rat \<Rightarrow> RuntimePool \<Rightarrow> RuntimePool" where
  "publish now c r delay p =
     p\<lparr>persistent := dict_set (pool_key c) \<lparr>p_runtime = r, p_generation = chk_generation (definition_of c),
         p_stable_after = now + delay\<rparr> (persistent p)\<rparr>"

section \<open>The coroutines of the pool\<close>

datatype flight =
    Entering CompiledCheck
  | Replacing CompiledCheck Persistent bool
  | Queued CompiledCheck rat
  | Starting CompiledCheck rat
  | Discarding CompiledCheck
  | UsingFresh CompiledCheck nat
  | StoppingFresh
  | UsingPersistent CompiledCheck nat
  | Retiring pool_key Persistent bool
  | Reconciling "(pool_key, string) dict" "effective_key set" "pool_key list"
  | ReconcileRemoving "(pool_key, string) dict" "effective_key set" "pool_key list" pool_key Persistent bool
  | Closing "pool_key list"
  | ClosingRemoving "pool_key list" pool_key Persistent

text \<open>What a segment sees of the outside. \<open>Started r\<close>: \<open>start_for\<close> and the warm-up returned the child r;
  \<open>Failed r\<close>, \<open>Aborted r\<close>: an \<open>Exception\<close> (a cancellation or another \<open>BaseException\<close>), r the child if there
  is one already; \<open>Returned\<close>, \<open>Raised\<close>: the body of \<open>async with\<close> (\<open>Unusable\<close>: the checks before it failed).\<close>

datatype answer = Started nat | Failed "nat option" | Aborted "nat option" | Returned | Raised | Unusable

record env =
  clock :: rat
  alive :: "nat \<Rightarrow> bool"
  reply :: answer
  stop_raises :: bool
  lock_cancelled :: bool

text \<open>The slots a flight owns and the key lock it holds.\<close>

fun owned_slots :: "flight \<Rightarrow> nat" where
  "owned_slots (Starting c d) = 1"
| "owned_slots (Discarding c) = 1"
| "owned_slots (UsingFresh c r) = 1"
| "owned_slots StoppingFresh = 1"
| "owned_slots _ = 0"

definition start_key :: "CompiledCheck \<Rightarrow> pool_key list" where
  "start_key c = (if is_persistent c then [pool_key c] else [])"

fun held_key :: "flight \<Rightarrow> pool_key list" where
  "held_key (Replacing c cur u) = [pool_key c]"
| "held_key (Queued c d) = start_key c"
| "held_key (Starting c d) = start_key c"
| "held_key (Discarding c) = start_key c"
| "held_key (Retiring k cur u) = [k]"
| "held_key (ReconcileRemoving ds eks ks k cur u) = [k]"
| "held_key (ClosingRemoving ks k cur) = [k]"
| "held_key _ = []"

text \<open>\<open>_start_runtime\<close> up to the wait for a slot; an active backoff raises \<open>XrayStartError\<close>.\<close>

definition begin_start :: "rat \<Rightarrow> CompiledCheck \<Rightarrow> RuntimePool \<Rightarrow> RuntimePool \<times> flight list" where
  "begin_start now c p =
     (let delay = (if is_persistent c
                   then (case dict_get (restart_backoffs p) (effective_key c) of
                           Some b \<Rightarrow> rb_delay b | None \<Rightarrow> 0)
                   else 0)
      in if enforce_restart_backoff now (effective_key c) p then (p, [Queued c delay]) else (p, []))"

text \<open>\<open>_retire_persistent\<close> and \<open>_finish_persistent_cycle\<close>, once they hold the key lock.\<close>

definition retire :: "CompiledCheck \<Rightarrow> nat \<Rightarrow> RuntimePool \<Rightarrow> RuntimePool \<times> flight list" where
  "retire c r p =
     (case dict_get (persistent p) (pool_key c) of
        None \<Rightarrow> (p, [])
      | Some cur \<Rightarrow> if p_runtime cur \<noteq> r then (p, []) else (p, [Retiring (pool_key c) cur True]))"

definition finish_cycle :: "env \<Rightarrow> CompiledCheck \<Rightarrow> nat \<Rightarrow> RuntimePool \<Rightarrow> RuntimePool \<times> flight list" where
  "finish_cycle e c r p =
     (case dict_get (persistent p) (pool_key c) of
        None \<Rightarrow> (p, [])
      | Some cur \<Rightarrow>
          if p_runtime cur \<noteq> r then (p, [])
          else if \<not> alive e r then (p, [Retiring (pool_key c) cur True])
          else (reset_if_stable (clock e) (pool_key c) cur p, []))"

definition enter_persistent :: "env \<Rightarrow> CompiledCheck \<Rightarrow> RuntimePool \<Rightarrow> RuntimePool \<times> flight list" where
  "enter_persistent e c p =
     (let k = pool_key c; gen = chk_generation (definition_of c)
      in if pool_closed p \<or> \<not> persistent_is_desired c p then (p, [])
         else case dict_get (persistent p) k of
           None \<Rightarrow> begin_start (clock e) c p
         | Some cur \<Rightarrow>
             if p_generation cur = gen \<and> alive e (p_runtime cur)
             then (reset_if_stable (clock e) k cur p, [UsingPersistent c (p_runtime cur)])
             else (p, [Replacing c cur (p_generation cur = gen \<and> \<not> alive e (p_runtime cur))]))"

text \<open>\<open>_start_runtime\<close> after \<open>start_for\<close> and the warm-up, then the caller's part.\<close>

definition started_runtime :: "env \<Rightarrow> CompiledCheck \<Rightarrow> rat \<Rightarrow> nat \<Rightarrow> RuntimePool \<Rightarrow> RuntimePool \<times> flight list" where
  "started_runtime e c delay r p =
     (if \<not> is_persistent c
      then (p\<lparr>restart_backoffs := dict_pop (effective_key c) (restart_backoffs p)\<rparr>, [UsingFresh c r])
      else if pool_closed p \<or> \<not> persistent_is_desired c p then (p, [Discarding c])
      else (publish (clock e) c r delay p, [UsingPersistent c r]))"

definition discard :: "CompiledCheck \<Rightarrow> nat option \<Rightarrow> RuntimePool \<Rightarrow> RuntimePool \<times> flight list" where
  "discard c r p = (case r of None \<Rightarrow> (slot_release p, []) | Some _ \<Rightarrow> (p, [Discarding c]))"

text \<open>One key of \<open>reconcile\<close>, and what it does after the last one.\<close>

definition reconcile_key :: "env \<Rightarrow> (pool_key, string) dict \<Rightarrow> effective_key set \<Rightarrow> pool_key list
    \<Rightarrow> pool_key \<Rightarrow> RuntimePool \<Rightarrow> RuntimePool \<times> flight list" where
  "reconcile_key e ds eks ks k p =
     (case dict_get (persistent p) k of
        None \<Rightarrow> (p, [Reconciling ds eks ks])
      | Some cur \<Rightarrow>
          if dict_get ds k = Some (p_generation cur) \<and> alive e (p_runtime cur)
          then (reset_if_stable (clock e) k cur p, [Reconciling ds eks ks])
          else (p, [ReconcileRemoving ds eks ks k cur
                      (dict_get ds k = Some (p_generation cur) \<and> \<not> alive e (p_runtime cur))]))"

definition reconcile_end :: "effective_key set \<Rightarrow> RuntimePool \<Rightarrow> RuntimePool" where
  "reconcile_end eks p =
     p\<lparr>restart_backoffs := filter (\<lambda>(k, b). k \<in> eks) (restart_backoffs p)\<rparr>"

definition close_end :: "RuntimePool \<Rightarrow> RuntimePool" where
  "close_end p = p\<lparr>persistent := [], locks := [], restart_backoffs := []\<rparr>"

text \<open>\<open>setdefault\<close> on the table of locks.\<close>

definition with_lock :: "pool_key \<Rightarrow> RuntimePool \<Rightarrow> RuntimePool" where
  "with_lock k p = p\<lparr>locks := List.insert k (locks p)\<rparr>"

text \<open>The next segment of a flight while the other flights hold the locks \<open>busy\<close>; \<open>None\<close> if it has to wait.
  No flight is left when the coroutine ends or raises.\<close>

fun flight_next :: "env \<Rightarrow> pool_key set \<Rightarrow> RuntimePool \<Rightarrow> flight \<Rightarrow> (RuntimePool \<times> flight list) option" where
  "flight_next e busy p (Entering c) =
     (if \<not> is_persistent c then Some (begin_start (clock e) c p)
      else if lock_cancelled e then Some (p, [])
      else if pool_key c \<in> busy then None else Some (enter_persistent e c p))"
| "flight_next e busy p (Replacing c cur u) =
     (let p' = remove_persistent (clock e) (pool_key c) cur u p
      in Some (if stop_raises e then (p', []) else begin_start (clock e) c p'))"
| "flight_next e busy p (Queued c delay) =
     (case reply e of
        Aborted _ \<Rightarrow> Some (p, [])
      | _ \<Rightarrow> if slots p = 0 then None else Some (p\<lparr>slots := slots p - 1\<rparr>, [Starting c delay]))"
| "flight_next e busy p (Starting c delay) =
     (case reply e of
        Started r \<Rightarrow> Some (started_runtime e c delay r p)
      | Failed r \<Rightarrow> Some (discard c r (record_restart_failure (clock e) (effective_key c) p))
      | Aborted r \<Rightarrow> Some (discard c r p)
      | _ \<Rightarrow> None)"
| "flight_next e busy p (Discarding c) = Some (slot_release p, [])"
| "flight_next e busy p (UsingFresh c r) = Some (p, [StoppingFresh])"
| "flight_next e busy p StoppingFresh = Some (slot_release p, [])"
| "flight_next e busy p (UsingPersistent c r) =
     (let p' = with_lock (pool_key c) p
      in case reply e of
        Aborted _ \<Rightarrow> Some (p, [])
      | Returned \<Rightarrow>
          if lock_cancelled e then Some (p', [])
          else if pool_key c \<in> busy then None else Some (finish_cycle e c r p')
      | Raised \<Rightarrow>
          if alive e r then Some (p, [])
          else if lock_cancelled e then Some (p', [])
          else if pool_key c \<in> busy then None else Some (retire c r p')
      | Unusable \<Rightarrow>
          if lock_cancelled e then Some (p', [])
          else if pool_key c \<in> busy then None else Some (retire c r p')
      | _ \<Rightarrow> None)"
| "flight_next e busy p (Retiring k cur u) = Some (remove_persistent (clock e) k cur u p, [])"
| "flight_next e busy p (Reconciling ds eks []) = Some (reconcile_end eks p, [])"
| "flight_next e busy p (Reconciling ds eks (k # ks)) =
     (if lock_cancelled e then Some (with_lock k p, [])
      else if k \<in> busy then None else Some (reconcile_key e ds eks ks k (with_lock k p)))"
| "flight_next e busy p (ReconcileRemoving ds eks ks k cur u) =
     (let p' = remove_persistent (clock e) k cur u p
      in Some (p', if stop_raises e then [] else [Reconciling ds eks ks]))"
| "flight_next e busy p (Closing []) = Some (close_end p, [])"
| "flight_next e busy p (Closing (k # ks)) =
     (if lock_cancelled e then Some (with_lock k p, [])
      else if k \<in> busy then None
      else case dict_get (persistent p) k of
        None \<Rightarrow> Some (with_lock k p, [Closing ks])
      | Some cur \<Rightarrow> Some (with_lock k p, [ClosingRemoving ks k cur]))"
| "flight_next e busy p (ClosingRemoving ks k cur) =
     (let p' = remove_persistent (clock e) k cur False p
      in Some (p', if stop_raises e then [] else [Closing ks]))"

text \<open>The entry points: \<open>acquire\<close>, \<open>reconcile\<close> and \<open>close\<close> up to their first wait. \<open>order\<close> is the iteration
  order of the set of keys.\<close>

definition acquire :: "CompiledCheck \<Rightarrow> RuntimePool \<Rightarrow> string + RuntimePool \<times> flight list" where
  "acquire c p =
     (if pool_closed p then Inl ''runtime pool is closed''
      else Inr (if is_persistent c then with_lock (pool_key c) p else p, [Entering c]))"

definition desired_of :: "CompiledCheck list \<Rightarrow> (pool_key, string) dict" where
  "desired_of checks =
     dict_of (map (\<lambda>c. (pool_key c, chk_generation (definition_of c))) (filter is_persistent checks))"

definition known_keys :: "RuntimePool \<Rightarrow> pool_key list" where
  "known_keys p = remdups (dict_keys (persistent p) @ locks p)"

definition reconcile_pool ::
  "(pool_key list \<Rightarrow> pool_key list) \<Rightarrow> CompiledCheck list \<Rightarrow> RuntimePool \<Rightarrow> RuntimePool \<times> flight list" where
  "reconcile_pool order checks p =
     (let p' = p\<lparr>desired_persistent := Some (desired_of checks)\<rparr>
      in (p', [Reconciling (desired_of checks) (effective_key ` set checks) (order (known_keys p'))]))"

definition close_pool ::
  "(pool_key list \<Rightarrow> pool_key list) \<Rightarrow> RuntimePool \<Rightarrow> RuntimePool \<times> flight list" where
  "close_pool order p =
     (if pool_closed p then (p, [])
      else let p' = p\<lparr>pool_closed := True, desired_persistent := Some []\<rparr>
           in (p', [Closing (order (known_keys p'))]))"

section \<open>Runs\<close>

definition held_by :: "flight list \<Rightarrow> pool_key set" where
  "held_by fs = set (concat (map held_key fs))"

definition permutes_keys :: "(pool_key list \<Rightarrow> pool_key list) \<Rightarrow> bool" where
  "permutes_keys order \<longleftrightarrow> (\<forall>ks. distinct ks \<longrightarrow> set (order ks) = set ks \<and> distinct (order ks))"

type_synonym pool_state = "RuntimePool \<times> flight list"

text \<open>\<open>good\<close> restricts the environment (for instance to one in which \<open>stop\<close> never raises and no wait is
  cancelled).\<close>

inductive pool_step :: "(env \<Rightarrow> bool) \<Rightarrow> pool_state \<Rightarrow> pool_state \<Rightarrow> bool" for good where
  step_acquire: "acquire c p = Inr (p', new) \<Longrightarrow> pool_step good (p, fs) (p', new @ fs)"
| step_reconcile: "permutes_keys order \<Longrightarrow> reconcile_pool order checks p = (p', new)
     \<Longrightarrow> pool_step good (p, fs) (p', new @ fs)"
| step_close: "permutes_keys order \<Longrightarrow> close_pool order p = (p', new)
     \<Longrightarrow> pool_step good (p, fs) (p', new @ fs)"
| step_flight: "good e \<Longrightarrow> flight_next e (held_by (as @ bs)) p f = Some (p', new)
     \<Longrightarrow> pool_step good (p, as @ f # bs) (p', as @ new @ bs)"

definition pool_start :: "pool_state \<Rightarrow> bool" where
  "pool_start s \<longleftrightarrow> snd s = []
     \<and> (\<exists>limit initial maximum delay timeout. new_pool limit initial maximum delay timeout = Inr (fst s))"

section \<open>Slot accounting\<close>

lemma length_dict_set:
  "length (dict_set k v d) = (if dict_get d k = None then Suc (length d) else length d)"
  by (induction d) auto

lemma length_dict_pop:
  "dict_ok d \<Longrightarrow> dict_get d k = Some v \<Longrightarrow> Suc (length (dict_pop k d)) = length d"
proof (induction d)
  case (Cons x d)
  show ?case
  proof (cases "fst x = k")
    case True
    then have "k \<notin> set (dict_keys d)" using Cons.prems(1) by (auto simp: dict_ok_def)
    then have "dict_pop k d = d" by (simp add: delete_id)
    then show ?thesis using True by simp
  next
    case False
    then have "dict_ok d" "dict_get d k = Some v" using Cons.prems by (auto simp: dict_ok_def)
    then show ?thesis using Cons.IH False by simp
  qed
qed simp

text \<open>What the flights rely on: a start under a key lock finds no published runtime, a removal finds
  the one it removes.\<close>

fun flight_ok :: "RuntimePool \<Rightarrow> flight \<Rightarrow> bool" where
  "flight_ok p (Queued c d) \<longleftrightarrow> (is_persistent c \<longrightarrow> dict_get (persistent p) (pool_key c) = None)"
| "flight_ok p (Starting c d) \<longleftrightarrow> (is_persistent c \<longrightarrow> dict_get (persistent p) (pool_key c) = None)"
| "flight_ok p (Replacing c cur u) \<longleftrightarrow> dict_get (persistent p) (pool_key c) = Some cur \<and> is_persistent c"
| "flight_ok p (Retiring k cur u) \<longleftrightarrow> dict_get (persistent p) k = Some cur"
| "flight_ok p (ReconcileRemoving ds eks ks k cur u) \<longleftrightarrow> dict_get (persistent p) k = Some cur"
| "flight_ok p (ClosingRemoving ks k cur) \<longleftrightarrow> dict_get (persistent p) k = Some cur"
| "flight_ok p _ \<longleftrightarrow> True"

definition total_owned :: "flight list \<Rightarrow> nat" where
  "total_owned fs = sum_list (map owned_slots fs)"

definition slots_used :: "RuntimePool \<Rightarrow> nat" where
  "slots_used p = slots p + length (persistent p)"

text \<open>A segment that starts with the slots \<open>owned\<close> and the key locks \<open>hold\<close>, the others holding \<open>busy\<close>.\<close>

definition segment_ok ::
  "pool_key set \<Rightarrow> RuntimePool \<Rightarrow> nat \<Rightarrow> pool_key list \<Rightarrow> RuntimePool \<times> flight list \<Rightarrow> bool" where
  "segment_ok busy p owned hold r \<longleftrightarrow>
     (let p' = fst r; new = snd r in
      dict_ok (persistent p') \<and> slots_used p' + total_owned new = slots_used p + owned
      \<and> distinct (concat (map held_key new)) \<and> held_by new \<inter> busy = {}
      \<and> (\<forall>j. j \<notin> set hold \<longrightarrow> dict_get (persistent p') j = dict_get (persistent p) j)
      \<and> (\<forall>g \<in> set new. flight_ok p' g) \<and> pool_limit p' = pool_limit p)"

lemma total_owned_simps [simp]:
  "total_owned [] = 0" "total_owned (f # fs) = owned_slots f + total_owned fs"
  "total_owned (fs @ gs) = total_owned fs + total_owned gs"
  by (simp_all add: total_owned_def)

lemma held_by_simps [simp]:
  "held_by [] = {}" "held_by (f # fs) = set (held_key f) \<union> held_by fs"
  "held_by (fs @ gs) = held_by fs \<union> held_by gs"
  by (auto simp: held_by_def)

lemma slots_used_simps [simp]:
  "slots_used (slot_release p) = Suc (slots_used p)"
  "slots_used (p\<lparr>restart_backoffs := b\<rparr>) = slots_used p"
  "slots_used (with_lock k p) = slots_used p"
  "slots_used (record_restart_failure now e p) = slots_used p"
  "slots_used (reset_if_stable now k cur p) = slots_used p"
  by (simp_all add: slots_used_def slot_release_def with_lock_def record_restart_failure_def Let_def
      reset_if_stable_def split: prod.split)

lemma pool_fields [simp]:
  "persistent (slot_release p) = persistent p" "persistent (with_lock k p) = persistent p"
  "persistent (record_restart_failure now ek p) = persistent p"
  "persistent (reset_if_stable now k cur p) = persistent p"
  "pool_limit (slot_release p) = pool_limit p" "pool_limit (with_lock k p) = pool_limit p"
  "pool_limit (record_restart_failure now ek p) = pool_limit p"
  "pool_limit (reset_if_stable now k cur p) = pool_limit p"
  by (simp_all add: slot_release_def with_lock_def record_restart_failure_def Let_def
      reset_if_stable_def split: prod.split)

lemma remove_persistent_effect:
  assumes "dict_ok (persistent p)" "dict_get (persistent p) k = Some cur"
  shows "dict_ok (persistent (remove_persistent now k cur u p))"
    "slots_used (remove_persistent now k cur u p) = slots_used p"
    "dict_get (persistent (remove_persistent now k cur u p)) j
       = (if j = k then None else dict_get (persistent p) j)"
    "pool_limit (remove_persistent now k cur u p) = pool_limit p"
proof -
  have "slots_used (slot_release (p\<lparr>persistent := dict_pop k (persistent p)\<rparr>)) = slots_used p"
    using length_dict_pop [OF assms] by (simp add: slots_used_def slot_release_def)
  then show "slots_used (remove_persistent now k cur u p) = slots_used p"
    using assms(2) by (simp add: remove_persistent_def Let_def)
qed (use assms in \<open>simp_all add: remove_persistent_def Let_def\<close>)

lemma held_start [simp]: "set (start_key c) = (if is_persistent c then {pool_key c} else {})"
  by (simp add: start_key_def)

lemma distinct_start [simp]: "distinct (start_key c)"
  by (simp add: start_key_def)

lemma segment_begin_start:
  assumes "dict_ok (persistent p)"
    "is_persistent c \<Longrightarrow> dict_get (persistent p) (pool_key c) = None \<and> pool_key c \<notin> busy"
  shows "segment_ok busy p 0 hold (begin_start now c p)"
  using assms by (auto simp: segment_ok_def begin_start_def Let_def)

lemma segment_enter_persistent:
  assumes "dict_ok (persistent p)" "pool_key c \<notin> busy" "is_persistent c"
  shows "segment_ok busy p 0 hold (enter_persistent e c p)"
  using assms segment_begin_start [OF assms(1), of c busy hold "clock e"]
  by (auto simp: enter_persistent_def segment_ok_def Let_def split: option.split)

lemma segment_started_runtime:
  assumes "dict_ok (persistent p)" "flight_ok p (Starting c d)" "set (start_key c) \<inter> busy = {}"
  shows "segment_ok busy p 1 (start_key c) (started_runtime e c d r p)"
proof -
  have "length (dict_set k v (persistent p)) = Suc (length (persistent p))"
    if "dict_get (persistent p) k = None" for k v
    using that by (simp add: length_dict_set)
  then have "slots_used (publish (clock e) c r d p) = Suc (slots_used p)" if "is_persistent c"
    using assms(2) that by (simp add: slots_used_def publish_def)
  moreover have "pool_limit (publish (clock e) c r d p) = pool_limit p" by (simp add: publish_def)
  moreover have "dict_ok (persistent (publish (clock e) c r d p))" "\<And>j. j \<noteq> pool_key c \<Longrightarrow>
      dict_get (persistent (publish (clock e) c r d p)) j = dict_get (persistent p) j"
    using assms(1) by (simp_all add: publish_def)
  ultimately show ?thesis
    using assms by (auto simp: segment_ok_def started_runtime_def Let_def)
qed

lemma segment_discard:
  assumes "dict_ok (persistent p)" "set (start_key c) \<inter> busy = {}"
  shows "segment_ok busy p 1 hold (discard c r p)"
  using assms by (auto simp: segment_ok_def discard_def Let_def split: option.split)

lemma segment_lookups:
  assumes "dict_ok (persistent p)"
  shows "pool_key c \<notin> busy \<Longrightarrow> segment_ok busy p 0 hold (retire c r p)"
    "pool_key c \<notin> busy \<Longrightarrow> segment_ok busy p 0 hold (finish_cycle e c r p)"
    "k \<notin> busy \<Longrightarrow> segment_ok busy p 0 hold (reconcile_key e ds eks ks k p)"
  using assms
  by (auto simp: segment_ok_def retire_def finish_cycle_def reconcile_key_def Let_def split: option.split)

lemma segment_change:
  assumes "segment_ok busy p' owned hold r" "persistent p' = persistent p" "slots_used p' = slots_used p"
    "pool_limit p' = pool_limit p"
  shows "segment_ok busy p owned hold r"
  using assms by (simp add: segment_ok_def Let_def)

lemma segment_remove:
  assumes "dict_ok (persistent p)" "dict_get (persistent p) k = Some cur" "k \<in> set hold"
    "segment_ok busy (remove_persistent now k cur u p) owned hold r"
  shows "segment_ok busy p owned hold r"
  using assms(3,4) remove_persistent_effect [OF assms(1,2)]
  by (auto simp: segment_ok_def Let_def)

lemma segment_simple:
  assumes "dict_ok (persistent p)"
  shows "segment_ok busy p 0 hold (p, [])" "segment_ok busy p 0 hold (with_lock k p, [])"
    "segment_ok busy p (Suc 0) hold (slot_release p, [])" "segment_ok busy p 0 hold (reconcile_end eks p, [])"
    "segment_ok busy p (Suc 0) hold (p, [StoppingFresh])" "segment_ok busy p 0 hold (p, [Reconciling ds eks ks])"
    "segment_ok busy p 0 hold (p, [Closing ks])" "segment_ok busy p 0 hold (with_lock k p, [Closing ks])"
    "dict_get (persistent p) k = Some cur \<Longrightarrow> k \<notin> busy
       \<Longrightarrow> segment_ok busy p 0 hold (with_lock k p, [ClosingRemoving ks k cur])"
  using assms by (auto simp: segment_ok_def Let_def reconcile_end_def)

lemma segment_flight:
  assumes "flight_next e busy p f = Some r" "dict_ok (persistent p)" "flight_ok p f"
    and free: "set (held_key f) \<inter> busy = {}" and "f = Closing [] \<Longrightarrow> persistent p = []"
  shows "segment_ok busy p (owned_slots f) (held_key f) r"
proof (cases f)
  case (Entering c)
  then show ?thesis
    using assms(1,2) segment_begin_start [OF assms(2), of c] segment_enter_persistent [OF assms(2), of c]
    by (auto split: if_splits intro: segment_simple)
next
  case (Replacing c cur u)
  let ?p = "remove_persistent (clock e) (pool_key c) cur u p"
  have get: "dict_get (persistent p) (pool_key c) = Some cur" using assms(3) Replacing by simp
  have R: "dict_ok (persistent ?p)" "dict_get (persistent ?p) (pool_key c) = None"
    by (simp_all only: remove_persistent_effect [OF assms(2) get] if_True simp_thms)
  have "is_persistent c" "pool_key c \<notin> busy" using assms(3) free Replacing by simp_all
  then have "segment_ok busy ?p 0 (held_key f) (begin_start (clock e) c ?p)"
    "segment_ok busy ?p 0 (held_key f) (?p, [])"
    using R by (auto intro!: segment_begin_start segment_simple)
  then show ?thesis
    using assms(1) Replacing segment_remove [OF assms(2) get, of "held_key f"]
    by (auto simp: Let_def split: if_splits)
next
  case (Queued c d)
  have "segment_ok busy p 0 (held_key f) (p\<lparr>slots := slots p - 1\<rparr>, [Starting c d])" if "slots p \<noteq> 0"
    using assms(2,3) free that Queued by (auto simp: segment_ok_def Let_def slots_used_def)
  then show ?thesis
    using assms(1,2) Queued by (auto split: answer.splits if_splits intro: segment_simple)
next
  case (Starting c d)
  have free: "set (start_key c) \<inter> busy = {}" using free Starting by simp
  have "segment_ok busy p 1 (held_key f) (discard c x (record_restart_failure now (effective_key c) p))" for x now
    by (rule segment_change [OF segment_discard]) (use assms(2) free in simp_all)
  then show ?thesis
    using assms(1) Starting segment_discard [OF assms(2) free]
      segment_started_runtime [OF assms(2) assms(3) [unfolded Starting] free]
    by (auto split: answer.splits)
next
  case (UsingPersistent c r')
  have "segment_ok busy p 0 (held_key f) (retire c x (with_lock (pool_key c) p))"
    "segment_ok busy p 0 (held_key f) (finish_cycle e c x (with_lock (pool_key c) p))"
    if "pool_key c \<notin> busy" for x
    by (rule segment_change [OF segment_lookups(1)]; use assms(2) that in simp)
       (rule segment_change [OF segment_lookups(2)]; use assms(2) that in simp)
  then show ?thesis
    using assms(1,2) UsingPersistent
    by (auto simp: Let_def split: answer.splits if_splits intro: segment_simple)
next
  case (Retiring k cur u)
  have get: "dict_get (persistent p) k = Some cur" using assms(3) Retiring by simp
  have "segment_ok busy p 0 (held_key f) (remove_persistent (clock e) k cur u p, [])"
    by (rule segment_remove [OF assms(2) get _ segment_simple(1)])
       (use Retiring remove_persistent_effect [OF assms(2) get] in simp_all)
  then show ?thesis using assms(1) Retiring by auto
next
  case (Reconciling ds eks ks)
  then show ?thesis
  proof (cases ks)
    case Nil
    then show ?thesis using assms(1,2) Reconciling by (auto intro: segment_simple)
  next
    case (Cons k ks')
    have "segment_ok busy p 0 (held_key f) (reconcile_key e ds eks ks' k (with_lock k p))" if "k \<notin> busy"
      by (rule segment_change [OF segment_lookups(3)]) (use assms(2) that in simp_all)
    then show ?thesis using assms(1,2) Reconciling Cons by (auto split: if_splits intro: segment_simple)
  qed
next
  case (ReconcileRemoving ds eks ks k cur u)
  have get: "dict_get (persistent p) k = Some cur" using assms(3) ReconcileRemoving by simp
  have "segment_ok busy p 0 (held_key f) (remove_persistent (clock e) k cur u p, new)"
    if "new \<in> {[], [Reconciling ds eks ks]}" for new
    by (rule segment_remove [OF assms(2) get])
       (use ReconcileRemoving that remove_persistent_effect [OF assms(2) get] in
         \<open>auto intro: segment_simple\<close>)
  then show ?thesis using assms(1) ReconcileRemoving by (auto simp: Let_def split: if_splits)
next
  case (Closing ks)
  then show ?thesis
  proof (cases ks)
    case Nil
    then show ?thesis
      using assms(1,2,5) Closing by (auto simp: close_end_def segment_ok_def Let_def slots_used_def)
  next
    case (Cons k ks')
    then show ?thesis
      using assms(1,2) Closing by (auto split: if_splits option.splits intro: segment_simple)
  qed
next
  case (ClosingRemoving ks k cur)
  have get: "dict_get (persistent p) k = Some cur" using assms(3) ClosingRemoving by simp
  have "segment_ok busy p 0 (held_key f) (remove_persistent (clock e) k cur False p, new)"
    if "new \<in> {[], [Closing ks]}" for new
    by (rule segment_remove [OF assms(2) get])
       (use ClosingRemoving that remove_persistent_effect [OF assms(2) get] in
         \<open>auto intro: segment_simple\<close>)
  then show ?thesis using assms(1) ClosingRemoving by (auto simp: Let_def split: if_splits)
qed (use assms in \<open>auto intro: segment_simple\<close>)

text \<open>The keys a closing coroutine still has to visit.\<close>

fun closing :: "flight \<Rightarrow> pool_key list option" where
  "closing (Closing ks) = Some ks"
| "closing (ClosingRemoving ks k cur) = Some (k # ks)"
| "closing _ = None"

definition stored_keys :: "RuntimePool \<Rightarrow> pool_key set" where
  "stored_keys p = set (dict_keys (persistent p))"

definition closing_ok :: "RuntimePool \<Rightarrow> flight list \<Rightarrow> bool" where
  "closing_ok p fs \<longleftrightarrow>
     length (filter (\<lambda>f. closing f \<noteq> None) fs) \<le> (if pool_closed p then 1 else 0)
     \<and> (\<forall>f \<in> set fs. \<forall>ks. closing f = Some ks \<longrightarrow> stored_keys p \<subseteq> set ks)"

lemma stored_keys_iff: "k \<in> stored_keys p \<longleftrightarrow> dict_get (persistent p) k \<noteq> None"
  by (simp add: stored_keys_def dict_get_None_iff)

lemma pool_closed_fields [simp]:
  "pool_closed (slot_release p) = pool_closed p" "pool_closed (with_lock k p) = pool_closed p"
  "pool_closed (record_restart_failure now ek p) = pool_closed p"
  "pool_closed (reset_if_stable now k cur p) = pool_closed p"
  "pool_closed (remove_persistent now k cur u p) = pool_closed p"
  "desired_persistent (slot_release p) = desired_persistent p"
  "desired_persistent (with_lock k p) = desired_persistent p"
  "desired_persistent (record_restart_failure now ek p) = desired_persistent p"
  "desired_persistent (reset_if_stable now k cur p) = desired_persistent p"
  "desired_persistent (remove_persistent now k cur u p) = desired_persistent p"
  by (simp_all add: slot_release_def with_lock_def record_restart_failure_def Let_def
      reset_if_stable_def remove_persistent_def split: prod.split)

lemma stored_keys_fields [simp]:
  "stored_keys (slot_release p) = stored_keys p" "stored_keys (with_lock k p) = stored_keys p"
  "stored_keys (record_restart_failure now ek p) = stored_keys p"
  "stored_keys (reset_if_stable now k cur p) = stored_keys p"
  "stored_keys (p\<lparr>slots := n\<rparr>) = stored_keys p" "stored_keys (p\<lparr>restart_backoffs := b\<rparr>) = stored_keys p"
  by (simp_all add: stored_keys_def)

lemma stored_keys_remove:
  "stored_keys (remove_persistent now k cur u p) \<subseteq> stored_keys p"
  "dict_get (persistent p) k = Some cur \<Longrightarrow> stored_keys (remove_persistent now k cur u p) = stored_keys p - {k}"
  by (auto simp: stored_keys_iff remove_persistent_def Let_def split: if_splits)

text \<open>Only a start publishes, and it does so only in an open pool under its key and generation.\<close>

definition calm :: "RuntimePool \<Rightarrow> RuntimePool \<times> flight list \<Rightarrow> bool" where
  "calm p r \<longleftrightarrow> pool_closed (fst r) = pool_closed p \<and> desired_persistent (fst r) = desired_persistent p
     \<and> (\<forall>k cur. dict_get (persistent (fst r)) k = Some cur \<longrightarrow>
          dict_get (persistent p) k = Some cur
          \<or> (\<not> pool_closed p \<and> (\<exists>c. k = pool_key c \<and> persistent_is_desired c p
               \<and> p_generation cur = chk_generation (definition_of c))))"

lemma calm_parts:
  "calm p (p, l)" "calm p (begin_start now c p)" "calm p (enter_persistent e c p)"
  "calm p (retire c r p)" "calm p (finish_cycle e c r p)" "calm p (reconcile_key e ds eks ks k p)"
  "calm p (discard c x p)" "calm p (slot_release p, l)" "calm p (with_lock k p, l)"
  "calm p (reconcile_end eks p, l)" "calm p (p\<lparr>slots := n\<rparr>, l)"
  "calm p (p\<lparr>restart_backoffs := b\<rparr>, l)"
  by (auto simp: calm_def begin_start_def enter_persistent_def retire_def finish_cycle_def
      reconcile_key_def discard_def reconcile_end_def Let_def split: option.split)

lemma calm_change:
  assumes "calm p' r" "persistent p' = persistent p" "pool_closed p' = pool_closed p"
    "desired_persistent p' = desired_persistent p"
  shows "calm p r"
  using assms by (simp add: calm_def persistent_is_desired_def)

lemma calm_remove:
  assumes "calm (remove_persistent now k cur u p) r"
  shows "calm p r"
proof -
  have sub: "dict_get (persistent p) j = Some c"
    if "dict_get (persistent (remove_persistent now k cur u p)) j = Some c" for j c
    using that by (auto simp: remove_persistent_def Let_def split: if_splits)
  show ?thesis
    unfolding calm_def
  proof (intro conjI allI impI)
    fix j c
    assume "dict_get (persistent (fst r)) j = Some c"
    then show "dict_get (persistent p) j = Some c
        \<or> (\<not> pool_closed p \<and> (\<exists>c'. j = pool_key c' \<and> persistent_is_desired c' p
             \<and> p_generation c = chk_generation (definition_of c')))"
      using assms sub unfolding calm_def persistent_is_desired_def pool_closed_fields by blast
  qed (use assms in \<open>simp_all add: calm_def\<close>)
qed

lemma calm_started: "calm p (started_runtime e c d r p)"
  by (auto simp: calm_def started_runtime_def publish_def)

lemma calm_flight:
  assumes "flight_next e busy p f = Some r" "f = Closing [] \<Longrightarrow> stored_keys p = {}"
  shows "calm p r"
proof -
  have close: "calm p (close_end p, [])" if "stored_keys p = {}"
    using that by (auto simp: calm_def close_end_def stored_keys_def)
  have rest: "calm p (discard c x (record_restart_failure now ek p))"
    "calm p (retire c y (with_lock k p))" "calm p (finish_cycle e c y (with_lock k p))"
    "calm p (reconcile_key e ds eks ks k (with_lock k p))" for c x now ek y k ds eks ks
    by (rule calm_change [OF calm_parts(7)], simp_all)
       (rule calm_change [OF calm_parts(4)], simp_all, rule calm_change [OF calm_parts(5)], simp_all,
        rule calm_change [OF calm_parts(6)], simp_all)
  have remove: "calm p (remove_persistent now k cur u p, l)"
    "calm p (begin_start now c (remove_persistent now k cur u p))" for now k cur u l c
    by (rule calm_remove, rule calm_parts)+
  show ?thesis
    using assms close
    by (cases "(e, busy, p, f)" rule: flight_next.cases)
       (auto simp: Let_def split: if_splits answer.splits option.splits
          intro: calm_parts rest remove calm_started)
qed

text \<open>A closing coroutine goes on with the keys that are left.\<close>

lemma closing_flight:
  assumes "flight_next e busy p f = Some (p', new)" "flight_ok p f"
    "\<And>ks. closing f = Some ks \<Longrightarrow> stored_keys p \<subseteq> set ks"
  shows "length (filter (\<lambda>g. closing g \<noteq> None) new) \<le> (if closing f = None then 0 else 1)"
    "g \<in> set new \<Longrightarrow> closing g = Some ks \<Longrightarrow> stored_keys p' \<subseteq> set ks"
proof -
  have "length (filter (\<lambda>g. closing g \<noteq> None) new) \<le> (if closing f = None then 0 else 1)
    \<and> (\<forall>g \<in> set new. \<forall>ks. closing g = Some ks \<longrightarrow> stored_keys p' \<subseteq> set ks)"
    using assms unfolding subset_iff stored_keys_iff
    by (cases "(e, busy, p, f)" rule: flight_next.cases)
       (auto simp: Let_def begin_start_def enter_persistent_def retire_def finish_cycle_def
          reconcile_key_def discard_def started_runtime_def remove_persistent_def
          split: if_splits answer.splits option.splits, (metis option.distinct(1))+)
  then show "length (filter (\<lambda>g. closing g \<noteq> None) new) \<le> (if closing f = None then 0 else 1)"
    "g \<in> set new \<Longrightarrow> closing g = Some ks \<Longrightarrow> stored_keys p' \<subseteq> set ks"
    by blast+
qed

section \<open>The invariant\<close>

definition pool_ok :: "pool_state \<Rightarrow> bool" where
  "pool_ok s \<longleftrightarrow>
     (let p = fst s; fs = snd s in
      dict_ok (persistent p) \<and> slots_used p + total_owned fs = pool_limit p
      \<and> distinct (concat (map held_key fs)) \<and> (\<forall>f \<in> set fs. flight_ok p f) \<and> closing_ok p fs)"

lemma pool_ok_iff:
  "pool_ok (p, fs) \<longleftrightarrow>
     dict_ok (persistent p) \<and> slots_used p + total_owned fs = pool_limit p
     \<and> distinct (concat (map held_key fs)) \<and> (\<forall>f \<in> set fs. flight_ok p f) \<and> closing_ok p fs"
  by (simp add: pool_ok_def)

lemma locks_mid:
  "distinct (concat (map held_key (as @ xs @ bs))) \<longleftrightarrow>
     distinct (concat (map held_key (as @ bs))) \<and> distinct (concat (map held_key xs))
     \<and> held_by xs \<inter> held_by (as @ bs) = {}"
  by (auto simp: held_by_def)

lemma flight_ok_other:
  assumes "flight_ok p g" "\<And>j. j \<in> set (held_key g) \<Longrightarrow> dict_get (persistent p') j = dict_get (persistent p) j"
  shows "flight_ok p' g"
  using assms by (cases g) auto

lemma pool_ok_flight:
  assumes "pool_ok (p, as @ f # bs)" "flight_next e (held_by (as @ bs)) p f = Some (p', new)"
  shows "pool_ok (p', as @ new @ bs)"
proof -
  have ok: "dict_ok (persistent p)" "slots_used p + total_owned (as @ f # bs) = pool_limit p"
    "distinct (concat (map held_key (as @ [f] @ bs)))" "\<forall>g \<in> set (as @ f # bs). flight_ok p g"
    "closing_ok p (as @ f # bs)"
    using assms(1) by (simp_all add: pool_ok_iff)
  have free: "set (held_key f) \<inter> held_by (as @ bs) = {}"
    "distinct (concat (map held_key (as @ bs)))"
    using ok(3) unfolding locks_mid by simp_all
  have cov: "stored_keys p \<subseteq> set ks" if "closing g = Some ks" "g \<in> set (as @ f # bs)" for g ks
    using ok(5) that by (auto simp: closing_ok_def)
  have empty: "persistent p = []" if "f = Closing []"
    using cov [of f "[]"] that by (simp add: stored_keys_def)
  have S: "segment_ok (held_by (as @ bs)) p (owned_slots f) (held_key f) (p', new)"
    by (rule segment_flight [OF assms(2) ok(1) _ free(1) empty]) (use ok(4) in simp_all)
  have C: "calm p (p', new)"
    by (rule calm_flight [OF assms(2)]) (simp add: empty stored_keys_def)
  have f: "flight_ok p f" using ok(4) by simp
  have "stored_keys p \<subseteq> set ks" if "closing f = Some ks" for ks using cov [OF that] by simp
  note L = closing_flight [OF assms(2) f this]
  have others: "flight_ok p' g" if "g \<in> set as \<union> set bs" for g
  proof (rule flight_ok_other)
    show "flight_ok p g" using ok(4) that by auto
    fix j
    assume "j \<in> set (held_key g)"
    then have "j \<in> held_by (as @ bs)" using that by (auto simp: held_by_def)
    then have "j \<notin> set (held_key f)" using free(1) by blast
    then show "dict_get (persistent p') j = dict_get (persistent p) j"
      using S by (simp add: segment_ok_def Let_def)
  qed
  have shrink: "stored_keys p' \<subseteq> stored_keys p" if "pool_closed p"
    using C that by (auto simp: calm_def stored_keys_iff)
  have "closing_ok p' (as @ new @ bs)"
    unfolding closing_ok_def
  proof (intro conjI ballI allI impI)
    have "length (filter (\<lambda>g. closing g \<noteq> None) new) \<le> (if closing f = None then 0 else 1)"
      by (rule L(1)) simp
    then show "length (filter (\<lambda>g. closing g \<noteq> None) (as @ new @ bs)) \<le> (if pool_closed p' then 1 else 0)"
      using ok(5) C by (auto simp: closing_ok_def calm_def split: if_splits)
    fix g ks
    assume g: "g \<in> set (as @ new @ bs)" "closing g = Some ks"
    show "stored_keys p' \<subseteq> set ks"
    proof (cases "g \<in> set new")
      case True
      show ?thesis by (rule L(2) [of g]) (use True g(2) in simp_all)
    next
      case False
      with g have m: "g \<in> set (as @ f # bs)" by auto
      then have "filter (\<lambda>g. closing g \<noteq> None) (as @ f # bs) \<noteq> []"
        using g(2) by (auto simp: filter_empty_conv)
      then have "pool_closed p" using ok(5) by (auto simp: closing_ok_def split: if_splits)
      then show ?thesis using shrink cov [OF g(2) m] by blast
    qed
  qed
  moreover have "\<forall>g \<in> set (as @ new @ bs). flight_ok p' g"
    using others S by (auto simp: segment_ok_def Let_def)
  moreover have "distinct (concat (map held_key (as @ new @ bs)))"
    unfolding locks_mid using free(2) S by (simp add: segment_ok_def Let_def)
  ultimately show ?thesis
    using S ok(2) by (simp add: pool_ok_iff segment_ok_def Let_def)
qed

lemma pool_ok_step:
  assumes "pool_ok s" "pool_step good s t"
  shows "pool_ok t"
  using assms(2,1)
proof cases
  case (step_acquire c p p' new fs)
  have "closing_ok (with_lock k p) (Entering c # fs) \<longleftrightarrow> closing_ok p fs" for k c
    by (simp add: closing_ok_def)
  moreover have "closing_ok p (Entering c # fs) \<longleftrightarrow> closing_ok p fs" for c
    by (simp add: closing_ok_def)
  ultimately show ?thesis
    using assms(1) step_acquire
    by (auto simp: acquire_def pool_ok_iff split: if_splits intro: flight_ok_other)
next
  case (step_reconcile order checks p p' new fs)
  have "closing_ok (p\<lparr>desired_persistent := d\<rparr>) (Reconciling ds eks ks # fs) \<longleftrightarrow> closing_ok p fs" for d ds eks ks
    by (simp add: closing_ok_def stored_keys_def)
  then show ?thesis
    using assms(1) step_reconcile
    by (auto simp: reconcile_pool_def Let_def pool_ok_iff slots_used_def intro: flight_ok_other)
next
  case (step_close order p p' new fs)
  let ?q = "p\<lparr>pool_closed := True, desired_persistent := Some []\<rparr>"
  have "set (order (known_keys ?q)) = set (known_keys ?q)"
    using step_close(3) by (simp add: permutes_keys_def known_keys_def)
  then have "stored_keys p \<subseteq> set (order (known_keys ?q))"
    by (simp add: known_keys_def stored_keys_def)
  then have "closing_ok ?q (Closing (order (known_keys ?q)) # fs)" if "closing_ok p fs" "\<not> pool_closed p"
    using that by (auto simp: closing_ok_def filter_empty_conv stored_keys_def)
  then show ?thesis
    using assms(1) step_close
    by (auto simp: close_pool_def Let_def pool_ok_iff slots_used_def split: if_splits
        intro: flight_ok_other)
next
  case (step_flight e as bs p f p' new)
  then show ?thesis using assms(1) pool_ok_flight by simp
qed

lemma pool_ok_start: "pool_start s \<Longrightarrow> pool_ok s"
  by (cases s)
     (auto simp: pool_start_def new_pool_def pool_ok_iff slots_used_def closing_ok_def split: if_splits)

interpretation pool: invariant_system pool_start "pool_step good" pool_ok for good
  by unfold_locales (simp_all add: pool_ok_start pool_ok_step)

section \<open>Backoff\<close>

definition backoffs_ok :: "RuntimePool \<Rightarrow> bool" where
  "backoffs_ok p \<longleftrightarrow> 0 \<le> backoff_initial p \<and> backoff_initial p \<le> backoff_max p
     \<and> (\<forall>(k, b) \<in> set (restart_backoffs p). 1 \<le> rb_failures b
          \<and> rb_delay b = min (backoff_max p) (backoff_initial p * 2 ^ (rb_failures b - 1)))"

lemma backoffs_ok_fields [simp]:
  "backoffs_ok (slot_release p) = backoffs_ok p" "backoffs_ok (with_lock k p) = backoffs_ok p"
  "backoffs_ok (p\<lparr>slots := n\<rparr>) = backoffs_ok p" "backoffs_ok (p\<lparr>persistent := d\<rparr>) = backoffs_ok p"
  "backoffs_ok (publish now c r delay p) = backoffs_ok p"
  by (simp_all add: backoffs_ok_def slot_release_def with_lock_def publish_def)

lemma min_double: "0 \<le> m \<Longrightarrow> 0 \<le> x \<Longrightarrow> min m (min m x * 2) = min m (x * 2)" for m x :: rat
  by (simp add: min_def)

lemma backoffs_ok_changes [simp]:
  "backoffs_ok p \<Longrightarrow> backoffs_ok (p\<lparr>restart_backoffs := dict_pop k (restart_backoffs p)\<rparr>)"
  "backoffs_ok p \<Longrightarrow> backoffs_ok (reset_if_stable now pk cur p)"
  "backoffs_ok p \<Longrightarrow> backoffs_ok (reconcile_end eks p)"
  "backoffs_ok p \<Longrightarrow> backoffs_ok (close_end p)"
  by (auto simp: backoffs_ok_def dict_pop_mem reset_if_stable_def reconcile_end_def close_end_def)

lemma backoffs_ok_record [simp]:
  assumes "backoffs_ok p"
  shows "backoffs_ok (record_restart_failure now k p)"
proof -
  have p: "0 \<le> backoff_initial p" "backoff_initial p \<le> backoff_max p"
    "\<And>k b. (k, b) \<in> set (restart_backoffs p) \<Longrightarrow> 1 \<le> rb_failures b
       \<and> rb_delay b = min (backoff_max p) (backoff_initial p * 2 ^ (rb_failures b - 1))"
    using assms by (auto simp: backoffs_ok_def)
  have double: "min (backoff_max p) (rb_delay b * 2) = min (backoff_max p) (backoff_initial p * 2 ^ rb_failures b)"
    if "dict_get (restart_backoffs p) k = Some b" for b
  proof -
    note b = p(3) [OF dict_get_in [OF that]]
    then have e: "(2 :: rat) ^ rb_failures b = 2 ^ (rb_failures b - 1) * 2"
      by (cases "rb_failures b") simp_all
    have "min (backoff_max p) (rb_delay b * 2)
        = min (backoff_max p) (backoff_initial p * 2 ^ (rb_failures b - 1) * 2)"
      using b p(1,2) min_double [of "backoff_max p" "backoff_initial p * 2 ^ (rb_failures b - 1)"] by simp
    then show ?thesis by (simp add: e mult.assoc)
  qed
  show ?thesis
  proof (cases "dict_get (restart_backoffs p) k")
    case None
    then show ?thesis
      using p by (auto simp: backoffs_ok_def record_restart_failure_def dest!: dict_set_mem)
  next
    case (Some b)
    then show ?thesis
      using p double [OF Some] by (auto simp: backoffs_ok_def record_restart_failure_def dest!: dict_set_mem)
  qed
qed

lemma backoffs_ok_remove [simp]: "backoffs_ok p \<Longrightarrow> backoffs_ok (remove_persistent now k cur u p)"
  by (simp add: remove_persistent_def Let_def)

lemma backoffs_ok_parts [simp]:
  "backoffs_ok p \<Longrightarrow> backoffs_ok (fst (begin_start now c p))"
  "backoffs_ok p \<Longrightarrow> backoffs_ok (fst (enter_persistent e c p))"
  "backoffs_ok p \<Longrightarrow> backoffs_ok (fst (retire c r p))"
  "backoffs_ok p \<Longrightarrow> backoffs_ok (fst (finish_cycle e c r p))"
  "backoffs_ok p \<Longrightarrow> backoffs_ok (fst (reconcile_key e ds eks ks k p))"
  "backoffs_ok p \<Longrightarrow> backoffs_ok (fst (discard c x p))"
  "backoffs_ok p \<Longrightarrow> backoffs_ok (fst (started_runtime e c d r p))"
  by (auto simp: begin_start_def enter_persistent_def retire_def finish_cycle_def reconcile_key_def
      discard_def started_runtime_def Let_def split: option.split)

lemma backoffs_ok_flight:
  "flight_next e busy p f = Some r \<Longrightarrow> backoffs_ok p \<Longrightarrow> backoffs_ok (fst r)"
  by (cases "(e, busy, p, f)" rule: flight_next.cases)
     (auto simp: Let_def split: if_splits answer.splits option.splits)

lemma backoffs_ok_step: "pool_step good s t \<Longrightarrow> backoffs_ok (fst s) \<Longrightarrow> backoffs_ok (fst t)"
proof (induction rule: pool_step.induct)
  case (step_flight e as bs p f p' new)
  then show ?case using backoffs_ok_flight by fastforce
qed (auto simp: acquire_def reconcile_pool_def close_pool_def Let_def backoffs_ok_def with_lock_def
    split: if_splits)

interpretation backoff: invariant_system pool_start "pool_step good" "\<lambda>s. backoffs_ok (fst s)" for good
proof
  show "backoffs_ok (fst s)" if "pool_start s" for s
    using that by (cases s) (auto simp: pool_start_def new_pool_def backoffs_ok_def split: if_splits)
qed (rule backoffs_ok_step)

section \<open>Convergence\<close>

definition undisturbed :: "env \<Rightarrow> bool" where
  "undisturbed e \<longleftrightarrow> \<not> stop_raises e \<and> \<not> lock_cancelled e"

definition allowed :: "RuntimePool \<Rightarrow> pool_key \<Rightarrow> string \<Rightarrow> bool" where
  "allowed p k gen \<longleftrightarrow>
     (case desired_persistent p of None \<Rightarrow> True | Some d \<Rightarrow> dict_get d k = Some gen)"

text \<open>A stored runtime that is not desired is still to be visited by the coroutine \<open>f\<close>.\<close>

fun covers :: "RuntimePool \<Rightarrow> pool_key \<Rightarrow> flight \<Rightarrow> bool" where
  "covers p k (Reconciling ds eks ks) \<longleftrightarrow> desired_persistent p = Some ds \<and> k \<in> set ks"
| "covers p k (ReconcileRemoving ds eks ks k' cur u) \<longleftrightarrow>
     desired_persistent p = Some ds \<and> k \<in> set (k' # ks)"
| "covers p k (Closing ks) \<longleftrightarrow> k \<in> set ks"
| "covers p k (ClosingRemoving ks k' cur) \<longleftrightarrow> k \<in> set (k' # ks)"
| "covers p k _ \<longleftrightarrow> False"

definition settled :: "pool_state \<Rightarrow> bool" where
  "settled s \<longleftrightarrow>
     (\<forall>k cur. dict_get (persistent (fst s)) k = Some cur \<longrightarrow>
        allowed (fst s) k (p_generation cur) \<or> (\<exists>f \<in> set (snd s). covers (fst s) k f))
     \<and> (pool_closed (fst s) \<longrightarrow> stored_keys (fst s) = {} \<or> (\<exists>f \<in> set (snd s). closing f \<noteq> None))"

lemma persistent_is_desired_allowed:
  "persistent_is_desired c p = allowed p (pool_key c) (chk_generation (definition_of c))"
  by (simp add: persistent_is_desired_def allowed_def)

lemma covers_flight:
  assumes "flight_next e busy p f = Some (p', new)" "undisturbed e" "flight_ok p f" "covers p k f"
    "dict_get (persistent p') k = Some cur" "dict_get (persistent p) k = Some cur"
  shows "allowed p' k (p_generation cur) \<or> (\<exists>g \<in> set new. covers p' k g)"
  using assms
  by (cases "(e, busy, p, f)" rule: flight_next.cases)
     (auto simp: undisturbed_def Let_def reconcile_key_def allowed_def remove_persistent_def close_end_def
        slot_release_def record_restart_failure_def with_lock_def reset_if_stable_def
        split: if_splits option.splits)

lemma closing_continues:
  assumes "flight_next e busy p f = Some (p', new)" "undisturbed e" "closing f \<noteq> None"
  shows "stored_keys p' = {} \<or> (\<exists>g \<in> set new. closing g \<noteq> None)"
  using assms
  by (cases "(e, busy, p, f)" rule: flight_next.cases)
     (auto simp: undisturbed_def Let_def close_end_def stored_keys_def split: if_splits option.splits)

lemma settled_flight:
  assumes "settled (p, as @ f # bs)" "pool_ok (p, as @ f # bs)" "undisturbed e"
    "flight_next e (held_by (as @ bs)) p f = Some (p', new)"
  shows "settled (p', as @ new @ bs)"
proof -
  have f: "flight_ok p f" using assms(2) by (simp add: pool_ok_iff)
  have "stored_keys p = {}" if "f = Closing []"
    using assms(2) that by (auto simp: pool_ok_iff closing_ok_def)
  note C = calm_flight [OF assms(4) this]
  have desired: "desired_persistent p' = desired_persistent p" "pool_closed p' = pool_closed p"
    using C by (simp_all add: calm_def)
  have same: "allowed p' k g = allowed p k g" "covers p' k h = covers p k h" for k g h
    using desired by (simp_all add: allowed_def, cases h) simp_all
  show ?thesis
    unfolding settled_def fst_conv snd_conv
  proof (intro conjI allI impI)
    fix k cur
    assume k: "dict_get (persistent p') k = Some cur"
    show "allowed p' k (p_generation cur) \<or> (\<exists>g \<in> set (as @ new @ bs). covers p' k g)"
    proof (cases "dict_get (persistent p) k = Some cur")
      case True
      then have "allowed p k (p_generation cur) \<or> (\<exists>g \<in> set (as @ f # bs). covers p k g)"
        using assms(1) by (simp add: settled_def)
      then show ?thesis
        using covers_flight [OF assms(4,3) f _ k True] unfolding same by auto
    next
      case False
      then obtain c where "k = pool_key c" "persistent_is_desired c p"
          "p_generation cur = chk_generation (definition_of c)"
        using C k by (auto simp: calm_def)
      then show ?thesis unfolding same by (simp add: persistent_is_desired_allowed)
    qed
  next
    assume closed: "pool_closed p'"
    have sub: "stored_keys p' \<subseteq> stored_keys p"
      using C closed desired(2) by (auto simp: calm_def stored_keys_iff)
    have "stored_keys p = {} \<or> (\<exists>g \<in> set (as @ f # bs). closing g \<noteq> None)"
      using assms(1) closed desired(2) by (simp add: settled_def)
    then show "stored_keys p' = {} \<or> (\<exists>g \<in> set (as @ new @ bs). closing g \<noteq> None)"
      using sub closing_continues [OF assms(4,3)] by auto
  qed
qed

lemma settled_step:
  assumes "pool_step undisturbed s t" "settled s \<and> pool_ok s"
  shows "settled t \<and> pool_ok t"
proof
  show "pool_ok t" using assms pool_ok_step by blast
  show "settled t" using assms
  proof cases
    case (step_acquire c p p' new fs)
    have "allowed (with_lock k p) = allowed p" "covers (with_lock k p) j f = covers p j f" for k j f
      by (simp_all add: allowed_def fun_eq_iff, cases f) simp_all
    then have "settled (with_lock k p, Entering c # fs) = settled (p, fs)"
      "settled (p, Entering c # fs) = settled (p, fs)" for k
      by (simp_all add: settled_def)
    then show ?thesis using assms(2) step_acquire by (auto simp: acquire_def split: if_splits)
  next
    case (step_reconcile order checks p p' new fs)
    let ?q = "p\<lparr>desired_persistent := Some (desired_of checks)\<rparr>"
    have "set (order (known_keys ?q)) = set (known_keys ?q)"
      using step_reconcile(3) by (simp add: permutes_keys_def known_keys_def)
    then have "covers ?q k (Reconciling (desired_of checks) (effective_key ` set checks) (order (known_keys ?q)))"
      if "dict_get (persistent p) k \<noteq> None" for k
      using that by (simp add: known_keys_def dict_get_None_iff)
    moreover have "stored_keys ?q = stored_keys p" by (simp add: stored_keys_def)
    ultimately show ?thesis
      using assms(2) step_reconcile by (auto simp: reconcile_pool_def Let_def settled_def)
  next
    case (step_close order p p' new fs)
    let ?q = "p\<lparr>pool_closed := True, desired_persistent := Some []\<rparr>"
    have "set (order (known_keys ?q)) = set (known_keys ?q)"
      using step_close(3) by (simp add: permutes_keys_def known_keys_def)
    then have "covers ?q k (Closing (order (known_keys ?q)))" if "dict_get (persistent p) k \<noteq> None" for k
      using that by (simp add: known_keys_def dict_get_None_iff)
    then show ?thesis
      using assms(2) step_close by (auto simp: close_pool_def Let_def settled_def split: if_splits)
  next
    case (step_flight e as bs p f p' new)
    then show ?thesis using assms(2) settled_flight by blast
  qed
qed

interpretation settling: invariant_system pool_start "pool_step undisturbed" "\<lambda>s. settled s \<and> pool_ok s"
proof
  show "settled s \<and> pool_ok s" if "pool_start s" for s
    using that pool_ok_start [OF that]
    by (cases s) (auto simp: pool_start_def new_pool_def settled_def split: if_splits)
qed (rule settled_step)

section \<open>What the pool guarantees\<close>

text \<open>
  C3: no slot is ever lost or used twice. In every reachable state the free slots, the published
  persistent runtimes and the runtimes being started, used fresh, discarded or stopped add up to the
  limit, whatever the children do and wherever a task is cancelled; and no key is being started,
  replaced or removed by two coroutines at once.
\<close>
theorem pool_slots_accounted:
  assumes "reachable pool_start (pool_step good) (p, fs)"
  shows "slots p + length (persistent p) + total_owned fs = pool_limit p
    \<and> distinct (dict_keys (persistent p)) \<and> distinct (concat (map held_key fs))"
  using pool.inv_reachable [OF assms] by (simp add: pool_ok_iff slots_used_def dict_ok_def)

text \<open>
  C5: the delay before a restart doubles with every failure in a row, from the initial delay up to the
  maximum; and a start that fails is followed by no other start of the same effective check before
  its delay is over.
\<close>
theorem pool_backoff:
  assumes "reachable pool_start (pool_step good) (p, fs)" and "(k, b) \<in> set (restart_backoffs p)"
    and "flight_next e busy p (Starting c d) = Some (p', new)" "reply e = Failed r"
  shows "1 \<le> rb_failures b \<and> rb_delay b = min (backoff_max p) (backoff_initial p * 2 ^ (rb_failures b - 1))
    \<and> (\<exists>b'. dict_get (restart_backoffs p') (effective_key c) = Some b' \<and> 0 \<le> rb_delay b'
         \<and> (\<forall>now < clock e + rb_delay b'. begin_start now c p' = (p', [])))"
proof -
  have ok: "backoffs_ok p" using backoff.inv_reachable [OF assms(1)] by simp
  let ?q = "record_restart_failure (clock e) (effective_key c) p"
  obtain b' where b': "dict_get (restart_backoffs ?q) (effective_key c) = Some b'"
    "rb_retry_at b' = clock e + rb_delay b'"
    by (cases "dict_get (restart_backoffs p) (effective_key c)") (simp_all add: record_restart_failure_def)
  have q: "backoffs_ok ?q" using ok by simp
  then have "0 \<le> rb_delay b'"
    using dict_get_in [OF b'(1)] by (auto simp: backoffs_ok_def)
  moreover have "restart_backoffs p' = restart_backoffs ?q"
    using assms(3,4) by (auto simp: discard_def slot_release_def split: option.splits)
  ultimately have "\<exists>b'. dict_get (restart_backoffs p') (effective_key c) = Some b' \<and> 0 \<le> rb_delay b'
      \<and> (\<forall>now < clock e + rb_delay b'. begin_start now c p' = (p', []))"
    using b' by (intro exI [of _ b']) (simp add: begin_start_def enforce_restart_backoff_def)
  then show ?thesis using ok assms(2) by (auto simp: backoffs_ok_def)
qed

definition maintaining :: "flight \<Rightarrow> bool" where
  "maintaining f \<longleftrightarrow> (\<exists>ds eks ks. f = Reconciling ds eks ks)
     \<or> (\<exists>ds eks ks k cur u. f = ReconcileRemoving ds eks ks k cur u) \<or> closing f \<noteq> None"


section \<open>A concrete run\<close>

definition move_flight :: "env \<Rightarrow> nat \<Rightarrow> pool_state \<Rightarrow> pool_state" where
  "move_flight e i s = (case s of (p, fs) \<Rightarrow>
     case flight_next e (held_by (take i fs @ drop (Suc i) fs)) p (fs ! i) of
       Some (p', new) \<Rightarrow> (p', take i fs @ new @ drop (Suc i) fs)
     | None \<Rightarrow> s)"

lemma move_flight_reachable:
  assumes "reachable pool_start (pool_step good) s" "i < length (snd s)" "good e"
  shows "reachable pool_start (pool_step good) (move_flight e i s)"
proof -
  obtain p fs where s: "s = (p, fs)" by (cases s)
  let ?as = "take i fs" and ?bs = "drop (Suc i) fs"
  have fs: "fs = ?as @ fs ! i # ?bs" using assms(2) s by (simp add: id_take_nth_drop)
  show ?thesis
  proof (cases "flight_next e (held_by (?as @ ?bs)) p (fs ! i)")
    case None
    then show ?thesis using assms(1) s by (simp add: move_flight_def)
  next
    case (Some r)
    obtain p' new where r: "r = (p', new)" by (cases r)
    have "pool_step good (p, ?as @ fs ! i # ?bs) (p', ?as @ new @ ?bs)"
      using assms(3) Some r by (intro step_flight) simp_all
    then show ?thesis
      using assms(1) s fs Some r by (simp add: move_flight_def reachable_move)
  qed
qed

definition example_env_pool :: "rat \<Rightarrow> answer \<Rightarrow> env" where
  "example_env_pool now a = \<lparr>clock = now, alive = (\<lambda>_. True), reply = a, stop_raises = False,
     lock_cancelled = False\<rparr>"

definition example_pool :: RuntimePool where
  "example_pool = \<lparr>pool_limit = 2, backoff_initial = 1, backoff_max = 60, warmup_delay = 5,
     warmup_timeout = 30, slots = 2, persistent = [], locks = [], restart_backoffs = [],
     desired_persistent = None, pool_closed = False\<rparr>"

definition example_check :: CompiledCheck where
  "example_check = (compiled_check example_config example_source example_entry example_decision
     example_target_set (example_definition\<lparr>runtime_lifecycle := Some PERSISTENT\<rparr>))"

lemma example_pool_reachable: "reachable pool_start (pool_step undisturbed) (example_pool, [])"
proof (rule reachable_start)
  have "new_pool 2 1 60 5 30 = Inr example_pool" by (simp add: new_pool_def example_pool_def)
  then show "pool_start (example_pool, [])" unfolding pool_start_def by (simp, blast)
qed

text \<open>A persistent check is acquired and its start begins.\<close>

definition example_starting :: pool_state where
  "example_starting = (case acquire example_check example_pool of
       Inr (p, fs) \<Rightarrow> move_flight (example_env_pool 0 Returned) 0
                        (move_flight (example_env_pool 0 Returned) 0 (p, fs))
     | Inl _ \<Rightarrow> (example_pool, []))"

lemma example_env_undisturbed: "undisturbed (example_env_pool now a)"
  by (simp add: undisturbed_def example_env_pool_def)

lemma example_acquired:
  "acquire example_check example_pool = Inr (with_lock (pool_key example_check) example_pool, [Entering example_check])"
  by code_simp

lemma example_starting_reachable: "reachable pool_start (pool_step undisturbed) example_starting"
proof -
  have "reachable pool_start (pool_step undisturbed)
      (with_lock (pool_key example_check) example_pool, [Entering example_check] @ [])"
    by (rule reachable_move [OF example_pool_reachable], rule step_acquire, rule example_acquired)
  moreover have "0 < length (snd (move_flight (example_env_pool 0 Returned) 0
      (with_lock (pool_key example_check) example_pool, [Entering example_check])))"
    by code_simp
  ultimately show ?thesis
    unfolding example_starting_def example_acquired
    by (simp add: move_flight_reachable example_env_undisturbed)
qed

theorem pool_slots_accounted_witness:
  "slots (fst example_starting) = 1 \<and> length (persistent (fst example_starting)) = 0
   \<and> total_owned (snd example_starting) = 1 \<and> pool_limit (fst example_starting) = 2
   \<and> slots (fst example_starting) + length (persistent (fst example_starting))
       + total_owned (snd example_starting) = pool_limit (fst example_starting)"
proof -
  have "slots (fst example_starting) = 1 \<and> length (persistent (fst example_starting)) = 0
    \<and> total_owned (snd example_starting) = 1 \<and> pool_limit (fst example_starting) = 2"
    by code_simp
  then show ?thesis
    using pool_slots_accounted [of undisturbed "fst example_starting" "snd example_starting"]
      example_starting_reachable by simp
qed

text \<open>The start fails.\<close>

definition example_failed :: pool_state where
  "example_failed = move_flight (example_env_pool 0 (Failed None)) 0 example_starting"

lemma example_failed_reachable: "reachable pool_start (pool_step undisturbed) example_failed"
proof -
  have "0 < length (snd example_starting)" by code_simp
  then show ?thesis
    unfolding example_failed_def
    by (intro move_flight_reachable example_starting_reachable example_env_undisturbed)
qed

theorem pool_backoff_witness:
  "\<exists>b p' b'. restart_backoffs (fst example_failed) = [(effective_key example_check, b)]
     \<and> rb_failures b = 1 \<and> rb_delay b = 1
     \<and> flight_next (example_env_pool 5 (Failed None)) {} (fst example_failed) (Starting example_check 1)
         = Some (p', [])
     \<and> dict_get (restart_backoffs p') (effective_key example_check) = Some b'"
proof -
  let ?b = "\<lparr>rb_failures = 1, rb_delay = 1, rb_retry_at = 1\<rparr>"
  have b: "restart_backoffs (fst example_failed) = [(effective_key example_check, ?b)]" by code_simp
  obtain p' where n: "flight_next (example_env_pool 5 (Failed None)) {} (fst example_failed)
      (Starting example_check 1) = Some (p', [])"
    by (simp add: example_env_pool_def discard_def)
  have "(effective_key example_check, ?b) \<in> set (restart_backoffs (fst example_failed))"
    unfolding b by simp
  from pool_backoff [of undisturbed "fst example_failed" "snd example_failed", unfolded prod.collapse,
      OF example_failed_reachable this n]
  show ?thesis using b n by (auto simp: example_env_pool_def)
qed

text \<open>The start succeeds, the inventory becomes empty, and the reconciliation runs to its end.\<close>

definition example_published :: pool_state where
  "example_published = move_flight (example_env_pool 0 (Started 7)) 0 example_starting"

definition example_reconciling :: pool_state where
  "example_reconciling = (case reconcile_pool (\<lambda>ks. ks) [] (fst example_published) of
     (p, fs) \<Rightarrow> (p, fs @ snd example_published))"

definition example_settled :: pool_state where
  "example_settled = move_flight (example_env_pool 9 Returned) 0
     (move_flight (example_env_pool 9 Returned) 0
       (move_flight (example_env_pool 9 Returned) 0 example_reconciling))"

lemma example_settled_reachable: "reachable pool_start (pool_step undisturbed) example_settled"
proof -
  have n: "0 < length (snd example_starting)" "0 < length (snd example_reconciling)"
    "0 < length (snd (move_flight (example_env_pool 9 Returned) 0 example_reconciling))"
    "0 < length (snd (move_flight (example_env_pool 9 Returned) 0
       (move_flight (example_env_pool 9 Returned) 0 example_reconciling)))"
    by code_simp+
  have "reachable pool_start (pool_step undisturbed) example_published"
    unfolding example_published_def
    by (intro move_flight_reachable example_starting_reachable example_env_undisturbed n)
  moreover have "pool_step undisturbed example_published example_reconciling"
  proof -
    obtain p' new where r: "reconcile_pool (\<lambda>ks. ks) [] (fst example_published) = (p', new)"
      by (cases "reconcile_pool (\<lambda>ks. ks) [] (fst example_published)")
    have "pool_step undisturbed (fst example_published, snd example_published)
        (p', new @ snd example_published)"
      by (rule step_reconcile [OF _ r]) (simp add: permutes_keys_def)
    then show ?thesis by (simp add: example_reconciling_def r)
  qed
  ultimately have "reachable pool_start (pool_step undisturbed) example_reconciling"
    by (rule reachable_move)
  then show ?thesis
    unfolding example_settled_def
    by (intro move_flight_reachable example_env_undisturbed n)
qed


end
