(* ===== verification/FileSystem.thy ===== *)
theory FileSystem
  imports Models "HOL-Library.List_Lexorder" "HOL-Library.Product_Lexorder"
begin

text \<open>
  The file operations of \<open>src/xray_e2e_prober/storage.py\<close> (\<open>atomic_write_bytes\<close>, \<open>durable_unlink\<close>,
  \<open>atomic_write_json\<close>, \<open>read_json\<close>) and the programs built from them. A durable change is a rename or an
  unlink, so a disk is a map from paths to files and a crash leaves one of the disks between two
  changes; the world keeps their history. Each change may fail with \<open>OSError\<close> before or after it has
  become visible, as the list \<open>faults\<close> says. A logic for crash safety follows: \<open>crash_spec I P m Q\<close> says
  that \<open>m\<close> keeps \<open>I\<close> on every disk it produces, wherever it fails or is interrupted.
\<close>

section \<open>Disks and faults\<close>

datatype storage_error = StorageError string | FileNotFound | AssertionFailed

record stored_file =
  content :: string
  mtime :: nat

type_synonym 'p disk = "('p, stored_file) dict"

datatype outcome = Done | Refused | DoneThenError

record 'p world =
  files :: "'p disk"
  ticks :: nat
  faults :: "outcome list"
  history :: "'p disk list"

type_synonym ('p, 'a) io = "'p world \<Rightarrow> (storage_error + 'a) \<times> 'p world"

section \<open>Programs\<close>

definition returnI :: "'a \<Rightarrow> ('p, 'a) io" where
  "returnI a w = (Inr a, w)"

definition raiseI :: "storage_error \<Rightarrow> ('p, 'a) io" where
  "raiseI e w = (Inl e, w)"

definition bindI :: "('p, 'a) io \<Rightarrow> ('a \<Rightarrow> ('p, 'b) io) \<Rightarrow> ('p, 'b) io" where
  "bindI m f w = (case m w of (Inl e, w') \<Rightarrow> (Inl e, w') | (Inr a, w') \<Rightarrow> f a w')"

text \<open>\<open>try: ... except StorageError: ...\<close> (\<open>FileNotFoundError\<close> is no \<open>StorageError\<close>).\<close>

definition catchI :: "('p, 'a) io \<Rightarrow> ('p, 'a) io \<Rightarrow> ('p, 'a) io" where
  "catchI m h w = (case m w of (Inl (StorageError _), w') \<Rightarrow> h w' | r \<Rightarrow> r)"

text \<open>Code that only reads the disk.\<close>

definition readI :: "('p disk \<Rightarrow> storage_error + 'a) \<Rightarrow> ('p, 'a) io" where
  "readI f w = (f (files w), w)"

fun mapI :: "('a \<Rightarrow> ('p, unit) io) \<Rightarrow> 'a list \<Rightarrow> ('p, unit) io" where
  "mapI f [] = returnI ()"
| "mapI f (x # xs) = bindI (f x) (\<lambda>_. mapI f xs)"

definition next_outcome :: "'p world \<Rightarrow> outcome \<times> 'p world" where
  "next_outcome w = (case faults w of [] \<Rightarrow> (Done, w) | o1 # os \<Rightarrow> (o1, w\<lparr>faults := os\<rparr>))"

definition change :: "('p disk \<Rightarrow> nat \<Rightarrow> 'p disk) \<Rightarrow> string \<Rightarrow> ('p, unit) io" where
  "change f msg w =
     (let (o1, w) = next_outcome w;
          d = f (files w) (ticks w);
          w' = w\<lparr>files := d, ticks := Suc (ticks w), history := history w @ [d]\<rparr>
      in case o1 of
           Done \<Rightarrow> (Inr (), w')
         | Refused \<Rightarrow> (Inl (StorageError msg), w)
         | DoneThenError \<Rightarrow> (Inl (StorageError msg), w'))"

definition atomic_write_bytes :: "'p \<Rightarrow> string \<Rightarrow> ('p, unit) io" where
  "atomic_write_bytes p data =
     change (\<lambda>d t. dict_set p \<lparr>content = data, mtime = t\<rparr> d) ''atomic file write failed''"

definition durable_unlink :: "'p \<Rightarrow> bool \<Rightarrow> ('p, unit) io" where
  "durable_unlink p missing_ok =
     (\<lambda>w. if dict_get (files w) p = None
          then (if missing_ok then (Inr (), w) else (Inl FileNotFound, w))
          else change (\<lambda>d t. dict_pop p d) ''durable file removal failed'' w)"

section \<open>JSON files\<close>

text \<open>The JSON library: \<open>dumps\<close> with sorted keys, and \<open>loads\<close>.\<close>

record json_codec =
  dumps :: "raw \<Rightarrow> string"
  loads :: "string \<Rightarrow> raw option"

abbreviation size_of :: "string \<Rightarrow> int" where
  "size_of s \<equiv> int (length s)"

definition atomic_write_json :: "json_codec \<Rightarrow> 'p \<Rightarrow> raw \<Rightarrow> int option \<Rightarrow> ('p, unit) io" where
  "atomic_write_json c p v size_limit =
     (case size_limit of
        Some n \<Rightarrow> if size_of (dumps c v) > n then raiseI (StorageError ''state file exceeds size limit'')
                  else atomic_write_bytes p (dumps c v)
      | None \<Rightarrow> atomic_write_bytes p (dumps c v))"

definition JSON_LIMIT :: int where
  "JSON_LIMIT = 64 * 1024 * 1024"

definition read_json :: "json_codec \<Rightarrow> 'p \<Rightarrow> int \<Rightarrow> 'p disk \<Rightarrow> storage_error + raw" where
  "read_json c p size_limit d =
     (case dict_get d p of
        None \<Rightarrow> Inl FileNotFound
      | Some f \<Rightarrow>
          if size_of (content f) > size_limit then Inl (StorageError ''state file exceeds size limit'')
          else (case loads c (content f) of
                  None \<Rightarrow> Inl (StorageError ''state file contains invalid JSON'')
                | Some v \<Rightarrow> Inr v))"

definition file_content :: "'p disk \<Rightarrow> 'p \<Rightarrow> string option" where
  "file_content d p = map_option content (dict_get d p)"

lemma read_json_content:
  "file_content d p = file_content d' p \<Longrightarrow> read_json c p n d = read_json c p n d'"
  by (cases "dict_get d p"; cases "dict_get d' p") (simp_all add: read_json_def file_content_def)

section \<open>Crash specifications\<close>

definition crash_spec ::
  "('p disk \<Rightarrow> bool) \<Rightarrow> ('p disk \<Rightarrow> bool) \<Rightarrow> ('p, 'a) io \<Rightarrow> ('a \<Rightarrow> 'p disk \<Rightarrow> bool) \<Rightarrow> bool" where
  "crash_spec I P m Q \<longleftrightarrow>
     (\<forall>w r w'. I (files w) \<longrightarrow> P (files w) \<longrightarrow> m w = (r, w') \<longrightarrow>
        (\<exists>new. history w' = history w @ new \<and> (\<forall>d \<in> set new. I d)) \<and> I (files w')
        \<and> (\<forall>a. r = Inr a \<longrightarrow> Q a (files w')))"

named_theorems crash_intros \<open>rules of crash specifications\<close>

lemma crash_specD:
  assumes "crash_spec I P m Q" "I (files w)" "P (files w)" "m w = (r, w')"
  shows "\<exists>new. history w' = history w @ new \<and> (\<forall>d \<in> set new. I d)" "I (files w')"
    "r = Inr a \<Longrightarrow> Q a (files w')"
  using assms unfolding crash_spec_def by blast+

lemma crash_spec_weaken:
  assumes "crash_spec I P m Q" "\<And>d. I d \<Longrightarrow> P' d \<Longrightarrow> P d" "\<And>a d. I d \<Longrightarrow> Q a d \<Longrightarrow> Q' a d"
  shows "crash_spec I P' m Q'"
  unfolding crash_spec_def
proof (intro allI impI conjI)
  fix w r w'
  assume w: "I (files w)" "P' (files w)" "m w = (r, w')"
  note C = crash_specD [OF assms(1) w(1) assms(2) [OF w(1,2)] w(3)]
  show "\<exists>new. history w' = history w @ new \<and> (\<forall>d \<in> set new. I d)" "I (files w')" by (rule C)+
  show "Q' a (files w')" if "r = Inr a" for a using C(2,3) that assms(3) by blast
qed

lemma crash_return [crash_intros]: "(\<And>d. I d \<Longrightarrow> P d \<Longrightarrow> Q a d) \<Longrightarrow> crash_spec I P (returnI a) Q"
  by (simp add: crash_spec_def returnI_def)

lemma crash_raise [crash_intros]: "crash_spec I P (raiseI e) Q"
  by (simp add: crash_spec_def raiseI_def)

lemma crash_read:
  "(\<And>a d. I d \<Longrightarrow> P d \<Longrightarrow> f d = Inr a \<Longrightarrow> Q a d) \<Longrightarrow> crash_spec I P (readI f) Q"
  by (auto simp: crash_spec_def readI_def)

text \<open>A condition that does not depend on the disk becomes a hypothesis.\<close>

lemma crash_pure:
  "(b \<Longrightarrow> crash_spec I (\<lambda>_. True) m Q) \<Longrightarrow> crash_spec I (\<lambda>_. b) m Q"
  "(b \<Longrightarrow> crash_spec I P m Q) \<Longrightarrow> crash_spec I (\<lambda>d. P d \<and> b) m Q"
  by (auto simp: crash_spec_def)

lemma crash_bind:
  assumes "crash_spec I P m R" "\<And>a. crash_spec I (R a) (f a) Q"
  shows "crash_spec I P (bindI m f) Q"
  unfolding crash_spec_def
proof (intro allI impI)
  fix w r w'
  assume w: "I (files w)" "P (files w)" "bindI m f w = (r, w')"
  obtain s v where m: "m w = (s, v)" by (cases "m w")
  note C = crash_specD [OF assms(1) w(1,2) m]
  show "(\<exists>new. history w' = history w @ new \<and> (\<forall>d \<in> set new. I d)) \<and> I (files w')
    \<and> (\<forall>a. r = Inr a \<longrightarrow> Q a (files w'))"
  proof (cases s)
    case (Inl e)
    then show ?thesis using w(3) m C by (auto simp: bindI_def)
  next
    case (Inr a)
    then have f: "f a v = (r, w')" using w(3) m by (simp add: bindI_def)
    note D = crash_specD [OF assms(2) C(2) C(3) [OF Inr] f]
    from C(1) D(1) obtain n1 n2 where "history v = history w @ n1" "\<forall>d \<in> set n1. I d"
        "history w' = history v @ n2" "\<forall>d \<in> set n2. I d"
      by blast
    then have "history w' = history w @ (n1 @ n2) \<and> (\<forall>d \<in> set (n1 @ n2). I d)" by auto
    then show ?thesis using D(2,3) by blast
  qed
qed

lemma crash_catch:
  assumes "crash_spec I P m Q" "crash_spec I (\<lambda>_. True) h Q"
  shows "crash_spec I P (catchI m h) Q"
  unfolding crash_spec_def
proof (intro allI impI)
  fix w r w'
  assume w: "I (files w)" "P (files w)" "catchI m h w = (r, w')"
  obtain s v where m: "m w = (s, v)" by (cases "m w")
  note C = crash_specD [OF assms(1) w(1,2) m]
  show "(\<exists>new. history w' = history w @ new \<and> (\<forall>d \<in> set new. I d)) \<and> I (files w')
    \<and> (\<forall>a. r = Inr a \<longrightarrow> Q a (files w'))"
  proof (cases "\<exists>msg. s = Inl (StorageError msg)")
    case False
    then have "r = s" "w' = v" using w(3) m by (auto simp: catchI_def split: sum.splits storage_error.splits)
    then show ?thesis using C by blast
  next
    case True
    then have f: "h v = (r, w')" using w(3) m by (auto simp: catchI_def)
    note D = crash_specD [OF assms(2) C(2) TrueI f]
    from C(1) D(1) obtain n1 n2 where "history v = history w @ n1" "\<forall>d \<in> set n1. I d"
        "history w' = history v @ n2" "\<forall>d \<in> set n2. I d"
      by blast
    then have "history w' = history w @ (n1 @ n2) \<and> (\<forall>d \<in> set (n1 @ n2). I d)" by auto
    then show ?thesis using D(2,3) by blast
  qed
qed

lemma crash_if [crash_intros]:
  "(b \<Longrightarrow> crash_spec I P m Q) \<Longrightarrow> (\<not> b \<Longrightarrow> crash_spec I P n Q) \<Longrightarrow> crash_spec I P (if b then m else n) Q"
  by simp

lemma crash_change:
  assumes "\<And>d t. I d \<Longrightarrow> P d \<Longrightarrow> I (f d t) \<and> Q () (f d t)"
  shows "crash_spec I P (change f msg) Q"
  unfolding crash_spec_def
proof (intro allI impI)
  fix w r w'
  assume w: "I (files w)" "P (files w)" "change f msg w = (r, w')"
  obtain o1 v where n: "next_outcome w = (o1, v)" by (cases "next_outcome w")
  then have v: "files v = files w" "history v = history w"
    by (auto simp: next_outcome_def split: list.splits)
  show "(\<exists>new. history w' = history w @ new \<and> (\<forall>d \<in> set new. I d)) \<and> I (files w')
    \<and> (\<forall>a. r = Inr a \<longrightarrow> Q a (files w'))"
    using w(3) n v w(1,2) assms [OF w(1,2)] by (cases o1) (auto simp: change_def Let_def)
qed

lemma crash_write:
  assumes "\<And>d t. I d \<Longrightarrow> P d \<Longrightarrow> I (dict_set p \<lparr>content = data, mtime = t\<rparr> d)
      \<and> Q () (dict_set p \<lparr>content = data, mtime = t\<rparr> d)"
  shows "crash_spec I P (atomic_write_bytes p data) Q"
  unfolding atomic_write_bytes_def by (rule crash_change) (rule assms)

lemma crash_write_json:
  assumes "\<And>d t. I d \<Longrightarrow> P d \<Longrightarrow> (\<forall>m. n = Some m \<longrightarrow> size_of (dumps c v) \<le> m)
      \<Longrightarrow> I (dict_set p \<lparr>content = dumps c v, mtime = t\<rparr> d)
        \<and> Q () (dict_set p \<lparr>content = dumps c v, mtime = t\<rparr> d)"
  shows "crash_spec I P (atomic_write_json c p v n) Q"
proof (cases n)
  case None
  show ?thesis
    unfolding atomic_write_json_def None option.case by (intro crash_write) (simp add: assms None)
next
  case (Some m)
  show ?thesis
    unfolding atomic_write_json_def Some option.case
    by (intro crash_if crash_raise crash_write) (simp add: assms Some)
qed

lemma crash_unlink:
  assumes "\<And>d. I d \<Longrightarrow> P d \<Longrightarrow> dict_get d p \<noteq> None \<Longrightarrow> I (dict_pop p d) \<and> Q () (dict_pop p d)"
    "\<And>d. I d \<Longrightarrow> P d \<Longrightarrow> dict_get d p = None \<Longrightarrow> ok \<Longrightarrow> Q () d"
  shows "crash_spec I P (durable_unlink p ok) Q"
  unfolding crash_spec_def
proof (intro allI impI)
  fix w r w'
  assume w: "I (files w)" "P (files w)" "durable_unlink p ok w = (r, w')"
  show "(\<exists>new. history w' = history w @ new \<and> (\<forall>d \<in> set new. I d)) \<and> I (files w')
    \<and> (\<forall>a. r = Inr a \<longrightarrow> Q a (files w'))"
  proof (cases "dict_get (files w) p = None")
    case True
    then show ?thesis using w assms(2) by (auto simp: durable_unlink_def split: if_splits)
  next
    case False
    then have c: "change (\<lambda>d t. dict_pop p d) ''durable file removal failed'' w = (r, w')"
      using w(3) unfolding durable_unlink_def by (simp only: if_False)
    have "crash_spec I (\<lambda>d. P d \<and> dict_get d p \<noteq> None)
        (change (\<lambda>d t. dict_pop p d) ''durable file removal failed'') Q"
      by (rule crash_change) (use assms(1) in blast)
    then show ?thesis using w(1,2) False c unfolding crash_spec_def by blast
  qed
qed

lemma crash_mapI:
  assumes "\<And>x. x \<in> set xs \<Longrightarrow> crash_spec I P (f x) (\<lambda>_. P)"
  shows "crash_spec I P (mapI f xs) (\<lambda>_. P)"
  using assms
proof (induction xs)
  case Nil
  show ?case by (simp add: crash_return)
next
  case (Cons x xs)
  have "crash_spec I P (f x) (\<lambda>_. P)" "crash_spec I P (mapI f xs) (\<lambda>_. P)"
    using Cons by simp_all
  then show ?case unfolding mapI.simps by (rule crash_bind)
qed

lemma crash_spec_mono:
  assumes "crash_spec I P m Q" "\<And>d. I' d \<Longrightarrow> P' d \<Longrightarrow> I d \<and> P d" "\<And>d. I d \<Longrightarrow> I' d"
    "\<And>a d. I d \<Longrightarrow> Q a d \<Longrightarrow> Q' a d"
  shows "crash_spec I' P' m Q'"
  unfolding crash_spec_def
proof (intro allI impI conjI)
  fix w r w'
  assume w: "I' (files w)" "P' (files w)" "m w = (r, w')"
  have i: "I (files w)" "P (files w)" using assms(2) [OF w(1,2)] by simp_all
  note C = crash_specD [OF assms(1) i w(3)]
  show "\<exists>new. history w' = history w @ new \<and> (\<forall>d \<in> set new. I' d)" using C(1) assms(3) by blast
  show "I' (files w')" using C(2) assms(3) by blast
  show "Q' a (files w')" if "r = Inr a" for a using C(2) C(3) [OF that] assms(4) by blast
qed

lemma read_written:
  "loads c data = Some v \<Longrightarrow> size_of data \<le> n
     \<Longrightarrow> read_json c p n (dict_set p \<lparr>content = data, mtime = t\<rparr> d) = Inr v"
  by (simp add: read_json_def)

lemma read_elsewhere: "q \<noteq> p \<Longrightarrow> read_json c q n (dict_set p f d) = read_json c q n d"
  by (simp add: read_json_def)

section \<open>Runs without faults\<close>

definition total_spec :: "('p disk \<Rightarrow> bool) \<Rightarrow> ('p, 'a) io \<Rightarrow> ('a \<Rightarrow> 'p disk \<Rightarrow> bool) \<Rightarrow> bool" where
  "total_spec P m Q \<longleftrightarrow>
     (\<forall>w :: 'p world. faults w = [] \<longrightarrow> P (files w) \<longrightarrow>
        (\<exists>a (w' :: 'p world). m w = (Inr a, w') \<and> faults w' = [] \<and> Q a (files w')))"

lemma total_return: "(\<And>d. P d \<Longrightarrow> Q a d) \<Longrightarrow> total_spec P (returnI a) Q"
  by (simp add: total_spec_def returnI_def)

lemma total_read: "(\<And>d. P d \<Longrightarrow> \<exists>a. f d = Inr a \<and> Q a d) \<Longrightarrow> total_spec P (readI f) Q"
  by (auto simp: total_spec_def readI_def)

lemma total_bind:
  fixes m :: "('p, 'a) io" and f :: "'a \<Rightarrow> ('p, 'b) io"
  assumes "total_spec P m R" "\<And>a. total_spec (R a) (f a) Q"
  shows "total_spec P (bindI m f) Q"
  unfolding total_spec_def
proof (intro allI impI)
  fix w :: "'p world"
  assume "faults w = []" "P (files w)"
  then obtain a and v :: "'p world" where "m w = (Inr a, v)" "faults v = []" "R a (files v)"
    using assms(1) unfolding total_spec_def by blast
  moreover obtain b and w' :: "'p world" where "f a v = (Inr b, w')" "faults w' = []" "Q b (files w')"
    using assms(2) [of a] calculation(2,3) unfolding total_spec_def by blast
  ultimately show "\<exists>a (w' :: 'p world). bindI m f w = (Inr a, w') \<and> faults w' = [] \<and> Q a (files w')"
    by (simp add: bindI_def)
qed

lemma total_weaken:
  "total_spec P m Q \<Longrightarrow> (\<And>d. P' d \<Longrightarrow> P d) \<Longrightarrow> (\<And>a d. Q a d \<Longrightarrow> Q' a d) \<Longrightarrow> total_spec P' m Q'"
  unfolding total_spec_def by blast

lemma total_write:
  "(\<And>d t. P d \<Longrightarrow> Q () (dict_set p \<lparr>content = data, mtime = t\<rparr> d)) \<Longrightarrow> total_spec P (atomic_write_bytes p data) Q"
  by (simp add: total_spec_def atomic_write_bytes_def change_def next_outcome_def Let_def)

lemma total_unlink:
  fixes P :: "'p disk \<Rightarrow> bool"
  assumes "\<And>d. P d \<Longrightarrow> Q () (dict_pop p d)" "\<And>d. P d \<Longrightarrow> dict_get d p = None \<Longrightarrow> Q () d"
  shows "total_spec P (durable_unlink p True) Q"
  unfolding total_spec_def
proof (intro allI impI)
  fix w :: "'p world"
  assume "faults w = []" "P (files w)"
  then show "\<exists>a (w' :: 'p world). durable_unlink p True w = (Inr a, w') \<and> faults w' = [] \<and> Q a (files w')"
    using assms by (cases "dict_get (files w) p")
      (simp_all add: durable_unlink_def change_def next_outcome_def Let_def)
qed

lemma total_pure: "(b \<Longrightarrow> total_spec P m Q) \<Longrightarrow> total_spec (\<lambda>d. P d \<and> b) m Q"
  by (auto simp: total_spec_def)

end
