(* ===== verification/JsonCodec.thy ===== *)
theory JsonCodec
  imports FileSystem
begin

text \<open>
  The laws of the JSON library that the stores of \<open>src/xray_e2e_prober/storage.py\<close> rely on
  (\<open>json_ok\<close>), and an executable codec with tagged values that satisfies them. Floats are left out, as
  their printed form loses precision.
\<close>

section \<open>The laws\<close>

text \<open>\<open>json.loads(json.dumps(v, sort_keys=True))\<close> is \<open>v\<close> again when the keys of every object of \<open>v\<close> are
  sorted strings and \<open>v\<close> holds no float.\<close>

fun sorted_json :: "raw \<Rightarrow> bool" where
  "sorted_json (RDict kvs) \<longleftrightarrow> sorted_wrt (<) (map fst kvs) \<and> list_all (\<lambda>(k, v). sorted_json v) kvs"
| "sorted_json (RList vs) \<longleftrightarrow> list_all sorted_json vs"
| "sorted_json (RFloat _) \<longleftrightarrow> False"
| "sorted_json _ \<longleftrightarrow> True"

definition json_ok :: "json_codec \<Rightarrow> bool" where
  "json_ok c \<longleftrightarrow> (\<forall>v. sorted_json v \<longrightarrow> loads c (dumps c v) = Some v)"

section \<open>A codec\<close>

fun encode_string :: "string \<Rightarrow> string" where
  "encode_string [] = ''.''"
| "encode_string (c # cs) = CHR ''_'' # c # encode_string cs"

fun decode_string :: "string \<Rightarrow> (string \<times> string) option" where
  "decode_string (t # rest) =
     (if t = CHR ''.'' then Some ([], rest)
      else case rest of
        [] \<Rightarrow> None
      | c # r \<Rightarrow> map_option (\<lambda>(s, q). (c # s, q)) (decode_string r))"
| "decode_string [] = None"

fun decode_unary :: "string \<Rightarrow> (nat \<times> string) option" where
  "decode_unary (c # r) =
     (if c = CHR ''1'' then map_option (\<lambda>(n, q). (Suc n, q)) (decode_unary r) else Some (0, r))"
| "decode_unary [] = None"

definition encode_int :: "int \<Rightarrow> string" where
  "encode_int i = (if i < 0 then CHR ''-'' else CHR ''+'') # replicate (nat \<bar>i\<bar>) (CHR ''1'') @ ''0''"

definition decode_int :: "string \<Rightarrow> (int \<times> string) option" where
  "decode_int s =
     (case s of
        [] \<Rightarrow> None
      | c # r \<Rightarrow> map_option (\<lambda>(n, q). (if c = CHR ''-'' then - int n else int n, q)) (decode_unary r))"

fun encode :: "raw \<Rightarrow> string" where
  "encode RNone = ''n''"
| "encode (RBool b) = (if b then ''t'' else ''f'')"
| "encode (RInt i) = CHR ''i'' # encode_int i"
| "encode (RFloat _) = ''x''"
| "encode (RStr s) = CHR ''s'' # encode_string s"
| "encode (RList vs) = CHR ''l'' # concat (map (\<lambda>v. CHR '','' # encode v) vs) @ ''.''"
| "encode (RDict kvs) =
     CHR ''d'' # concat (map (\<lambda>(k, v). CHR '','' # encode_string k @ encode v) kvs) @ ''.''"

fun decode :: "nat \<Rightarrow> string \<Rightarrow> (raw \<times> string) option"
and decode_list :: "nat \<Rightarrow> string \<Rightarrow> (raw list \<times> string) option"
and decode_dict :: "nat \<Rightarrow> string \<Rightarrow> ((string \<times> raw) list \<times> string) option" where
  "decode (Suc n) (c # r) =
     (if c = CHR ''n'' then Some (RNone, r)
      else if c = CHR ''t'' then Some (RBool True, r)
      else if c = CHR ''f'' then Some (RBool False, r)
      else if c = CHR ''i'' then map_option (\<lambda>(i, q). (RInt i, q)) (decode_int r)
      else if c = CHR ''s'' then map_option (\<lambda>(s, q). (RStr s, q)) (decode_string r)
      else if c = CHR ''l'' then map_option (\<lambda>(vs, q). (RList vs, q)) (decode_list n r)
      else if c = CHR ''d'' then map_option (\<lambda>(kvs, q). (RDict kvs, q)) (decode_dict n r)
      else None)"
| "decode _ _ = None"
| "decode_list (Suc n) (c # r) =
     (if c = CHR ''.'' then Some ([], r)
      else case decode n r of
        None \<Rightarrow> None
      | Some (v, q) \<Rightarrow> map_option (\<lambda>(vs, q'). (v # vs, q')) (decode_list n q))"
| "decode_list _ _ = None"
| "decode_dict (Suc n) (c # r) =
     (if c = CHR ''.'' then Some ([], r)
      else case decode_string r of
        None \<Rightarrow> None
      | Some (k, p) \<Rightarrow>
          (case decode n p of
             None \<Rightarrow> None
           | Some (v, q) \<Rightarrow> map_option (\<lambda>(kvs, q'). ((k, v) # kvs, q')) (decode_dict n q)))"
| "decode_dict _ _ = None"

definition tagged_codec :: json_codec where
  "tagged_codec = \<lparr>dumps = encode,
     loads = (\<lambda>s. case decode (length s) s of Some (v, []) \<Rightarrow> Some v | _ \<Rightarrow> None)\<rparr>"

lemma decode_encode_string [simp]: "decode_string (encode_string s @ r) = Some (s, r)"
  by (induction s) simp_all

lemma decode_unary_replicate [simp]: "decode_unary (replicate n (CHR ''1'') @ CHR ''0'' # r) = Some (n, r)"
  by (induction n) simp_all

lemma decode_encode_int [simp]: "decode_int (encode_int i @ r) = Some (i, r)"
  by (simp add: encode_int_def decode_int_def)

lemma decode_list_concat:
  assumes "\<And>v n r. v \<in> set vs \<Longrightarrow> length (encode v) \<le> n \<Longrightarrow> decode n (encode v @ r) = Some (v, r)"
    "length (concat (map (\<lambda>v. CHR '','' # encode v) vs)) < n"
  shows "decode_list n (concat (map (\<lambda>v. CHR '','' # encode v) vs) @ CHR ''.'' # r) = Some (vs, r)"
  using assms
proof (induction vs arbitrary: n)
  case Nil
  then show ?case by (cases n) simp_all
next
  case (Cons v vs)
  then show ?case by (cases n) (simp_all add: Cons.prems(1))
qed

lemma decode_dict_concat:
  assumes "\<And>k v n r. (k, v) \<in> set kvs \<Longrightarrow> length (encode v) \<le> n \<Longrightarrow> decode n (encode v @ r) = Some (v, r)"
    "length (concat (map (\<lambda>(k, v). CHR '','' # encode_string k @ encode v) kvs)) < n"
  shows "decode_dict n (concat (map (\<lambda>(k, v). CHR '','' # encode_string k @ encode v) kvs) @ CHR ''.'' # r)
    = Some (kvs, r)"
  using assms
proof (induction kvs arbitrary: n)
  case Nil
  then show ?case by (cases n) simp_all
next
  case (Cons kv kvs)
  obtain k v where kv: "kv = (k, v)" by (cases kv)
  obtain m where m: "n = Suc m" using Cons.prems(2) by (cases n) simp_all
  have "decode m (encode v @ q) = Some (v, q)" for q
    by (rule Cons.prems(1) [of k v]) (use Cons.prems(2) kv m in simp_all)
  moreover have "decode_dict m (concat (map (\<lambda>(k, v). CHR '','' # encode_string k @ encode v) kvs) @ CHR ''.'' # r)
      = Some (kvs, r)"
    by (rule Cons.IH) (use Cons.prems kv m in auto)
  ultimately show ?case by (simp add: kv m)
qed

lemma decode_encode: "sorted_json v \<Longrightarrow> length (encode v) \<le> n \<Longrightarrow> decode n (encode v @ r) = Some (v, r)"
proof (induction v arbitrary: n r rule: encode.induct)
  case (6 vs)
  then obtain m where m: "n = Suc m" by (cases n) simp_all
  have "decode_list m (concat (map (\<lambda>v. CHR '','' # encode v) vs) @ CHR ''.'' # r) = Some (vs, r)"
    by (rule decode_list_concat) (use 6 m in \<open>auto simp: list_all_iff\<close>)
  then show ?case by (simp add: m)
next
  case (7 kvs)
  then obtain m where m: "n = Suc m" by (cases n) simp_all
  have "decode_dict m (concat (map (\<lambda>(k, v). CHR '','' # encode_string k @ encode v) kvs) @ CHR ''.'' # r)
    = Some (kvs, r)"
    by (rule decode_dict_concat) (use 7 m in \<open>auto simp: list_all_iff\<close>)
  then show ?case by (simp add: m)
next
  case 1
  then show ?case by (cases n) simp_all
next
  case (2 b)
  then show ?case by (cases n; cases b) simp_all
next
  case (3 i)
  then show ?case by (cases n) simp_all
next
  case (4 q)
  then show ?case by simp
next
  case (5 s)
  then show ?case by (cases n) simp_all
qed

lemma tagged_codec_ok: "json_ok tagged_codec"
  unfolding json_ok_def tagged_codec_def using decode_encode [where r = "[]"] by simp

end
