(* ===== verification/DataStore.thy ===== *)
theory DataStore
  imports FileSystem JsonCodec Identity
begin

text \<open>
  \<open>DataStore\<close> of \<open>src/xray_e2e_prober/storage.py\<close>: source states with their commit pointer, the registry
  mirror, results and secrets, as programs over the disks of
  \<open>FileSystem\<close>. The serialisation of models (\<open>model_dump\<close>, \<open>model_validate\<close>), the JSON library and
  SHA-256 are the record \<open>store_env\<close>. Directories are not modelled: a path is a constructor with the
  identifiers it is made of.
\<close>

section \<open>Layout\<close>

datatype path = PConfig string | PSecret "string list" | PPointer string | PState string string
  | PGeneration string string | PResult string | PRegistry | PTransaction | PBackup

record store_env =
  codec :: json_codec
  dump_generation :: "SourceGeneration \<Rightarrow> raw"
  validate_generation :: "raw \<Rightarrow> SourceGeneration option"
  dump_bindings :: "IdentityBinding list \<Rightarrow> raw list"
  validate_bindings :: "raw list \<Rightarrow> IdentityBinding list option"
  dump_registry :: "IdentityRegistry \<Rightarrow> raw"
  validate_registry :: "raw \<Rightarrow> IdentityRegistry option"
  sha256_hex :: "string \<Rightarrow> string"
  path_digest :: "string \<Rightarrow> string"

definition SOURCE_GENERATION_RETENTION :: nat where
  "SOURCE_GENERATION_RETENTION = 3"

definition SOURCE_STATE_RETENTION :: nat where
  "SOURCE_STATE_RETENTION = 3"

definition POINTER_LIMIT :: int where
  "POINTER_LIMIT = 64 * 1024"

definition MAX_CONFIG_BACKUP_BYTES :: int where
  "MAX_CONFIG_BACKUP_BYTES = 16 * 1024 * 1024"

definition safe_component :: "string \<Rightarrow> string \<Rightarrow> storage_error + string" where
  "safe_component value label =
     (if safe_id value then Inr value else Inl (StorageError (''invalid '' @ label)))"

section \<open>Secrets\<close>

text \<open>\<open>Path(name).parts\<close> of a relative name: empty and single-dot components disappear.\<close>

definition relative_parts :: "string \<Rightarrow> string list" where
  "relative_parts name = filter (\<lambda>p. p \<noteq> [] \<and> p \<noteq> ''.'') (split_on (CHR ''/'') name)"

definition secret_path :: "string \<Rightarrow> storage_error + path" where
  "secret_path name =
     (let parts = relative_parts name
      in if (name \<noteq> [] \<and> hd name = CHR ''/'') \<or> parts = []
            \<or> list_ex (\<lambda>p. p \<in> {[], ''.'', ''..''}) parts
         then Inl (StorageError ''invalid secret file name'')
         else bindE (mapE (\<lambda>p. safe_component p ''secret path component'') parts) (\<lambda>ps.
              Inr (PSecret ps)))"

definition write_secret :: "string \<Rightarrow> string \<Rightarrow> (path, path) io" where
  "write_secret name data =
     bindI (readI (\<lambda>_. secret_path name)) (\<lambda>p.
     bindI (atomic_write_bytes p data) (\<lambda>_. returnI p))"

definition write_new_secret :: "string \<Rightarrow> string \<Rightarrow> (path, path) io" where
  "write_new_secret name data =
     bindI (readI (\<lambda>d. bindE (secret_path name) (\<lambda>p.
       if dict_get d p \<noteq> None then Inl (StorageError ''secret transaction file already exists'')
       else Inr p))) (\<lambda>_.
     write_secret name data)"

definition read_secret :: "string \<Rightarrow> int \<Rightarrow> path disk \<Rightarrow> storage_error + string" where
  "read_secret name limit d =
     bindE (secret_path name) (\<lambda>p.
       case dict_get d p of
         None \<Rightarrow> Inl FileNotFound
       | Some f \<Rightarrow> if size_of (content f) > limit then Inl (StorageError ''secret file exceeds size limit'')
                  else Inr (content f))"

section \<open>Source states\<close>

definition pointer_json :: "string \<Rightarrow> string option \<Rightarrow> raw" where
  "pointer_json gen state =
     RDict ([(''generation'', RStr gen), (''schema_version'', RInt 1)]
       @ (case state of None \<Rightarrow> [] | Some s \<Rightarrow> [(''state'', RStr s)]))"

definition state_json :: "store_env \<Rightarrow> string \<Rightarrow> string \<Rightarrow> IdentityBinding list \<Rightarrow> raw" where
  "state_json env sid gen bs =
     RDict [(''bindings'', RList (dump_bindings env bs)), (''generation'', RStr gen),
            (''schema_version'', RInt 1), (''source_id'', RStr sid)]"

text \<open>\<open>except FileNotFoundError as exc: raise StorageError(...)\<close>, and \<open>isinstance\<close> and validation checks.\<close>

definition missing_as :: "string \<Rightarrow> storage_error + 'a \<Rightarrow> storage_error + 'a" where
  "missing_as msg r = (case r of Inl FileNotFound \<Rightarrow> Inl (StorageError msg) | _ \<Rightarrow> r)"

definition some_or :: "string \<Rightarrow> 'a option \<Rightarrow> storage_error + 'a" where
  "some_or msg x = (case x of None \<Rightarrow> Inl (StorageError msg) | Some v \<Rightarrow> Inr v)"

definition str_field :: "string \<Rightarrow> (string, raw) dict \<Rightarrow> string \<Rightarrow> storage_error + string" where
  "str_field msg v k = (case dict_get v k of Some (RStr s) \<Rightarrow> Inr s | _ \<Rightarrow> Inl (StorageError msg))"

definition as_dict :: "string \<Rightarrow> raw \<Rightarrow> storage_error + (string, raw) dict" where
  "as_dict msg v = (case v of RDict d \<Rightarrow> Inr d | _ \<Rightarrow> Inl (StorageError msg))"

definition current_state :: "(string, raw) dict \<Rightarrow> storage_error + string option" where
  "current_state pointer =
     (if dict_get pointer ''state'' \<in> {None, Some RNone} then Inr None
      else bindE (str_field ''LKG state pointer is invalid'' pointer ''state'') (\<lambda>s.
           bindE (safe_component s ''state ID'') (\<lambda>s. Inr (Some s))))"

definition state_record :: "string \<Rightarrow> string \<Rightarrow> raw \<Rightarrow> storage_error + raw list" where
  "state_record sid gen v =
     bindE (as_dict ''LKG source state is invalid'' v) (\<lambda>s.
       case dict_get s ''bindings'' of
         Some (RList bs) \<Rightarrow>
           if dict_get s ''source_id'' = Some (RStr sid) \<and> dict_get s ''generation'' = Some (RStr gen)
           then Inr bs else Inl (StorageError ''LKG source state is invalid'')
       | _ \<Rightarrow> Inl (StorageError ''LKG source state is invalid''))"

definition load_bindings ::
  "store_env \<Rightarrow> string \<Rightarrow> string \<Rightarrow> (string, raw) dict \<Rightarrow> path disk
     \<Rightarrow> storage_error + IdentityBinding list option" where
  "load_bindings env sid gen pointer d =
     bindE (current_state pointer) (\<lambda>state.
       case state of
         None \<Rightarrow> Inr None
       | Some st \<Rightarrow>
           bindE (missing_as ''LKG state referenced by pointer is missing''
                    (read_json (codec env) (PState sid st) JSON_LIMIT d)) (\<lambda>v.
           bindE (state_record sid gen v) (\<lambda>bs.
           bindE (some_or ''LKG identity bindings are invalid'' (validate_bindings env bs)) (\<lambda>b.
             Inr (Some b)))))"

definition load_source_state ::
  "store_env \<Rightarrow> string \<Rightarrow> (string, raw) dict \<Rightarrow> path disk
     \<Rightarrow> storage_error + SourceGeneration \<times> IdentityBinding list option" where
  "load_source_state env sid pointer d =
     bindE (str_field ''LKG pointer is invalid'' pointer ''generation'') (\<lambda>gen.
     bindE (safe_component gen ''generation ID'') (\<lambda>gid.
     bindE (load_bindings env sid gid pointer d) (\<lambda>bindings.
     bindE (missing_as ''LKG generation referenced by pointer is missing''
              (read_json (codec env) (PGeneration sid gid) JSON_LIMIT d)) (\<lambda>v.
     bindE (some_or ''LKG generation is invalid'' (validate_generation env v)) (\<lambda>g.
       if gen_source_id g \<noteq> sid \<or> generation g \<noteq> gid
       then Inl (StorageError ''LKG generation identity does not match its pointer'')
       else Inr (g, bindings))))))"

text \<open>\<open>current.json\<close>; \<open>None\<close> if there is none.\<close>

definition read_pointer ::
  "store_env \<Rightarrow> string \<Rightarrow> path disk \<Rightarrow> storage_error + (string, raw) dict option" where
  "read_pointer env sid d =
     (case read_json (codec env) (PPointer sid) POINTER_LIMIT d of
        Inl FileNotFound \<Rightarrow> Inr None
      | Inl e \<Rightarrow> Inl e
      | Inr v \<Rightarrow> bindE (as_dict ''LKG pointer is invalid'' v) (\<lambda>pointer.
                 bindE (str_field ''LKG pointer is invalid'' pointer ''generation'') (\<lambda>_.
                   Inr (Some pointer))))"

text \<open>What a restart finds for a source: \<open>load_lkg\<close> with the bindings \<open>load_identity_registry\<close> takes from
  the same pointer. \<open>None\<close> is a source without a last-known-good generation.\<close>

definition load_state ::
  "store_env \<Rightarrow> string \<Rightarrow> path disk
     \<Rightarrow> storage_error + (SourceGeneration \<times> IdentityBinding list option) option" where
  "load_state env value d =
     bindE (safe_component value ''source ID'') (\<lambda>sid.
     bindE (read_pointer env sid d) (\<lambda>pointer.
       case pointer of
         None \<Rightarrow> Inr None
       | Some p \<Rightarrow> bindE (load_source_state env sid p d) (\<lambda>s. Inr (Some s))))"

definition load_lkg :: "store_env \<Rightarrow> string \<Rightarrow> path disk \<Rightarrow> storage_error + SourceGeneration option" where
  "load_lkg env value d =
     bindE (load_state env value d) (\<lambda>s. Inr (map_option fst s))"

definition lkg_source :: "path \<Rightarrow> string list" where
  "lkg_source p = (case p of PPointer s \<Rightarrow> [s] | PState s _ \<Rightarrow> [s] | PGeneration s _ \<Rightarrow> [s] | _ \<Rightarrow> [])"

definition list_lkg_sources :: "path disk \<Rightarrow> string list" where
  "list_lkg_sources d = sort (filter safe_id (remdups (concat (map lkg_source (dict_keys d)))))"

definition registry_source ::
  "store_env \<Rightarrow> path disk \<Rightarrow> string \<Rightarrow> IdentityRegistry \<Rightarrow> storage_error + IdentityRegistry" where
  "registry_source env d sid reg =
     (case read_json (codec env) (PPointer sid) POINTER_LIMIT d of
        Inl FileNotFound \<Rightarrow> Inr reg
      | Inl e \<Rightarrow> Inl e
      | Inr (RDict pointer) \<Rightarrow>
          if dict_get pointer ''state'' = None then Inr reg
          else bindE (load_source_state env sid pointer d) (\<lambda>(_, bindings).
               case bindings of
                 Some bs \<Rightarrow> Inr (dict_set sid bs reg)
               | None \<Rightarrow> Inl AssertionFailed)
      | Inr _ \<Rightarrow> Inr reg)"

definition load_identity_registry :: "store_env \<Rightarrow> path disk \<Rightarrow> storage_error + IdentityRegistry" where
  "load_identity_registry env d =
     bindE (case read_json (codec env) PRegistry JSON_LIMIT d of
              Inl FileNotFound \<Rightarrow> Inr (RDict [])
            | r \<Rightarrow> r) (\<lambda>value.
     case validate_registry env value of
       None \<Rightarrow> Inl (StorageError ''identity registry is invalid'')
     | Some reg \<Rightarrow> foldE (registry_source env d) (list_lkg_sources d) reg)"

definition save_identity_registry :: "store_env \<Rightarrow> IdentityRegistry \<Rightarrow> (path, unit) io" where
  "save_identity_registry env reg = atomic_write_json (codec env) PRegistry (dump_registry env reg) None"

section \<open>Publishing\<close>

definition save_generation_file :: "store_env \<Rightarrow> SourceGeneration \<Rightarrow> (path, path) io" where
  "save_generation_file env g =
     bindI (readI (\<lambda>_. safe_component (gen_source_id g) ''source ID'')) (\<lambda>sid.
     bindI (readI (\<lambda>_. safe_component (generation g) ''generation ID'')) (\<lambda>gid.
     bindI (readI (\<lambda>d. Inr (dict_get d (PGeneration sid gid) \<noteq> None))) (\<lambda>exists.
     if exists
     then bindI (readI (\<lambda>d.
            case read_json (codec env) (PGeneration sid gid) JSON_LIMIT d of
              Inl FileNotFound \<Rightarrow> Inl FileNotFound
            | Inl _ \<Rightarrow> Inl (StorageError ''existing immutable generation is invalid'')
            | Inr v \<Rightarrow>
                (case validate_generation env v of
                   None \<Rightarrow> Inl (StorageError ''existing immutable generation is invalid'')
                 | Some existing \<Rightarrow>
                     if existing \<noteq> g
                     then Inl (StorageError ''generation ID is already bound to different content'')
                     else Inr ()))) (\<lambda>_. returnI (PGeneration sid gid))
     else bindI (atomic_write_json (codec env) (PGeneration sid gid) (dump_generation env g) (Some JSON_LIMIT))
            (\<lambda>_. returnI (PGeneration sid gid)))))"

text \<open>Files of one directory, newest first: \<open>sorted(..., key=(mtime, name), reverse=True)\<close>.\<close>

definition newest_first :: "(string \<times> stored_file) list \<Rightarrow> string list" where
  "newest_first xs = map fst (rev (sort_key (\<lambda>(n, f). (mtime f, n @ ''.json'')) xs))"

definition state_files :: "string \<Rightarrow> path disk \<Rightarrow> (string \<times> stored_file) list" where
  "state_files sid d =
     List.map_filter (\<lambda>(p, f). case p of PState s st \<Rightarrow> if s = sid then Some (st, f) else None | _ \<Rightarrow> None) d"

definition generation_files :: "string \<Rightarrow> path disk \<Rightarrow> (string \<times> stored_file) list" where
  "generation_files sid d =
     List.map_filter (\<lambda>(p, f). case p of PGeneration s g \<Rightarrow> if s = sid then Some (g, f) else None | _ \<Rightarrow> None) d"

fun retain_states :: "string list \<Rightarrow> string list \<Rightarrow> string list" where
  "retain_states [] retained = retained"
| "retain_states (s # states) retained =
     retain_states states (if s \<notin> set retained \<and> length retained < SOURCE_STATE_RETENTION
                           then retained @ [s] else retained)"

fun retain_generations :: "string list \<Rightarrow> string list \<Rightarrow> string list" where
  "retain_generations [] retained = retained"
| "retain_generations (g # gens) retained =
     (if length retained \<ge> SOURCE_GENERATION_RETENTION then retained
      else retain_generations gens (if safe_id g then List.insert g retained else retained))"

definition state_generation :: "store_env \<Rightarrow> string \<Rightarrow> path disk \<Rightarrow> string \<Rightarrow> string list" where
  "state_generation env sid d state =
     (case read_json (codec env) (PState sid state) JSON_LIMIT d of
        Inr (RDict v) \<Rightarrow>
          (case dict_get v ''generation'' of
             Some (RStr g) \<Rightarrow> if safe_id g then [g] else []
           | _ \<Rightarrow> [])
      | _ \<Rightarrow> [])"

text \<open>The pointer of \<open>_prune_source_history\<close>: \<open>None\<close> when there is nothing to prune.\<close>

definition prune_pointer ::
  "store_env \<Rightarrow> string \<Rightarrow> path disk \<Rightarrow> storage_error + (string \<times> string option) option" where
  "prune_pointer env sid d =
     bindE (read_pointer env sid d) (\<lambda>pointer.
       case pointer of
         None \<Rightarrow> Inr None
       | Some p \<Rightarrow>
           bindE (str_field ''LKG pointer is invalid'' p ''generation'') (\<lambda>g.
           bindE (safe_component g ''generation ID'') (\<lambda>gid.
           bindE (current_state p) (\<lambda>st. Inr (Some (gid, st))))))"

definition retained_states :: "string \<Rightarrow> string option \<Rightarrow> path disk \<Rightarrow> string list" where
  "retained_states sid state d =
     (let states = newest_first (state_files sid d)
      in retain_states states
           (case state of Some s \<Rightarrow> (if s \<noteq> [] \<and> s \<in> set states then [s] else []) | None \<Rightarrow> []))"

definition retained_generations ::
  "store_env \<Rightarrow> string \<Rightarrow> string \<Rightarrow> string list \<Rightarrow> path disk \<Rightarrow> string list" where
  "retained_generations env sid gid states d =
     retain_generations (newest_first (generation_files sid d))
       (fold List.insert (concat (map (state_generation env sid d) states)) [gid])"

definition prune_source_history :: "store_env \<Rightarrow> string \<Rightarrow> (path, unit) io" where
  "prune_source_history env value =
     bindI (readI (\<lambda>_. safe_component value ''source ID'')) (\<lambda>sid.
     bindI (readI (prune_pointer env sid)) (\<lambda>pointer.
     case pointer of
       None \<Rightarrow> returnI ()
     | Some (gid, state) \<Rightarrow>
         bindI (readI (\<lambda>d. Inr (retained_states sid state d, newest_first (state_files sid d))))
           (\<lambda>(retained, states).
         bindI (mapI (\<lambda>s. durable_unlink (PState sid s) True) (filter (\<lambda>s. s \<notin> set retained) states)) (\<lambda>_.
         bindI (readI (\<lambda>d. Inr (retained_generations env sid gid retained d,
                            newest_first (generation_files sid d)))) (\<lambda>(kept, gens).
         mapI (\<lambda>g. durable_unlink (PGeneration sid g) True) (filter (\<lambda>g. g \<notin> set kept) gens))))))"

definition save_source_generation :: "store_env \<Rightarrow> SourceGeneration \<Rightarrow> (path, path) io" where
  "save_source_generation env g =
     bindI (save_generation_file env g) (\<lambda>p.
     bindI (atomic_write_json (codec env) (PPointer (gen_source_id g))
              (pointer_json (generation g) None) None) (\<lambda>_.
     bindI (prune_source_history env (gen_source_id g)) (\<lambda>_. returnI p)))"

text \<open>\<open>state_id\<close> is the fresh \<open>state_<uuid4>\<close>.\<close>

definition publish_source_state ::
  "store_env \<Rightarrow> string \<Rightarrow> SourceGeneration \<Rightarrow> IdentityRegistry \<Rightarrow> (path, path) io" where
  "publish_source_state env state_id g reg =
     bindI (readI (\<lambda>_. safe_component (gen_source_id g) ''source ID'')) (\<lambda>sid.
     bindI (readI (\<lambda>_. safe_component (generation g) ''generation ID'')) (\<lambda>gid.
     bindI (save_generation_file env g) (\<lambda>p.
     bindI (atomic_write_json (codec env) (PState sid state_id)
              (state_json env sid gid (bindings_of sid reg)) (Some JSON_LIMIT)) (\<lambda>_.
     bindI (atomic_write_json (codec env) (PPointer sid) (pointer_json gid (Some state_id)) None) (\<lambda>_.
     bindI (catchI (save_identity_registry env reg) (returnI ())) (\<lambda>_.
     bindI (catchI (prune_source_history env sid) (returnI ())) (\<lambda>_.
     returnI p)))))))"

definition prune_source_histories :: "store_env \<Rightarrow> (path, unit) io" where
  "prune_source_histories env =
     bindI (readI (\<lambda>d. Inr (list_lkg_sources d))) (mapI (prune_source_history env))"

section \<open>Results\<close>

definition save_result :: "store_env \<Rightarrow> (string, raw) dict \<Rightarrow> (path, path) io" where
  "save_result env result =
     (case dict_get result ''check_id'' of
        Some (RStr cid) \<Rightarrow>
          bindI (readI (\<lambda>_. safe_component cid ''check ID'')) (\<lambda>cid.
          bindI (atomic_write_json (codec env) (PResult cid) (RDict result) None) (\<lambda>_.
          returnI (PResult cid)))
      | _ \<Rightarrow> raiseI (StorageError ''result requires check_id''))"

definition load_result ::
  "store_env \<Rightarrow> string \<Rightarrow> path disk \<Rightarrow> storage_error + (string, raw) dict option" where
  "load_result env value d =
     bindE (safe_component value ''check ID'') (\<lambda>cid.
     case read_json (codec env) (PResult cid) JSON_LIMIT d of
       Inl FileNotFound \<Rightarrow> Inr None
     | Inl e \<Rightarrow> Inl e
     | Inr (RDict v) \<Rightarrow>
         if dict_get v ''check_id'' = Some (RStr cid) then Inr (Some v)
         else Inl (StorageError ''result file identity is invalid'')
     | Inr _ \<Rightarrow> Inl (StorageError ''result file identity is invalid''))"

definition result_ids :: "path disk \<Rightarrow> string list" where
  "result_ids d = List.map_filter (\<lambda>(p, f). case p of PResult c \<Rightarrow> Some c | _ \<Rightarrow> None) d"

definition load_results :: "store_env \<Rightarrow> path disk \<Rightarrow> storage_error + (string, (string, raw) dict) dict" where
  "load_results env d =
     foldE (\<lambda>cid results. bindE (load_result env cid d) (\<lambda>v.
              Inr (case v of Some r \<Rightarrow> dict_set cid r results | None \<Rightarrow> results)))
       (filter safe_id (sort_key (\<lambda>c. c @ ''.json'') (result_ids d))) []"

definition prune_results :: "string list \<Rightarrow> (path, nat) io" where
  "prune_results valid_check_ids =
     bindI (readI (\<lambda>_. mapE (\<lambda>c. safe_component c ''check ID'') valid_check_ids)) (\<lambda>valid.
     bindI (readI (\<lambda>d. Inr (filter (\<lambda>c. c \<notin> set valid \<and> safe_id c) (result_ids d)))) (\<lambda>stale.
     bindI (mapI (\<lambda>c. durable_unlink (PResult c) True) stale) (\<lambda>_. returnI (length stale))))"

section \<open>What the serialisers are relied on for\<close>

text \<open>The JSON library round-trips, the generation and the bindings that are stored validate to
  themselves from their dump, and a pointer to a state of the generation fits into 64 KiB.\<close>

definition store_env_ok :: "store_env \<Rightarrow> SourceGeneration \<Rightarrow> IdentityBinding list \<Rightarrow> bool" where
  "store_env_ok env g bs \<longleftrightarrow> json_ok (codec env)
     \<and> (\<exists>v. loads (codec env) (dumps (codec env) (dump_generation env g)) = Some v
          \<and> validate_generation env v = Some g)
     \<and> list_all sorted_json (dump_bindings env bs)
     \<and> validate_bindings env (dump_bindings env bs) = Some bs
     \<and> (\<forall>state. safe_id state \<longrightarrow>
          size_of (dumps (codec env) (pointer_json (generation g) (Some state))) \<le> POINTER_LIMIT)"

lemma sorted_written:
  "sorted_json (pointer_json gen state)"
  "list_all sorted_json (dump_bindings env bs) \<Longrightarrow> sorted_json (state_json env sid gen bs)"
  by (auto simp: pointer_json_def state_json_def list_all_iff split: option.split)

section \<open>Loading depends on few files\<close>

lemma safe_component_Inr [simp]: "safe_component v l = Inr x \<longleftrightarrow> safe_id v \<and> x = v"
  by (auto simp: safe_component_def)

lemma missing_as_Inr [simp]: "missing_as m r = Inr v \<longleftrightarrow> r = Inr v"
  by (auto simp: missing_as_def split: sum.splits storage_error.splits)

lemma some_or_Inr [simp]: "some_or m x = Inr v \<longleftrightarrow> x = Some v"
  by (auto simp: some_or_def split: option.splits)

lemma str_field_Inr [simp]: "str_field m v k = Inr s \<longleftrightarrow> dict_get v k = Some (RStr s)"
  by (auto simp: str_field_def split: option.splits raw.splits)

lemma as_dict_Inr [simp]: "as_dict m v = Inr d \<longleftrightarrow> v = RDict d"
  by (auto simp: as_dict_def split: raw.splits)

text \<open>Files that are added, or changed elsewhere, do not matter to a successful load.\<close>

definition extends :: "path disk \<Rightarrow> path disk \<Rightarrow> path set \<Rightarrow> bool" where
  "extends d d' needed \<longleftrightarrow> (\<forall>p \<in> needed. file_content d p \<noteq> None \<longrightarrow> file_content d' p = file_content d p)"

lemma read_json_extends:
  "read_json c p n d = Inr v \<Longrightarrow> extends d d' needed \<Longrightarrow> p \<in> needed \<Longrightarrow> read_json c p n d' = Inr v"
  by (cases "dict_get d p"; cases "dict_get d' p")
     (auto simp: extends_def read_json_def file_content_def split: if_splits option.splits)

definition needed_files :: "string \<Rightarrow> (string, raw) dict \<Rightarrow> path set" where
  "needed_files sid pointer =
     {PGeneration sid g | g. dict_get pointer ''generation'' = Some (RStr g)}
     \<union> {PState sid s | s. dict_get pointer ''state'' = Some (RStr s)}"

lemma current_state_Some: "current_state p = Inr (Some s) \<Longrightarrow> dict_get p ''state'' = Some (RStr s) \<and> safe_id s"
  by (auto simp: current_state_def bindE_Inr_iff split: if_splits)

lemma load_bindings_extends:
  assumes "load_bindings env sid gid pointer d = Inr b" "extends d d' (needed_files sid pointer)"
  shows "load_bindings env sid gid pointer d' = Inr b"
proof -
  from assms(1) obtain state where state: "current_state pointer = Inr state"
    by (auto simp: load_bindings_def bindE_Inr_iff)
  show ?thesis
  proof (cases state)
    case None
    then show ?thesis using assms(1) state by (simp add: load_bindings_def)
  next
    case (Some s)
    then have "PState sid s \<in> needed_files sid pointer"
      using state by (auto simp: needed_files_def dest: current_state_Some)
    then have "read_json (codec env) (PState sid s) JSON_LIMIT d' = Inr v"
      if "read_json (codec env) (PState sid s) JSON_LIMIT d = Inr v" for v
      using read_json_extends [OF that assms(2)] by blast
    then show ?thesis
      using assms(1) state Some by (auto simp: load_bindings_def bindE_Inr_iff)
  qed
qed

lemma load_source_state_extends:
  assumes "load_source_state env sid pointer d = Inr x" "extends d d' (needed_files sid pointer)"
  shows "load_source_state env sid pointer d' = Inr x"
proof -
  have gen: "read_json (codec env) (PGeneration sid g) JSON_LIMIT d' = Inr v"
    if "dict_get pointer ''generation'' = Some (RStr g)"
      "read_json (codec env) (PGeneration sid g) JSON_LIMIT d = Inr v" for g v
    by (rule read_json_extends [OF that(2) assms(2)]) (simp add: needed_files_def that(1))
  from assms(1) obtain g b v r where *: "dict_get pointer ''generation'' = Some (RStr g)" "safe_id g"
      "load_bindings env sid g pointer d = Inr b"
      "read_json (codec env) (PGeneration sid g) JSON_LIMIT d = Inr v" "validate_generation env v = Some r"
      "(if gen_source_id r \<noteq> sid \<or> generation r \<noteq> g
        then Inl (StorageError ''LKG generation identity does not match its pointer'')
        else Inr (r, b)) = Inr x"
    by (auto simp: load_source_state_def bindE_Inr_iff)
  with gen load_bindings_extends [OF *(3) assms(2)] show ?thesis
    by (simp add: load_source_state_def str_field_def safe_component_def missing_as_def some_or_def)
qed

lemma read_pointer_same:
  assumes "file_content d (PPointer sid) = file_content d' (PPointer sid)"
  shows "read_pointer env sid d = read_pointer env sid d'"
  unfolding read_pointer_def read_json_content [OF assms] ..

lemma load_state_Inr:
  "load_state env sid d = Inr x \<longleftrightarrow> safe_id sid
     \<and> ((read_pointer env sid d = Inr None \<and> x = None)
        \<or> (\<exists>p s. read_pointer env sid d = Inr (Some p) \<and> load_source_state env sid p d = Inr s \<and> x = Some s))"
  by (auto simp: load_state_def bindE_Inr_iff split: option.splits)

definition pointer_files :: "store_env \<Rightarrow> string \<Rightarrow> path disk \<Rightarrow> path set" where
  "pointer_files env sid d =
     (case read_pointer env sid d of Inr (Some pointer) \<Rightarrow> needed_files sid pointer | _ \<Rightarrow> {})"

lemma load_state_extends:
  assumes "load_state env sid d = Inr x" "extends d d' (pointer_files env sid d)"
    "file_content d (PPointer sid) = file_content d' (PPointer sid)"
  shows "load_state env sid d' = Inr x"
  using assms(1,2) load_source_state_extends [of env sid _ d _ d']
  unfolding load_state_Inr read_pointer_same [OF assms(3), of env] pointer_files_def by auto

text \<open>Disks that agree on the files of a source load the same.\<close>

lemma load_state_frame:
  assumes "\<And>p. lkg_source p = [sid] \<Longrightarrow> file_content d' p = file_content d p"
  shows "load_state env sid d' = load_state env sid d"
proof -
  have same: "read_json c (PPointer sid) n d' = read_json c (PPointer sid) n d"
    "read_json c (PState sid x) n d' = read_json c (PState sid x) n d"
    "read_json c (PGeneration sid x) n d' = read_json c (PGeneration sid x) n d" for c n x
    by (rule read_json_content [OF assms], simp add: lkg_source_def)+
  show ?thesis
  proof (cases "safe_id sid")
    case True
    have "read_pointer env sid d' = read_pointer env sid d"
      "load_bindings env sid g p d' = load_bindings env sid g p d" for g p
      unfolding read_pointer_def load_bindings_def same by (rule refl)+
    then have "load_source_state env sid p d' = load_source_state env sid p d" for p
      unfolding load_source_state_def same by simp
    then show ?thesis
      using True \<open>read_pointer env sid d' = read_pointer env sid d\<close>
      by (simp add: load_state_def safe_component_def)
  qed (simp add: load_state_def safe_component_def)
qed

section \<open>Pruning keeps what is current\<close>

lemma content_set [simp]:
  "file_content (dict_set p f d) q = (if q = p then Some (content f) else file_content d q)"
  by (simp add: file_content_def)

lemma content_pop [simp]: "file_content (dict_pop p d) q = (if q = p then None else file_content d q)"
  by (simp add: file_content_def)

text \<open>The source \<open>sid\<close> loads as \<open>x\<close>, every other source as it does on the disk \<open>d0\<close>.\<close>

definition view_ok ::
  "store_env \<Rightarrow> string \<Rightarrow> (SourceGeneration \<times> IdentityBinding list option) option \<Rightarrow> path disk
     \<Rightarrow> path disk \<Rightarrow> bool" where
  "view_ok env sid x d0 d \<longleftrightarrow>
     load_state env sid d = Inr x \<and> (\<forall>s. s \<noteq> sid \<longrightarrow> load_state env s d = load_state env s d0)"

lemma other_sources:
  assumes "\<And>q. file_content d' q = file_content d q \<or> lkg_source q = [sid] \<or> lkg_source q = []" "s \<noteq> sid"
  shows "load_state env s d' = load_state env s d"
  by (rule load_state_frame) (use assms in \<open>metis list.inject list.distinct(1)\<close>)

lemma unlink_view:
  assumes "view_ok env sid x d0 d" "p \<notin> pointer_files env sid d" "p \<noteq> PPointer sid" "lkg_source p = [sid]"
  shows "view_ok env sid x d0 (dict_pop p d)"
  unfolding view_ok_def
proof (intro conjI allI impI)
  have e: "extends d (dict_pop p d) (pointer_files env sid d)" using assms(2) by (auto simp: extends_def)
  have l: "load_state env sid d = Inr x" using assms(1) by (simp add: view_ok_def)
  show "load_state env sid (dict_pop p d) = Inr x"
    by (rule load_state_extends [OF l e]) (use assms(3) in simp)
  fix s
  assume "s \<noteq> sid"
  then show "load_state env s (dict_pop p d) = load_state env s d0"
    using assms(1,4) other_sources [of "dict_pop p d" d sid s env] by (simp add: view_ok_def)
qed

lemma prune_pointer_files:
  assumes "prune_pointer env sid d = Inr (Some (gid, state))"
  shows "pointer_files env sid d \<subseteq> {PGeneration sid gid} \<union> {PState sid s | s. state = Some s}"
  using assms
  by (auto simp: prune_pointer_def bindE_Inr_iff pointer_files_def needed_files_def current_state_def
      split: option.splits if_splits)

lemma prune_pointer_state:
  assumes "prune_pointer env sid d = Inr (Some (gid, Some s))" "load_state env sid d = Inr x"
  shows "dict_get d (PState sid s) \<noteq> None \<and> s \<noteq> []"
proof -
  obtain p where p: "read_pointer env sid d = Inr (Some p)" "current_state p = Inr (Some s)"
    using assms(1) by (auto simp: prune_pointer_def bindE_Inr_iff split: option.splits)
  then obtain y where "load_source_state env sid p d = Inr y"
    using assms(2) by (auto simp: load_state_Inr)
  then obtain g b where "load_bindings env sid g p d = Inr b"
    by (auto simp: load_source_state_def bindE_Inr_iff)
  then have "\<exists>v. read_json (codec env) (PState sid s) JSON_LIMIT d = Inr v"
    using p(2) by (auto simp: load_bindings_def bindE_Inr_iff)
  moreover have "s \<noteq> []" using current_state_Some [OF p(2)] by (auto simp: safe_id_def)
  ultimately show ?thesis by (auto simp: read_json_def split: option.splits)
qed

lemma set_newest_first [simp]: "set (newest_first xs) = fst ` set xs"
  by (simp add: newest_first_def)

lemma state_files_mem: "dict_get d (PState sid s) \<noteq> None \<Longrightarrow> s \<in> fst ` set (state_files sid d)"
proof -
  assume "dict_get d (PState sid s) \<noteq> None"
  then obtain f where "(PState sid s, f) \<in> set d" by (auto dest: map_of_SomeD)
  then have "(s, f) \<in> set (state_files sid d)"
    by (auto simp: state_files_def map_filter_def intro!: image_eqI [of _ _ "(PState sid s, f)"])
  then show ?thesis by (rule image_eqI [rotated]) simp
qed

lemma retain_states_keeps: "set acc \<subseteq> set (retain_states xs acc)"
proof (induction xs arbitrary: acc)
  case (Cons s states)
  show ?case using Cons.IH [of acc] Cons.IH [of "acc @ [s]"] by auto
qed simp

lemma retain_generations_keeps: "set acc \<subseteq> set (retain_generations xs acc)"
proof (induction xs arbitrary: acc)
  case (Cons g gens)
  have "set acc \<subseteq> set (List.insert g acc)" by auto
  then show ?case using Cons.IH [of acc] Cons.IH [of "List.insert g acc"] by auto
qed simp

lemma set_fold_insert: "set (fold List.insert xs acc) = set xs \<union> set acc"
  by (induction xs arbitrary: acc) auto

lemma crash_prune:
  "crash_spec (view_ok env sid x d0) (\<lambda>_. True) (prune_source_history env sid) (\<lambda>_ _. True)"
proof -
  let ?I = "view_ok env sid x d0"
  have states: "crash_spec ?I (\<lambda>d. prune_pointer env sid d = Inr (Some (gid, state)))
      (mapI (\<lambda>s. durable_unlink (PState sid s) True) xs)
      (\<lambda>_ d. prune_pointer env sid d = Inr (Some (gid, state)))"
    if "\<forall>s. state = Some s \<longrightarrow> s \<notin> set xs" for xs gid state
  proof (intro crash_mapI crash_unlink conjI)
    fix s d
    assume s: "s \<in> set xs" and I: "?I d" and P: "prune_pointer env sid d = Inr (Some (gid, state))"
    show "?I (dict_pop (PState sid s) d)"
      by (rule unlink_view [OF I])
         (use prune_pointer_files [OF P] s that in \<open>auto simp: lkg_source_def\<close>)
    show "prune_pointer env sid (dict_pop (PState sid s) d) = Inr (Some (gid, state))"
      using P read_pointer_same [of d sid "dict_pop (PState sid s) d" env] by (simp add: prune_pointer_def)
  qed
  have gens: "crash_spec ?I (\<lambda>d. prune_pointer env sid d = Inr (Some (gid, state)))
      (mapI (\<lambda>g. durable_unlink (PGeneration sid g) True) xs)
      (\<lambda>_ d. prune_pointer env sid d = Inr (Some (gid, state)))"
    if "gid \<notin> set xs" for xs gid state
  proof (intro crash_mapI crash_unlink conjI)
    fix g d
    assume g: "g \<in> set xs" and I: "?I d" and P: "prune_pointer env sid d = Inr (Some (gid, state))"
    show "?I (dict_pop (PGeneration sid g) d)"
      by (rule unlink_view [OF I])
         (use prune_pointer_files [OF P] g that in \<open>auto simp: lkg_source_def\<close>)
    show "prune_pointer env sid (dict_pop (PGeneration sid g) d) = Inr (Some (gid, state))"
      using P read_pointer_same [of d sid "dict_pop (PGeneration sid g) d" env] by (simp add: prune_pointer_def)
  qed
  have retained: "s \<in> set (retained_states sid (Some s) d)"
    if "?I d" "prune_pointer env sid d = Inr (Some (gid, Some s))" for d gid s
  proof -
    have "dict_get d (PState sid s) \<noteq> None" "s \<noteq> []"
      using prune_pointer_state [OF that(2)] that(1) by (auto simp: view_ok_def)
    then have "s \<in> set (newest_first (state_files sid d))" "s \<noteq> []"
      using state_files_mem by auto
    then show ?thesis
      using retain_states_keeps [of "[s]" "newest_first (state_files sid d)"]
      by (simp add: retained_states_def)
  qed
  have kept: "gid \<in> set (retained_generations env sid gid rs d)" for gid rs d
    unfolding retained_generations_def
    by (rule subsetD [OF retain_generations_keeps]) (simp add: set_fold_insert)
  have rest: "crash_spec ?I (\<lambda>d. prune_pointer env sid d = Inr (Some (gid, state)))
      (bindI (readI (\<lambda>d. Inr (retained_generations env sid gid rs d, newest_first (generation_files sid d))))
        (\<lambda>(kept, gens). mapI (\<lambda>g. durable_unlink (PGeneration sid g) True) (filter (\<lambda>g. g \<notin> set kept) gens)))
      (\<lambda>_ _. True)" for gid state rs
  proof (rule crash_bind)
    show "crash_spec ?I (\<lambda>d. prune_pointer env sid d = Inr (Some (gid, state)))
        (readI (\<lambda>d. Inr (retained_generations env sid gid rs d, newest_first (generation_files sid d))))
        (\<lambda>a d. prune_pointer env sid d = Inr (Some (gid, state)) \<and> gid \<in> set (fst a))"
      by (rule crash_read) (use kept in auto)
    fix a
    show "crash_spec ?I (\<lambda>d. prune_pointer env sid d = Inr (Some (gid, state)) \<and> gid \<in> set (fst a))
        (case a of (kept, gens) \<Rightarrow>
          mapI (\<lambda>g. durable_unlink (PGeneration sid g) True) (filter (\<lambda>g. g \<notin> set kept) gens)) (\<lambda>_ _. True)"
      unfolding case_prod_unfold
      by (rule crash_pure) (rule crash_spec_weaken [OF gens], auto)
  qed
  have body: "crash_spec ?I (\<lambda>d. prune_pointer env sid d = Inr (Some (gid, state)))
      (bindI (readI (\<lambda>d. Inr (retained_states sid state d, newest_first (state_files sid d))))
           (\<lambda>(retained, states).
         bindI (mapI (\<lambda>s. durable_unlink (PState sid s) True) (filter (\<lambda>s. s \<notin> set retained) states)) (\<lambda>_.
         bindI (readI (\<lambda>d. Inr (retained_generations env sid gid retained d,
                            newest_first (generation_files sid d)))) (\<lambda>(kept, gens).
         mapI (\<lambda>g. durable_unlink (PGeneration sid g) True) (filter (\<lambda>g. g \<notin> set kept) gens)))))
      (\<lambda>_ _. True)" for gid state
  proof (rule crash_bind)
    show "crash_spec ?I (\<lambda>d. prune_pointer env sid d = Inr (Some (gid, state)))
      (readI (\<lambda>d. Inr (retained_states sid state d, newest_first (state_files sid d))))
      (\<lambda>a d. prune_pointer env sid d = Inr (Some (gid, state)) \<and> (\<forall>s. state = Some s \<longrightarrow> s \<in> set (fst a)))"
      by (rule crash_read) (use retained in auto)
    fix a
    show "crash_spec ?I (\<lambda>d. prune_pointer env sid d = Inr (Some (gid, state)) \<and>
        (\<forall>s. state = Some s \<longrightarrow> s \<in> set (fst a)))
      (case a of (retained, states) \<Rightarrow>
        bindI (mapI (\<lambda>s. durable_unlink (PState sid s) True) (filter (\<lambda>s. s \<notin> set retained) states)) (\<lambda>_.
         bindI (readI (\<lambda>d. Inr (retained_generations env sid gid retained d,
                            newest_first (generation_files sid d)))) (\<lambda>(kept, gens).
         mapI (\<lambda>g. durable_unlink (PGeneration sid g) True) (filter (\<lambda>g. g \<notin> set kept) gens))))
      (\<lambda>_ _. True)"
      by (cases a, simp only: prod.case fst_conv) (rule crash_pure, rule crash_bind [OF states rest], auto)
  qed
  show ?thesis
    unfolding prune_source_history_def
  proof (rule crash_bind)
    show "crash_spec ?I (\<lambda>_. True) (readI (\<lambda>_. safe_component sid ''source ID'')) (\<lambda>a _. a = sid)"
      by (rule crash_read) simp
    fix a
    show "crash_spec ?I (\<lambda>_. a = sid) (bindI (readI (prune_pointer env a)) (\<lambda>pointer. case pointer of
        None \<Rightarrow> returnI ()
      | Some (gid, state) \<Rightarrow>
         bindI (readI (\<lambda>d. Inr (retained_states a state d, newest_first (state_files a d))))
           (\<lambda>(retained, states).
         bindI (mapI (\<lambda>s. durable_unlink (PState a s) True) (filter (\<lambda>s. s \<notin> set retained) states)) (\<lambda>_.
         bindI (readI (\<lambda>d. Inr (retained_generations env a gid retained d,
                            newest_first (generation_files a d)))) (\<lambda>(kept, gens).
         mapI (\<lambda>g. durable_unlink (PGeneration a g) True) (filter (\<lambda>g. g \<notin> set kept) gens)))))) (\<lambda>_ _. True)"
    proof (rule crash_pure, hypsubst, rule crash_bind)
      show "crash_spec ?I (\<lambda>_. True) (readI (prune_pointer env sid))
          (\<lambda>a d. prune_pointer env sid d = Inr a)"
        by (rule crash_read)
    qed (auto split: option.split intro: crash_return body)
  qed
qed

section \<open>Publishing is atomic\<close>

lemma add_file_view:
  assumes "view_ok env sid x d0 d" "file_content d p = None" "p \<noteq> PPointer sid" "lkg_source p = [sid]"
  shows "view_ok env sid x d0 (dict_set p f d)"
  unfolding view_ok_def
proof (intro conjI allI impI)
  have e: "extends d (dict_set p f d) (pointer_files env sid d)" using assms(2) by (auto simp: extends_def)
  have l: "load_state env sid d = Inr x" using assms(1) by (simp add: view_ok_def)
  show "load_state env sid (dict_set p f d) = Inr x"
    by (rule load_state_extends [OF l e]) (use assms(3) in simp)
  fix s
  assume "s \<noteq> sid"
  then show "load_state env s (dict_set p f d) = load_state env s d0"
    using assms(1,4) other_sources [of "dict_set p f d" d sid s env] by (simp add: view_ok_def)
qed

lemma other_file_view:
  assumes "view_ok env sid x d0 d" "lkg_source p = []"
  shows "view_ok env sid x d0 (dict_set p f d)"
proof -
  have "load_state env s (dict_set p f d) = load_state env s d" for s
    by (rule load_state_frame) (use assms(2) in auto)
  then show ?thesis using assms(1) by (simp add: view_ok_def)
qed

definition generation_ready :: "store_env \<Rightarrow> SourceGeneration \<Rightarrow> path disk \<Rightarrow> bool" where
  "generation_ready env g d \<longleftrightarrow>
     (\<exists>v. read_json (codec env) (PGeneration (gen_source_id g) (generation g)) JSON_LIMIT d = Inr v
        \<and> validate_generation env v = Some g)"

lemma generation_written:
  assumes "store_env_ok env g bs" "size_of (dumps (codec env) (dump_generation env g)) \<le> JSON_LIMIT"
  shows "generation_ready env g (dict_set (PGeneration (gen_source_id g) (generation g))
    \<lparr>content = dumps (codec env) (dump_generation env g), mtime = t\<rparr> d)"
proof -
  obtain v where "loads (codec env) (dumps (codec env) (dump_generation env g)) = Some v"
      "validate_generation env v = Some g"
    using assms(1) unfolding store_env_ok_def by blast
  then show ?thesis
    unfolding generation_ready_def by (intro exI [of _ v] conjI read_written assms(2))
qed

lemma crash_save_generation:
  assumes "store_env_ok env g bs"
  shows "crash_spec (view_ok env (gen_source_id g) x d0)
    (\<lambda>d. file_content d (PState (gen_source_id g) st) = None) (save_generation_file env g)
    (\<lambda>_ d. file_content d (PState (gen_source_id g) st) = None \<and> generation_ready env g d)"
proof -
  let ?sid = "gen_source_id g" and ?gid = "generation g"
  let ?I = "view_ok env ?sid x d0" and ?P = "\<lambda>d. file_content d (PState ?sid st) = None"
  let ?Q = "\<lambda>d. ?P d \<and> generation_ready env g d"
  have writing: "crash_spec ?I (\<lambda>d. ?P d \<and> dict_get d (PGeneration ?sid ?gid) = None)
      (bindI (atomic_write_json (codec env) (PGeneration ?sid ?gid) (dump_generation env g) (Some JSON_LIMIT))
        (\<lambda>_. returnI (PGeneration ?sid ?gid))) (\<lambda>_. ?Q)"
  proof (rule crash_bind)
    show "crash_spec ?I (\<lambda>d. ?P d \<and> dict_get d (PGeneration ?sid ?gid) = None)
      (atomic_write_json (codec env) (PGeneration ?sid ?gid) (dump_generation env g) (Some JSON_LIMIT)) (\<lambda>_. ?Q)"
      by (rule crash_write_json)
         (auto simp: lkg_source_def file_content_def intro!: add_file_view generation_written assms)
  qed (rule crash_return)
  have check: "crash_spec ?I ?P
      (bindI (readI (\<lambda>d.
            case read_json (codec env) (PGeneration ?sid ?gid) JSON_LIMIT d of
              Inl FileNotFound \<Rightarrow> Inl FileNotFound
            | Inl _ \<Rightarrow> Inl (StorageError ''existing immutable generation is invalid'')
            | Inr v \<Rightarrow>
                (case validate_generation env v of
                   None \<Rightarrow> Inl (StorageError ''existing immutable generation is invalid'')
                 | Some existing \<Rightarrow>
                     if existing \<noteq> g
                     then Inl (StorageError ''generation ID is already bound to different content'')
                     else Inr ()))) (\<lambda>_. returnI (PGeneration ?sid ?gid))) (\<lambda>_. ?Q)"
    by (rule crash_bind [OF crash_read crash_return])
       (auto simp: generation_ready_def split: sum.splits storage_error.splits option.splits if_splits)
  show ?thesis
    unfolding save_generation_file_def
  proof (rule crash_bind)
    show "crash_spec ?I ?P (readI (\<lambda>_. safe_component ?sid ''source ID'')) (\<lambda>a d. ?P d \<and> a = ?sid)"
      by (rule crash_read) simp
  qed (rule crash_pure, hypsubst, rule crash_bind, rule crash_read [where Q = "\<lambda>a d. ?P d \<and> a = ?gid"], simp,
      rule crash_pure, hypsubst, rule crash_bind,
      rule crash_read [where Q = "\<lambda>a d. ?P d \<and> a = (dict_get d (PGeneration ?sid ?gid) \<noteq> None)"], simp,
      rule crash_if, rule crash_spec_weaken [OF check], simp_all, rule crash_spec_weaken [OF writing], simp_all)
qed

definition state_ready ::
  "store_env \<Rightarrow> string \<Rightarrow> string \<Rightarrow> string \<Rightarrow> IdentityBinding list \<Rightarrow> path disk \<Rightarrow> bool" where
  "state_ready env sid st gid bs d \<longleftrightarrow>
     read_json (codec env) (PState sid st) JSON_LIMIT d = Inr (state_json env sid gid bs)"

lemma json_written:
  "json_ok (codec env) \<Longrightarrow> sorted_json v \<Longrightarrow> size_of (dumps (codec env) v) \<le> n
     \<Longrightarrow> read_json (codec env) p n (dict_set p \<lparr>content = dumps (codec env) v, mtime = t\<rparr> d) = Inr v"
  by (rule read_written) (auto simp: json_ok_def)

lemma store_envD:
  "store_env_ok env g bs \<Longrightarrow> json_ok (codec env)"
  by (simp add: store_env_ok_def)

lemma dump_bindings_ok:
  "store_env_ok env g bs \<Longrightarrow> list_all sorted_json (dump_bindings env bs)"
  "store_env_ok env g bs \<Longrightarrow> validate_bindings env (dump_bindings env bs) = Some bs"
  by (simp_all add: store_env_ok_def)

text \<open>Once the pointer names a complete state, the new state loads.\<close>

lemma load_published:
  assumes "store_env_ok env g bs" "safe_id st" "generation_ready env g d"
    "state_ready env (gen_source_id g) st (generation g) bs d"
    "safe_id (gen_source_id g)" "safe_id (generation g)"
  shows "load_state env (gen_source_id g)
     (dict_set (PPointer (gen_source_id g))
        \<lparr>content = dumps (codec env) (pointer_json (generation g) (Some st)), mtime = t\<rparr> d)
   = Inr (Some (g, Some bs))"
proof -
  let ?sid = "gen_source_id g" and ?gid = "generation g"
  let ?d = "dict_set (PPointer ?sid) \<lparr>content = dumps (codec env) (pointer_json ?gid (Some st)), mtime = t\<rparr> d"
  let ?ptr = "[(''generation'', RStr ?gid), (''schema_version'', RInt 1), (''state'', RStr st)]"
  have "size_of (dumps (codec env) (pointer_json ?gid (Some st))) \<le> POINTER_LIMIT"
    using assms(1,2,6) by (simp add: store_env_ok_def)
  then have "read_json (codec env) (PPointer ?sid) POINTER_LIMIT ?d = Inr (pointer_json ?gid (Some st))"
    by (rule json_written [OF store_envD [OF assms(1)] sorted_written(1)])
  then have p: "read_pointer env ?sid ?d = Inr (Some ?ptr)"
    by (simp add: read_pointer_def pointer_json_def str_field_def as_dict_def)
  obtain v where v: "read_json (codec env) (PGeneration ?sid ?gid) JSON_LIMIT ?d = Inr v"
      "validate_generation env v = Some g"
    using assms(3) by (auto simp: generation_ready_def read_elsewhere)
  have "read_json (codec env) (PState ?sid st) JSON_LIMIT ?d = Inr (state_json env ?sid ?gid bs)"
    using assms(4) by (simp add: state_ready_def read_elsewhere)
  then have "load_bindings env ?sid ?gid ?ptr ?d = Inr (Some bs)"
    using assms(2) dump_bindings_ok(2) [OF assms(1)]
    by (simp add: load_bindings_def current_state_def str_field_def safe_component_def missing_as_def
        state_record_def state_json_def as_dict_def some_or_def)
  then have "load_source_state env ?sid ?ptr ?d = Inr (g, Some bs)"
    using v assms(6)
    by (simp add: load_source_state_def str_field_def safe_component_def missing_as_def some_or_def)
  then show ?thesis using p assms(5) by (simp add: load_state_Inr)
qed

definition either_view ::
  "store_env \<Rightarrow> string \<Rightarrow> (SourceGeneration \<times> IdentityBinding list option) option
     \<Rightarrow> (SourceGeneration \<times> IdentityBinding list option) option \<Rightarrow> path disk \<Rightarrow> path disk \<Rightarrow> bool" where
  "either_view env sid x y d0 d \<longleftrightarrow> view_ok env sid x d0 d \<or> view_ok env sid y d0 d"

lemma crash_publish:
  fixes g :: SourceGeneration and reg :: IdentityRegistry
  assumes env: "store_env_ok env g (bindings_of (gen_source_id g) reg)" and st: "safe_id st"
  defines "sid \<equiv> gen_source_id g" and "gid \<equiv> generation g"
    and "bs \<equiv> bindings_of (gen_source_id g) reg"
  shows "crash_spec (either_view env sid x (Some (g, Some bs)) d0)
    (\<lambda>d. view_ok env sid x d0 d \<and> file_content d (PState sid st) = None)
    (publish_source_state env st g reg) (\<lambda>_. view_ok env sid (Some (g, Some bs)) d0)"
proof -
  let ?I = "either_view env sid x (Some (g, Some bs)) d0"
  let ?new = "view_ok env sid (Some (g, Some bs)) d0" and ?old = "view_ok env sid x d0"
  let ?fresh = "\<lambda>d. ?old d \<and> file_content d (PState sid st) = None"
  have gen: "crash_spec ?I ?fresh (save_generation_file env g) (\<lambda>_ d. ?fresh d \<and> generation_ready env g d)"
  proof -
    have "crash_spec ?old ?fresh (save_generation_file env g)
        (\<lambda>_ d. file_content d (PState sid st) = None \<and> generation_ready env g d)"
      unfolding sid_def by (rule crash_spec_weaken [OF crash_save_generation [OF env]]) simp_all
    then show ?thesis by (rule crash_spec_mono) (auto simp: either_view_def)
  qed
  have state: "crash_spec ?I (\<lambda>d. ?fresh d \<and> generation_ready env g d)
      (atomic_write_json (codec env) (PState sid st) (state_json env sid gid (bindings_of sid reg)) (Some JSON_LIMIT))
      (\<lambda>_ d. ?old d \<and> generation_ready env g d \<and> state_ready env sid st gid bs d)"
  proof (rule crash_write_json, elim conjE)
    fix d t
    assume d: "?old d" "file_content d (PState sid st) = None" "generation_ready env g d"
      and len: "\<forall>m. Some JSON_LIMIT = Some m \<longrightarrow>
        size_of (dumps (codec env) (state_json env sid gid (bindings_of sid reg))) \<le> m"
    let ?d = "dict_set (PState sid st)
      \<lparr>content = dumps (codec env) (state_json env sid gid (bindings_of sid reg)), mtime = t\<rparr> d"
    have "?old ?d" by (rule add_file_view [OF d(1,2)]) (simp_all add: lkg_source_def)
    moreover have "generation_ready env g ?d"
      using d(3) by (simp add: generation_ready_def read_elsewhere)
    moreover have "state_ready env sid st gid bs ?d"
      unfolding state_ready_def bs_def sid_def [symmetric]
      by (rule json_written [OF store_envD [OF env] sorted_written(2)]) (use dump_bindings_ok(1) [OF env] len in \<open>simp_all add: sid_def\<close>)
    ultimately show "?I ?d \<and> ?old ?d \<and> generation_ready env g ?d \<and> state_ready env sid st gid bs ?d"
      by (simp add: either_view_def)
  qed
  have pointer: "crash_spec ?I
      (\<lambda>d. (?old d \<and> generation_ready env g d \<and> state_ready env sid st gid bs d) \<and> safe_id sid \<and> safe_id gid)
      (atomic_write_json (codec env) (PPointer sid) (pointer_json gid (Some st)) None) (\<lambda>_. ?new)"
  proof (rule crash_write_json, elim conjE)
    fix d t
    assume d: "?old d" "generation_ready env g d" "state_ready env sid st gid bs d"
      and safe: "safe_id sid" "safe_id gid"
    let ?d = "dict_set (PPointer sid) \<lparr>content = dumps (codec env) (pointer_json gid (Some st)), mtime = t\<rparr> d"
    have "load_state env sid ?d = Inr (Some (g, Some bs))"
      unfolding sid_def gid_def bs_def
      by (rule load_published [OF env st d(2)]) (use d(3) safe in \<open>simp_all add: sid_def gid_def bs_def\<close>)
    moreover have "load_state env s ?d = load_state env s d0" if "s \<noteq> sid" for s
      using d(1) other_sources [of ?d d sid s env] that by (simp add: view_ok_def lkg_source_def)
    ultimately have "?new ?d" by (simp add: view_ok_def)
    then show "?I ?d \<and> ?new ?d" by (simp add: either_view_def)
  qed
  have mirror: "crash_spec ?I ?new (catchI (save_identity_registry env reg) (returnI ())) (\<lambda>_. ?new)"
  proof -
    have "crash_spec ?new (\<lambda>_. True) (catchI (save_identity_registry env reg) (returnI ())) (\<lambda>_ _. True)"
      unfolding save_identity_registry_def
      by (intro crash_catch crash_write_json crash_return conjI TrueI other_file_view)
         (simp_all add: lkg_source_def)
    then show ?thesis by (rule crash_spec_mono) (auto simp: either_view_def)
  qed
  have prune: "crash_spec ?I ?new (catchI (prune_source_history env sid) (returnI ())) (\<lambda>_. ?new)"
  proof -
    have "crash_spec ?new (\<lambda>_. True) (catchI (prune_source_history env sid) (returnI ())) (\<lambda>_ _. True)"
      by (intro crash_catch crash_prune crash_return TrueI)
    then show ?thesis by (rule crash_spec_mono) (auto simp: either_view_def)
  qed
  have tail: "crash_spec ?I ?fresh
     (bindI (save_generation_file env g) (\<lambda>p.
      bindI (atomic_write_json (codec env) (PState sid st) (state_json env sid gid (bindings_of sid reg)) (Some JSON_LIMIT)) (\<lambda>_.
      bindI (atomic_write_json (codec env) (PPointer sid) (pointer_json gid (Some st)) None) (\<lambda>_.
      bindI (catchI (save_identity_registry env reg) (returnI ())) (\<lambda>_.
      bindI (catchI (prune_source_history env sid) (returnI ())) (\<lambda>_. returnI p)))))) (\<lambda>_. ?new)"
    if "safe_id sid" "safe_id gid"
    by (rule crash_bind [OF gen], rule crash_bind [OF state],
        rule crash_bind [OF crash_spec_weaken [OF pointer]], use that in simp, assumption,
        rule crash_bind [OF mirror], rule crash_bind [OF prune], rule crash_return)
  show ?thesis
    unfolding publish_source_state_def sid_def [symmetric] gid_def [symmetric]
  proof (rule crash_bind)
    show "crash_spec ?I ?fresh (readI (\<lambda>_. safe_component sid ''source ID''))
        (\<lambda>a d. ?fresh d \<and> (safe_id sid \<and> a = sid))"
      by (rule crash_read) simp
  qed (rule crash_pure, elim conjE, hypsubst, rule crash_bind,
      rule crash_read [where Q = "\<lambda>a d. ?fresh d \<and> (safe_id gid \<and> a = gid)"], simp,
      rule crash_pure, elim conjE, hypsubst, rule tail)
qed

section \<open>Results are found again\<close>

lemma save_result_Inr:
  assumes "save_result env result w = (Inr p, w')"
  obtains cid t where "dict_get result ''check_id'' = Some (RStr cid)" "safe_id cid" "p = PResult cid"
    "files w' = dict_set (PResult cid) \<lparr>content = dumps (codec env) (RDict result), mtime = t\<rparr> (files w)"
proof -
  from assms obtain cid where cid: "dict_get result ''check_id'' = Some (RStr cid)"
    by (auto simp: save_result_def raiseI_def split: option.splits raw.splits)
  with assms have "safe_id cid" "p = PResult cid"
    "atomic_write_bytes (PResult cid) (dumps (codec env) (RDict result)) w = (Inr (), w')"
    by (auto simp: save_result_def bindI_def readI_def returnI_def safe_component_def atomic_write_json_def
        split: sum.splits prod.splits if_splits)
  then show ?thesis
    using that cid by (auto simp: atomic_write_bytes_def change_def next_outcome_def Let_def
        split: list.splits outcome.splits)
qed

section \<open>A concrete environment\<close>

text \<open>Generations without entries, with the tagged codec.\<close>

definition plain_env :: store_env where
  "plain_env = \<lparr>codec = tagged_codec,
     dump_generation = (\<lambda>g. RDict [(''generation'', RStr (generation g)), (''source_id'', RStr (gen_source_id g))]),
     validate_generation = (\<lambda>v. case v of
        RDict [(_, RStr gid), (_, RStr sid)] \<Rightarrow>
          Some \<lparr>gen_source_id = sid, generation = gid, accepted_at = 0, entries = [], gen_metadata = []\<rparr>
      | _ \<Rightarrow> None),
     dump_bindings = map (\<lambda>b. RStr (bind_entry_id b)),
     validate_bindings = (\<lambda>vs. those (map (\<lambda>v. case v of
        RStr e \<Rightarrow> Some \<lparr>bind_entry_id = e, bind_external_id = None, bind_name_key = None,
                        bind_fingerprint = None, bind_active = True\<rparr>
      | _ \<Rightarrow> None) vs)),
     dump_registry = (\<lambda>_. RDict []),
     validate_registry = (\<lambda>_. Some []),
     sha256_hex = (\<lambda>s. replicate 64 (if s = [] then CHR ''0'' else CHR ''a'')),
     path_digest = id\<rparr>"

definition plain_generation :: "string \<Rightarrow> string \<Rightarrow> SourceGeneration" where
  "plain_generation sid gid =
     \<lparr>gen_source_id = sid, generation = gid, accepted_at = 0, entries = [], gen_metadata = []\<rparr>"

definition fresh_world :: "path disk \<Rightarrow> outcome list \<Rightarrow> path world" where
  "fresh_world d fs = \<lparr>files = d, ticks = 0, faults = fs, history = []\<rparr>"

lemma length_encode_string [simp]: "length (encode_string s) = 2 * length s + 1"
  by (induction s) simp_all

lemma plain_env_ok:
  assumes "length gid \<le> 128"
  shows "store_env_ok plain_env (plain_generation sid gid) []"
  unfolding store_env_ok_def
proof (intro conjI allI impI)
  let ?v = "RDict [(''generation'', RStr gid), (''source_id'', RStr sid)]"
  have "loads tagged_codec (dumps tagged_codec ?v) = Some ?v"
    using tagged_codec_ok by (simp add: json_ok_def)
  then show "\<exists>v. loads (codec plain_env) (dumps (codec plain_env)
      (dump_generation plain_env (plain_generation sid gid))) = Some v
      \<and> validate_generation plain_env v = Some (plain_generation sid gid)"
    by (simp add: plain_env_def plain_generation_def)
  fix state assume "safe_id state"
  then have "length state \<le> 128" by (simp add: safe_id_def split: list.splits)
  then show "size_of (dumps (codec plain_env) (pointer_json (generation (plain_generation sid gid)) (Some state)))
      \<le> POINTER_LIMIT"
    using assms by (simp add: plain_env_def plain_generation_def tagged_codec_def pointer_json_def
        POINTER_LIMIT_def encode_int_def)
qed (use tagged_codec_ok in \<open>simp_all add: plain_env_def\<close>)

section \<open>Properties\<close>

text \<open>C6: publishing a source state is atomic. A program \<open>publish_source_state\<close> may be interrupted
  between any two file operations and any of them may fail, before or after it has become visible; on
  every disk in between, and at the end, the source loads either its old state or the new generation
  with its bindings, and all other sources load as before. If it returns, the new state loads.\<close>

theorem publish_crash_safe:
  assumes "store_env_ok env g (bindings_of (gen_source_id g) reg)" "safe_id st"
    and "load_state env (gen_source_id g) (files w) = Inr old"
    and "file_content (files w) (PState (gen_source_id g) st) = None"
    and "publish_source_state env st g reg w = (r, w')"
  shows "\<exists>made. history w' = history w @ made
    \<and> (\<forall>d \<in> set (made @ [files w']).
         load_state env (gen_source_id g) d
           \<in> {Inr old, Inr (Some (g, Some (bindings_of (gen_source_id g) reg)))}
         \<and> (\<forall>s. s \<noteq> gen_source_id g \<longrightarrow> load_state env s d = load_state env s (files w)))
    \<and> (\<forall>p. r = Inr p \<longrightarrow>
         load_state env (gen_source_id g) (files w') = Inr (Some (g, Some (bindings_of (gen_source_id g) reg))))"
proof -
  have old: "view_ok env (gen_source_id g) old (files w) (files w)"
    using assms(3) by (simp add: view_ok_def)
  note C = crash_specD [OF crash_publish [OF assms(1,2)], of old "files w" w, OF _ _ assms(5)]
  have "\<exists>made. history w' = history w @ made
      \<and> (\<forall>d \<in> set made. either_view env (gen_source_id g) old
            (Some (g, Some (bindings_of (gen_source_id g) reg))) (files w) d)"
    "either_view env (gen_source_id g) old (Some (g, Some (bindings_of (gen_source_id g) reg)))
       (files w) (files w')"
    "\<And>p. r = Inr p \<Longrightarrow> view_ok env (gen_source_id g)
       (Some (g, Some (bindings_of (gen_source_id g) reg))) (files w) (files w')"
    using C old assms(4) by (auto simp: either_view_def)
  then show ?thesis unfolding either_view_def view_ok_def by fastforce
qed

text \<open>The second publication of a source, whose registry mirror is written with an error.\<close>

lemma publish_crash_safe_witness:
  "load_state plain_env ''s1''
     (files (snd (publish_source_state plain_env ''st2'' (plain_generation ''s1'' ''g2'') []
        (fresh_world (files (snd (publish_source_state plain_env ''st1'' (plain_generation ''s1'' ''g1'') []
           (fresh_world [] [])))) [Done, Done, Done, Refused]))))
   = Inr (Some (plain_generation ''s1'' ''g2'', Some []))"
proof -
  let ?d = "files (snd (publish_source_state plain_env ''st1'' (plain_generation ''s1'' ''g1'') [] (fresh_world [] [])))"
  let ?p = "publish_source_state plain_env ''st2'' (plain_generation ''s1'' ''g2'') []
    (fresh_world ?d [Done, Done, Done, Refused])"
  have ok: "store_env_ok plain_env (plain_generation ''s1'' ''g2'')
      (bindings_of (gen_source_id (plain_generation ''s1'' ''g2'')) [])"
    using plain_env_ok [of "''g2''" "''s1''"] by (simp add: bindings_of_def)
  have safe: "safe_id ''st2''" by code_simp
  have old: "load_state plain_env (gen_source_id (plain_generation ''s1'' ''g2''))
      (files (fresh_world ?d [Done, Done, Done, Refused])) = Inr (Some (plain_generation ''s1'' ''g1'', Some []))"
    by code_simp
  have free: "file_content (files (fresh_world ?d [Done, Done, Done, Refused]))
      (PState (gen_source_id (plain_generation ''s1'' ''g2'')) ''st2'') = None"
    by code_simp
  have ret: "fst ?p = Inr (PGeneration ''s1'' ''g2'')" by code_simp
  let ?g = "plain_generation ''s1'' ''g2''"
  have "fst ?p = Inr q \<Longrightarrow> load_state plain_env (gen_source_id ?g) (files (snd ?p))
      = Inr (Some (?g, Some (bindings_of (gen_source_id ?g) [])))" for q
    using publish_crash_safe [OF ok safe old free prod.collapse [symmetric]] by blast
  note this [OF ret]
  moreover have "gen_source_id ?g = ''s1''" "bindings_of ''s1'' [] = []"
    by (simp_all add: plain_generation_def bindings_of_def)
  ultimately show ?thesis by (simp only:)
qed

text \<open>A result that \<open>save_result\<close> has stored is found by \<open>load_result\<close> under its check, as it was
  given; the results of all other checks are as before.\<close>

theorem result_round_trip:
  assumes "loads (codec env) (dumps (codec env) (RDict result)) = Some (RDict result)"
    and "size_of (dumps (codec env) (RDict result)) \<le> JSON_LIMIT"
    and "save_result env result w = (Inr p, w')"
  shows "\<exists>cid. dict_get result ''check_id'' = Some (RStr cid)
    \<and> load_result env cid (files w') = Inr (Some result)
    \<and> (\<forall>c. c \<noteq> cid \<longrightarrow> load_result env c (files w') = load_result env c (files w))"
proof (rule save_result_Inr [OF assms(3)])
  fix cid t
  assume r: "dict_get result ''check_id'' = Some (RStr cid)" "safe_id cid"
    "files w' = dict_set (PResult cid) \<lparr>content = dumps (codec env) (RDict result), mtime = t\<rparr> (files w)"
  have "load_result env cid (files w') = Inr (Some result)"
    using r assms(1,2) by (simp add: load_result_def safe_component_def read_written)
  moreover have "load_result env c (files w') = load_result env c (files w)" if "c \<noteq> cid" for c
    using that r(3) by (cases "safe_id c") (simp_all add: load_result_def safe_component_def read_elsewhere)
  ultimately show ?thesis using r(1) by blast
qed

lemma result_round_trip_witness:
  "load_result plain_env ''c1'' (files (snd (save_result plain_env
     [(''check_id'', RStr ''c1''), (''success'', RBool True)] (fresh_world [] []))))
   = Inr (Some [(''check_id'', RStr ''c1''), (''success'', RBool True)])"
proof -
  let ?r = "[(''check_id'', RStr ''c1''), (''success'', RBool True)]"
  let ?s = "save_result plain_env ?r (fresh_world [] [])"
  have ok: "loads (codec plain_env) (dumps (codec plain_env) (RDict ?r)) = Some (RDict ?r)"
    using tagged_codec_ok by (simp add: json_ok_def plain_env_def)
  have len: "size_of (dumps (codec plain_env) (RDict ?r)) \<le> JSON_LIMIT"
    by (simp add: plain_env_def tagged_codec_def JSON_LIMIT_def)
  have ret: "fst ?s = Inr (PResult ''c1'')" by code_simp
  then have s: "?s = (Inr (PResult ''c1''), snd ?s)" by (metis prod.collapse)
  show ?thesis using result_round_trip [OF ok len s] by simp
qed

end
