(* ===== verification/ConfigTransaction.thy ===== *)
theory ConfigTransaction
  imports DataStore
begin

text \<open>
  The configuration transaction of \<open>DataStore\<close> in \<open>src/xray_e2e_prober/storage.py\<close>: before
  \<open>config.yaml\<close> is replaced, \<open>begin_config_replace\<close> writes a backup and a journal that names the
  secret files of the new configuration; afterwards either \<open>commit_config_replace\<close> removes the journal
  or \<open>recover_config_replace\<close> restores the backup and removes the secrets. The journal is the commit
  point: the lemmas follow it through every crash and every failing file operation.
\<close>

section \<open>The configuration transaction\<close>

definition transaction_json :: "store_env \<Rightarrow> string \<Rightarrow> string option \<Rightarrow> string list \<Rightarrow> raw" where
  "transaction_json env target previous names =
     RDict [(''previous_exists'', RBool (previous \<noteq> None)),
            (''previous_sha256'', RStr (sha256_hex env (case previous of Some b \<Rightarrow> b | None \<Rightarrow> []))),
            (''schema_version'', RInt 1), (''secret_names'', RList (map RStr names)),
            (''target'', RStr (path_digest env target))]"

definition fresh_secret :: "path disk \<Rightarrow> string \<Rightarrow> storage_error + path" where
  "fresh_secret d name =
     bindE (secret_path name) (\<lambda>p.
       if dict_get d p \<noteq> None then Inl (StorageError ''secret transaction file already exists'') else Inr p)"

definition backup_source :: "string \<Rightarrow> path disk \<Rightarrow> storage_error + string option" where
  "backup_source target d =
     (case dict_get d (PConfig target) of
        None \<Rightarrow> Inr None
      | Some f \<Rightarrow> if size_of (content f) > MAX_CONFIG_BACKUP_BYTES
                 then Inl (StorageError ''configuration backup exceeds size limit'')
                 else Inr (Some (content f)))"

definition begin_config_replace :: "store_env \<Rightarrow> string \<Rightarrow> string list \<Rightarrow> (path, unit) io" where
  "begin_config_replace env target names =
     bindI (readI (\<lambda>d. if dict_get d PTransaction \<noteq> None
                      then Inl (StorageError ''an unfinished configuration transaction exists'')
                      else bindE (mapE (fresh_secret d) names) (\<lambda>_. backup_source target d))) (\<lambda>previous.
     bindI (case previous of
              Some bytes \<Rightarrow> atomic_write_bytes PBackup bytes
            | None \<Rightarrow> durable_unlink PBackup True) (\<lambda>_.
     atomic_write_json (codec env) PTransaction (transaction_json env target previous names)
       (Some POINTER_LIMIT)))"

text \<open>\<open>==\<close> with the number 1 also holds for \<open>True\<close> and \<open>1.0\<close>.\<close>

definition equals_one :: "raw \<Rightarrow> bool" where
  "equals_one v \<longleftrightarrow> v \<in> {RInt 1, RBool True, RFloat 1}"

definition lower_hex :: "char \<Rightarrow> bool" where
  "lower_hex c \<longleftrightarrow> ascii_digit c \<or> between 97 102 c"

definition string_list :: "raw \<Rightarrow> string list option" where
  "string_list v =
     (case v of RList xs \<Rightarrow> those (map (\<lambda>x. case x of RStr s \<Rightarrow> Some s | _ \<Rightarrow> None) xs) | _ \<Rightarrow> None)"

text \<open>The fields of a journal that belongs to the configuration file \<open>target\<close>.\<close>

definition parse_transaction ::
  "store_env \<Rightarrow> string \<Rightarrow> raw \<Rightarrow> storage_error + bool \<times> string \<times> string list" where
  "parse_transaction env target value =
     (let invalid = Inl (StorageError ''configuration transaction journal is invalid'')
      in case value of
        RDict v \<Rightarrow>
          (case (dict_get v ''previous_exists'', dict_get v ''previous_sha256'',
                 string_list (case dict_get v ''secret_names'' of Some x \<Rightarrow> x | None \<Rightarrow> RList [])) of
             (Some (RBool existed), Some (RStr digest), Some names) \<Rightarrow>
               if (case dict_get v ''schema_version'' of Some x \<Rightarrow> equals_one x | None \<Rightarrow> False)
                  \<and> dict_get v ''target'' = Some (RStr (path_digest env target))
                  \<and> length digest = 64 \<and> list_all lower_hex digest
               then Inr (existed, digest, names) else invalid
           | _ \<Rightarrow> invalid)
      | _ \<Rightarrow> invalid)"

text \<open>\<open>has_pending_config_replace\<close>, with the journal it has read.\<close>

definition pending_transaction ::
  "store_env \<Rightarrow> string \<Rightarrow> path disk \<Rightarrow> storage_error + (bool \<times> string \<times> string list) option" where
  "pending_transaction env target d =
     (if dict_get d PTransaction = None then Inr None
      else bindE (read_json (codec env) PTransaction POINTER_LIMIT d) (\<lambda>value.
           bindE (parse_transaction env target value) (\<lambda>(existed, digest, names).
           bindE (mapE secret_path names) (\<lambda>_. Inr (Some (existed, digest, names))))))"

definition has_pending_config_replace :: "store_env \<Rightarrow> string \<Rightarrow> path disk \<Rightarrow> storage_error + bool" where
  "has_pending_config_replace env target d =
     bindE (pending_transaction env target d) (\<lambda>t. Inr (t \<noteq> None))"

definition read_backup :: "store_env \<Rightarrow> string \<Rightarrow> path disk \<Rightarrow> storage_error + string" where
  "read_backup env digest d =
     (case dict_get d PBackup of
        None \<Rightarrow> Inl (StorageError ''configuration transaction backup is missing'')
      | Some f \<Rightarrow>
          if size_of (content f) > MAX_CONFIG_BACKUP_BYTES
          then Inl (StorageError ''configuration transaction backup exceeds size limit'')
          else if sha256_hex env (content f) \<noteq> digest
          then Inl (StorageError ''configuration transaction backup is invalid'')
          else Inr (content f))"

definition remove_secret :: "string \<Rightarrow> (path, unit) io" where
  "remove_secret name = bindI (readI (\<lambda>_. secret_path name)) (\<lambda>p. durable_unlink p True)"

definition recover_config_replace :: "store_env \<Rightarrow> string \<Rightarrow> (path, bool) io" where
  "recover_config_replace env target =
     bindI (readI (pending_transaction env target)) (\<lambda>pending.
     case pending of
       None \<Rightarrow> bindI (durable_unlink PBackup True) (\<lambda>_. returnI False)
     | Some (existed, digest, names) \<Rightarrow>
         bindI (if existed
                then bindI (readI (read_backup env digest)) (atomic_write_bytes (PConfig target))
                else durable_unlink (PConfig target) True) (\<lambda>_.
         bindI (mapI remove_secret names) (\<lambda>_.
         bindI (durable_unlink PTransaction True) (\<lambda>_.
         bindI (durable_unlink PBackup True) (\<lambda>_. returnI True)))))"

definition commit_config_replace :: "store_env \<Rightarrow> string \<Rightarrow> (path, unit) io" where
  "commit_config_replace env target =
     bindI (readI (\<lambda>d. bindE (has_pending_config_replace env target d) (\<lambda>pending.
              if pending then Inr ()
              else Inl (StorageError ''configuration transaction is not prepared'')))) (\<lambda>_.
     bindI (durable_unlink PTransaction True) (\<lambda>_.
     catchI (durable_unlink PBackup True) (returnI ())))"

text \<open>\<open>^.+-[0-9a-f]{32}-(?:location|header-[1-9][0-9]*)$\<close>, matched in full.\<close>

definition transaction_suffix :: "string \<Rightarrow> bool" where
  "transaction_suffix s \<longleftrightarrow> s = ''location''
     \<or> (take 7 s = ''header-'' \<and> drop 7 s \<noteq> [] \<and> hd (drop 7 s) \<noteq> CHR ''0'' \<and> list_all ascii_digit (drop 7 s))"

definition transaction_secret :: "string \<Rightarrow> bool" where
  "transaction_secret n \<longleftrightarrow>
     list_ex (\<lambda>i. let r = drop i n in
        LF \<notin> set (take i n) \<and> length r > 34 \<and> r ! 0 = CHR ''-'' \<and> list_all lower_hex (take 32 (tl r))
        \<and> r ! 33 = CHR ''-'' \<and> transaction_suffix (drop 34 r)) [1..<length n]"

definition prune_transaction_secrets :: "path set \<Rightarrow> (path, nat) io" where
  "prune_transaction_secrets referenced =
     bindI (readI (\<lambda>d. Inr (filter (\<lambda>n. transaction_secret n \<and> PSecret [n] \<notin> referenced)
        (List.map_filter (\<lambda>(p, f). case p of PSecret [n] \<Rightarrow> Some n | _ \<Rightarrow> None) d)))) (\<lambda>stale.
     bindI (mapI (\<lambda>n. durable_unlink (PSecret [n]) True) stale) (\<lambda>_. returnI (length stale)))"

section \<open>The configuration transaction rolls back or commits\<close>

definition digest_ok :: "store_env \<Rightarrow> bool" where
  "digest_ok env \<longleftrightarrow> (\<forall>x. length (sha256_hex env x) = 64 \<and> list_all lower_hex (sha256_hex env x))"

definition secret_files :: "string list \<Rightarrow> path set" where
  "secret_files names = {p. \<exists>n \<in> set names. secret_path n = Inr p}"

text \<open>The journal on \<open>d\<close> is complete and records the configuration \<open>old\<close>.\<close>

definition journal_ok ::
  "store_env \<Rightarrow> string \<Rightarrow> string option \<Rightarrow> string list \<Rightarrow> path disk \<Rightarrow> bool" where
  "journal_ok env target old names d \<longleftrightarrow>
     file_content d PTransaction = Some (dumps (codec env) (transaction_json env target old names))
     \<and> size_of (dumps (codec env) (transaction_json env target old names)) \<le> POINTER_LIMIT
     \<and> (\<forall>b. old = Some b \<longrightarrow> file_content d PBackup = Some b \<and> size_of b \<le> MAX_CONFIG_BACKUP_BYTES)
     \<and> (\<forall>n \<in> set names. \<not> isl (secret_path n))"

lemma sorted_transaction: "sorted_json (transaction_json env target previous names)"
  by (auto simp: transaction_json_def list_all_iff)

lemma secret_path_form: "secret_path n = Inr p \<Longrightarrow> \<exists>ps. p = PSecret ps"
  by (auto simp: secret_path_def Let_def bindE_Inr_iff split: if_splits)

lemma string_list_map [simp]: "string_list (RList (map RStr xs)) = Some xs"
proof -
  have "those (map (\<lambda>x. case x of RStr s \<Rightarrow> Some s | _ \<Rightarrow> None) (map RStr xs)) = Some xs"
    by (induction xs) simp_all
  then show ?thesis by (simp add: string_list_def)
qed

lemma mapE_secrets: "\<forall>n \<in> set ns. \<not> isl (secret_path n) \<Longrightarrow> \<exists>ps. mapE secret_path ns = Inr ps"
proof (induction ns)
  case (Cons n ns)
  then obtain p ps where "secret_path n = Inr p" "mapE secret_path ns = Inr ps"
    by (cases "secret_path n") auto
  then show ?case by simp
qed simp

lemma journal_pending:
  assumes "json_ok (codec env)" "digest_ok env" "journal_ok env target old names d"
  shows "pending_transaction env target d = Inr (Some (old \<noteq> None,
    sha256_hex env (case old of Some b \<Rightarrow> b | None \<Rightarrow> []), names))"
proof -
  let ?t = "transaction_json env target old names"
  have "loads (codec env) (dumps (codec env) ?t) = Some ?t"
    using assms(1) sorted_transaction by (simp add: json_ok_def)
  moreover obtain f where f: "dict_get d PTransaction = Some f" "content f = dumps (codec env) ?t"
    using assms(3) by (auto simp: journal_ok_def file_content_def)
  ultimately have "read_json (codec env) PTransaction POINTER_LIMIT d = Inr ?t"
    using assms(3) by (simp add: read_json_def journal_ok_def)
  moreover have "parse_transaction env target ?t
      = Inr (old \<noteq> None, sha256_hex env (case old of Some b \<Rightarrow> b | None \<Rightarrow> []), names)"
    using assms(2) by (simp add: parse_transaction_def transaction_json_def equals_one_def digest_ok_def)
  moreover obtain ps where "mapE secret_path names = Inr ps"
    using mapE_secrets assms(3) unfolding journal_ok_def by blast
  ultimately show ?thesis using f(1) by (simp add: pending_transaction_def)
qed

text \<open>\<open>d\<close> and \<open>d'\<close> have the same files outside \<open>ps\<close>.\<close>

definition same_outside :: "path set \<Rightarrow> path disk \<Rightarrow> path disk \<Rightarrow> bool" where
  "same_outside ps d d' \<longleftrightarrow> (\<forall>p. p \<notin> ps \<longrightarrow> file_content d' p = file_content d p)"

lemma same_outside_set: "same_outside ps d d' \<Longrightarrow> p \<in> ps \<Longrightarrow> same_outside ps d (dict_set p f d')"
  by (auto simp: same_outside_def)

lemma same_outside_pop: "same_outside ps d d' \<Longrightarrow> p \<in> ps \<Longrightarrow> same_outside ps d (dict_pop p d')"
  by (auto simp: same_outside_def)

definition prepared ::
  "store_env \<Rightarrow> string \<Rightarrow> string list \<Rightarrow> path disk \<Rightarrow> path disk \<Rightarrow> bool" where
  "prepared env target names d0 d \<longleftrightarrow>
     same_outside {PBackup, PTransaction} d0 d
     \<and> journal_ok env target (file_content d0 (PConfig target)) names d
     \<and> (\<forall>p \<in> secret_files names. file_content d0 p = None)"

lemma mapE_fresh:
  "mapE (fresh_secret d) names = Inr ps \<Longrightarrow>
     (\<forall>n \<in> set names. \<not> isl (secret_path n)) \<and> (\<forall>p \<in> secret_files names. file_content d p = None)"
proof (induction names arbitrary: ps)
  case (Cons n names)
  then obtain p qs where "fresh_secret d n = Inr p" "mapE (fresh_secret d) names = Inr qs"
    by (auto simp: bindE_Inr_iff)
  then have "secret_path n = Inr p \<and> file_content d p = None"
    by (auto simp: fresh_secret_def bindE_Inr_iff file_content_def split: if_splits)
  with Cons.IH [OF \<open>mapE (fresh_secret d) names = Inr qs\<close>] show ?case
    by (auto simp: secret_files_def)
qed (simp add: secret_files_def)

lemma backup_source_Inr:
  "backup_source target d = Inr a \<Longrightarrow>
     a = file_content d (PConfig target) \<and> (\<forall>b. a = Some b \<longrightarrow> size_of b \<le> MAX_CONFIG_BACKUP_BYTES)"
  by (auto simp: backup_source_def file_content_def split: option.splits if_splits)

lemma crash_begin:
  assumes "json_ok (codec env)"
  shows "crash_spec (\<lambda>d. same_outside {PBackup, PTransaction} d0 d
        \<and> (file_content d PTransaction = None \<or> prepared env target names d0 d))
    (\<lambda>d. same_outside {PTransaction} d0 d)
    (begin_config_replace env target names) (\<lambda>_. prepared env target names d0)"
proof -
  let ?I = "\<lambda>d. same_outside {PBackup, PTransaction} d0 d
    \<and> (file_content d PTransaction = None \<or> prepared env target names d0 d)"
  let ?old = "file_content d0 (PConfig target)"
  let ?ok = "(\<forall>n \<in> set names. \<not> isl (secret_path n)) \<and> (\<forall>p \<in> secret_files names. file_content d0 p = None)
    \<and> (\<forall>b. ?old = Some b \<longrightarrow> size_of b \<le> MAX_CONFIG_BACKUP_BYTES)"
  have journal: "crash_spec ?I (\<lambda>d. file_content d PTransaction = None
        \<and> (\<forall>b. ?old = Some b \<longrightarrow> file_content d PBackup = Some b))
      (atomic_write_json (codec env) PTransaction (transaction_json env target ?old names) (Some POINTER_LIMIT))
      (\<lambda>_. prepared env target names d0)" if ?ok
  proof (rule crash_write_json, elim conjE)
    fix d t
    assume d: "same_outside {PBackup, PTransaction} d0 d" "file_content d PTransaction = None"
        "\<forall>b. ?old = Some b \<longrightarrow> file_content d PBackup = Some b"
      and len: "\<forall>m. Some POINTER_LIMIT = Some m \<longrightarrow>
        size_of (dumps (codec env) (transaction_json env target ?old names)) \<le> m"
    let ?d = "dict_set PTransaction
      \<lparr>content = dumps (codec env) (transaction_json env target ?old names), mtime = t\<rparr> d"
    have "same_outside {PBackup, PTransaction} d0 ?d" by (rule same_outside_set [OF d(1)]) simp
    moreover have "journal_ok env target ?old names ?d"
      using that d(3) len by (simp add: journal_ok_def)
    ultimately have "prepared env target names d0 ?d" using that by (simp add: prepared_def)
    then show "(same_outside {PBackup, PTransaction} d0 ?d
        \<and> (file_content ?d PTransaction = None \<or> prepared env target names d0 ?d))
        \<and> prepared env target names d0 ?d"
      by (simp add: prepared_def)
  qed
  have backup: "crash_spec ?I (\<lambda>d. file_content d PTransaction = None)
      (case ?old of Some bytes \<Rightarrow> atomic_write_bytes PBackup bytes | None \<Rightarrow> durable_unlink PBackup True)
      (\<lambda>_ d. file_content d PTransaction = None \<and> (\<forall>b. ?old = Some b \<longrightarrow> file_content d PBackup = Some b))"
    by (cases ?old)
       (auto intro!: crash_write crash_unlink same_outside_set same_outside_pop)
  show ?thesis
    unfolding begin_config_replace_def
  proof (rule crash_bind)
    show "crash_spec ?I (\<lambda>d. same_outside {PTransaction} d0 d)
        (readI (\<lambda>d. if dict_get d PTransaction \<noteq> None
                      then Inl (StorageError ''an unfinished configuration transaction exists'')
                      else bindE (mapE (fresh_secret d) names) (\<lambda>_. backup_source target d)))
        (\<lambda>a d. file_content d PTransaction = None \<and> (?ok \<and> a = ?old))"
    proof (rule crash_read)
      fix a d
      assume d: "same_outside {PTransaction} d0 d"
        and r: "(if dict_get d PTransaction \<noteq> None
            then Inl (StorageError ''an unfinished configuration transaction exists'')
            else bindE (mapE (fresh_secret d) names) (\<lambda>_. backup_source target d)) = Inr a"
      then obtain ps where "dict_get d PTransaction = None" "mapE (fresh_secret d) names = Inr ps"
          "backup_source target d = Inr a"
        by (auto simp: bindE_Inr_iff split: if_splits)
      moreover have same: "file_content d p = file_content d0 p" if "p \<noteq> PTransaction" for p
        using d that by (simp add: same_outside_def)
      moreover have "p \<noteq> PTransaction" if "p \<in> secret_files names" for p
        using that secret_path_form by (auto simp: secret_files_def)
      moreover have "file_content d p = None \<Longrightarrow> p \<in> secret_files names \<Longrightarrow> file_content d0 p = None" for p
        using calculation(4,5) by simp
      ultimately show "file_content d PTransaction = None \<and> (?ok \<and> a = ?old)"
        using mapE_fresh [of d names ps] backup_source_Inr [of target d a] by (simp add: file_content_def)
    qed
    fix a
    show "crash_spec ?I (\<lambda>d. file_content d PTransaction = None \<and> (?ok \<and> a = ?old))
      (bindI (case a of Some bytes \<Rightarrow> atomic_write_bytes PBackup bytes | None \<Rightarrow> durable_unlink PBackup True)
        (\<lambda>_. atomic_write_json (codec env) PTransaction (transaction_json env target a names)
           (Some POINTER_LIMIT))) (\<lambda>_. prepared env target names d0)"
    proof (rule crash_pure)
      assume ok: "?ok \<and> a = ?old"
      have "crash_spec ?I (\<lambda>d. file_content d PTransaction = None)
        (bindI (case ?old of Some bytes \<Rightarrow> atomic_write_bytes PBackup bytes | None \<Rightarrow> durable_unlink PBackup True)
          (\<lambda>_. atomic_write_json (codec env) PTransaction (transaction_json env target ?old names)
             (Some POINTER_LIMIT))) (\<lambda>_. prepared env target names d0)"
        by (rule crash_bind [OF backup journal]) (use ok in blast)
      then show "crash_spec ?I (\<lambda>d. file_content d PTransaction = None)
        (bindI (case a of Some bytes \<Rightarrow> atomic_write_bytes PBackup bytes | None \<Rightarrow> durable_unlink PBackup True)
          (\<lambda>_. atomic_write_json (codec env) PTransaction (transaction_json env target a names)
             (Some POINTER_LIMIT))) (\<lambda>_. prepared env target names d0)"
        using ok by simp
    qed
  qed
qed

text \<open>The journal is still there, and only what the transaction names has changed.\<close>

definition midway ::
  "store_env \<Rightarrow> string \<Rightarrow> string list \<Rightarrow> path disk \<Rightarrow> path disk \<Rightarrow> bool" where
  "midway env target names d0 d \<longleftrightarrow>
     same_outside ({PBackup, PTransaction, PConfig target} \<union> secret_files names) d0 d
     \<and> journal_ok env target (file_content d0 (PConfig target)) names d
     \<and> (\<forall>p \<in> secret_files names. file_content d0 p = None)"

definition restored :: "path disk \<Rightarrow> path disk \<Rightarrow> bool" where
  "restored d0 d \<longleftrightarrow> same_outside {PBackup} d0 d"

lemma prepared_candidate:
  assumes "prepared env target names d0 d1" "same_outside ({PConfig target} \<union> secret_files names) d1 d"
  shows "midway env target names d0 d"
proof -
  have "PBackup \<notin> secret_files names" "PTransaction \<notin> secret_files names"
    using secret_path_form by (auto simp: secret_files_def)
  then have "file_content d PBackup = file_content d1 PBackup"
    "file_content d PTransaction = file_content d1 PTransaction"
    using assms(2) by (auto simp: same_outside_def)
  then show ?thesis
    using assms unfolding prepared_def midway_def journal_ok_def same_outside_def by auto
qed

lemma midway_set:
  assumes "midway env target names d0 d" "p = PConfig target"
  shows "midway env target names d0 (dict_set p f d)"
  using assms by (auto simp: midway_def journal_ok_def intro: same_outside_set)

lemma midway_pop:
  assumes "midway env target names d0 d" "p = PConfig target \<or> p \<in> secret_files names"
  shows "midway env target names d0 (dict_pop p d)"
proof -
  have "p \<noteq> PBackup" "p \<noteq> PTransaction"
    using assms(2) secret_path_form by (auto simp: secret_files_def)
  then show ?thesis using assms by (auto simp: midway_def journal_ok_def intro: same_outside_pop)
qed

text \<open>The disk while the secrets named by \<open>ns\<close> are gone and the configuration is back.\<close>

definition rolled_back ::
  "store_env \<Rightarrow> string \<Rightarrow> string list \<Rightarrow> path disk \<Rightarrow> string list \<Rightarrow> path disk \<Rightarrow> bool" where
  "rolled_back env target names d0 ns d \<longleftrightarrow> midway env target names d0 d
     \<and> file_content d (PConfig target) = file_content d0 (PConfig target)
     \<and> (\<forall>p \<in> secret_files ns. file_content d p = None)"

lemma rolled_back_restored:
  assumes "rolled_back env target names d0 names d" "file_content d0 PTransaction = None"
  shows "restored d0 (dict_pop PTransaction d)"
proof -
  have "file_content d p = file_content d0 p" if "p \<noteq> PBackup" "p \<noteq> PTransaction" for p
    using assms(1) that by (auto simp: rolled_back_def midway_def same_outside_def)
  then show ?thesis using assms(2) by (simp add: restored_def same_outside_def)
qed

lemma rolled_back_pop:
  assumes "rolled_back env target names d0 ns d" "n \<in> set names" "secret_path n = Inr p"
  shows "rolled_back env target names d0 (ns @ [n]) (dict_pop p d)"
proof -
  have "p \<in> secret_files names" using assms(2,3) by (auto simp: secret_files_def)
  moreover have "p \<noteq> PConfig target" using assms(3) secret_path_form by blast
  moreover have "secret_files (ns @ [n]) = insert p (secret_files ns)"
    using assms(3) by (auto simp: secret_files_def)
  ultimately show ?thesis using assms(1) midway_pop by (auto simp: rolled_back_def)
qed

text \<open>A property that each step of a \<open>mapI\<close> extends by its element.\<close>

lemma crash_mapI_extend:
  assumes "\<And>ys x. x \<in> set xs \<Longrightarrow> crash_spec I (R ys) (f x) (\<lambda>_. R (ys @ [x]))"
  shows "crash_spec I (R ys) (mapI f xs) (\<lambda>_. R (ys @ xs))"
  using assms
proof (induction xs arbitrary: ys)
  case Nil
  show ?case by (simp add: crash_return)
next
  case (Cons x xs)
  have "crash_spec I (R (ys @ [x])) (mapI f xs) (\<lambda>_. R ((ys @ [x]) @ xs))"
    by (rule Cons.IH) (use Cons.prems in simp)
  then show ?case
    unfolding mapI.simps by (intro crash_bind [where R = "\<lambda>_. R (ys @ [x])"]) (use Cons.prems in simp_all)
qed

lemma total_mapI_extend:
  assumes "\<And>ys x. x \<in> set xs \<Longrightarrow> total_spec (R ys) (f x) (\<lambda>_. R (ys @ [x]))"
  shows "total_spec (R ys) (mapI f xs) (\<lambda>_. R (ys @ xs))"
  using assms
proof (induction xs arbitrary: ys)
  case Nil
  show ?case by (simp add: total_return)
next
  case (Cons x xs)
  have "total_spec (R (ys @ [x])) (mapI f xs) (\<lambda>_. R ((ys @ [x]) @ xs))"
    by (rule Cons.IH) (use Cons.prems in simp)
  then show ?case
    unfolding mapI.simps by (intro total_bind [where R = "\<lambda>_. R (ys @ [x])"]) (use Cons.prems in simp_all)
qed

text \<open>The disks between which recovery moves.\<close>

definition recoverable ::
  "store_env \<Rightarrow> string \<Rightarrow> string list \<Rightarrow> path disk \<Rightarrow> path disk \<Rightarrow> bool" where
  "recoverable env target names d0 d \<longleftrightarrow> midway env target names d0 d \<or> restored d0 d"

lemma restored_journal: "restored d0 d \<Longrightarrow> file_content d0 PTransaction = None \<Longrightarrow> dict_get d PTransaction = None"
  by (cases "dict_get d PTransaction") (auto simp: restored_def same_outside_def file_content_def)

lemma restored_pop: "restored d0 d \<Longrightarrow> restored d0 (dict_pop PBackup d)"
  by (simp add: restored_def same_outside_pop)

lemma midway_backup:
  assumes "digest_ok env" "midway env target names d0 d" "file_content d0 (PConfig target) = Some b"
  shows "read_backup env (sha256_hex env b) d = Inr b"
  using assms by (cases "dict_get d PBackup") (auto simp: midway_def journal_ok_def read_backup_def file_content_def)

lemma midway_secret: "midway env target names d0 d \<Longrightarrow> n \<in> set names \<Longrightarrow> \<exists>p. secret_path n = Inr p"
  by (cases "secret_path n") (auto simp: midway_def journal_ok_def)

definition journal_of :: "store_env \<Rightarrow> string list \<Rightarrow> string option \<Rightarrow> bool \<times> string \<times> string list" where
  "journal_of env names old =
     (old \<noteq> None, sha256_hex env (case old of Some b \<Rightarrow> b | None \<Rightarrow> []), names)"

lemma pending_midway:
  "json_ok (codec env) \<Longrightarrow> digest_ok env \<Longrightarrow> midway env target names d0 d \<Longrightarrow>
     pending_transaction env target d = Inr (Some (journal_of env names (file_content d0 (PConfig target))))"
  using journal_pending by (simp add: midway_def journal_of_def)

lemma pending_restored:
  "restored d0 d \<Longrightarrow> file_content d0 PTransaction = None \<Longrightarrow> pending_transaction env target d = Inr None"
  by (simp add: pending_transaction_def restored_journal)

text \<open>The rest of \<open>recover_config_replace\<close> once the journal is read.\<close>

definition roll_back :: "store_env \<Rightarrow> string \<Rightarrow> bool \<times> string \<times> string list \<Rightarrow> (path, bool) io" where
  "roll_back env target = (\<lambda>(existed, digest, names).
     bindI (if existed
            then bindI (readI (read_backup env digest)) (atomic_write_bytes (PConfig target))
            else durable_unlink (PConfig target) True) (\<lambda>_.
     bindI (mapI remove_secret names) (\<lambda>_.
     bindI (durable_unlink PTransaction True) (\<lambda>_.
     bindI (durable_unlink PBackup True) (\<lambda>_. returnI True)))))"

lemma recover_roll_back:
  "recover_config_replace env target =
     bindI (readI (pending_transaction env target)) (\<lambda>pending.
       case pending of
         None \<Rightarrow> bindI (durable_unlink PBackup True) (\<lambda>_. returnI False)
       | Some t \<Rightarrow> roll_back env target t)"
  by (simp add: recover_config_replace_def roll_back_def case_prod_beta' cong: option.case_cong)

lemma rolled_back_start:
  "midway env target names d0 d \<Longrightarrow> file_content d (PConfig target) = file_content d0 (PConfig target)
     \<Longrightarrow> rolled_back env target names d0 [] d"
  by (simp add: rolled_back_def secret_files_def)

lemma rolled_back_missing:
  assumes "rolled_back env target names d0 ns d" "n \<in> set names" "secret_path n = Inr p" "dict_get d p = None"
  shows "rolled_back env target names d0 (ns @ [n]) d"
proof -
  have "secret_files (ns @ [n]) = insert p (secret_files ns)"
    using assms(3) by (auto simp: secret_files_def)
  then show ?thesis using assms(1,4) by (auto simp: rolled_back_def file_content_def)
qed

lemma rolled_back_written:
  assumes "midway env target names d0 d" "file_content d0 (PConfig target) = Some b"
  shows "rolled_back env target names d0 [] (dict_set (PConfig target) \<lparr>content = b, mtime = t\<rparr> d)"
  by (rule rolled_back_start) (use assms in \<open>simp_all add: midway_set\<close>)

lemma rolled_back_removed:
  assumes "midway env target names d0 d" "file_content d0 (PConfig target) = None"
  shows "rolled_back env target names d0 [] (dict_pop (PConfig target) d)"
  by (rule rolled_back_start) (use assms in \<open>simp_all add: midway_pop\<close>)

lemma rolled_back_absent:
  assumes "midway env target names d0 d" "file_content d0 (PConfig target) = None"
    "dict_get d (PConfig target) = None"
  shows "rolled_back env target names d0 [] d"
  by (rule rolled_back_start) (use assms in \<open>simp_all add: file_content_def\<close>)

lemma crash_restore:
  assumes "digest_ok env"
  shows "crash_spec (recoverable env target names d0) (midway env target names d0)
    (if file_content d0 (PConfig target) \<noteq> None
     then bindI (readI (read_backup env (sha256_hex env (case file_content d0 (PConfig target) of Some b \<Rightarrow> b | None \<Rightarrow> []))))
            (atomic_write_bytes (PConfig target))
     else durable_unlink (PConfig target) True)
    (\<lambda>_. rolled_back env target names d0 [])"
proof (cases "file_content d0 (PConfig target)")
  case (Some b)
  have "crash_spec (recoverable env target names d0) (midway env target names d0)
      (bindI (readI (read_backup env (sha256_hex env b))) (atomic_write_bytes (PConfig target)))
      (\<lambda>_. rolled_back env target names d0 [])"
  proof (rule crash_bind)
    show "crash_spec (recoverable env target names d0) (midway env target names d0)
        (readI (read_backup env (sha256_hex env b))) (\<lambda>a d. midway env target names d0 d \<and> a = b)"
      by (rule crash_read) (use midway_backup [OF assms _ Some] in fastforce)
    show "crash_spec (recoverable env target names d0) (\<lambda>d. midway env target names d0 d \<and> a = b)
        (atomic_write_bytes (PConfig target) a) (\<lambda>_. rolled_back env target names d0 [])" for a
      by (intro crash_pure(2) crash_write)
         (use rolled_back_written [OF _ Some] midway_set in \<open>auto simp: recoverable_def\<close>)
  qed
  with Some show ?thesis by simp
next
  case None
  have "crash_spec (recoverable env target names d0) (midway env target names d0)
      (durable_unlink (PConfig target) True) (\<lambda>_. rolled_back env target names d0 [])"
    by (rule crash_unlink)
       (use rolled_back_removed [OF _ None] rolled_back_absent [OF _ None] midway_pop
         in \<open>auto simp: recoverable_def\<close>)
  with None show ?thesis by simp
qed

lemma rolled_back_recoverable: "rolled_back env target names d0 ns d \<Longrightarrow> recoverable env target names d0 d"
  by (simp add: rolled_back_def recoverable_def)

lemma crash_remove_secret:
  assumes "n \<in> set names"
  shows "crash_spec (recoverable env target names d0) (rolled_back env target names d0 ns) (remove_secret n)
    (\<lambda>_. rolled_back env target names d0 (ns @ [n]))"
  unfolding remove_secret_def
proof (rule crash_bind)
  show "crash_spec (recoverable env target names d0) (rolled_back env target names d0 ns)
      (readI (\<lambda>_. secret_path n)) (\<lambda>p d. rolled_back env target names d0 ns d \<and> secret_path n = Inr p)"
    by (rule crash_read) simp
  show "crash_spec (recoverable env target names d0)
      (\<lambda>d. rolled_back env target names d0 ns d \<and> secret_path n = Inr p)
      (durable_unlink p True) (\<lambda>_. rolled_back env target names d0 (ns @ [n]))" for p
    by (intro crash_pure(2) crash_unlink)
       (auto intro: rolled_back_pop [OF _ assms] rolled_back_missing [OF _ assms]
          rolled_back_recoverable [OF rolled_back_pop [OF _ assms]])
qed

lemma crash_roll_back:
  assumes "digest_ok env" "file_content d0 PTransaction = None"
  shows "crash_spec (recoverable env target names d0) (midway env target names d0)
    (roll_back env target (journal_of env names (file_content d0 (PConfig target)))) (\<lambda>_. restored d0)"
  unfolding roll_back_def journal_of_def prod.case
proof (intro crash_bind [OF crash_restore [OF assms(1)]])
  fix a
  have secrets: "crash_spec (recoverable env target names d0) (rolled_back env target names d0 [])
      (mapI remove_secret names) (\<lambda>_. rolled_back env target names d0 names)"
    using crash_mapI_extend [of names "recoverable env target names d0" "rolled_back env target names d0"
      remove_secret "[]"] crash_remove_secret by simp
  have journal: "crash_spec (recoverable env target names d0) (rolled_back env target names d0 names)
      (durable_unlink PTransaction True) (\<lambda>_. restored d0)"
  proof (rule crash_unlink)
    fix d
    assume d: "rolled_back env target names d0 names d"
    from rolled_back_restored [OF d assms(2)]
    show "recoverable env target names d0 (dict_pop PTransaction d) \<and> restored d0 (dict_pop PTransaction d)"
      by (simp add: recoverable_def)
    show "restored d0 d" if "dict_get d PTransaction = None"
      using d that by (simp add: rolled_back_def midway_def journal_ok_def file_content_def)
  qed
  have backup: "crash_spec (recoverable env target names d0) (restored d0) (durable_unlink PBackup True) (\<lambda>_. restored d0)"
    by (rule crash_unlink) (use restored_pop in \<open>auto simp: recoverable_def\<close>)
  show "crash_spec (recoverable env target names d0) (rolled_back env target names d0 [])
      (bindI (mapI remove_secret names) (\<lambda>_. bindI (durable_unlink PTransaction True) (\<lambda>_.
        bindI (durable_unlink PBackup True) (\<lambda>_. returnI True)))) (\<lambda>_. restored d0)"
    by (rule crash_bind [OF secrets], rule crash_bind [OF journal], rule crash_bind [OF backup],
        rule crash_return)
qed

lemma crash_recover:
  assumes env: "json_ok (codec env)" "digest_ok env" and clean: "file_content d0 PTransaction = None"
  shows "crash_spec (recoverable env target names d0) (\<lambda>_. True)
    (recover_config_replace env target) (\<lambda>_. restored d0)"
  unfolding recover_roll_back
proof (rule crash_bind)
  let ?t = "journal_of env names (file_content d0 (PConfig target))"
  show "crash_spec (recoverable env target names d0) (\<lambda>_. True) (readI (pending_transaction env target))
      (\<lambda>a d. a = None \<and> restored d0 d \<or> a = Some ?t \<and> midway env target names d0 d)"
    by (rule crash_read)
       (use pending_midway [OF env] pending_restored [OF _ clean] in \<open>fastforce simp: recoverable_def\<close>)
  fix a
  show "crash_spec (recoverable env target names d0)
      (\<lambda>d. a = None \<and> restored d0 d \<or> a = Some ?t \<and> midway env target names d0 d)
      (case a of None \<Rightarrow> bindI (durable_unlink PBackup True) (\<lambda>_. returnI False)
        | Some t \<Rightarrow> roll_back env target t) (\<lambda>_. restored d0)"
  proof (cases a)
    case None
    have "crash_spec (recoverable env target names d0) (restored d0)
        (bindI (durable_unlink PBackup True) (\<lambda>_. returnI False)) (\<lambda>_. restored d0)"
      by (rule crash_bind [where R = "\<lambda>_. restored d0"], rule crash_unlink)
         (use restored_pop in \<open>auto simp: recoverable_def intro: crash_return\<close>)
    then show ?thesis using None by simp
  next
    case (Some t)
    then show ?thesis using crash_roll_back [OF env(2) clean, of target names] by (cases "t = ?t") (auto simp: crash_spec_def)
  qed
qed

section \<open>Recovery without faults succeeds\<close>

lemma total_restore:
  assumes "digest_ok env"
  shows "total_spec (midway env target names d0)
    (if file_content d0 (PConfig target) \<noteq> None
     then bindI (readI (read_backup env (sha256_hex env (case file_content d0 (PConfig target) of Some b \<Rightarrow> b | None \<Rightarrow> []))))
            (atomic_write_bytes (PConfig target))
     else durable_unlink (PConfig target) True)
    (\<lambda>_. rolled_back env target names d0 [])"
proof (cases "file_content d0 (PConfig target)")
  case (Some b)
  have "total_spec (midway env target names d0)
      (bindI (readI (read_backup env (sha256_hex env b))) (atomic_write_bytes (PConfig target)))
      (\<lambda>_. rolled_back env target names d0 [])"
  proof (rule total_bind)
    show "total_spec (midway env target names d0) (readI (read_backup env (sha256_hex env b)))
        (\<lambda>a d. midway env target names d0 d \<and> a = b)"
      by (rule total_read) (use midway_backup [OF assms _ Some] in blast)
    show "total_spec (\<lambda>d. midway env target names d0 d \<and> a = b)
        (atomic_write_bytes (PConfig target) a) (\<lambda>_. rolled_back env target names d0 [])" for a
      by (intro total_pure total_write) (use rolled_back_written [OF _ Some] in simp)
  qed
  with Some show ?thesis by simp
next
  case None
  have "total_spec (midway env target names d0) (durable_unlink (PConfig target) True)
      (\<lambda>_. rolled_back env target names d0 [])"
    by (rule total_unlink) (use rolled_back_removed [OF _ None] rolled_back_absent [OF _ None] in simp_all)
  with None show ?thesis by simp
qed

lemma total_remove_secret:
  assumes "n \<in> set names"
  shows "total_spec (rolled_back env target names d0 ns) (remove_secret n)
    (\<lambda>_. rolled_back env target names d0 (ns @ [n]))"
  unfolding remove_secret_def
proof (rule total_bind)
  show "total_spec (rolled_back env target names d0 ns) (readI (\<lambda>_. secret_path n))
      (\<lambda>p d. rolled_back env target names d0 ns d \<and> secret_path n = Inr p)"
    by (rule total_read) (use midway_secret assms in \<open>fastforce simp: rolled_back_def\<close>)
  show "total_spec (\<lambda>d. rolled_back env target names d0 ns d \<and> secret_path n = Inr p)
      (durable_unlink p True) (\<lambda>_. rolled_back env target names d0 (ns @ [n]))" for p
    by (intro total_pure total_unlink)
       (auto intro: rolled_back_pop [OF _ assms] rolled_back_missing [OF _ assms])
qed

lemma total_roll_back:
  assumes "digest_ok env" "file_content d0 PTransaction = None"
  shows "total_spec (midway env target names d0)
    (roll_back env target (journal_of env names (file_content d0 (PConfig target)))) (\<lambda>_. restored d0)"
  unfolding roll_back_def journal_of_def prod.case
proof (intro total_bind [OF total_restore [OF assms(1)]])
  fix a
  have secrets: "total_spec (rolled_back env target names d0 []) (mapI remove_secret names)
      (\<lambda>_. rolled_back env target names d0 names)"
    using total_mapI_extend [of names "rolled_back env target names d0" remove_secret "[]"]
      total_remove_secret by simp
  have journal: "total_spec (rolled_back env target names d0 names) (durable_unlink PTransaction True)
      (\<lambda>_. restored d0)"
    by (rule total_unlink)
       (use rolled_back_restored [OF _ assms(2)] in
         \<open>auto simp: rolled_back_def midway_def journal_ok_def file_content_def\<close>)
  have backup: "total_spec (restored d0) (durable_unlink PBackup True) (\<lambda>_. restored d0)"
    by (rule total_unlink) (use restored_pop in simp_all)
  show "total_spec (rolled_back env target names d0 [])
      (bindI (mapI remove_secret names) (\<lambda>_. bindI (durable_unlink PTransaction True) (\<lambda>_.
        bindI (durable_unlink PBackup True) (\<lambda>_. returnI True)))) (\<lambda>_. restored d0)"
    by (rule total_bind [OF secrets], rule total_bind [OF journal], rule total_bind [OF backup],
        rule total_return)
qed

lemma total_recover:
  assumes env: "json_ok (codec env)" "digest_ok env" and clean: "file_content d0 PTransaction = None"
  shows "total_spec (recoverable env target names d0) (recover_config_replace env target) (\<lambda>_. restored d0)"
  unfolding recover_roll_back
proof (rule total_bind)
  let ?t = "journal_of env names (file_content d0 (PConfig target))"
  show "total_spec (recoverable env target names d0) (readI (pending_transaction env target))
      (\<lambda>a d. a = None \<and> restored d0 d \<or> a = Some ?t \<and> midway env target names d0 d)"
    by (rule total_read)
       (use pending_midway [OF env] pending_restored [OF _ clean] in \<open>fastforce simp: recoverable_def\<close>)
  fix a
  show "total_spec (\<lambda>d. a = None \<and> restored d0 d \<or> a = Some ?t \<and> midway env target names d0 d)
      (case a of None \<Rightarrow> bindI (durable_unlink PBackup True) (\<lambda>_. returnI False)
        | Some t \<Rightarrow> roll_back env target t) (\<lambda>_. restored d0)"
  proof (cases a)
    case None
    have "total_spec (restored d0) (bindI (durable_unlink PBackup True) (\<lambda>_. returnI False)) (\<lambda>_. restored d0)"
      by (rule total_bind [where R = "\<lambda>_. restored d0"], rule total_unlink)
         (use restored_pop in \<open>auto intro: total_return\<close>)
    then show ?thesis using None by simp
  next
    case (Some t)
    then show ?thesis using total_roll_back [OF env(2) clean, of target names]
      by (cases "t = ?t") (auto simp: total_spec_def)
  qed
qed

section \<open>Commit\<close>

definition committed :: "path disk \<Rightarrow> path disk \<Rightarrow> bool" where
  "committed d1 d \<longleftrightarrow> same_outside {PBackup, PTransaction} d1 d \<and> dict_get d PTransaction = None"

lemma crash_commit:
  "crash_spec (\<lambda>d. same_outside {} d1 d \<or> committed d1 d) (same_outside {} d1)
     (commit_config_replace env target) (\<lambda>_. committed d1)"
  unfolding commit_config_replace_def
proof (rule crash_bind)
  let ?I = "\<lambda>d. same_outside {} d1 d \<or> committed d1 d"
  show "crash_spec ?I (same_outside {} d1)
      (readI (\<lambda>d. bindE (has_pending_config_replace env target d) (\<lambda>pending.
              if pending then Inr ()
              else Inl (StorageError ''configuration transaction is not prepared''))))
      (\<lambda>_. same_outside {} d1)"
    by (rule crash_read) simp
  have pop: "committed d1 (dict_pop PTransaction d)" if "same_outside {} d1 d" for d
    using that by (auto simp: committed_def same_outside_def)
  have gone: "committed d1 d" if "same_outside {} d1 d" "dict_get d PTransaction = None" for d
    using that by (auto simp: committed_def same_outside_def)
  have backup: "committed d1 (dict_pop PBackup d)" if "committed d1 d" for d
    using that by (auto simp: committed_def same_outside_def)
  show "crash_spec ?I (same_outside {} d1)
      (bindI (durable_unlink PTransaction True) (\<lambda>_. catchI (durable_unlink PBackup True) (returnI ())))
      (\<lambda>_. committed d1)" for a
  proof (rule crash_bind)
    show "crash_spec ?I (same_outside {} d1) (durable_unlink PTransaction True) (\<lambda>_. committed d1)"
      by (rule crash_unlink) (simp_all add: pop gone)
    have "crash_spec (committed d1) (\<lambda>_. True) (catchI (durable_unlink PBackup True) (returnI ())) (\<lambda>_ _. True)"
      by (intro crash_catch crash_unlink crash_return) (simp_all add: backup)
    then show "crash_spec ?I (committed d1) (catchI (durable_unlink PBackup True) (returnI ())) (\<lambda>_. committed d1)"
      by (rule crash_spec_mono) simp_all
  qed
qed

section \<open>Properties\<close>

lemma begin_prepares:
  assumes "json_ok (codec env)" "begin_config_replace env target names w = (Inr (), w')"
  shows "prepared env target names (files w) (files w')" "file_content (files w) PTransaction = None"
proof -
  show clean: "file_content (files w) PTransaction = None"
    using assms(2) by (auto simp: begin_config_replace_def bindI_def readI_def file_content_def split: if_splits)
  have same: "same_outside ps (files w) (files w)" for ps by (simp add: same_outside_def)
  show "prepared env target names (files w) (files w')"
    by (rule crash_specD(3) [OF crash_begin [OF assms(1)] _ same assms(2) refl])
       (simp add: same clean)
qed

text \<open>The candidate: only the configuration file and the announced secrets change.\<close>

definition candidate :: "string \<Rightarrow> string list \<Rightarrow> path disk \<Rightarrow> path disk \<Rightarrow> bool" where
  "candidate target names d d' \<longleftrightarrow> same_outside ({PConfig target} \<union> secret_files names) d d'"

text \<open>A recovery that is not disturbed by faults succeeds and ends on a disk with \<open>Q\<close>.\<close>

definition recovers :: "store_env \<Rightarrow> string \<Rightarrow> (path disk \<Rightarrow> bool) \<Rightarrow> path disk \<Rightarrow> bool" where
  "recovers env target Q d \<longleftrightarrow>
     (\<forall>v :: path world. files v = d \<longrightarrow> faults v = [] \<longrightarrow>
        (\<exists>b v'. recover_config_replace env target v = (Inr b, v') \<and> Q (files v')))"

lemma recoverable_recovers:
  assumes "json_ok (codec env)" "digest_ok env" "file_content d0 PTransaction = None"
    "recoverable env target names d0 d"
  shows "recovers env target (restored d0) d"
  using total_recover [OF assms(1-3), of target names] assms(4)
  unfolding total_spec_def recovers_def by blast

lemma committed_recovers:
  assumes "committed d1 d"
  shows "recovers env target (same_outside {PBackup, PTransaction} d1) d"
  unfolding recovers_def
proof (intro allI impI)
  fix v :: "path world"
  assume v: "files v = d" "faults v = []"
  have pop: "same_outside {PBackup, PTransaction} d1 (dict_pop PBackup d)"
    using assms by (auto simp: committed_def intro: same_outside_pop)
  have "pending_transaction env target d = Inr None"
    using assms by (simp add: committed_def pending_transaction_def)
  then show "\<exists>b v'. recover_config_replace env target v = (Inr b, v')
      \<and> same_outside {PBackup, PTransaction} d1 (files v')"
    using v pop assms by (cases "dict_get d PBackup")
      (simp_all add: recover_config_replace_def bindI_def readI_def returnI_def durable_unlink_def
        change_def next_outcome_def Let_def committed_def exI [of "\<lambda>b. \<not> b" False])
qed

text \<open>A configuration with one new secret.\<close>

definition sample_begun :: "path world" where
  "sample_begun = snd (begin_config_replace plain_env ''config.yaml'' [''token'']
     (fresh_world [(PConfig ''config.yaml'', \<lparr>content = ''old'', mtime = 0\<rparr>)] []))"

definition sample_candidate :: "path disk" where
  "sample_candidate = dict_set (PConfig ''config.yaml'') \<lparr>content = ''new'', mtime = 9\<rparr>
     (dict_set (PSecret [''token'']) \<lparr>content = ''secret'', mtime = 9\<rparr> (files sample_begun))"

lemma sample_transaction:
  "json_ok (codec plain_env)" "digest_ok plain_env"
  "begin_config_replace plain_env ''config.yaml'' [''token'']
     (fresh_world [(PConfig ''config.yaml'', \<lparr>content = ''old'', mtime = 0\<rparr>)] []) = (Inr (), sample_begun)"
  "candidate ''config.yaml'' [''token''] (files sample_begun) sample_candidate"
proof -
  show "json_ok (codec plain_env)" using tagged_codec_ok by (simp add: plain_env_def)
  show "digest_ok plain_env" by (simp add: digest_ok_def plain_env_def lower_hex_def char_class_defs list_all_iff)
  have "fst (begin_config_replace plain_env ''config.yaml'' [''token'']
     (fresh_world [(PConfig ''config.yaml'', \<lparr>content = ''old'', mtime = 0\<rparr>)] [])) = Inr ()"
    by code_simp
  then show "begin_config_replace plain_env ''config.yaml'' [''token'']
     (fresh_world [(PConfig ''config.yaml'', \<lparr>content = ''old'', mtime = 0\<rparr>)] []) = (Inr (), sample_begun)"
    unfolding sample_begun_def by (metis prod.collapse)
  have "secret_path ''token'' = Inr (PSecret [''token''])" by code_simp
  then have "PSecret [''token''] \<in> secret_files [''token'']" by (simp add: secret_files_def)
  then show "candidate ''config.yaml'' [''token''] (files sample_begun) sample_candidate"
    unfolding candidate_def sample_candidate_def
    by (intro same_outside_set) (simp_all add: same_outside_def)
qed

text \<open>C7: a configuration replacement that has begun rolls back. Whatever of the candidate has reached
  the disk, \<open>recover_config_replace\<close> leaves only disks from which an undisturbed recovery succeeds and
  restores all files as they were before \<open>begin_config_replace\<close> (only the backup file may differ),
  however often it is interrupted or fails; when it returns, they are restored.\<close>

theorem config_replace_rolls_back:
  assumes "json_ok (codec env)" "digest_ok env"
    and "begin_config_replace env target names w0 = (Inr (), w1)"
    and "candidate target names (files w1) (files w)"
    and "recover_config_replace env target w = (r, w')"
  shows "\<exists>made. history w' = history w @ made
    \<and> (\<forall>d \<in> set (files w # made @ [files w']). recovers env target (restored (files w0)) d)
    \<and> (\<forall>b. r = Inr b \<longrightarrow> restored (files w0) (files w'))"
proof -
  note B = begin_prepares [OF assms(1,3)]
  have start: "recoverable env target names (files w0) (files w)"
    using prepared_candidate [OF B(1)] assms(4) by (simp add: candidate_def recoverable_def)
  note R = recoverable_recovers [OF assms(1,2) B(2), of target names]
  note C = crash_specD [OF crash_recover [OF assms(1,2) B(2)] start TrueI assms(5)]
  from C(1) obtain made where made: "history w' = history w @ made"
      "\<forall>d \<in> set made. recoverable env target names (files w0) d"
    by blast
  then have "\<forall>d \<in> set (files w # made @ [files w']). recovers env target (restored (files w0)) d"
    using R start C(2) by simp
  with made(1) C(3) show ?thesis by blast
qed

text \<open>The secret cannot be removed at first.\<close>

lemma config_replace_rolls_back_witness:
  "recovers plain_env ''config.yaml''
     (restored [(PConfig ''config.yaml'', \<lparr>content = ''old'', mtime = 0\<rparr>)])
     (files (snd (recover_config_replace plain_env ''config.yaml'' (fresh_world sample_candidate [Done, Refused]))))"
  using config_replace_rolls_back [OF sample_transaction(1-3), of "fresh_world sample_candidate [Done, Refused]",
      OF _ prod.collapse [symmetric]] sample_transaction(4)
  by (auto simp: fresh_world_def)

text \<open>The commit of a configuration replacement is atomic. On every disk that an interrupted or
  failing \<open>commit_config_replace\<close> can leave, an undisturbed recovery either restores the files of
  before \<open>begin_config_replace\<close>, or it keeps the candidate with all its secrets; when the commit has
  returned, it keeps the candidate.\<close>

theorem config_replace_commits:
  assumes "json_ok (codec env)" "digest_ok env"
    and "begin_config_replace env target names w0 = (Inr (), w1)"
    and "candidate target names (files w1) (files w)"
    and "commit_config_replace env target w = (r, w')"
  shows "\<exists>made. history w' = history w @ made
    \<and> (\<forall>d \<in> set (made @ [files w']). recovers env target (restored (files w0)) d
         \<or> recovers env target (same_outside {PBackup, PTransaction} (files w)) d)
    \<and> (r = Inr () \<longrightarrow> recovers env target (same_outside {PBackup, PTransaction} (files w)) (files w'))"
proof -
  note B = begin_prepares [OF assms(1,3)]
  note M = prepared_candidate [OF B(1) assms(4) [unfolded candidate_def]]
  have same: "same_outside {} (files w) (files w)" by (simp add: same_outside_def)
  note C = crash_specD [OF crash_commit disjI1 [OF same] same assms(5)]
  have keep: "recovers env target (restored (files w0)) d" if "same_outside {} (files w) d" for d
  proof (rule recoverable_recovers [OF assms(1,2) B(2)])
    have "midway env target names (files w0) d"
      using M that by (auto simp: midway_def journal_ok_def same_outside_def)
    then show "recoverable env target names (files w0) d" by (simp add: recoverable_def)
  qed
  from C(1) obtain made where made: "history w' = history w @ made"
      "\<forall>d \<in> set made. same_outside {} (files w) d \<or> committed (files w) d"
    by blast
  then have "\<forall>d \<in> set (made @ [files w']). recovers env target (restored (files w0)) d
      \<or> recovers env target (same_outside {PBackup, PTransaction} (files w)) d"
    using keep committed_recovers C(2) by auto
  with made(1) C(3) committed_recovers show ?thesis by blast
qed

text \<open>The journal is gone, and the backup stays behind.\<close>

lemma config_replace_commits_witness:
  "recovers plain_env ''config.yaml'' (same_outside {PBackup, PTransaction} sample_candidate)
     (files (snd (commit_config_replace plain_env ''config.yaml'' (fresh_world sample_candidate [Done, Refused]))))"
proof -
  let ?w = "fresh_world sample_candidate [Done, Refused]"
  let ?c = "commit_config_replace plain_env ''config.yaml'' ?w"
  have ret: "fst ?c = Inr ()" by code_simp
  have w: "files ?w = sample_candidate" by (simp add: fresh_world_def)
  have "fst ?c = Inr () \<longrightarrow> recovers plain_env ''config.yaml''
      (same_outside {PBackup, PTransaction} (files ?w)) (files (snd ?c))"
    using config_replace_commits [OF sample_transaction(1-3), of ?w, OF _ prod.collapse [symmetric]]
      sample_transaction(4) unfolding w by blast
  then show ?thesis using ret unfolding w by blast
qed

end
