(* ===== verification/PyParse.thy ===== *)
theory PyParse
  imports PyUrl
begin

text \<open>
  Parsing functions of Python's standard library that the importers call (CPython 3.13):
  \<open>str.splitlines\<close>, \<open>in\<close> on strings, \<open>urllib.parse.unquote\<close> and \<open>parse_qsl\<close>, \<open>int(s, 16)\<close> and
  \<open>str(uuid.UUID(s))\<close>. The UTF-8 codec that \<open>unquote\<close> applies to decoded bytes is an argument.
\<close>

section \<open>Lines and substrings\<close>

definition line_break :: "char \<Rightarrow> bool" where
  "line_break c \<longleftrightarrow> between 10 13 c \<or> between 28 30 c \<or> code c = 133"

fun lines_from :: "string \<Rightarrow> string \<Rightarrow> string list" where
  "lines_from w [] = (if w = [] then [] else [w])"
| "lines_from w (c # s) =
     (if c = CR \<and> s \<noteq> [] \<and> hd s = LF then w # lines_from [] (tl s)
      else if line_break c then w # lines_from [] s
      else lines_from (w @ [c]) s)"

definition py_splitlines :: "string \<Rightarrow> string list" where
  "py_splitlines s = lines_from [] s"

definition starts_with :: "string \<Rightarrow> string \<Rightarrow> bool" where
  "starts_with p s \<longleftrightarrow> take (length p) s = p"

text \<open>\<open>needle in hay\<close>.\<close>

fun occurs_in :: "string \<Rightarrow> string \<Rightarrow> bool" where
  "occurs_in needle [] \<longleftrightarrow> needle = []"
| "occurs_in needle (c # s) \<longleftrightarrow> starts_with needle (c # s) \<or> occurs_in needle s"

section \<open>Percent encoding\<close>

definition hex_pair :: "string \<Rightarrow> bool" where
  "hex_pair s \<longleftrightarrow> length (take 2 s) = 2 \<and> list_all ascii_hex (take 2 s)"

text \<open>\<open>unquote_to_bytes\<close>: a percent sign without two hexadecimal digits stays.\<close>

function unquote_bytes :: "string \<Rightarrow> string" where
  "unquote_bytes [] = []"
| "unquote_bytes (c # s) =
     (if c = CHR ''%'' \<and> hex_pair s
      then char_of (digits_value 16 0 (take 2 s)) # unquote_bytes (drop 2 s)
      else c # unquote_bytes s)"
  by pat_completeness auto
termination by (relation "measure length") auto

text \<open>\<open>unquote\<close>: every maximal run of ASCII is decoded to bytes and read as UTF-8.\<close>

function unquote :: "(string \<Rightarrow> string) \<Rightarrow> string \<Rightarrow> string" where
  "unquote utf8 [] = []"
| "unquote utf8 (c # s) =
     (if code c < 128
      then utf8 (unquote_bytes (takeWhile (\<lambda>d. code d < 128) (c # s)))
             @ unquote utf8 (dropWhile (\<lambda>d. code d < 128) s)
      else c # unquote utf8 s)"
  by pat_completeness auto
termination by (relation "measure (\<lambda>(f, s). length s)") (auto simp: le_imp_less_Suc length_dropWhile_le)

text \<open>\<open>parse_qsl(query, keep_blank_values=True, max_num_fields=limit)\<close>; \<open>None\<close> is \<open>ValueError\<close>.\<close>

definition query_field :: "(string \<Rightarrow> string) \<Rightarrow> string \<Rightarrow> string \<times> string" where
  "query_field utf8 field =
     (let (name, _, value) = py_partition (CHR ''='') field;
          text = (\<lambda>s. unquote utf8 (map (\<lambda>c. if c = CHR ''+'' then CHR '' '' else c) s))
      in (text name, text value))"

definition parse_qsl :: "(string \<Rightarrow> string) \<Rightarrow> nat \<Rightarrow> string \<Rightarrow> (string \<times> string) list option" where
  "parse_qsl utf8 limit query =
     (if query = [] then Some []
      else if 1 + length (filter (\<lambda>c. c = CHR ''&'') query) > limit then None
      else Some (map (query_field utf8) (filter (\<lambda>f. f \<noteq> []) (split_on (CHR ''&'') query))))"

section \<open>UUIDs\<close>

fun underscored :: "bool \<Rightarrow> string \<Rightarrow> bool" where
  "underscored ready [] \<longleftrightarrow> ready"
| "underscored ready (c # s) \<longleftrightarrow>
     (if c = CHR ''_'' then ready \<and> underscored False s else ascii_hex c \<and> underscored True s)"

text \<open>\<open>int(s, 16)\<close>: white space around, a sign, a prefix and single underscores are accepted.\<close>

definition hex_digits :: "string \<Rightarrow> nat option" where
  "hex_digits s =
     (if underscored False s then Some (digits_value 16 0 (filter (\<lambda>c. c \<noteq> CHR ''_'') s)) else None)"

definition hex_int :: "string \<Rightarrow> int option" where
  "hex_int s0 =
     (let s1 = py_strip s0;
          negative = (take 1 s1 = ''-'');
          s2 = (if take 1 s1 \<in> {''+'', ''-''} then drop 1 s1 else s1);
          s3 = (if take 2 s2 \<in> {''0x'', ''0X''}
                then (if take 1 (drop 2 s2) = ''_'' then drop 3 s2 else drop 2 s2) else s2)
      in map_option (\<lambda>n. if negative then - int n else int n) (hex_digits s3))"

text \<open>\<open>s.replace(needle, "")\<close>.\<close>

function remove_all :: "string \<Rightarrow> string \<Rightarrow> string" where
  "remove_all needle [] = []"
| "remove_all needle (c # s) =
     (if needle \<noteq> [] \<and> starts_with needle (c # s) then remove_all needle (drop (length needle - 1) s)
      else c # remove_all needle s)"
  by pat_completeness auto
termination by (relation "measure (\<lambda>(n, s). length s)") auto

text \<open>The canonical text of \<open>uuid.UUID(s)\<close>; \<open>None\<close> is \<open>ValueError\<close>.\<close>

definition pad_left :: "nat \<Rightarrow> char \<Rightarrow> string \<Rightarrow> string" where
  "pad_left n c s = replicate (n - length s) c @ s"

definition uuid_format :: "nat \<Rightarrow> string" where
  "uuid_format n =
     (let h = pad_left 32 (CHR ''0'') (number_text 16 n)
      in take 8 h @ ''-'' @ take 4 (drop 8 h) @ ''-'' @ take 4 (drop 12 h) @ ''-'' @ take 4 (drop 16 h)
         @ ''-'' @ drop 20 h)"

definition strip_braces :: "string \<Rightarrow> string" where
  "strip_braces s = py_rstrip (\<lambda>c. c \<in> set ''{}'') (py_lstrip (\<lambda>c. c \<in> set ''{}'') s)"

definition uuid_text :: "string \<Rightarrow> string option" where
  "uuid_text s =
     (let h = filter (\<lambda>c. c \<noteq> CHR ''-'') (strip_braces (remove_all ''uuid:'' (remove_all ''urn:'' s)))
      in if length h \<noteq> 32 then None
         else case hex_int h of
           None \<Rightarrow> None
         | Some n \<Rightarrow> if 0 \<le> n \<and> n < 2 ^ 128 then Some (uuid_format (nat n)) else None)"

end
