(* ===== verification/PyRegex.thy ===== *)
theory PyRegex
  imports PyText
begin

text \<open>
  Python's \<open>re\<close> for the patterns the program writes itself: a pattern is a tree, and a match is a list
  of the positions the backtracking engine tries, the preferred one first. \<open>rx_sub\<close> is \<open>re.sub\<close> with
  one capture, \<open>rx_search\<close> is \<open>re.search\<close>, \<open>rx_fullmatch\<close> is \<open>re.fullmatch\<close>. The text behind the current
  position is kept in reverse, for word boundaries and look-behind.
\<close>

section \<open>Matching\<close>

datatype rx = REps | RChar "char \<Rightarrow> bool" | RSeq rx rx | RAlt rx rx | RStar rx | RBoundary
  | RNotBehind "char \<Rightarrow> bool" | RNotAhead "char \<Rightarrow> bool" | RGroup rx

record rx_pos =
  behind :: string
  ahead :: string
  captured :: string

definition word_char :: "char \<Rightarrow> bool" where
  "word_char c \<longleftrightarrow> py_isalpha c \<or> py_isdigit c \<or> between 188 190 c \<or> c = CHR ''_''"

definition first_is :: "(char \<Rightarrow> bool) \<Rightarrow> string \<Rightarrow> bool" where
  "first_is P s = (case s of [] \<Rightarrow> False | c # _ \<Rightarrow> P c)"

text \<open>Greedy repetition: another round first, then none. A round that consumes nothing ends it.\<close>

function rx_star :: "(rx_pos \<Rightarrow> rx_pos list) \<Rightarrow> rx_pos \<Rightarrow> rx_pos list" where
  "rx_star f p =
     concat (map (\<lambda>q. if length (ahead q) < length (ahead p) then rx_star f q else []) (f p)) @ [p]"
  by pat_completeness auto
termination by (relation "measure (\<lambda>(f, p). length (ahead p))") auto

declare rx_star.simps [simp del]

fun rx_match :: "rx \<Rightarrow> rx_pos \<Rightarrow> rx_pos list" where
  "rx_match REps p = [p]"
| "rx_match (RChar P) p =
     (case ahead p of
        [] \<Rightarrow> []
      | c # s \<Rightarrow> if P c then [p\<lparr>behind := c # behind p, ahead := s\<rparr>] else [])"
| "rx_match (RSeq r s) p = concat (map (rx_match s) (rx_match r p))"
| "rx_match (RAlt r s) p = rx_match r p @ rx_match s p"
| "rx_match (RStar r) p = rx_star (rx_match r) p"
| "rx_match RBoundary p =
     (if first_is word_char (behind p) \<noteq> first_is word_char (ahead p) then [p] else [])"
| "rx_match (RNotBehind P) p = (if first_is P (behind p) then [] else [p])"
| "rx_match (RNotAhead P) p = (if first_is P (ahead p) then [] else [p])"
| "rx_match (RGroup r) p =
     map (\<lambda>q. q\<lparr>captured := take (length (ahead p) - length (ahead q)) (ahead p)\<rparr>) (rx_match r p)"

definition rx_at :: "rx \<Rightarrow> string \<Rightarrow> string \<Rightarrow> rx_pos option" where
  "rx_at r b s =
     (case rx_match r \<lparr>behind = b, ahead = s, captured = []\<rparr> of [] \<Rightarrow> None | p # _ \<Rightarrow> Some p)"

text \<open>\<open>re.sub\<close> for patterns that match no empty text: \<open>f\<close> gets the match and its capture.\<close>

function rx_sub :: "rx \<Rightarrow> (string \<Rightarrow> string \<Rightarrow> string) \<Rightarrow> string \<Rightarrow> string \<Rightarrow> string" where
  "rx_sub r f b [] = []"
| "rx_sub r f b (c # s) =
     (case rx_at r b (c # s) of
        Some p \<Rightarrow>
          if length (ahead p) < length (c # s)
          then f (take (length (c # s) - length (ahead p)) (c # s)) (captured p)
                 @ rx_sub r f (behind p) (ahead p)
          else c # rx_sub r f (c # b) s
      | None \<Rightarrow> c # rx_sub r f (c # b) s)"
  by pat_completeness auto
termination by (relation "measure (\<lambda>(r, f, b, s). length s)") auto

fun rx_search :: "rx \<Rightarrow> string \<Rightarrow> string \<Rightarrow> bool" where
  "rx_search r b [] \<longleftrightarrow> rx_at r b [] \<noteq> None"
| "rx_search r b (c # s) \<longleftrightarrow> rx_at r b (c # s) \<noteq> None \<or> rx_search r (c # b) s"

definition rx_fullmatch :: "rx \<Rightarrow> string \<Rightarrow> bool" where
  "rx_fullmatch r s \<longleftrightarrow>
     list_ex (\<lambda>p. ahead p = []) (rx_match r \<lparr>behind = [], ahead = s, captured = []\<rparr>)"

section \<open>Building patterns\<close>

text \<open>Case-insensitive letters are compared by \<open>lower_char\<close>.\<close>

definition RAny :: "string \<Rightarrow> rx" where
  "RAny cs = RChar (\<lambda>c. c \<in> set cs)"

definition RNotAny :: "string \<Rightarrow> rx" where
  "RNotAny cs = RChar (\<lambda>c. c \<notin> set cs)"

definition RText :: "string \<Rightarrow> rx" where
  "RText s = foldr (\<lambda>c r. RSeq (RChar (\<lambda>d. lower_char d = c)) r) s REps"

definition ROpt :: "rx \<Rightarrow> rx" where
  "ROpt r = RAlt r REps"

definition RPlus :: "rx \<Rightarrow> rx" where
  "RPlus r = RSeq r (RStar r)"

fun RTimes :: "nat \<Rightarrow> rx \<Rightarrow> rx" where
  "RTimes 0 r = REps"
| "RTimes (Suc n) r = RSeq r (RTimes n r)"

fun RSeqs :: "rx list \<Rightarrow> rx" where
  "RSeqs [] = REps"
| "RSeqs (r # rs) = RSeq r (RSeqs rs)"

fun RAlts :: "rx list \<Rightarrow> rx" where
  "RAlts [] = RChar (\<lambda>_. False)"
| "RAlts [r] = r"
| "RAlts (r # rs) = RAlt r (RAlts rs)"

section \<open>What a substitution keeps\<close>

text \<open>A match never moves backwards, and what it passes goes behind it.\<close>

definition reaches :: "rx_pos \<Rightarrow> rx_pos \<Rightarrow> bool" where
  "reaches p q \<longleftrightarrow> (\<exists>m. ahead p = m @ ahead q \<and> behind q = rev m @ behind p)"

lemma reaches_refl [simp]: "reaches p p"
  by (simp add: reaches_def)

lemma reaches_trans: "reaches p q \<Longrightarrow> reaches q r \<Longrightarrow> reaches p r"
  by (force simp: reaches_def)

lemma rx_star_reaches:
  assumes "q \<in> set (rx_star f p)" "\<And>p q. q \<in> set (f p) \<Longrightarrow> reaches p q"
  shows "reaches p q"
  using assms
proof (induction f p rule: rx_star.induct)
  case (1 f p)
  have "q = p \<or> (\<exists>r \<in> set (f p). length (ahead r) < length (ahead p) \<and> q \<in> set (rx_star f r))"
    using "1.prems"(1) by (subst (asm) rx_star.simps) (auto split: if_split_asm)
  then show ?case
  proof (elim disjE bexE conjE)
    fix r
    assume r: "r \<in> set (f p)" "length (ahead r) < length (ahead p)" "q \<in> set (rx_star f r)"
    have "reaches r q" by (rule "1.IH" [OF r(1,2,3)]) (rule "1.prems"(2))
    with "1.prems"(2) [OF r(1)] show ?thesis by (rule reaches_trans)
  qed simp
qed

lemma rx_match_reaches: "q \<in> set (rx_match r p) \<Longrightarrow> reaches p q"
proof (induction r arbitrary: p q)
  case (RChar P)
  then show ?case by (auto simp: reaches_def split: list.splits if_splits)
next
  case (RSeq r s)
  then obtain m where "m \<in> set (rx_match r p)" "q \<in> set (rx_match s m)" by auto
  with RSeq.IH show ?case using reaches_trans by blast
next
  case (RStar r)
  then show ?case using rx_star_reaches [of q "rx_match r" p] by simp
next
  case (RGroup r)
  then show ?case by (auto simp: reaches_def)
qed (auto split: if_splits)

lemma rx_at_reaches:
  assumes "rx_at r b s = Some p"
  shows "\<exists>m. s = m @ ahead p \<and> behind p = rev m @ b"
proof -
  let ?p = "\<lparr>behind = b, ahead = s, captured = []\<rparr>"
  have "p \<in> set (rx_match r ?p)" using assms by (auto simp: rx_at_def split: list.splits)
  then have "reaches ?p p" by (rule rx_match_reaches)
  then show ?thesis by (simp add: reaches_def)
qed


end
