(* ===== verification/Security.thy ===== *)
theory Security
  imports PyRegex PyUrl Models
begin

text \<open>
  \<open>src/xray_e2e_prober/security.py\<close>: the redaction of URLs and diagnostics, and display names. Every
  pattern of the file is written as a tree of \<open>PyRegex\<close>. The lemmas show that what is printed is one
  bounded line without control characters, and that only the origin of a URL remains.
\<close>

section \<open>The patterns\<close>

definition CONTROL_RE :: rx where
  "CONTROL_RE = RChar is_control"

definition SPACES_RE :: rx where
  "SPACES_RE = RPlus (RChar py_isspace)"

definition UUID_RE :: rx where
  "UUID_RE = (let hex = RChar ascii_hex; dash = RAny ''-''
     in RSeqs [RBoundary, RTimes 8 hex, dash, RTimes 4 hex, dash, RTimes 4 hex, dash, RTimes 4 hex, dash,
               RTimes 12 hex, RBoundary])"

definition url_body :: rx where
  "url_body = RPlus (RChar (\<lambda>c. \<not> py_isspace c \<and> c \<notin> set ''][<>''))"

definition VLESS_RE :: rx where
  "VLESS_RE = RSeqs [RText ''vless://'', url_body]"

definition URL_RE :: rx where
  "URL_RE = RSeqs [RText ''http'', ROpt (RText ''s''), RText ''://'', url_body]"

definition spaces :: rx where
  "spaces = RStar (RChar py_isspace)"

definition AUTH_RE :: rx where
  "AUTH_RE = RSeqs [RBoundary,
     RGroup (RAlts [RText ''authorization'', RText ''proxy-authorization'', RText ''x-api-key'',
        RSeqs [RText ''api'', ROpt (RAny ''-_''), RText ''key''], RText ''token'', RText ''password'']),
     ROpt (RAny [CHR 0x27, CHR 0x22]), spaces, RAny '':='', spaces, RStar (RNotAny [CR, LF])]"

definition AUTH_SCHEME_RE :: rx where
  "AUTH_SCHEME_RE = RSeqs [RBoundary, RGroup (RAlts [RText ''bearer'', RText ''basic'']),
     RPlus (RChar py_isspace), RPlus (RChar (\<lambda>c. \<not> py_isspace c \<and> c \<notin> set '',;]}''))]"

definition SECRET_QUERY_RE :: rx where
  "SECRET_QUERY_RE = RSeqs [
     RGroup (RSeqs [RAny ''?&'', RAlts (map RText [''token'', ''key'', ''secret'', ''auth'', ''signature'',
        ''sig'', ''password'', ''uuid'']), RAny ''='']),
     RPlus (RChar (\<lambda>c. c \<notin> set ''&#'' \<and> \<not> py_isspace c))]"

definition sensitive_name :: rx where
  "sensitive_name = (let gap = ROpt (RAny ''_-'') in RAlts [
     RSeqs [RText ''private'', gap, RText ''key''], RSeqs [RText ''public'', gap, RText ''key''],
     RSeqs [RText ''certificate'', gap, RText ''key''], RText ''key'',
     RSeqs [RText ''short'', gap, RText ''id'', ROpt (RText ''s'')], RText ''pbk'', RText ''sid'',
     RText ''spiderx'', RText ''password'', RText ''token'', RText ''secret'',
     RSeqs [RText ''auth'', ROpt (RText ''orization'')],
     RSeqs [RText ''api'', ROpt (RAny ''-_''), RText ''key''], RText ''uuid''])"

definition quoted :: "char \<Rightarrow> rx" where
  "quoted q = RSeqs [RAny [q],
     RStar (RAlt (RSeq (RAny [BACKSLASH]) (RNotAny [LF])) (RNotAny [q, BACKSLASH, CR, LF])), RAny [q]]"

definition SENSITIVE_FIELD_RE :: rx where
  "SENSITIVE_FIELD_RE = (let quote = ROpt (RAny [CHR 0x22, CHR 0x27]) in RSeqs [
     RGroup (RSeqs [RNotBehind (\<lambda>c. ascii_alnum c \<or> c = CHR ''_''), quote, sensitive_name, quote,
        spaces, RAny '':='', spaces]),
     RAlts [RSeqs [RAny ''['', RStar (RNotAny ('']'' @ [CR, LF])), RAny '']''],
            RSeqs [RAny ''{'', RStar (RNotAny (''}'' @ [CR, LF])), RAny ''}''],
            quoted (CHR 0x22), quoted (CHR 0x27),
            RPlus (RChar (\<lambda>c. \<not> py_isspace c \<and> c \<notin> set '',;}]''))]])"

definition MAX_REDACTION_INPUT :: nat where
  "MAX_REDACTION_INPUT = 16 * 1024"

section \<open>Redaction\<close>

definition collapse_spaces :: "string \<Rightarrow> string" where
  "collapse_spaces s = rx_sub SPACES_RE (\<lambda>_ _. '' '') [] s"

definition blank_controls :: "string \<Rightarrow> string" where
  "blank_controls s = rx_sub CONTROL_RE (\<lambda>_ _. '' '') [] s"

definition safe_display_name :: "nat \<Rightarrow> string \<Rightarrow> string" where
  "safe_display_name max_length value =
     (let cleaned = take max_length (collapse_spaces (py_strip (blank_controls value)))
      in if cleaned = [] then ''unnamed'' else cleaned)"

definition redacted_url :: string where
  "redacted_url = ''<redacted-url>''"

definition redact_url :: "string \<Rightarrow> string" where
  "redact_url value =
     (case urlsplit value of
        None \<Rightarrow> redacted_url
      | Some u \<Rightarrow>
          (case url_hostname u of
             None \<Rightarrow> redacted_url
           | Some host \<Rightarrow>
               if url_scheme u \<notin> {''http'', ''https''} then redacted_url
               else let host = (if CHR '':'' \<in> set host \<and> take 1 host \<noteq> ''['' then ''['' @ host @ '']'' else host)
                    in (case url_port u of
                          None \<Rightarrow> redacted_url
                        | Some port \<Rightarrow>
                            url_scheme u @ ''://'' @ host
                              @ (case port of None \<Rightarrow> [] | Some n \<Rightarrow> '':'' @ number_text 10 n))))"

definition redact_stages :: "string \<Rightarrow> string" where
  "redact_stages text =
     (let text = rx_sub VLESS_RE (\<lambda>_ _. ''<redacted-vless-uri>'') [] text;
          text = rx_sub UUID_RE (\<lambda>_ _. ''<redacted-uuid>'') [] text;
          text = rx_sub AUTH_RE (\<lambda>_ g. g @ ''=<redacted>'') [] text;
          text = rx_sub AUTH_SCHEME_RE (\<lambda>_ g. g @ '' <redacted>'') [] text;
          text = rx_sub SECRET_QUERY_RE (\<lambda>_ g. g @ ''<redacted>'') [] text;
          text = rx_sub SENSITIVE_FIELD_RE (\<lambda>_ g. g @ ''<redacted>'') [] text
      in rx_sub URL_RE (\<lambda>m _. redact_url m) [] text)"

definition redact_text :: "nat \<Rightarrow> string \<Rightarrow> string" where
  "redact_text max_length text =
     (if length text > MAX_REDACTION_INPUT then ''[diagnostic redacted]''
      else take max_length (py_strip (collapse_spaces (blank_controls (redact_stages text)))))"

text \<open>
  \<open>read_text\<close> opens the file in text mode: \<open>CR LF\<close> and a lone \<open>CR\<close> are read as \<open>LF\<close>.
\<close>

fun universal_newlines :: "string \<Rightarrow> string" where
  "universal_newlines [] = []"
| "universal_newlines (c # s) =
     (if c = CR then LF # universal_newlines (if take 1 s = [LF] then drop 1 s else s)
      else c # universal_newlines s)"

text \<open>
  \<open>secret_from_file\<close> with the file's bytes; \<open>decode\<close> is the UTF-8 codec. The size of the file is the
  number of its bytes.
\<close>

definition secret_from_file :: "(string \<Rightarrow> string option) \<Rightarrow> int \<Rightarrow> string \<Rightarrow> string + string" where
  "secret_from_file decode size_limit data =
     (if int (length data) > size_limit then Inl ''secret file is too large''
      else case decode data of
        None \<Rightarrow> Inl ''invalid UTF-8''
      | Some text \<Rightarrow> Inr (py_rstrip (\<lambda>c. c \<in> {CR, LF}) (universal_newlines text)))"

definition public_error :: "string \<Rightarrow> string option \<Rightarrow> (string, string) dict" where
  "public_error reason detail =
     (''reason'', reason) # (case detail of None \<Rightarrow> [] | Some d \<Rightarrow> [(''detail'', redact_text 512 d)])"

section \<open>What is printed is one line\<close>

lemma sub_class: "rx_sub (RChar P) (\<lambda>_ _. [d]) b s = map (\<lambda>c. if P c then d else c) s"
  by (induction s arbitrary: b) (simp_all add: rx_at_def)

lemma rx_star_class:
  assumes "\<And>p. f p = rx_match (RChar P) p"
  shows "\<exists>rest. rx_star f \<lparr>behind = b, ahead = s, captured = g\<rparr> =
     \<lparr>behind = rev (takeWhile P s) @ b, ahead = dropWhile P s, captured = g\<rparr> # rest"
proof (induction s arbitrary: b)
  case Nil
  then show ?case by (subst rx_star.simps) (simp add: assms)
next
  case (Cons c s)
  obtain rest where "rx_star f \<lparr>behind = c # b, ahead = s, captured = g\<rparr> =
      \<lparr>behind = rev (takeWhile P s) @ c # b, ahead = dropWhile P s, captured = g\<rparr> # rest"
    using Cons [of "c # b"] by blast
  note IH = this
  show ?case by (subst rx_star.simps) (simp add: assms IH)
qed

lemma rx_at_class:
  "rx_at (RPlus (RChar P)) b (c # s) =
     (if P c then Some \<lparr>behind = rev (takeWhile P s) @ c # b, ahead = dropWhile P s, captured = []\<rparr> else None)"
proof -
  obtain rest where "rx_star (rx_match (RChar P)) \<lparr>behind = c # b, ahead = s, captured = []\<rparr> =
      \<lparr>behind = rev (takeWhile P s) @ c # b, ahead = dropWhile P s, captured = []\<rparr> # rest"
    using rx_star_class [OF refl, of P "c # b" s "[]"] by blast
  note star = this
  show ?thesis by (simp add: rx_at_def RPlus_def star)
qed

lemma collapse_step:
  "rx_sub SPACES_RE (\<lambda>_ _. '' '') b (c # s) =
     (if py_isspace c
      then CHR '' '' # rx_sub SPACES_RE (\<lambda>_ _. '' '') (rev (takeWhile py_isspace s) @ c # b) (dropWhile py_isspace s)
      else c # rx_sub SPACES_RE (\<lambda>_ _. '' '') (c # b) s)"
  by (simp add: SPACES_RE_def rx_at_class le_imp_less_Suc length_dropWhile_le)

text \<open>No two characters of white space in a row, and no other white space than the blank.\<close>

definition one_spaced :: "string \<Rightarrow> bool" where
  "one_spaced s \<longleftrightarrow> successively (\<lambda>c d. \<not> (py_isspace c \<and> py_isspace d)) s
     \<and> (\<forall>c \<in> set s. py_isspace c \<longrightarrow> c = CHR '' '')"

lemma collapse_first:
  "s \<noteq> [] \<Longrightarrow> \<not> py_isspace (hd s) \<Longrightarrow>
     rx_sub SPACES_RE (\<lambda>_ _. '' '') b s \<noteq> [] \<and> hd (rx_sub SPACES_RE (\<lambda>_ _. '' '') b s) = hd s"
  by (cases s) (simp_all add: collapse_step del: rx_sub.simps)

lemma collapse_one_spaced: "one_spaced (rx_sub SPACES_RE (\<lambda>_ _. '' '') b s)"
proof (induction "length s" arbitrary: b s rule: less_induct)
  case less
  show ?case
  proof (cases s)
    case Nil
    then show ?thesis by (simp add: one_spaced_def)
  next
    case (Cons c t)
    let ?r = "rx_sub SPACES_RE (\<lambda>_ _. '' '')"
    show ?thesis
    proof (cases "py_isspace c")
      case True
      let ?b = "rev (takeWhile py_isspace t) @ c # b" and ?t = "dropWhile py_isspace t"
      have one: "one_spaced (?r ?b ?t)"
        by (rule less) (simp add: Cons le_imp_less_Suc length_dropWhile_le)
      have "?r ?b ?t = [] \<or> \<not> py_isspace (hd (?r ?b ?t))"
        using collapse_first [of ?t ?b] hd_dropWhile [of py_isspace t]
        by (cases "?t = []") (simp_all del: dropWhile_eq_Nil_conv)
      then show ?thesis
        using one True unfolding Cons collapse_step
        by (cases "?r ?b ?t") (auto simp: one_spaced_def)
    next
      case False
      have "one_spaced (?r (c # b) t)" by (rule less) (simp add: Cons)
      then show ?thesis
        using False unfolding Cons collapse_step
        by (cases "?r (c # b) t") (auto simp: one_spaced_def)
    qed
  qed
qed

lemma one_spaced_part: "one_spaced (a @ s @ b) \<Longrightarrow> one_spaced s"
  by (auto simp: one_spaced_def successively_append_iff)

lemma one_spaced_take: "one_spaced s \<Longrightarrow> one_spaced (take n s)"
  using one_spaced_part [of "[]" "take n s" "drop n s"] by simp

lemma strip_part: "\<exists>a b. s = a @ py_strip s @ b"
proof -
  let ?l = "dropWhile py_isspace s"
  have "s = takeWhile py_isspace s @ py_strip s @ rev (takeWhile py_isspace (rev ?l))"
    unfolding py_strip_def py_lstrip_def py_rstrip_def
    by (simp add: rev_append [symmetric] del: rev_append)
  then show ?thesis by blast
qed

lemma one_spaced_strip: "one_spaced s \<Longrightarrow> one_spaced (py_strip s)"
  using strip_part [of s] one_spaced_part by metis

lemma set_collapse: "set (rx_sub SPACES_RE (\<lambda>_ _. '' '') b s) \<subseteq> insert (CHR '' '') (set s)"
proof (induction "length s" arbitrary: b s rule: less_induct)
  case less
  show ?case
  proof (cases s)
    case (Cons c t)
    have "set (rx_sub SPACES_RE (\<lambda>_ _. '' '') b' (dropWhile py_isspace t)) \<subseteq> insert (CHR '' '') (set t)" for b'
      using less [of "dropWhile py_isspace t" b'] set_dropWhileD [of _ py_isspace t]
      by (auto simp: Cons le_imp_less_Suc length_dropWhile_le)
    moreover have "set (rx_sub SPACES_RE (\<lambda>_ _. '' '') b' t) \<subseteq> insert (CHR '' '') (set t)" for b'
      by (rule less) (simp add: Cons)
    ultimately show ?thesis unfolding Cons collapse_step by auto
  qed simp
qed

lemma set_strip: "set (py_strip s) \<subseteq> set s"
proof -
  obtain a b where "s = a @ py_strip s @ b" using strip_part by blast
  then have "set s = set a \<union> set (py_strip s) \<union> set b" by (metis set_append Un_assoc)
  then show ?thesis by blast
qed

lemma blank_controls_chars: "c \<in> set (blank_controls s) \<Longrightarrow> \<not> is_control c"
proof -
  have "\<not> is_control (CHR '' '')" by (simp add: char_class_defs)
  then show "c \<in> set (blank_controls s) \<Longrightarrow> \<not> is_control c"
    by (auto simp: blank_controls_def CONTROL_RE_def sub_class split: if_splits)
qed

lemma blank_not_control: "\<not> is_control (CHR '' '')"
  by (simp add: char_class_defs)

lemma printed_chars:
  assumes "one_spaced s" "\<And>c. c \<in> set s \<Longrightarrow> \<not> is_control c" "c \<in> set s"
  shows "display_char c"
  using assms by (auto simp: display_char_def one_spaced_def)

text \<open>A diagnostic is printed as one bounded line. Whatever text an exception carries, the result of
  \<open>redact_text\<close> is at most as long as asked (or the fixed notice), holds only blanks and visible
  characters, and has no two blanks in a row.\<close>

theorem redact_text_one_line:
  "length (redact_text n t) \<le> max n 21 \<and> (\<forall>c \<in> set (redact_text n t). display_char c)
     \<and> successively (\<lambda>c d. \<not> (c = CHR '' '' \<and> d = CHR '' '')) (redact_text n t)"
proof (cases "length t > MAX_REDACTION_INPUT")
  case True
  then show ?thesis by (simp add: redact_text_def display_char_def char_class_defs)
next
  case False
  let ?b = "blank_controls (redact_stages t)"
  let ?r = "py_strip (collapse_spaces ?b)"
  have one: "one_spaced (take n ?r)"
    by (intro one_spaced_take one_spaced_strip) (simp add: collapse_spaces_def collapse_one_spaced)
  have "set (take n ?r) \<subseteq> insert (CHR '' '') (set ?b)"
    using set_take_subset [of n ?r] set_strip [of "collapse_spaces ?b"] set_collapse [of "[]" ?b]
    unfolding collapse_spaces_def by blast
  then have "\<not> is_control c" if "c \<in> set (take n ?r)" for c
    using that blank_controls_chars [of c "redact_stages t"] blank_not_control by blast
  then have chars: "\<forall>c \<in> set (take n ?r). display_char c" using printed_chars [OF one] by blast
  have "py_isspace (CHR '' '')" by (simp add: char_class_defs)
  then have "successively (\<lambda>c d. \<not> (c = CHR '' '' \<and> d = CHR '' '')) (take n ?r)"
    using one unfolding one_spaced_def by (blast intro: successively_mono)
  then show ?thesis using chars False by (simp add: redact_text_def)
qed

lemma redact_text_one_line_witness: "length (redact_text 512 (''error'' @ [CR, LF])) \<le> 512"
  using redact_text_one_line [of 512 "''error'' @ [CR, LF]"] by simp

section \<open>What remains of a URL is its origin\<close>

lemma set_partition:
  "set (fst (py_partition c s)) \<subseteq> set s" "set (snd (snd (py_partition c s))) \<subseteq> set s"
proof -
  have "dropWhile (\<lambda>x. x \<noteq> c) s = d # t \<Longrightarrow> set t \<subseteq> set s" for d t
    by (metis set_dropWhileD set_subset_Cons subset_code(1) subset_iff list.set_intros(2))
  then show "set (fst (py_partition c s)) \<subseteq> set s" "set (snd (snd (py_partition c s))) \<subseteq> set s"
    by (auto simp: py_partition_def dest: set_takeWhileD split: list.splits)
qed

lemma partition_before: "c \<notin> set (fst (py_partition c s))"
  using set_takeWhileD [of c "\<lambda>x. x \<noteq> c" s] by (auto simp: py_partition_def dropWhile_eq_Nil_conv split: list.splits)

lemma rpartition_after: "c \<notin> set (snd (snd (py_rpartition c s)))" "set (snd (snd (py_rpartition c s))) \<subseteq> set s"
proof -
  obtain a f b where p: "py_partition c (rev s) = (a, f, b)" by (cases "py_partition c (rev s)")
  have "c \<notin> set a" "set a \<subseteq> set s"
    using partition_before [of c "rev s"] set_partition(1) [of c "rev s"] p by simp_all
  moreover have "a = rev s" if "\<not> f" using p that by (auto simp: py_partition_def split: list.splits)
  ultimately show "c \<notin> set (snd (snd (py_rpartition c s)))"
    "set (snd (snd (py_rpartition c s))) \<subseteq> set s"
    using p by (cases f; auto simp: py_rpartition_def)+
qed

definition origin_char :: "char \<Rightarrow> bool" where
  "origin_char c \<longleftrightarrow> c \<notin> set ''/?#@''"

lemma urlsplit_netloc:
  "urlsplit v = Some u \<Longrightarrow> url_netloc u = [] \<or> (\<exists>r. url_netloc u = takeWhile (\<lambda>c. c \<notin> set ''/?#'') r)"
proof -
  have some: "(if b then None else Some x) = Some y \<longleftrightarrow> \<not> b \<and> x = y" for b and x y :: url_parts by simp
  have cases: "(if b then x else y) = x \<or> (if b then x else y) = y" for b and x y :: string by simp
  have parts: "\<lparr>url_scheme = s, url_netloc = n\<rparr> = u \<Longrightarrow> url_netloc u = n" for s n by auto
  assume "urlsplit v = Some u"
  then obtain b r where "url_netloc u = (if b then takeWhile (\<lambda>c. c \<notin> set ''/?#'') r else [])"
    unfolding urlsplit_def Let_def some
    by (elim conjE) (drule parts, rule that, assumption)
  with cases show ?thesis by metis
qed

lemma netloc_chars: "urlsplit v = Some u \<Longrightarrow> c \<in> set (url_netloc u) \<Longrightarrow> c \<notin> set ''/?#''"
  using urlsplit_netloc [of v u] by (auto dest: set_takeWhileD)

lemma hostinfo_chars:
  assumes "\<And>c. c \<in> set (url_netloc u) \<Longrightarrow> c \<notin> set ''/?#''" "c \<in> set (fst (url_hostinfo u))"
  shows "origin_char c"
proof -
  obtain x f i where r: "py_rpartition (CHR ''@'') (url_netloc u) = (x, f, i)"
    by (cases "py_rpartition (CHR ''@'') (url_netloc u)")
  have i: "origin_char d" if "d \<in> set i" for d
    using rpartition_after [of "CHR ''@''" "url_netloc u"] r assms(1) that by (auto simp: origin_char_def)
  obtain y g b where p: "py_partition (CHR ''['') i = (y, g, b)" by (cases "py_partition (CHR ''['') i")
  have "set (fst (url_hostinfo u)) \<subseteq> set i"
    using set_partition [of "CHR ''[''" i] set_partition(1) [of "CHR '']''" b] set_partition(1) [of "CHR '':''" i] p r
    by (auto simp: url_hostinfo_def Let_def split: prod.splits)
  then show ?thesis using i assms(2) by blast
qed

lemma lower_origin: "origin_char c \<Longrightarrow> origin_char (lower_char c)"
proof -
  have "lower_char c \<in> set ''/?#@'' \<Longrightarrow> lower_char c = c"
  proof (rule ccontr)
    assume c: "lower_char c \<in> set ''/?#@''" "lower_char c \<noteq> c"
    then have "upper_latin1 c" by (simp add: lower_char_def split: if_splits)
    then have "code c + 32 \<ge> 97 \<and> code c + 32 < 256"
      by (auto simp: upper_latin1_def between_def)
    moreover have "code (lower_char c) = code c + 32"
      using \<open>upper_latin1 c\<close> calculation by (simp add: lower_char_def code_def)
    moreover have "code (lower_char c) \<le> 64" using c(1) by (auto simp: code_def)
    ultimately show False by linarith
  qed
  then show "origin_char c \<Longrightarrow> origin_char (lower_char c)" by (auto simp: origin_char_def)
qed

lemma hostname_chars:
  assumes "urlsplit v = Some u" "url_hostname u = Some h" "c \<in> set h"
  shows "origin_char c"
proof -
  let ?h = "fst (url_hostinfo u)"
  have h: "origin_char d" if "d \<in> set ?h" for d
    using hostinfo_chars [OF netloc_chars [OF assms(1)] that] .
  obtain a f z where p: "py_partition (CHR ''%'') ?h = (a, f, z)" by (cases "py_partition (CHR ''%'') ?h")
  have "h = py_lower a @ (if f then ''%'' else []) @ z"
    using assms(2) p by (simp add: url_hostname_def Let_def split: if_splits)
  moreover have "set a \<subseteq> set ?h" "set z \<subseteq> set ?h"
    using set_partition [of "CHR ''%''" ?h] p by simp_all
  ultimately show ?thesis
    using assms(3) h lower_origin by (auto simp: py_lower_def origin_char_def split: if_splits)
qed

lemma number_chars: "c \<in> set (number_text 10 n) \<Longrightarrow> origin_char c"
proof (induction "10 :: nat" n rule: number_text.induct)
  case (1 n)
  have d: "origin_char (digit_char k)" if "k < 10" for k
  proof -
    have "k \<in> {0, 1, 2, 3, 4, 5, 6, 7, 8, 9}" using that by auto
    then show ?thesis by (auto simp: digit_char_def origin_char_def)
  qed
  have "n < 10 \<Longrightarrow> n mod 16 < 10" by simp
  then show ?case
    using 1 d by (subst (asm) (2) number_text.simps) (auto split: if_splits)
qed

text \<open>Only the origin of a URL is ever printed. The result of \<open>redact_url\<close> is the fixed notice, or
  \<open>http\<close> or \<open>https\<close> with a host and perhaps a port: no user information, path, query or fragment can
  follow, as none of their separators occurs.\<close>

theorem redact_url_origin:
  "redact_url v = redacted_url
     \<or> (\<exists>scheme \<in> {''http'', ''https''}. \<exists>host. host \<noteq> [] \<and> list_all origin_char host
          \<and> redact_url v = scheme @ ''://'' @ host)"
proof (cases "redact_url v = redacted_url")
  case False
  then obtain u h p where u: "urlsplit v = Some u" "url_hostname u = Some h" "url_port u = Some p"
      "url_scheme u \<in> {''http'', ''https''}"
    by (auto simp: redact_url_def Let_def split: option.splits if_splits)
  let ?h = "if CHR '':'' \<in> set h \<and> take 1 h \<noteq> ''['' then ''['' @ h @ '']'' else h"
  let ?p = "case p of None \<Rightarrow> [] | Some n \<Rightarrow> '':'' @ number_text 10 n"
  have "redact_url v = url_scheme u @ ''://'' @ (?h @ ?p)"
    using u by (auto simp: redact_url_def Let_def)
  moreover have "h \<noteq> []"
    using u(2) by (auto simp: url_hostname_def Let_def py_lower_def py_partition_def split: if_splits prod.splits list.splits)
  moreover have "list_all origin_char (?h @ ?p)"
    using hostname_chars [OF u(1,2)] number_chars
    by (auto simp: list_all_iff origin_char_def split: option.splits if_splits)
  ultimately show ?thesis using u(4) by (intro disjI2 bexI [of _ "url_scheme u"] exI [of _ "?h @ ?p"]) auto
qed blast

end
