(* ===== verification/Importers.thy ===== *)
theory Importers
  imports PyParse Security "HOL-Library.List_Lexorder"
begin

text \<open>
  \<open>src/xray_e2e_prober/importers.py\<close>: source formats, VLESS URIs, Xray profiles, their fingerprints and
  the outbound a connection check runs with. Codecs (UTF-8, Base64, JSON), SHA-256 and the iteration
  order of a set are the record \<open>codecs\<close>. Error classes keep their message; an exception of another
  class (\<open>TypeError\<close>, \<open>AttributeError\<close>) that escapes is an outcome of its own.
\<close>

section \<open>Errors and codecs\<close>

datatype import_error = SourceImportError string | UnknownSourceFormatError string
  | UnsupportedEntryError string | InvalidEntryError string | ValidationError string
  | TypeError | AttributeError | KeyError

text \<open>\<open>isinstance(exc, SourceImportError)\<close>.\<close>

fun is_import_error :: "import_error \<Rightarrow> bool" where
  "is_import_error (SourceImportError _) = True"
| "is_import_error (UnknownSourceFormatError _) = True"
| "is_import_error (UnsupportedEntryError _) = True"
| "is_import_error (InvalidEntryError _) = True"
| "is_import_error _ = False"

text \<open>\<open>raise type(exc)(f"entry {index}: {exc}")\<close>.\<close>

definition entry_prefix :: "nat \<Rightarrow> string \<Rightarrow> string" where
  "entry_prefix i msg = ''entry '' @ number_text 10 i @ '': '' @ msg"

fun at_entry :: "nat \<Rightarrow> import_error \<Rightarrow> import_error" where
  "at_entry i (SourceImportError m) = SourceImportError (entry_prefix i m)"
| "at_entry i (UnknownSourceFormatError m) = UnknownSourceFormatError (entry_prefix i m)"
| "at_entry i (UnsupportedEntryError m) = UnsupportedEntryError (entry_prefix i m)"
| "at_entry i (InvalidEntryError m) = InvalidEntryError (entry_prefix i m)"
| "at_entry i e = e"

text \<open>\<open>json.loads\<close> gives the pairs of every object to a hook and keeps what it returns; \<open>Inl None\<close> is a
  text that is no JSON, \<open>Inl (Some e)\<close> an error of the hook.\<close>

type_synonym object_hook = "(string \<times> raw) list \<Rightarrow> import_error + raw"

record codecs =
  utf8_sig :: "string \<Rightarrow> string option"
  utf8_replace :: "string \<Rightarrow> string"
  b64decode :: "string \<Rightarrow> string option"
  json_loads :: "object_hook \<Rightarrow> string \<Rightarrow> import_error option + raw"
  json_compact :: "raw \<Rightarrow> string"
  sha256_text :: "string \<Rightarrow> string"
  set_order :: "string set \<Rightarrow> string list"

datatype source_content = Text string | Bytes string

definition MAX_IMPORT_BYTES :: nat where
  "MAX_IMPORT_BYTES = 16 * 1024 * 1024"

definition MAX_ENTRIES :: nat where
  "MAX_ENTRIES = 10000"

definition COMMON_PARAMETERS :: "string set" where
  "COMMON_PARAMETERS = {''encryption'', ''security'', ''type'', ''flow'', ''sni'', ''fp'', ''alpn'',
     ''packetEncoding'', ''allowInsecure'', ''insecure''}"

definition REALITY_PARAMETERS :: "string set" where
  "REALITY_PARAMETERS = {''pbk'', ''sid'', ''spx''}"

definition RAW_PARAMETERS :: "string set" where
  "RAW_PARAMETERS = {''headerType''}"

definition XHTTP_PARAMETERS :: "string set" where
  "XHTTP_PARAMETERS = {''host'', ''path'', ''mode'', ''extra''}"

definition XHTTP_MODES :: "string set" where
  "XHTTP_MODES = {''auto'', ''packet-up'', ''stream-up'', ''stream-one''}"

definition ALLOWED_OUTBOUND_PROTOCOLS :: "string set" where
  "ALLOWED_OUTBOUND_PROTOCOLS = {''vless'', ''freedom'', ''blackhole'', ''dns''}"

definition ADAPTABLE_INBOUND_PROTOCOLS :: "string set" where
  "ADAPTABLE_INBOUND_PROTOCOLS = {''socks'', ''http''}"

definition SENSITIVE_PROFILE_KEYS :: "string set" where
  "SENSITIVE_PROFILE_KEYS = {''address'', ''email'', ''host'', ''id'', ''password'', ''path'',
     ''publickey'', ''server'', ''servername'', ''shortid'', ''spiderx'', ''tag'', ''token'', ''uuid''}"

definition MAX_PROFILE_SECRET_LITERALS :: nat where
  "MAX_PROFILE_SECRET_LITERALS = 256"

definition MAX_PROFILE_SECRET_NODES :: nat where
  "MAX_PROFILE_SECRET_NODES = 4096"

definition PROFILE_SECRET_OVERFLOW :: string where
  "PROFILE_SECRET_OVERFLOW = NUL # ''xray-e2e-prober-redact-profile-name'' @ [NUL]"

section \<open>Text and formats\<close>

definition utf8_size :: "string \<Rightarrow> nat" where
  "utf8_size s = sum_list (map (\<lambda>c. if code c < 128 then 1 else 2) s)"

text \<open>The byte order mark that \<open>lstrip\<close> removes is outside Latin-1.\<close>

definition decode_text :: "codecs \<Rightarrow> source_content \<Rightarrow> import_error + string" where
  "decode_text cs content =
     (case content of
        Text s \<Rightarrow>
          if utf8_size s > MAX_IMPORT_BYTES then Inl (SourceImportError ''source exceeds the import size limit'')
          else Inr s
      | Bytes b \<Rightarrow>
          if length b > MAX_IMPORT_BYTES then Inl (SourceImportError ''source exceeds the import size limit'')
          else (case utf8_sig cs b of
                  None \<Rightarrow> Inl (SourceImportError ''source is not valid UTF-8'')
                | Some s \<Rightarrow> Inr s))"

definition reject_html :: "string \<Rightarrow> import_error + unit" where
  "reject_html text =
     (let beginning = py_casefold (take 1024 (py_lstrip py_isspace text))
      in if starts_with ''<!doctype html'' beginning \<or> starts_with ''<html'' beginning
         then Inl (UnknownSourceFormatError ''source returned an HTML document, not a subscription'')
         else Inr ())"

definition unique_object :: object_hook where
  "unique_object items =
     bindE (foldE (\<lambda>(k, v) result.
        if dict_get result k \<noteq> None then Inl (InvalidEntryError ''JSON contains a duplicate object key'')
        else Inr (dict_set k v result)) items []) (\<lambda>d. Inr (RDict d))"

definition json_no_duplicates :: "codecs \<Rightarrow> string \<Rightarrow> import_error + raw" where
  "json_no_duplicates cs text =
     (case json_loads cs unique_object text of
        Inl None \<Rightarrow> Inl (InvalidEntryError ''source contains invalid JSON'')
      | Inl (Some e) \<Rightarrow> Inl e
      | Inr v \<Rightarrow> Inr v)"

definition base64_char :: "char \<Rightarrow> bool" where
  "base64_char c \<longleftrightarrow> ascii_alnum c \<or> c \<in> set ''_+/=-'' \<or> py_isspace c"

definition decode_base64_subscription :: "codecs \<Rightarrow> string \<Rightarrow> import_error + string" where
  "decode_base64_subscription cs text =
     (let compact = concat (py_split text)
      in if compact = [] \<or> \<not> list_all base64_char compact
         then Inl (InvalidEntryError ''source is not a valid Base64 subscription'')
         else if length compact > MAX_IMPORT_BYTES * 2
         then Inl (SourceImportError ''encoded source exceeds the import size limit'')
         else case b64decode cs (compact @ replicate ((4 - length compact mod 4) mod 4) (CHR ''='')) of
           None \<Rightarrow> Inl (InvalidEntryError ''source is not a valid Base64 subscription'')
         | Some decoded \<Rightarrow>
             if length decoded > MAX_IMPORT_BYTES
             then Inl (SourceImportError ''decoded source exceeds the import size limit'')
             else (case utf8_sig cs decoded of
                     None \<Rightarrow> Inl (InvalidEntryError ''Base64 subscription is not valid UTF-8'')
                   | Some s \<Rightarrow> Inr s))"

definition nonblank_lines :: "string \<Rightarrow> string list" where
  "nonblank_lines text = filter (\<lambda>l. l \<noteq> []) (map py_strip (py_splitlines text))"

definition all_vless :: "string list \<Rightarrow> bool" where
  "all_vless lines \<longleftrightarrow> lines \<noteq> [] \<and> list_all (\<lambda>l. starts_with ''vless://'' (py_casefold l)) lines"

definition detect_format :: "codecs \<Rightarrow> source_content \<Rightarrow> import_error + SourceFormat" where
  "detect_format cs content =
     bindE (decode_text cs content) (\<lambda>text.
     bindE (reject_html text) (\<lambda>_.
     let stripped = py_strip text
     in if stripped = [] then Inr VLESS
        else if starts_with ''{'' stripped
        then bindE (json_no_duplicates cs stripped) (\<lambda>v.
          case v of
            RDict _ \<Rightarrow> Inr SourceFormat.XRAY_JSON
          | _ \<Rightarrow> Inl (UnknownSourceFormatError ''JSON source is not a client configuration object''))
        else if starts_with ''['' stripped
        then bindE (json_no_duplicates cs stripped) (\<lambda>v.
          case v of
            RList _ \<Rightarrow> Inr XRAY_JSON_ARRAY
          | _ \<Rightarrow> Inl (UnknownSourceFormatError ''JSON source is not an array''))
        else if all_vless (nonblank_lines stripped) then Inr VLESS
        else case decode_base64_subscription cs stripped of
          Inl e \<Rightarrow> if is_import_error e then Inl (UnknownSourceFormatError ''source format is not supported'')
                   else Inl e
        | Inr decoded \<Rightarrow>
            if all_vless (nonblank_lines (py_strip decoded)) then Inr VLESS_BASE64
            else Inl (UnknownSourceFormatError ''decoded source is not a VLESS URI list'')))"

section \<open>Names without credentials\<close>

definition literal_rx :: "string \<Rightarrow> rx" where
  "literal_rx literal = RText (map lower_char literal)"

definition remove_literal :: "string \<Rightarrow> string \<Rightarrow> string option" where
  "remove_literal literal0 sanitized =
     (let literal = py_strip literal0
      in if literal = [] \<or> \<not> occurs_in (py_casefold literal) (py_casefold sanitized) then Some sanitized
         else if length literal < 4 then None
         else Some (rx_sub (literal_rx literal) (\<lambda>_ _. ''<redacted>'') [] sanitized))"

fun remove_literals :: "string list \<Rightarrow> string \<Rightarrow> string option" where
  "remove_literals [] sanitized = Some sanitized"
| "remove_literals (l # ls) sanitized =
     (case remove_literal l sanitized of None \<Rightarrow> None | Some s \<Rightarrow> remove_literals ls s)"

definition sanitize_source_name :: "codecs \<Rightarrow> string \<Rightarrow> string set \<Rightarrow> string" where
  "sanitize_source_name cs value literals =
     (if PROFILE_SECRET_OVERFLOW \<in> literals \<or> length value > 512 then ''unnamed''
      else case remove_literals (sort_key (\<lambda>l. - int (length l)) (set_order cs literals)) value of
        None \<Rightarrow> ''unnamed''
      | Some s \<Rightarrow> clean_display_name (redact_text 512 s))"

definition sensitive_key :: "string \<Rightarrow> bool" where
  "sensitive_key normalized \<longleftrightarrow> normalized \<in> SENSITIVE_PROFILE_KEYS
     \<or> list_ex (\<lambda>m. occurs_in m normalized) [''credential'', ''password'', ''secret'', ''token'', ''uuid'']
     \<or> (length normalized \<ge> 3 \<and> drop (length normalized - 3) normalized = ''key'')"

definition normalize_key :: "string option \<Rightarrow> string" where
  "normalize_key key =
     (case key of
        None \<Rightarrow> []
      | Some k \<Rightarrow> filter (\<lambda>c. ascii_digit c \<or> between 97 122 c) (py_casefold k))"

text \<open>The loop over the stack, the last element first. A parsed document has no shared containers, so
  the set of visited identities never skips one.\<close>

function secret_walk ::
  "(raw \<times> string option \<times> bool) list \<Rightarrow> string set \<Rightarrow> nat \<Rightarrow> string set" where
  "secret_walk stack literals visited =
     (case rev stack of
        [] \<Rightarrow> literals
      | (v, key, inherited) # rest \<Rightarrow>
          if visited + 1 > MAX_PROFILE_SECRET_NODES then {PROFILE_SECRET_OVERFLOW}
          else let sensitive = inherited \<or> sensitive_key (normalize_key key); stack = rev rest
               in case v of
                 RDict kvs \<Rightarrow>
                   secret_walk (stack @ map (\<lambda>(k, c). (c, Some k, sensitive)) kvs) literals (visited + 1)
               | RList vs \<Rightarrow> secret_walk (stack @ map (\<lambda>c. (c, key, sensitive)) vs) literals (visited + 1)
               | RStr s \<Rightarrow>
                   if sensitive \<and> py_strip s \<noteq> []
                   then if card (insert s literals) > MAX_PROFILE_SECRET_LITERALS then {PROFILE_SECRET_OVERFLOW}
                        else secret_walk stack (insert s literals) (visited + 1)
                   else secret_walk stack literals (visited + 1)
               | _ \<Rightarrow> secret_walk stack literals (visited + 1))"
  by pat_completeness auto
termination
  by (relation "measure (\<lambda>(stack, literals, visited). MAX_PROFILE_SECRET_NODES - visited)") auto

declare secret_walk.simps [simp del]

definition profile_secret_literals :: "(string, raw) dict \<Rightarrow> string set" where
  "profile_secret_literals prof = secret_walk [(RDict prof, None, False)] {} 0"

section \<open>VLESS URIs\<close>

record ParsedVlessURI =
  v_uri :: string
  v_user_id :: string
  v_host :: string
  v_port :: nat
  v_name :: string
  v_transport :: string
  v_security :: string
  v_parameters :: "(string, string) dict"

definition ascii_upper :: "string \<Rightarrow> string" where
  "ascii_upper s = map (\<lambda>c. if between 97 122 c then char_of (code c - 32) else c) s"

definition vless_safe_display :: "ParsedVlessURI \<Rightarrow> string" where
  "vless_safe_display p =
     v_name p @ '' (VLESS/'' @ ascii_upper (v_transport p) @ ''/'' @ ascii_upper (v_security p) @ '')''"

fun bad_percent :: "string \<Rightarrow> bool" where
  "bad_percent [] \<longleftrightarrow> False"
| "bad_percent (c # s) \<longleftrightarrow> (c = CHR ''%'' \<and> \<not> hex_pair s) \<or> bad_percent s"

definition parameter_name :: "string \<Rightarrow> bool" where
  "parameter_name s =
     (case s of
        [] \<Rightarrow> False
      | c # cs \<Rightarrow> ascii_alpha c \<and> list_all (\<lambda>d. ascii_alnum d \<or> d \<in> set ''_-'') cs \<and> length cs \<le> 63)"

definition get_or :: "string \<Rightarrow> (string, string) dict \<Rightarrow> string \<Rightarrow> string" where
  "get_or d ps k = (case dict_get ps k of None \<Rightarrow> d | Some v \<Rightarrow> v)"

definition has_key :: "('k, 'v) dict \<Rightarrow> 'k \<Rightarrow> bool" where
  "has_key d k \<longleftrightarrow> dict_get d k \<noteq> None"

text \<open>\<open>parameters.get(k)\<close> is neither missing nor empty.\<close>

definition given :: "(string, string) dict \<Rightarrow> string \<Rightarrow> bool" where
  "given ps k \<longleftrightarrow> get_or [] ps k \<noteq> []"

definition collect_parameters :: "(string \<times> string) list \<Rightarrow> import_error + (string, string) dict" where
  "collect_parameters pairs =
     foldE (\<lambda>(k, v) ps.
        if \<not> parameter_name k
        then Inl (UnsupportedEntryError ''VLESS URI contains an unsupported query parameter'')
        else if has_key ps k then Inl (InvalidEntryError ''VLESS URI repeats a query parameter'')
        else Inr (dict_set k v ps)) pairs []"

text \<open>The address: user identifier, host, port, and the query and fragment behind it.\<close>

definition parse_address ::
  "codecs \<Rightarrow> string \<Rightarrow> import_error + (string \<times> string \<times> nat \<times> string \<times> string)" where
  "parse_address cs uri =
     (let address = Inl (InvalidEntryError ''VLESS entry has an invalid address or port'')
      in case (urlsplit uri, urlparse uri []) of
        (Some u, Some full) \<Rightarrow>
          (case url_port u of
             None \<Rightarrow> address
           | Some port \<Rightarrow>
               if py_casefold (url_scheme u) \<noteq> ''vless'' then Inl (InvalidEntryError ''entry is not a VLESS URI'')
               else if url_password u \<noteq> None
               then Inl (InvalidEntryError ''VLESS URI userinfo must not contain a password'')
               else (case (url_username u, url_hostname u, port) of
                  (Some user, Some host, Some p) \<Rightarrow>
                    (case uuid_text (unquote (utf8_replace cs) user) of
                       None \<Rightarrow> Inl (InvalidEntryError ''VLESS URI contains an invalid UUID'')
                     | Some user_id \<Rightarrow>
                         if p < 1 \<or> p > 65535 then Inl (InvalidEntryError ''VLESS URI port is out of range'')
                         else Inr (user_id, host, p, pu_query full, pu_fragment full))
                | _ \<Rightarrow> Inl (InvalidEntryError ''VLESS URI requires UUID, host, and port'')))
      | _ \<Rightarrow> address)"

definition parse_query :: "codecs \<Rightarrow> string \<Rightarrow> import_error + (string, string) dict" where
  "parse_query cs query =
     (case parse_qsl (utf8_replace cs) 64 query of
        None \<Rightarrow> Inl (InvalidEntryError ''VLESS URI query is invalid or too large'')
      | Some pairs \<Rightarrow> collect_parameters pairs)"

definition vless_transport :: "(string, string) dict \<Rightarrow> import_error + string" where
  "vless_transport ps =
     (let t = py_casefold (get_or ''tcp'' ps ''type'')
      in if t \<notin> {''tcp'', ''raw'', ''xhttp''} then Inl (UnsupportedEntryError ''VLESS transport is not supported'')
         else Inr (if t = ''tcp'' then ''raw'' else t))"

definition vless_security :: "(string, string) dict \<Rightarrow> import_error + string" where
  "vless_security ps =
     (let s = py_casefold (get_or [] ps ''security'')
      in if s \<notin> {''tls'', ''reality''} then Inl (UnsupportedEntryError ''VLESS security must be TLS or REALITY'')
         else if py_casefold (get_or ''none'' ps ''encryption'') \<noteq> ''none''
         then Inl (UnsupportedEntryError ''VLESS encryption setting is not supported'')
         else Inr s)"

definition check_parameters ::
  "codecs \<Rightarrow> string \<Rightarrow> string \<Rightarrow> (string, string) dict \<Rightarrow> import_error + unit" where
  "check_parameters cs tport sec ps =
     (let names = set (dict_keys ps);
          allowed = COMMON_PARAMETERS \<union> (if tport = ''raw'' then RAW_PARAMETERS else XHTTP_PARAMETERS)
            \<union> (if sec = ''reality'' then REALITY_PARAMETERS else {})
      in if \<not> names \<subseteq> allowed
         then Inl (UnsupportedEntryError ''VLESS URI contains unsupported semantic parameters'')
         else if sec = ''reality'' \<and> (\<not> given ps ''pbk'' \<or> \<not> given ps ''sni'')
         then Inl (InvalidEntryError ''REALITY VLESS requires pbk and sni'')
         else if sec = ''reality'' \<and> (given ps ''allowInsecure'' \<or> given ps ''insecure'')
         then Inl (UnsupportedEntryError ''allowInsecure is not meaningful for REALITY'')
         else if sec \<noteq> ''reality'' \<and> names \<inter> REALITY_PARAMETERS \<noteq> {}
         then Inl (UnsupportedEntryError ''REALITY parameters cannot be used with TLS'')
         else if tport = ''raw''
         then (if py_casefold (get_or ''none'' ps ''headerType'') \<noteq> ''none''
               then Inl (UnsupportedEntryError ''only a none RAW header is supported'') else Inr ())
         else if get_or ''auto'' ps ''mode'' \<notin> XHTTP_MODES
         then Inl (UnsupportedEntryError ''XHTTP mode is not supported'')
         else (case dict_get ps ''extra'' of
                 None \<Rightarrow> Inr ()
               | Some text \<Rightarrow>
                   (case json_no_duplicates cs text of
                      Inl e \<Rightarrow> if is_import_error e
                               then Inl (InvalidEntryError ''XHTTP extra parameter is not valid JSON'') else Inl e
                    | Inr (RDict _) \<Rightarrow> Inr ()
                    | Inr _ \<Rightarrow> Inl (InvalidEntryError ''XHTTP extra parameter must be a JSON object''))))"

definition check_insecure :: "(string, string) dict \<Rightarrow> import_error + unit" where
  "check_insecure ps =
     (let invalid = (\<lambda>k. case dict_get ps k of
            None \<Rightarrow> False | Some v \<Rightarrow> py_casefold v \<notin> {''0'', ''1'', ''false'', ''true''});
          insecure = (case dict_get ps ''allowInsecure'' of Some v \<Rightarrow> Some v | None \<Rightarrow> dict_get ps ''insecure'')
      in if invalid ''allowInsecure'' \<or> invalid ''insecure''
         then Inl (InvalidEntryError ''VLESS boolean parameter is invalid'')
         else if has_key ps ''allowInsecure'' \<and> has_key ps ''insecure''
         then Inl (InvalidEntryError ''VLESS URI repeats the TLS verification setting'')
         else if (case insecure of None \<Rightarrow> False | Some v \<Rightarrow> py_casefold v \<in> {''1'', ''true''})
         then Inl (UnsupportedEntryError ''disabling TLS certificate verification is unsupported'')
         else if (case dict_get ps ''packetEncoding'' of
                    None \<Rightarrow> False | Some v \<Rightarrow> v \<notin> {[], ''none'', ''packetaddr'', ''xudp''})
         then Inl (UnsupportedEntryError ''VLESS packetEncoding is not supported'')
         else Inr ())"

definition vless_name :: "codecs \<Rightarrow> string \<Rightarrow> string \<Rightarrow> (string, string) dict \<Rightarrow> string \<Rightarrow> string" where
  "vless_name cs user_id host ps fragment =
     (if fragment = [] then ''VLESS connection''
      else sanitize_source_name cs (unquote (utf8_replace cs) fragment)
        ({user_id, host} \<union> set (map snd (filter (\<lambda>(k, v).
           k \<in> {''extra'', ''host'', ''path'', ''pbk'', ''sid'', ''sni'', ''spx''} \<and> v \<noteq> []) ps))))"

definition parse_vless_uri :: "codecs \<Rightarrow> string \<Rightarrow> import_error + ParsedVlessURI" where
  "parse_vless_uri cs uri =
     (if uri = [] then Inl (InvalidEntryError ''VLESS entry is empty'')
      else if length uri > 32768 then Inl (InvalidEntryError ''VLESS entry is too long'')
      else if bad_percent uri then Inl (InvalidEntryError ''VLESS entry contains malformed percent encoding'')
      else bindE (parse_address cs uri) (\<lambda>(user_id, host, port, query, fragment).
           bindE (parse_query cs query) (\<lambda>ps.
           bindE (vless_transport ps) (\<lambda>tport.
           bindE (vless_security ps) (\<lambda>sec.
           bindE (check_parameters cs tport sec ps) (\<lambda>_.
           bindE (check_insecure ps) (\<lambda>_.
             Inr \<lparr>v_uri = uri, v_user_id = user_id, v_host = py_casefold host, v_port = port,
                  v_name = vless_name cs user_id host ps fragment, v_transport = tport,
                  v_security = sec, v_parameters = ps\<rparr>)))))))"

section \<open>Outbounds\<close>

definition comma_values :: "string \<Rightarrow> string list" where
  "comma_values v = filter (\<lambda>i. i \<noteq> []) (map py_strip (split_on (CHR '','') v))"

definition optional :: "string \<Rightarrow> (string, string) dict \<Rightarrow> string \<Rightarrow> (string \<times> raw) list" where
  "optional name ps k = (if given ps k then [(name, RStr (get_or [] ps k))] else [])"

definition security_settings :: "ParsedVlessURI \<Rightarrow> (string, raw) dict" where
  "security_settings p =
     (let ps = v_parameters p
      in optional ''serverName'' ps ''sni'' @ optional ''fingerprint'' ps ''fp''
         @ (if given ps ''alpn'' then [(''alpn'', RList (map RStr (comma_values (get_or [] ps ''alpn''))))] else [])
         @ (if v_security p = ''reality''
            then (''publicKey'', RStr (get_or [] ps ''pbk'')) # optional ''shortId'' ps ''sid''
                   @ optional ''spiderX'' ps ''spx''
            else []))"

definition xhttp_settings :: "codecs \<Rightarrow> (string, string) dict \<Rightarrow> import_error + (string, raw) dict" where
  "xhttp_settings cs ps =
     (let base = [(''path'', RStr (get_or ''/'' ps ''path'')), (''mode'', RStr (get_or ''auto'' ps ''mode''))]
                 @ optional ''host'' ps ''host''
      in case dict_get ps ''extra'' of
           None \<Rightarrow> Inr base
         | Some text \<Rightarrow> bindE (json_no_duplicates cs text) (\<lambda>v. Inr (base @ [(''extra'', v)])))"

definition stream_settings :: "codecs \<Rightarrow> ParsedVlessURI \<Rightarrow> import_error + (string, raw) dict" where
  "stream_settings cs p =
     (let base = [(''network'', RStr (v_transport p)), (''security'', RStr (v_security p)),
                  (if v_security p = ''reality'' then ''realitySettings'' else ''tlsSettings'',
                   RDict (security_settings p))]
      in if v_transport p = ''raw''
         then Inr (base @ [(''rawSettings'', RDict [(''header'', RDict [(''type'', RStr ''none'')])])])
         else bindE (xhttp_settings cs (v_parameters p)) (\<lambda>x. Inr (base @ [(''xhttpSettings'', RDict x)])))"

definition parsed_to_outbound :: "codecs \<Rightarrow> string \<Rightarrow> ParsedVlessURI \<Rightarrow> import_error + (string, raw) dict" where
  "parsed_to_outbound cs tag p =
     (let ps = v_parameters p;
          user = [(''id'', RStr (v_user_id p)), (''encryption'', RStr (get_or ''none'' ps ''encryption''))]
                 @ optional ''flow'' ps ''flow'';
          settings = [(''vnext'', RList [RDict [(''address'', RStr (v_host p)), (''port'', RInt (int (v_port p))),
                                               (''users'', RList [RDict user])]])]
            @ (if get_or [] ps ''packetEncoding'' \<notin> {[], ''none''}
               then [(''packetEncoding'', RStr (get_or [] ps ''packetEncoding''))] else [])
      in bindE (stream_settings cs p) (\<lambda>stream.
           Inr [(''tag'', RStr tag), (''protocol'', RStr ''vless''), (''settings'', RDict settings),
                (''streamSettings'', RDict stream)]))"

definition vless_uri_to_outbound :: "codecs \<Rightarrow> string \<Rightarrow> string \<Rightarrow> import_error + (string, raw) dict" where
  "vless_uri_to_outbound cs tag uri =
     bindE (parse_vless_uri cs uri) (\<lambda>p. parsed_to_outbound cs tag p)"

section \<open>Xray profiles\<close>

text \<open>\<open>d.get(k)\<close> of a dictionary, of any value, and \<open>str(v)\<close>; the text of a float or a container is never
  one of the compared names and is not spelled out.\<close>

definition item :: "(string, raw) dict \<Rightarrow> string \<Rightarrow> raw" where
  "item d k = (case dict_get d k of None \<Rightarrow> RNone | Some v \<Rightarrow> v)"

definition attr_get :: "raw \<Rightarrow> string \<Rightarrow> import_error + raw" where
  "attr_get v k = (case v of RDict d \<Rightarrow> Inr (item d k) | _ \<Rightarrow> Inl AttributeError)"

definition str_of :: "raw \<Rightarrow> string" where
  "str_of v =
     (case v of
        RStr s \<Rightarrow> s
      | RNone \<Rightarrow> ''None''
      | RBool b \<Rightarrow> (if b then ''True'' else ''False'')
      | RInt i \<Rightarrow> (if i < 0 then ''-'' else []) @ number_text 10 (nat \<bar>i\<bar>)
      | _ \<Rightarrow> ''[...]'')"

fun raw_true :: "raw \<Rightarrow> bool" where
  "raw_true RNone = False"
| "raw_true (RBool b) = b"
| "raw_true (RInt i) = (i \<noteq> 0)"
| "raw_true (RFloat q) = (q \<noteq> 0)"
| "raw_true (RStr s) = (s \<noteq> [])"
| "raw_true (RList vs) = (vs \<noteq> [])"
| "raw_true (RDict kvs) = (kvs \<noteq> [])"

text \<open>\<open>value in {...}\<close> with a set of strings: a list or a dictionary is not hashable.\<close>

definition in_strings :: "raw \<Rightarrow> string set \<Rightarrow> import_error + bool" where
  "in_strings v S =
     (case v of
        RStr s \<Rightarrow> Inr (s \<in> S)
      | RList _ \<Rightarrow> Inl TypeError
      | RDict _ \<Rightarrow> Inl TypeError
      | _ \<Rightarrow> Inr False)"

definition validate_vless_outbound :: "(string, raw) dict \<Rightarrow> import_error + string \<times> string" where
  "validate_vless_outbound outbound =
     (case item outbound ''streamSettings'' of
        RDict stream \<Rightarrow>
          (let t = py_casefold (case dict_get stream ''network'' of None \<Rightarrow> ''raw'' | Some v \<Rightarrow> str_of v);
               sec = py_casefold (case dict_get stream ''security'' of None \<Rightarrow> [] | Some v \<Rightarrow> str_of v)
           in if t \<notin> {''tcp'', ''raw'', ''xhttp''}
              then Inl (UnsupportedEntryError ''profile contains an unsupported VLESS transport'')
              else if sec \<notin> {''tls'', ''reality''}
              then Inl (UnsupportedEntryError ''profile VLESS security must be TLS or REALITY'')
              else if sec = ''tls'' \<and> (case item stream ''tlsSettings'' of
                                        RDict tls \<Rightarrow> has_key tls ''allowInsecure'' | _ \<Rightarrow> False)
              then Inl (UnsupportedEntryError ''profile uses the removed TLS allowInsecure setting'')
              else (case item outbound ''settings'' of
                      RDict settings \<Rightarrow>
                        (case item settings ''vnext'' of
                           RList (_ # _) \<Rightarrow> Inr (if t = ''tcp'' then ''raw'' else t, sec)
                         | _ \<Rightarrow> Inl (InvalidEntryError ''VLESS outbound has no server''))
                    | _ \<Rightarrow> Inl (InvalidEntryError ''VLESS outbound settings are missing'')))
      | _ \<Rightarrow> Inl (UnsupportedEntryError ''VLESS outbound requires streamSettings''))"

text \<open>A tag is missing or a new non-empty string.\<close>

definition add_tag :: "string \<Rightarrow> raw \<Rightarrow> string set \<Rightarrow> import_error + string set" where
  "add_tag kind tag tags =
     (case tag of
        RNone \<Rightarrow> Inr tags
      | RStr t \<Rightarrow>
          if t = [] then Inl (InvalidEntryError (''Xray '' @ kind @ '' tag must be a non-empty string''))
          else if t \<in> tags then Inl (InvalidEntryError (''Xray profile contains duplicate '' @ kind @ '' tags''))
          else Inr (insert t tags)
      | _ \<Rightarrow> Inl (InvalidEntryError (''Xray '' @ kind @ '' tag must be a non-empty string'')))"

definition check_outbound :: "raw \<Rightarrow> string set \<times> nat \<Rightarrow> import_error + string set \<times> nat" where
  "check_outbound v st =
     (case v of
        RDict outbound \<Rightarrow>
          bindE (in_strings (item outbound ''protocol'') ALLOWED_OUTBOUND_PROTOCOLS) (\<lambda>allowed.
          if \<not> allowed then Inl (UnsupportedEntryError ''profile contains an unsupported outbound protocol'')
          else bindE (add_tag ''outbound'' (item outbound ''tag'') (fst st)) (\<lambda>tags.
               if item outbound ''protocol'' = RStr ''vless''
               then bindE (validate_vless_outbound outbound) (\<lambda>_. Inr (tags, snd st + 1))
               else Inr (tags, snd st)))
      | _ \<Rightarrow> Inl (InvalidEntryError ''Xray outbound must be a JSON object''))"

definition check_inbound ::
  "raw \<Rightarrow> string set \<times> (string, raw) dict list \<Rightarrow> import_error + string set \<times> (string, raw) dict list" where
  "check_inbound v st =
     (case v of
        RDict inbound \<Rightarrow>
          bindE (add_tag ''inbound'' (item inbound ''tag'') (fst st)) (\<lambda>tags.
          bindE (in_strings (item inbound ''protocol'') ADAPTABLE_INBOUND_PROTOCOLS) (\<lambda>adaptable.
          if \<not> adaptable then Inr (tags, snd st)
          else (case item inbound ''sniffing'' of
                  RNone \<Rightarrow> Inr (tags, snd st @ [inbound])
                | RDict _ \<Rightarrow> Inr (tags, snd st @ [inbound])
                | _ \<Rightarrow> Inl (InvalidEntryError ''Xray inbound sniffing must be a JSON object''))))
      | _ \<Rightarrow> Inl (InvalidEntryError ''Xray inbound must be a JSON object''))"

definition compatible_inbound_tag :: "(string, raw) dict \<Rightarrow> import_error + string option" where
  "compatible_inbound_tag prof =
     (case item prof ''inbounds'' of
        RList (i # is) \<Rightarrow>
          bindE (foldE check_inbound (i # is) ({}, [])) (\<lambda>(_, compatible).
            if compatible = []
            then Inl (UnsupportedEntryError ''profile has no compatible SOCKS or HTTP client inbound'')
            else if length compatible > 1 \<and> list_ex (\<lambda>c. \<not> raw_true (item c ''tag'')) compatible
            then Inl (UnsupportedEntryError ''ambiguous compatible inbounds require non-empty tags'')
            else if length compatible = 1
            then Inr (case item (hd compatible) ''tag'' of RStr t \<Rightarrow> Some t | _ \<Rightarrow> None)
            else Inr None)
      | _ \<Rightarrow> Inl (InvalidEntryError ''Xray client profile requires a non-empty inbounds array''))"

definition validate_xray_profile :: "raw \<Rightarrow> import_error + (string, raw) dict" where
  "validate_xray_profile v =
     (case v of
        RDict prof \<Rightarrow>
          (case item prof ''outbounds'' of
             RList (ob # obs) \<Rightarrow>
               bindE (foldE check_outbound (ob # obs) ({}, 0)) (\<lambda>(_, vless_count).
                 if vless_count = 0
                 then Inl (UnsupportedEntryError ''Xray profile has no supported VLESS outbound'')
                 else bindE (compatible_inbound_tag prof) (\<lambda>_. Inr prof))
           | _ \<Rightarrow> Inl (InvalidEntryError ''Xray profile requires a non-empty outbounds array''))
      | _ \<Rightarrow> Inl (InvalidEntryError ''Xray profile must be a JSON object''))"

section \<open>Fingerprints\<close>

definition text_or_none :: "(string, string) dict \<Rightarrow> string \<Rightarrow> raw" where
  "text_or_none ps k = (case dict_get ps k of None \<Rightarrow> RNone | Some v \<Rightarrow> RStr v)"

definition fingerprint_of :: "codecs \<Rightarrow> raw \<Rightarrow> string" where
  "fingerprint_of cs semantic = sha256_text cs (''safe-reconciliation-v2'' @ [NUL] @ json_compact cs semantic)"

definition nonsecret_vless_identity :: "codecs \<Rightarrow> ParsedVlessURI \<Rightarrow> string" where
  "nonsecret_vless_identity cs p =
     (let ps = v_parameters p
      in fingerprint_of cs (RDict [(''host'', RStr (v_host p)), (''port'', RInt (int (v_port p))),
           (''security'', RStr (v_security p)), (''sni'', text_or_none ps ''sni''),
           (''transport'', RStr (v_transport p)), (''xhttp_host'', text_or_none ps ''host''),
           (''xhttp_mode'', text_or_none ps ''mode'')]))"

definition or_empty :: "raw \<Rightarrow> raw" where
  "or_empty v = (if raw_true v then v else RDict [])"

text \<open>\<open>vnext[0] if vnext else {}\<close>; a string or a dictionary is indexed too.\<close>

definition first_server :: "raw \<Rightarrow> import_error + raw" where
  "first_server v =
     (if \<not> raw_true v then Inr (RDict [])
      else case v of
        RList (s # _) \<Rightarrow> Inr s
      | RStr (c # _) \<Rightarrow> Inr (RStr [c])
      | RDict _ \<Rightarrow> Inl KeyError
      | _ \<Rightarrow> Inl TypeError)"

definition outbound_identity :: "raw \<Rightarrow> import_error + raw" where
  "outbound_identity outbound =
     bindE (attr_get outbound ''streamSettings'') (\<lambda>s. let stream = or_empty s in
     bindE (attr_get outbound ''settings'') (\<lambda>settings.
     bindE (attr_get (or_empty settings) ''vnext'') (\<lambda>vnext.
     bindE (first_server vnext) (\<lambda>server.
     bindE (attr_get stream ''security'') (\<lambda>sec.
     bindE (attr_get stream (str_of sec @ ''Settings'')) (\<lambda>secure0. let secure = or_empty secure0 in
     bindE (attr_get stream ''xhttpSettings'') (\<lambda>xhttp0. let xhttp = or_empty xhttp0 in
     bindE (attr_get server ''address'') (\<lambda>address.
     bindE (attr_get server ''port'') (\<lambda>port.
     bindE (attr_get secure ''serverName'') (\<lambda>server_name.
     bindE (attr_get xhttp ''host'') (\<lambda>xhost.
     bindE (attr_get xhttp ''mode'') (\<lambda>xmode.
       Inr (RDict [(''address'', address),
         (''network'', case stream of RDict d \<Rightarrow> (case dict_get d ''network'' of None \<Rightarrow> RStr ''raw'' | Some n \<Rightarrow> n)
                                 | _ \<Rightarrow> RNone),
         (''port'', port), (''security'', sec), (''serverName'', server_name),
         (''xhttpHost'', xhost), (''xhttpMode'', xmode)])))))))))))))"

fun semantic_outbounds :: "raw list \<Rightarrow> import_error + raw list" where
  "semantic_outbounds [] = Inr []"
| "semantic_outbounds (ob # obs) =
     bindE (attr_get ob ''protocol'') (\<lambda>protocol.
     if protocol \<noteq> RStr ''vless'' then semantic_outbounds obs
     else bindE (outbound_identity ob) (\<lambda>v. bindE (semantic_outbounds obs) (\<lambda>vs. Inr (v # vs))))"

text \<open>\<open>for outbound in profile.get("outbounds", [])\<close>: only a list of values is modelled; iterating a
  string or a dictionary yields strings, on which \<open>get\<close> fails.\<close>

definition outbound_list :: "(string, raw) dict \<Rightarrow> import_error + raw list" where
  "outbound_list prof =
     (case dict_get prof ''outbounds'' of
        None \<Rightarrow> Inr []
      | Some (RList vs) \<Rightarrow> Inr vs
      | Some (RStr s) \<Rightarrow> Inr (map (\<lambda>c. RStr [c]) s)
      | Some (RDict kvs) \<Rightarrow> Inr (map (\<lambda>(k, _). RStr k) kvs)
      | Some _ \<Rightarrow> Inl TypeError)"

definition profile_identity :: "codecs \<Rightarrow> (string, raw) dict \<Rightarrow> import_error + string" where
  "profile_identity cs prof =
     bindE (outbound_list prof) (\<lambda>obs.
     bindE (semantic_outbounds obs) (\<lambda>semantic.
       Inr (fingerprint_of cs (RList (sort_key (json_compact cs) semantic)))))"

text \<open>The entry's profile and payload; \<open>except (SourceImportError, TypeError, ValueError): return None\<close>.\<close>

definition safe_reconciliation_fingerprint ::
  "codecs \<Rightarrow> raw option \<Rightarrow> raw option \<Rightarrow> import_error + string option" where
  "safe_reconciliation_fingerprint cs prof pay =
     (let result =
        (case (prof, pay) of
           (Some (RDict d), _) \<Rightarrow> bindE (profile_identity cs d) (\<lambda>f. Inr (Some f))
         | (_, Some (RDict d)) \<Rightarrow> bindE (profile_identity cs d) (\<lambda>f. Inr (Some f))
         | (_, Some (RStr uri)) \<Rightarrow>
             bindE (parse_vless_uri cs uri) (\<lambda>p. Inr (Some (nonsecret_vless_identity cs p)))
         | _ \<Rightarrow> Inr None)
      in case result of
        Inr f \<Rightarrow> Inr f
      | Inl AttributeError \<Rightarrow> Inl AttributeError
      | Inl KeyError \<Rightarrow> Inl KeyError
      | Inl _ \<Rightarrow> Inr None)"

section \<open>Importing a source\<close>

definition named_value :: "(string, raw) dict \<Rightarrow> string list \<Rightarrow> string option" where
  "named_value d ks =
     (case filter (\<lambda>k. case item d k of RStr s \<Rightarrow> py_strip s \<noteq> [] | _ \<Rightarrow> False) ks of
        [] \<Rightarrow> None
      | k # _ \<Rightarrow> Some (str_of (item d k)))"

definition profile_name :: "codecs \<Rightarrow> (string, raw) dict \<Rightarrow> nat \<Rightarrow> string" where
  "profile_name cs prof i =
     (let literals = profile_secret_literals prof
      in case named_value prof [''name'', ''remarks'', ''remark''] of
           Some v \<Rightarrow> sanitize_source_name cs v literals
         | None \<Rightarrow>
             (case item prof ''metadata'' of
                RDict meta \<Rightarrow>
                  (case named_value meta [''name'', ''remarks''] of
                     Some v \<Rightarrow> sanitize_source_name cs v literals
                   | None \<Rightarrow> ''Xray profile '' @ number_text 10 i)
              | _ \<Rightarrow> ''Xray profile '' @ number_text 10 i))"

definition id_text :: "raw \<Rightarrow> string option" where
  "id_text v =
     (case v of RStr s \<Rightarrow> if py_strip s \<noteq> [] \<and> length s \<le> 512 then Some s else None | _ \<Rightarrow> None)"

definition profile_external_id :: "(string, raw) dict \<Rightarrow> string option" where
  "profile_external_id prof =
     (case id_text (item prof ''id'') of
        Some v \<Rightarrow> Some v
      | None \<Rightarrow> (case item prof ''metadata'' of RDict meta \<Rightarrow> id_text (item meta ''id'') | _ \<Rightarrow> None))"

definition candidate_name :: "nat \<Rightarrow> string" where
  "candidate_name i = ''candidate_'' @ pad_left 5 (CHR ''0'') (number_text 10 i)"

definition validated :: "ImportedEntry \<Rightarrow> import_error + ImportedEntry" where
  "validated e = (case validate_ImportedEntry e of Inl m \<Rightarrow> Inl (ValidationError m) | Inr e \<Rightarrow> Inr e)"

definition vless_entry :: "codecs \<Rightarrow> string option \<Rightarrow> nat \<Rightarrow> string \<Rightarrow> ParsedVlessURI \<Rightarrow> ImportedEntry" where
  "vless_entry cs sid i line p =
     \<lparr>candidate_id = candidate_name i, imp_source_id = sid, imp_name = v_name p, imp_kind = VLESS_URI,
      imp_mode = CONNECTION, imp_payload = Some (RStr line), imp_profile = None, imp_outbound_tag = None,
      imp_inbound_tag = None, imp_external_id = None, imp_protocol = ''vless'',
      imp_transport = Some (v_transport p), imp_security = Some (v_security p),
      imp_compatibility = SUPPORTED, imp_compatibility_reason = None,
      imp_identity_name = py_casefold (v_name p),
      imp_connection_fingerprint = Some (nonsecret_vless_identity cs p),
      imp_safe_display = vless_safe_display p, imp_metadata = []\<rparr>"

definition import_line :: "codecs \<Rightarrow> string option \<Rightarrow> nat \<times> string \<Rightarrow> import_error + ImportedEntry" where
  "import_line cs sid il =
     (case parse_vless_uri cs (snd il) of
        Inl e \<Rightarrow> Inl (if is_import_error e then at_entry (fst il) e else e)
      | Inr p \<Rightarrow> validated (vless_entry cs sid (fst il) (snd il) p))"

definition import_vless_lines :: "codecs \<Rightarrow> string \<Rightarrow> string option \<Rightarrow> import_error + ImportedEntry list" where
  "import_vless_lines cs text sid =
     (let lines = nonblank_lines text
      in if length lines > MAX_ENTRIES then Inl (SourceImportError ''source contains too many entries'')
         else mapE (import_line cs sid) (enumerate 1 lines))"

definition vless_kinds :: "(string, raw) dict \<Rightarrow> import_error + (string \<times> string) list" where
  "vless_kinds prof =
     (case item prof ''outbounds'' of
        RList obs \<Rightarrow> mapE (\<lambda>v. case v of RDict ob \<Rightarrow> validate_vless_outbound ob | _ \<Rightarrow> Inl AttributeError)
                       (filter (\<lambda>v. case v of RDict ob \<Rightarrow> item ob ''protocol'' = RStr ''vless'' | _ \<Rightarrow> True) obs)
      | _ \<Rightarrow> Inr [])"

definition only_or_mixed :: "string list \<Rightarrow> string" where
  "only_or_mixed xs = (case remdups xs of [x] \<Rightarrow> x | _ \<Rightarrow> ''mixed'')"

definition profile_entry ::
  "string option \<Rightarrow> nat \<Rightarrow> (string, raw) dict \<Rightarrow> string \<Rightarrow> string option \<Rightarrow> string \<Rightarrow> (string \<times> string) list
     \<Rightarrow> ImportedEntry" where
  "profile_entry sid i prof name inbound fp kinds =
     (let t = only_or_mixed (map fst kinds); sec = only_or_mixed (map snd kinds)
      in \<lparr>candidate_id = candidate_name i, imp_source_id = sid, imp_name = name, imp_kind = EntryKind.XRAY_JSON,
          imp_mode = PROFILE, imp_payload = None, imp_profile = Some (RDict prof), imp_outbound_tag = None,
          imp_inbound_tag = inbound, imp_external_id = profile_external_id prof, imp_protocol = ''vless'',
          imp_transport = Some t, imp_security = Some sec, imp_compatibility = SUPPORTED,
          imp_compatibility_reason = None, imp_identity_name = py_casefold name,
          imp_connection_fingerprint = Some fp,
          imp_safe_display = name @ '' (Xray profile, VLESS/'' @ t @ ''/'' @ sec @ '')'', imp_metadata = []\<rparr>)"

definition import_profile :: "codecs \<Rightarrow> string option \<Rightarrow> nat \<times> raw \<Rightarrow> import_error + ImportedEntry" where
  "import_profile cs sid iv =
     (case validate_xray_profile (snd iv) of
        Inl e \<Rightarrow> Inl (if is_import_error e then at_entry (fst iv) e else e)
      | Inr prof \<Rightarrow>
          bindE (vless_kinds prof) (\<lambda>kinds.
          bindE (compatible_inbound_tag prof) (\<lambda>inbound.
          bindE (profile_identity cs prof) (\<lambda>fp.
            validated (profile_entry sid (fst iv) prof (profile_name cs prof (fst iv)) inbound fp kinds)))))"

definition import_profiles :: "codecs \<Rightarrow> raw list \<Rightarrow> string option \<Rightarrow> import_error + ImportedEntry list" where
  "import_profiles cs vs sid =
     (if length vs > MAX_ENTRIES then Inl (SourceImportError ''source contains too many entries'')
      else mapE (import_profile cs sid) (enumerate 1 vs))"

definition import_content ::
  "codecs \<Rightarrow> source_content \<Rightarrow> SourceFormat \<Rightarrow> string option \<Rightarrow> import_error + ImportedEntry list" where
  "import_content cs content fmt sid =
     bindE (decode_text cs content) (\<lambda>text.
     bindE (reject_html text) (\<lambda>_.
     bindE (if fmt = AUTO then detect_format cs (Text text) else Inr fmt) (\<lambda>selected.
       case selected of
         VLESS_BASE64 \<Rightarrow> bindE (decode_base64_subscription cs text) (\<lambda>t. import_vless_lines cs t sid)
       | VLESS \<Rightarrow> import_vless_lines cs text sid
       | _ \<Rightarrow>
           bindE (json_no_duplicates cs text) (\<lambda>v.
             case (selected, v) of
               (SourceFormat.XRAY_JSON, RDict _) \<Rightarrow> import_profiles cs [v] sid
             | (SourceFormat.XRAY_JSON, _) \<Rightarrow> Inl (InvalidEntryError ''expected one Xray JSON object'')
             | (XRAY_JSON_ARRAY, RList vs) \<Rightarrow> import_profiles cs vs sid
             | (XRAY_JSON_ARRAY, _) \<Rightarrow> Inl (InvalidEntryError ''expected an array of Xray JSON objects'')
             | _ \<Rightarrow> Inl (UnknownSourceFormatError ''source format is not supported'')))))"

section \<open>The outbound of a connection check\<close>

datatype outbound_value = OfUri string | OfParsed ParsedVlessURI
  | OfEntry "raw option" "raw option" "string option" | OfMapping "(string, raw) dict"

definition vless_outbounds :: "(string, raw) dict \<Rightarrow> (string, raw) dict list" where
  "vless_outbounds prof =
     (case item prof ''outbounds'' of
        RList obs \<Rightarrow> List.map_filter (\<lambda>v. case v of
          RDict ob \<Rightarrow> if item ob ''protocol'' = RStr ''vless'' then Some ob else None | _ \<Rightarrow> None) obs
      | _ \<Rightarrow> [])"

definition select_outbound ::
  "raw \<Rightarrow> string option \<Rightarrow> string option \<Rightarrow> import_error + (string, raw) dict" where
  "select_outbound prof outbound_tag effective_tag =
     bindE (validate_xray_profile prof) (\<lambda>validated.
     let candidates = vless_outbounds validated;
         selected = (case outbound_tag of
            None \<Rightarrow> candidates | Some t \<Rightarrow> filter (\<lambda>ob. item ob ''tag'' = RStr t) candidates)
     in if outbound_tag \<noteq> None \<and> selected = []
        then Inl (InvalidEntryError ''selected VLESS outbound tag was not found'')
        else if length selected \<noteq> 1
        then Inl (UnsupportedEntryError ''connection mode requires one unambiguous VLESS outbound'')
        else Inr (case effective_tag of
                    None \<Rightarrow> hd selected | Some t \<Rightarrow> dict_set ''tag'' (RStr t) (hd selected)))"

definition tag_or_default :: "string option \<Rightarrow> string" where
  "tag_or_default t = (if truthy t then the t else ''probe-selected'')"

definition effective_connection_outbound ::
  "codecs \<Rightarrow> outbound_value \<Rightarrow> string option \<Rightarrow> string option \<Rightarrow> import_error + (string, raw) dict" where
  "effective_connection_outbound cs v outbound_tag effective_tag =
     (case v of
        OfUri uri \<Rightarrow> vless_uri_to_outbound cs (tag_or_default effective_tag) uri
      | OfParsed p \<Rightarrow> parsed_to_outbound cs (tag_or_default effective_tag) p
      | OfEntry pay prof entry_tag \<Rightarrow>
          (case pay of
             Some (RStr uri) \<Rightarrow> vless_uri_to_outbound cs (tag_or_default effective_tag) uri
           | _ \<Rightarrow>
               let tag = (if truthy outbound_tag then outbound_tag else entry_tag);
                   chosen = (case prof of
                      Some p \<Rightarrow> if raw_true p then Some p else (case pay of Some (RDict d) \<Rightarrow> Some (RDict d) | _ \<Rightarrow> None)
                    | None \<Rightarrow> (case pay of Some (RDict d) \<Rightarrow> Some (RDict d) | _ \<Rightarrow> None))
               in (case chosen of
                     None \<Rightarrow> Inl (InvalidEntryError ''entry has no effective profile'')
                   | Some p \<Rightarrow> select_outbound p tag effective_tag))
      | OfMapping d \<Rightarrow>
          select_outbound (if raw_true (item d ''protocol'') then RDict [(''outbounds'', RList [RDict d])] else RDict d)
            outbound_tag effective_tag)"

definition redact_vless_uri :: "codecs \<Rightarrow> string \<Rightarrow> import_error + string" where
  "redact_vless_uri cs uri =
     (case parse_vless_uri cs uri of
        Inr p \<Rightarrow> Inr (vless_safe_display p)
      | Inl e \<Rightarrow> if is_import_error e then Inr ''invalid VLESS entry (redacted)'' else Inl e)"

end
