(* ===== verification/ImportLaws.thy ===== *)
theory ImportLaws
  imports Importers
begin

text \<open>
  What an accepted source satisfies: the supported matrix of VLESS URIs, the agreement of URIs with the
  profile validator, one entry per line, and the secrets a profile name is cleaned of.
\<close>

section \<open>Accepted URIs\<close>

lemma collect_parameters_ok:
  assumes "collect_parameters pairs = Inr ps"
  shows "dict_ok ps \<and> (\<forall>k \<in> set (dict_keys ps). parameter_name k)"
  using assms unfolding collect_parameters_def
proof (rule foldE_invariant)
  show "dict_ok [] \<and> (\<forall>k \<in> set (dict_keys []). parameter_name k)" by (simp add: dict_ok_def)
next
  fix x s t
  assume s: "dict_ok s \<and> (\<forall>k \<in> set (dict_keys s). parameter_name k)"
    and "(case x of (k, v) \<Rightarrow> \<lambda>ps.
        if \<not> parameter_name k
        then Inl (UnsupportedEntryError ''VLESS URI contains an unsupported query parameter'')
        else if has_key ps k then Inl (InvalidEntryError ''VLESS URI repeats a query parameter'')
        else Inr (dict_set k v ps)) s = Inr t"
  then show "dict_ok t \<and> (\<forall>k \<in> set (dict_keys t). parameter_name k)"
    by (auto simp only: dict_ok_def AList.update_keys split: prod.splits if_splits) auto
qed

lemma vless_transport_Inr: "vless_transport ps = Inr t \<Longrightarrow> t \<in> {''raw'', ''xhttp''}"
  by (auto simp: vless_transport_def Let_def split: if_splits)

lemma vless_security_Inr: "vless_security ps = Inr s \<Longrightarrow> s \<in> {''tls'', ''reality''}"
  by (auto simp: vless_security_def Let_def split: if_splits)

lemma parse_address_Inr:
  assumes "parse_address cs uri = Inr (user_id, host, port, query, fragment)"
  shows "1 \<le> port \<and> port \<le> 65535 \<and> (\<exists>s. uuid_text s = Some user_id)"
  using assms by (auto simp: parse_address_def Let_def split: option.splits if_splits)

lemma check_parameters_Inr:
  assumes "check_parameters cs t s ps = Inr ()"
  shows "set (dict_keys ps) \<subseteq> COMMON_PARAMETERS \<union> (if t = ''raw'' then RAW_PARAMETERS else XHTTP_PARAMETERS)
      \<union> (if s = ''reality'' then REALITY_PARAMETERS else {})"
    "s = ''reality'' \<Longrightarrow> given ps ''pbk'' \<and> given ps ''sni''"
    "t \<noteq> ''raw'' \<Longrightarrow> get_or ''auto'' ps ''mode'' \<in> XHTTP_MODES"
    "t \<noteq> ''raw'' \<Longrightarrow> dict_get ps ''extra'' = Some x \<Longrightarrow> \<exists>d. json_no_duplicates cs x = Inr (RDict d)"
  using assms by (auto simp: check_parameters_def Let_def split: if_splits option.splits sum.splits raw.splits)

lemma check_insecure_Inr:
  assumes "check_insecure ps = Inr ()" "k \<in> {''allowInsecure'', ''insecure''}" "dict_get ps k = Some v"
  shows "py_casefold v \<in> {''0'', ''false''}"
  using assms by (auto simp: check_insecure_def has_key_def Let_def split: if_splits option.splits)

lemma parse_vless_uri_Inr:
  assumes "parse_vless_uri cs uri = Inr p"
  obtains user_id host port query fragment ps t s where
    "parse_address cs uri = Inr (user_id, host, port, query, fragment)" "parse_query cs query = Inr ps"
    "vless_transport ps = Inr t" "vless_security ps = Inr s" "check_parameters cs t s ps = Inr ()"
    "check_insecure ps = Inr ()"
    "p = \<lparr>v_uri = uri, v_user_id = user_id, v_host = py_casefold host, v_port = port,
       v_name = vless_name cs user_id host ps fragment, v_transport = t, v_security = s, v_parameters = ps\<rparr>"
  using assms by (auto simp: parse_vless_uri_def bindE_Inr_iff split: if_splits)

section \<open>Numbers and identifiers\<close>

definition hex_lower :: "char \<Rightarrow> bool" where
  "hex_lower c \<longleftrightarrow> ascii_digit c \<or> between 97 102 c"

lemma digit_char_hex: "d < 16 \<Longrightarrow> hex_lower (digit_char d)"
proof -
  have "list_all (\<lambda>d. hex_lower (digit_char d)) [0..<16]" by code_simp
  then show "d < 16 \<Longrightarrow> ?thesis" by (simp add: list_all_iff)
qed

lemma digit_char_decimal: "d < 10 \<Longrightarrow> ascii_digit (digit_char d)"
proof -
  have "list_all (\<lambda>d. ascii_digit (digit_char d)) [0..<10]" by code_simp
  then show "d < 10 \<Longrightarrow> ?thesis" by (simp add: list_all_iff)
qed

lemma number_text_set:
  "2 \<le> b \<Longrightarrow> b \<le> 16 \<Longrightarrow> c \<in> set (number_text b n) \<Longrightarrow> \<exists>d < b. c = digit_char d"
proof (induction b n rule: number_text.induct)
  case (1 b n)
  show ?case
  proof (cases "n < b")
    case True
    then show ?thesis using 1(2-4) by (subst (asm) number_text.simps) auto
  next
    case False
    then have "c \<in> set (number_text b (n div b)) \<or> c = digit_char (n mod b)"
      using 1(2-4) by (subst (asm) number_text.simps) auto
    moreover have "n mod b < b" using 1(2) by simp
    moreover have "\<not> (n < b \<or> b < 2)" using False 1(2) by simp
    ultimately show ?thesis using "1.IH" [OF _ 1(2,3)] by blast
  qed
qed

lemma number_text_length:
  "2 \<le> b \<Longrightarrow> n < b ^ k \<Longrightarrow> 1 \<le> k \<Longrightarrow> length (number_text b n) \<le> k"
proof (induction b n arbitrary: k rule: number_text.induct)
  case (1 b n)
  show ?case
  proof (cases "n < b")
    case True
    then show ?thesis using 1(4) by (subst number_text.simps) simp
  next
    case False
    then obtain j where k: "k = Suc j" "1 \<le> j" using 1(3,4) by (cases k; cases "k - 1") auto
    have "n div b < b ^ j" using 1(3) k(1) by (simp add: less_mult_imp_div_less mult.commute)
    then have "length (number_text b (n div b)) \<le> j" using 1(1) [of j] False 1(2) k(2) by simp
    then show ?thesis using False 1(2) k(1) by (subst number_text.simps) simp
  qed
qed

lemma pad_value: "digits_value 10 0 (pad_left k (CHR ''0'') s) = digits_value 10 0 s"
proof -
  have zeros: "digits_value 10 0 (replicate j (CHR ''0'') @ s) = digits_value 10 0 s" for j
    by (induction j) (simp_all add: char_class_defs)
  then show ?thesis by (simp add: pad_left_def)
qed

lemma candidate_name_inj: "candidate_name i = candidate_name j \<Longrightarrow> i = j"
proof -
  assume "candidate_name i = candidate_name j"
  then have "pad_left 5 (CHR ''0'') (number_text 10 i) = pad_left 5 (CHR ''0'') (number_text 10 j)"
    by (simp add: candidate_name_def)
  then show "i = j" using pad_value number_text_value by metis
qed

lemma candidate_name_safe:
  assumes "i \<le> MAX_ENTRIES"
  shows "validate_id (candidate_name i) = Inr (candidate_name i)"
proof -
  let ?n = "number_text 10 i"
  have digits: "ascii_digit c" if "c \<in> set ?n" for c
    using number_text_set [of 10 c i] that digit_char_decimal by auto
  have "length ?n \<le> 5" by (rule number_text_length) (use assms in \<open>simp_all add: MAX_ENTRIES_def\<close>)
  then have "length (pad_left 5 (CHR ''0'') ?n) = 5" by (simp add: pad_left_def)
  moreover have "list_all id_char (pad_left 5 (CHR ''0'') ?n)"
    using digits by (auto simp: pad_left_def list_all_iff id_char_def ascii_alnum_def)
      (auto simp: char_class_defs)
  moreover have "list_all id_char ''andidate_''" "ascii_alnum (CHR ''c'')"
    by (simp_all add: id_char_def char_class_defs)
  ultimately show ?thesis
    by (simp add: validate_id_def safe_id_def candidate_name_def)
qed

definition canonical_uuid :: "string \<Rightarrow> bool" where
  "canonical_uuid u \<longleftrightarrow>
     (\<exists>a b c d e. u = a @ ''-'' @ b @ ''-'' @ c @ ''-'' @ d @ ''-'' @ e
        \<and> map length [a, b, c, d, e] = [8, 4, 4, 4, 12] \<and> list_all hex_lower (a @ b @ c @ d @ e))"

lemma canonical_uuidI:
  "list_all hex_lower (a @ b @ c @ d @ e) \<Longrightarrow> map length [a, b, c, d, e] = [8, 4, 4, 4, 12]
     \<Longrightarrow> u = a @ ''-'' @ b @ ''-'' @ c @ ''-'' @ d @ ''-'' @ e \<Longrightarrow> canonical_uuid u"
  unfolding canonical_uuid_def by (rule exI conjI | assumption)+

lemma uuid_text_canonical: "uuid_text s = Some u \<Longrightarrow> canonical_uuid u"
proof -
  assume "uuid_text s = Some u"
  then obtain n where n: "0 \<le> n" "n < 2 ^ 128" "u = uuid_format (nat n)"
    by (auto simp: uuid_text_def Let_def split: if_splits option.splits)
  let ?h = "pad_left 32 (CHR ''0'') (number_text 16 (nat n))"
  have "(2 :: int) ^ 128 = int (16 ^ 32)" by simp
  then have "nat n < 16 ^ 32" using n(1,2) by linarith
  then have "length (number_text 16 (nat n)) \<le> 32" by (rule number_text_length [rotated]) simp_all
  then have len: "length ?h = 32" by (simp add: pad_left_def)
  have hex: "list_all hex_lower ?h"
    using number_text_set [of 16 _ "nat n"] digit_char_hex
    by (auto simp: pad_left_def list_all_iff) (auto simp: hex_lower_def char_class_defs)
  have part: "list_all hex_lower (take j (drop k ?h))" for j k
    using hex by (auto simp: list_all_iff dest!: in_set_takeD in_set_dropD)
  have "list_all hex_lower (take 8 ?h @ take 4 (drop 8 ?h) @ take 4 (drop 12 ?h) @ take 4 (drop 16 ?h) @ drop 20 ?h)"
    using part [of 8 0] part [of 4 8] part [of 4 12] part [of 4 16] part [of 12 20] len by simp
  moreover have "map length [take 8 ?h, take 4 (drop 8 ?h), take 4 (drop 12 ?h), take 4 (drop 16 ?h), drop 20 ?h]
      = [8, 4, 4, 4, 12]"
    using len by simp
  moreover have "u = take 8 ?h @ ''-'' @ take 4 (drop 8 ?h) @ ''-'' @ take 4 (drop 12 ?h) @ ''-''
      @ take 4 (drop 16 ?h) @ ''-'' @ drop 20 ?h"
    unfolding n(3) uuid_format_def Let_def ..
  ultimately show ?thesis by (rule canonical_uuidI)
qed

section \<open>A concrete codec\<close>

text \<open>Texts are ASCII, no JSON is read, and digests are the texts themselves.\<close>

definition ascii_codecs :: codecs where
  "ascii_codecs = \<lparr>utf8_sig = Some, utf8_replace = id, b64decode = (\<lambda>_. None),
     json_loads = (\<lambda>_ _. Inl None), json_compact = (\<lambda>_. []), sha256_text = id, set_order = (\<lambda>_. [])\<rparr>"

definition sample_uri :: string where
  "sample_uri = ''vless://00000000-0000-0000-0000-00000000000A@Host.Example:443?security=reality&type=tcp&pbk=K&sni=s''"

definition sample_parsed :: ParsedVlessURI where
  "sample_parsed = \<lparr>v_uri = sample_uri, v_user_id = ''00000000-0000-0000-0000-00000000000a'',
     v_host = ''host.example'', v_port = 443, v_name = ''VLESS connection'', v_transport = ''raw'',
     v_security = ''reality'', v_parameters = [(''security'', ''reality''), (''type'', ''tcp''),
       (''pbk'', ''K''), (''sni'', ''s'')]\<rparr>"

lemma sample_parse: "parse_vless_uri ascii_codecs sample_uri = Inr sample_parsed"
proof -
  let ?ps = "[(''security'', ''reality''), (''type'', ''tcp''), (''pbk'', ''K''), (''sni'', ''s'')]"
  have len: "\<not> length sample_uri > 32768" "sample_uri \<noteq> []" by (simp_all add: sample_uri_def)
  have pct: "\<not> bad_percent sample_uri" by code_simp
  let ?user = "''00000000-0000-0000-0000-00000000000A''"
  let ?net = "?user @ ''@Host.Example:443''"
  let ?u = "\<lparr>url_scheme = ''vless'', url_netloc = ?net\<rparr>"
  have split: "urlsplit sample_uri = Some ?u" by code_simp
  have full: "urlparse sample_uri [] = Some \<lparr>pu_scheme = ''vless'', pu_netloc = ?net, pu_path = [],
      pu_params = [], pu_query = ''security=reality&type=tcp&pbk=K&sni=s'', pu_fragment = []\<rparr>"
    by code_simp
  have "snd (url_hostinfo ?u) = Some ''443''" by code_simp
  then have port: "url_port ?u = Some (Some 443)" by (simp add: url_port_def char_class_defs)
  have host: "url_hostname ?u = Some ''host.example''" by code_simp
  have user: "url_username ?u = Some ?user" "url_password ?u = None" by code_simp+
  have uuid: "unquote id ?user = ?user" "uuid_text ?user = Some ''00000000-0000-0000-0000-00000000000a''"
    by code_simp+
  have "py_casefold ''vless'' = ''vless''" by code_simp
  then have a: "parse_address ascii_codecs sample_uri = Inr (''00000000-0000-0000-0000-00000000000a'',
      ''host.example'', 443, ''security=reality&type=tcp&pbk=K&sni=s'', [])"
    using split full port host user uuid by (simp add: parse_address_def ascii_codecs_def)
  have q: "parse_query ascii_codecs ''security=reality&type=tcp&pbk=K&sni=s'' = Inr ?ps" by code_simp
  have t: "vless_transport ?ps = Inr ''raw''" by code_simp
  have s: "vless_security ?ps = Inr ''reality''" by code_simp
  have c: "check_parameters ascii_codecs ''raw'' ''reality'' ?ps = Inr ()" by code_simp
  have i: "check_insecure ?ps = Inr ()" by code_simp
  have h: "py_casefold ''host.example'' = ''host.example''" by code_simp
  show ?thesis
    using len pct a q t s c i h by (simp add: parse_vless_uri_def sample_parsed_def vless_name_def)
qed

section \<open>Properties\<close>

text \<open>C28: every accepted VLESS URI lies in the supported matrix. Its user is a canonical UUID, its port
  is in range, its transport and security are known, no parameter is repeated or unsupported, REALITY
  has its public key and server name, the XHTTP mode is known, and certificate checks are never
  disabled.\<close>

theorem parse_vless_uri_ok:
  assumes "parse_vless_uri cs uri = Inr p"
  shows "canonical_uuid (v_user_id p) \<and> 1 \<le> v_port p \<and> v_port p \<le> 65535
    \<and> v_transport p \<in> {''raw'', ''xhttp''} \<and> v_security p \<in> {''tls'', ''reality''}
    \<and> dict_ok (v_parameters p)
    \<and> set (dict_keys (v_parameters p)) \<subseteq> COMMON_PARAMETERS
        \<union> (if v_transport p = ''raw'' then RAW_PARAMETERS else XHTTP_PARAMETERS)
        \<union> (if v_security p = ''reality'' then REALITY_PARAMETERS else {})
    \<and> (v_security p = ''reality'' \<longrightarrow> given (v_parameters p) ''pbk'' \<and> given (v_parameters p) ''sni'')
    \<and> (v_transport p = ''xhttp'' \<longrightarrow> get_or ''auto'' (v_parameters p) ''mode'' \<in> XHTTP_MODES)
    \<and> (\<forall>k \<in> {''allowInsecure'', ''insecure''}. \<forall>v. dict_get (v_parameters p) k = Some v \<longrightarrow>
         py_casefold v \<in> {''0'', ''false''})"
proof -
  obtain user_id host port query fragment ps t s where a:
    "parse_address cs uri = Inr (user_id, host, port, query, fragment)" "parse_query cs query = Inr ps"
    "vless_transport ps = Inr t" "vless_security ps = Inr s" "check_parameters cs t s ps = Inr ()"
    "check_insecure ps = Inr ()"
    "p = \<lparr>v_uri = uri, v_user_id = user_id, v_host = py_casefold host, v_port = port,
       v_name = vless_name cs user_id host ps fragment, v_transport = t, v_security = s, v_parameters = ps\<rparr>"
    by (rule parse_vless_uri_Inr [OF assms])
  obtain pairs where "collect_parameters pairs = Inr ps"
    using a(2) by (auto simp: parse_query_def split: option.splits)
  then have "dict_ok ps" by (blast dest: collect_parameters_ok)
  moreover have "canonical_uuid user_id" "1 \<le> port" "port \<le> 65535"
    using parse_address_Inr [OF a(1)] uuid_text_canonical by auto
  moreover have "t \<in> {''raw'', ''xhttp''}" "s \<in> {''tls'', ''reality''}"
    using vless_transport_Inr [OF a(3)] vless_security_Inr [OF a(4)] by simp_all
  moreover note check_parameters_Inr(1,2,3) [OF a(5)] check_insecure_Inr [OF a(6)]
  ultimately show ?thesis
    unfolding a(7) ParsedVlessURI.select_convs by (intro conjI ballI allI impI) auto
qed

lemma parse_vless_uri_ok_witness:
  "canonical_uuid (v_user_id sample_parsed) \<and> given (v_parameters sample_parsed) ''pbk''"
  using parse_vless_uri_ok [OF sample_parse] by (simp add: sample_parsed_def)

section \<open>From a URI to an outbound\<close>

lemma outbound_parts:
  assumes "parse_vless_uri cs uri = Inr p"
  obtains ob stream where "parsed_to_outbound cs tag p = Inr ob" "item ob ''tag'' = RStr tag"
    "item ob ''protocol'' = RStr ''vless''" "item ob ''streamSettings'' = RDict stream"
    "dict_get stream ''network'' = Some (RStr (v_transport p))"
    "dict_get stream ''security'' = Some (RStr (v_security p))"
    "v_security p = ''tls'' \<longrightarrow> item stream ''tlsSettings'' = RDict (security_settings p)"
    "\<exists>s server. item ob ''settings'' = RDict s \<and> item s ''vnext'' = RList [server]"
proof -
  obtain user_id host port query fragment ps t s where a:
    "check_parameters cs t s ps = Inr ()"
    "p = \<lparr>v_uri = uri, v_user_id = user_id, v_host = py_casefold host, v_port = port,
       v_name = vless_name cs user_id host ps fragment, v_transport = t, v_security = s, v_parameters = ps\<rparr>"
    by (rule parse_vless_uri_Inr [OF assms])
  have "\<exists>x. xhttp_settings cs ps = Inr x" if "t \<noteq> ''raw''"
    using check_parameters_Inr(4) [OF a(1) that] by (cases "dict_get ps ''extra''") (auto simp: xhttp_settings_def Let_def)
  then obtain stream where stream: "stream_settings cs p = Inr stream"
      "dict_get stream ''network'' = Some (RStr (v_transport p))"
      "dict_get stream ''security'' = Some (RStr (v_security p))"
      "v_security p = ''tls'' \<longrightarrow> item stream ''tlsSettings'' = RDict (security_settings p)"
    using a(2) by (cases "t = ''raw''") (force simp: stream_settings_def Let_def item_def)+
  show thesis
    by (rule that) (use stream in \<open>auto simp: parsed_to_outbound_def Let_def item_def\<close>)
qed

lemma tls_settings_strict: "v_security p = ''tls'' \<Longrightarrow> \<not> has_key (security_settings p) ''allowInsecure''"
  by (auto simp: has_key_def security_settings_def optional_def Let_def map_of_eq_None_iff split: if_splits)

text \<open>The profile around one outbound that a connection check starts from.\<close>

definition wrapped :: "(string, raw) dict \<Rightarrow> raw" where
  "wrapped ob = RDict [(''inbounds'', RList [RDict [(''protocol'', RStr ''socks'')]]),
                       (''outbounds'', RList [RDict ob])]"

lemma compatible_wrapped:
  "compatible_inbound_tag [(''inbounds'', RList [RDict [(''protocol'', RStr ''socks'')]]),
                       (''outbounds'', RList [RDict ob])] = Inr None"
  by (simp add: compatible_inbound_tag_def check_inbound_def item_def add_tag_def in_strings_def
      ADAPTABLE_INBOUND_PROTOCOLS_def)

lemma select_wrapped:
  assumes "item ob ''protocol'' = RStr ''vless''" "validate_vless_outbound ob = Inr k"
    "item ob ''tag'' = RStr tag" "tag \<noteq> []"
  shows "select_outbound (wrapped ob) None None = Inr ob"
proof -
  have "check_outbound (RDict ob) ({}, 0) = Inr ({tag}, 1)"
    using assms by (simp add: check_outbound_def in_strings_def ALLOWED_OUTBOUND_PROTOCOLS_def add_tag_def)
  moreover have "item [(''inbounds'', x), (''outbounds'', y)] ''outbounds'' = y" for x y
    by (simp add: item_def)
  ultimately have "validate_xray_profile (wrapped ob) = Inr [(''inbounds'', RList [RDict [(''protocol'', RStr ''socks'')]]),
                       (''outbounds'', RList [RDict ob])]"
    by (simp add: validate_xray_profile_def wrapped_def compatible_wrapped)
  moreover have "vless_outbounds [(''inbounds'', x), (''outbounds'', RList [RDict ob])] = [ob]" for x
    using assms(1) by (simp add: vless_outbounds_def item_def List.map_filter_def)
  ultimately show ?thesis by (simp add: select_outbound_def)
qed

text \<open>C29: an accepted URI always becomes an outbound that the profile validator accepts. The conversion
  does not fail, the validator reads the transport and the security of the URI back from it, and a
  profile made of it selects exactly this outbound again.\<close>

theorem vless_outbound_round_trip:
  assumes "parse_vless_uri cs uri = Inr p" "tag \<noteq> []"
  shows "\<exists>ob. parsed_to_outbound cs tag p = Inr ob
    \<and> validate_vless_outbound ob = Inr (v_transport p, v_security p)
    \<and> select_outbound (wrapped ob) None None = Inr ob"
proof -
  obtain ob stream where ob: "parsed_to_outbound cs tag p = Inr ob" "item ob ''tag'' = RStr tag"
    "item ob ''protocol'' = RStr ''vless''" "item ob ''streamSettings'' = RDict stream"
    "dict_get stream ''network'' = Some (RStr (v_transport p))"
    "dict_get stream ''security'' = Some (RStr (v_security p))"
    "v_security p = ''tls'' \<longrightarrow> item stream ''tlsSettings'' = RDict (security_settings p)"
    "\<exists>s server. item ob ''settings'' = RDict s \<and> item s ''vnext'' = RList [server]"
    by (rule outbound_parts [OF assms(1), where tag = tag])
  have "v_transport p \<in> {''raw'', ''xhttp''}" "v_security p \<in> {''tls'', ''reality''}"
    by (rule parse_vless_uri_Inr [OF assms(1)], use vless_transport_Inr vless_security_Inr in force)+
  note known = this
  have fold: "py_casefold ''raw'' = ''raw''" "py_casefold ''xhttp'' = ''xhttp''"
      "py_casefold ''tls'' = ''tls''" "py_casefold ''reality'' = ''reality''"
    by code_simp+
  have same: "py_casefold (v_transport p) = v_transport p" "py_casefold (v_security p) = v_security p"
    using known by (elim insertE emptyE; simp only: fold)+
  have tcp: "v_transport p \<noteq> ''tcp''" using known(1) by auto
  obtain st server where server: "item ob ''settings'' = RDict st" "item st ''vnext'' = RList [server]"
    using ob(8) by blast
  have strict: "\<not> (v_security p = ''tls'' \<and> (case item stream ''tlsSettings'' of
      RDict tls \<Rightarrow> has_key tls ''allowInsecure'' | _ \<Rightarrow> False))"
    using ob(7) tls_settings_strict [of p] by auto
  have kind: "validate_vless_outbound ob = Inr (v_transport p, v_security p)"
    unfolding validate_vless_outbound_def ob(4-6) server raw.case option.case Let_def str_of_def same
    using known tcp strict by (simp only: if_True if_False) simp
  with select_wrapped [OF ob(3) kind ob(2) assms(2)] ob(1) show ?thesis by blast
qed

lemma vless_outbound_round_trip_witness:
  "\<exists>ob. parsed_to_outbound ascii_codecs ''probe-selected'' sample_parsed = Inr ob
    \<and> validate_vless_outbound ob = Inr (''raw'', ''reality'')"
  using vless_outbound_round_trip [OF sample_parse, of "''probe-selected''"]
  by (auto simp: sample_parsed_def)

text \<open>A single outbound that is given as a mapping is wrapped in a profile without inbounds, which the
  validator never accepts: \<open>effective_connection_outbound\<close> raises for every such value.\<close>

theorem outbound_mapping_refused:
  assumes "raw_true (item d ''protocol'')"
  shows "\<exists>e. effective_connection_outbound cs (OfMapping d) outbound_tag effective_tag = Inl e"
proof -
  let ?p = "[(''outbounds'', RList [RDict d])]"
  have "compatible_inbound_tag ?p = Inl (InvalidEntryError ''Xray client profile requires a non-empty inbounds array'')"
    by (simp add: compatible_inbound_tag_def item_def)
  moreover have "item ?p ''outbounds'' = RList [RDict d]" by (simp add: item_def)
  ultimately have "\<exists>e. validate_xray_profile (RDict ?p) = Inl e"
    by (cases "check_outbound (RDict d) ({}, 0)") (auto simp: validate_xray_profile_def split: prod.splits)
  then show ?thesis
    using assms by (auto simp: effective_connection_outbound_def select_outbound_def)
qed

lemma outbound_mapping_refused_witness:
  "\<exists>e. effective_connection_outbound ascii_codecs (OfMapping [(''protocol'', RStr ''vless'')]) None None = Inl e"
  by (rule outbound_mapping_refused) (simp add: item_def)

section \<open>Sources as a whole\<close>

lemma validated_vless:
  assumes "i \<le> MAX_ENTRIES"
  shows "validated (vless_entry cs sid i line p) = Inr ((vless_entry cs sid i line p)
    \<lparr>imp_name := clean_display_name (v_name p),
     imp_identity_name := clean_display_name (py_casefold (v_name p)),
     imp_safe_display := clean_display_name (vless_safe_display p)\<rparr>)"
  using candidate_name_safe [OF assms]
  by (simp add: validated_def validate_ImportedEntry_def vless_entry_def validate_id_def)

lemma import_line_Inr:
  assumes "i \<le> MAX_ENTRIES" "import_line cs sid (i, line) = Inr e"
  obtains p where "parse_vless_uri cs line = Inr p" "candidate_id e = candidate_name i"
    "imp_payload e = Some (RStr line)" "imp_profile e = None" "imp_kind e = VLESS_URI"
    "imp_compatibility e = SUPPORTED" "imp_source_id e = sid"
    "imp_connection_fingerprint e = Some (nonsecret_vless_identity cs p)"
proof -
  from assms(2) obtain p where p: "parse_vless_uri cs line = Inr p"
      "validated (vless_entry cs sid i line p) = Inr e"
    by (auto simp: import_line_def split: sum.splits)
  then have "e = (vless_entry cs sid i line p)\<lparr>imp_name := clean_display_name (v_name p),
     imp_identity_name := clean_display_name (py_casefold (v_name p)),
     imp_safe_display := clean_display_name (vless_safe_display p)\<rparr>"
    by (simp add: validated_vless [OF assms(1)])
  then show thesis by (intro that [OF p(1)]) (simp_all add: vless_entry_def)
qed

lemma mapE_first_Inl: "mapE f xs = Inl e \<Longrightarrow>
    \<exists>i < length xs. f (xs ! i) = Inl e \<and> (\<forall>j < i. \<exists>y. f (xs ! j) = Inr y)"
proof (induction xs)
  case (Cons x xs)
  show ?case
  proof (cases "f x")
    case (Inl e')
    then show ?thesis using Cons.prems by (intro exI [of _ 0]) simp
  next
    case (Inr y)
    then have "mapE f xs = Inl e" using Cons.prems by (cases "mapE f xs") simp_all
    then obtain i where i: "i < length xs" "f (xs ! i) = Inl e" "\<forall>j < i. \<exists>y. f (xs ! j) = Inr y"
      using Cons.IH by blast
    have "\<forall>j < Suc i. \<exists>y. f ((x # xs) ! j) = Inr y"
      using i(3) Inr by (auto simp: nth_Cons split: nat.split)
    with i show ?thesis by (intro exI [of _ "Suc i"]) simp
  qed
qed simp

text \<open>C30: a VLESS list is imported as a whole or not at all. Either there is one supported entry per
  non-blank line, in order, with its own candidate identifier and the line as its definition; or the
  error is that of the first line that does not parse, or of too many lines.\<close>

theorem import_vless_lines_atomic:
  "(\<exists>es. import_vless_lines cs text sid = Inr es \<and> length es = length (nonblank_lines text)
      \<and> length es \<le> MAX_ENTRIES \<and> distinct (map candidate_id es)
      \<and> (\<forall>i < length es. imp_payload (es ! i) = Some (RStr (nonblank_lines text ! i))
           \<and> imp_compatibility (es ! i) = SUPPORTED \<and> imp_source_id (es ! i) = sid
           \<and> (\<exists>p. parse_vless_uri cs (nonblank_lines text ! i) = Inr p
                \<and> imp_connection_fingerprint (es ! i) = Some (nonsecret_vless_identity cs p))))
   \<or> (length (nonblank_lines text) > MAX_ENTRIES
      \<and> import_vless_lines cs text sid = Inl (SourceImportError ''source contains too many entries''))
   \<or> (\<exists>i < length (nonblank_lines text). \<exists>e. parse_vless_uri cs (nonblank_lines text ! i) = Inl e
      \<and> (\<forall>j < i. \<exists>p. parse_vless_uri cs (nonblank_lines text ! j) = Inr p)
      \<and> import_vless_lines cs text sid = Inl (if is_import_error e then at_entry (i + 1) e else e))"
proof -
  let ?ls = "nonblank_lines text"
  show ?thesis
  proof (cases "length ?ls > MAX_ENTRIES")
    case True
    then show ?thesis by (simp add: import_vless_lines_def)
  next
    case False
    then have run: "import_vless_lines cs text sid = mapE (import_line cs sid) (enumerate 1 ?ls)"
      by (simp add: import_vless_lines_def)
    have line: "import_line cs sid (enumerate 1 ?ls ! i) = import_line cs sid (i + 1, ?ls ! i)"
      if "i < length ?ls" for i
      using that by (simp add: nth_enumerate_eq)
    have small: "i + 1 \<le> MAX_ENTRIES" if "i < length ?ls" for i using that False by simp
    show ?thesis
    proof (cases "mapE (import_line cs sid) (enumerate 1 ?ls)")
      case (Inr es)
      then have all: "list_all2 (\<lambda>x y. import_line cs sid x = Inr y) (enumerate 1 ?ls) es"
        by (simp add: mapE_Inr_iff)
      then have len: "length es = length ?ls" by (auto dest: list_all2_lengthD)
      have at: "import_line cs sid (i + 1, ?ls ! i) = Inr (es ! i)" if "i < length ?ls" for i
        using list_all2_nthD [OF all, of i] that line [OF that] by simp
      have ids: "candidate_id (es ! i) = candidate_name (i + 1)" if "i < length ?ls" for i
        using import_line_Inr [OF small [OF that] at [OF that]] by blast
      have "distinct (map candidate_id es)"
        using ids candidate_name_inj len by (auto simp: distinct_conv_nth)
      moreover have "imp_payload (es ! i) = Some (RStr (?ls ! i)) \<and> imp_compatibility (es ! i) = SUPPORTED
          \<and> imp_source_id (es ! i) = sid \<and> (\<exists>p. parse_vless_uri cs (?ls ! i) = Inr p
                \<and> imp_connection_fingerprint (es ! i) = Some (nonsecret_vless_identity cs p))"
        if "i < length es" for i
      proof -
        have i: "i < length ?ls" using that len by simp
        show ?thesis by (rule import_line_Inr [OF small [OF i] at [OF i]]) blast
      qed
      ultimately show ?thesis using Inr run len False by simp
    next
      case (Inl e)
      then obtain i where i: "i < length ?ls" "import_line cs sid (i + 1, ?ls ! i) = Inl e"
          "\<forall>j < i. \<exists>y. import_line cs sid (j + 1, ?ls ! j) = Inr y"
        using mapE_first_Inl [OF Inl] line by auto
      have "\<exists>p. parse_vless_uri cs (?ls ! j) = Inr p" if "j < i" for j
        using i(1,3) that small [of j] import_line_Inr [of "j + 1" cs sid "?ls ! j"]
        by (metis order.strict_trans)
      moreover obtain e' where "parse_vless_uri cs (?ls ! i) = Inl e'"
          "e = (if is_import_error e' then at_entry (i + 1) e' else e')"
        using i(2) validated_vless [OF small [OF i(1)]] by (auto simp: import_line_def split: sum.splits)
      ultimately show ?thesis using Inl run i(1) by auto
    qed
  qed
qed

lemma import_vless_lines_atomic_witness:
  "\<exists>es. import_vless_lines ascii_codecs sample_uri None = Inr es \<and> length es = 1
     \<and> imp_payload (es ! 0) = Some (RStr sample_uri)"
proof -
  have lines: "nonblank_lines sample_uri = [sample_uri]" by code_simp
  show ?thesis
    using import_vless_lines_atomic [of ascii_codecs sample_uri None] sample_parse
    unfolding lines by (auto simp: MAX_ENTRIES_def)
qed

section \<open>The secrets of a profile\<close>

text \<open>What the walk over the stack is to find: the non-blank strings below a sensitive key.\<close>

fun secrets_in :: "raw \<Rightarrow> string option \<Rightarrow> bool \<Rightarrow> string list" where
  "secrets_in (RDict kvs) key inherited =
     concat (map (\<lambda>(k, c). secrets_in c (Some k) (inherited \<or> sensitive_key (normalize_key key))) kvs)"
| "secrets_in (RList vs) key inherited =
     concat (map (\<lambda>c. secrets_in c key (inherited \<or> sensitive_key (normalize_key key))) vs)"
| "secrets_in (RStr s) key inherited =
     (if (inherited \<or> sensitive_key (normalize_key key)) \<and> py_strip s \<noteq> [] then [s] else [])"
| "secrets_in _ key inherited = []"

definition stack_secrets :: "(raw \<times> string option \<times> bool) list \<Rightarrow> string set" where
  "stack_secrets stack = (\<Union>(v, key, inherited) \<in> set stack. set (secrets_in v key inherited))"

lemma stack_secrets_append: "stack_secrets (a @ b) = stack_secrets a \<union> stack_secrets b"
  by (auto simp: stack_secrets_def)

lemma stack_secrets_children:
  "stack_secrets (map (\<lambda>(k, c). (c, Some k, i \<or> sensitive_key (normalize_key key))) kvs)
     = set (secrets_in (RDict kvs) key i)"
  "stack_secrets (map (\<lambda>c. (c, key, i \<or> sensitive_key (normalize_key key))) vs)
     = set (secrets_in (RList vs) key i)"
  by (auto simp: stack_secrets_def)

lemma secret_walk_step:
  assumes "n < MAX_PROFILE_SECRET_NODES"
  shows "secret_walk (stack @ [(v, key, i)]) literals n =
    (let s = i \<or> sensitive_key (normalize_key key) in
     case v of
       RDict kvs \<Rightarrow> secret_walk (stack @ map (\<lambda>(k, c). (c, Some k, s)) kvs) literals (n + 1)
     | RList vs \<Rightarrow> secret_walk (stack @ map (\<lambda>c. (c, key, s)) vs) literals (n + 1)
     | RStr t \<Rightarrow>
         if s \<and> py_strip t \<noteq> []
         then if card (insert t literals) > MAX_PROFILE_SECRET_LITERALS then {PROFILE_SECRET_OVERFLOW}
              else secret_walk stack (insert t literals) (n + 1)
         else secret_walk stack literals (n + 1)
     | _ \<Rightarrow> secret_walk stack literals (n + 1))"
  using assms by (cases v; subst secret_walk.simps; simp add: Let_def)

lemma secret_walk_finds:
  "secret_walk stack literals n = {PROFILE_SECRET_OVERFLOW}
     \<or> secret_walk stack literals n = literals \<union> stack_secrets stack"
proof (induction "MAX_PROFILE_SECRET_NODES - n" arbitrary: stack literals n rule: less_induct)
  case less
  show ?case
  proof (cases stack rule: rev_cases)
    case Nil
    then show ?thesis by (subst (1 2) secret_walk.simps) (simp add: stack_secrets_def)
  next
    case (snoc rest top)
    obtain v key i where top: "top = (v, key, i)" by (cases top)
    show ?thesis
    proof (cases "n < MAX_PROFILE_SECRET_NODES")
      case False
      then have "secret_walk stack literals n = {PROFILE_SECRET_OVERFLOW}"
        by (subst secret_walk.simps) (simp add: snoc top)
      then show ?thesis ..
    next
      case True
      have IH: "secret_walk st ls (n + 1) = {PROFILE_SECRET_OVERFLOW}
          \<or> secret_walk st ls (n + 1) = ls \<union> stack_secrets st" for st ls
        by (rule less) (use True in simp)
      have one: "stack_secrets [(v, key, i)] = set (secrets_in v key i)" by (simp add: stack_secrets_def)
      let ?s = "i \<or> sensitive_key (normalize_key key)"
      show ?thesis
      proof (cases v)
        case (RStr t)
        then show ?thesis
          using IH [of rest "insert t literals"] IH [of rest literals]
          unfolding snoc top secret_walk_step [OF True] stack_secrets_append one by (auto simp: Let_def)
      next
        case (RList vs)
        then show ?thesis
          using IH [of "rest @ map (\<lambda>c. (c, key, ?s)) vs" literals]
          unfolding snoc top secret_walk_step [OF True] stack_secrets_append one
          by (simp only: Let_def raw.case stack_secrets_children Un_assoc)
      next
        case (RDict kvs)
        then show ?thesis
          using IH [of "rest @ map (\<lambda>(k, c). (c, Some k, ?s)) kvs" literals]
          unfolding snoc top secret_walk_step [OF True] stack_secrets_append one
          by (simp only: Let_def raw.case stack_secrets_children Un_assoc)
      qed (use IH [of rest literals] in
        \<open>simp_all add: snoc top secret_walk_step [OF True] stack_secrets_def\<close>)
    qed
  qed
qed

text \<open>C31: no secret of a profile is overlooked. The iterative walk either gives up, and then the profile
  is named \<open>unnamed\<close>, or it collects exactly the non-blank strings that a recursive reading of the
  document finds below a sensitive key.\<close>

theorem profile_secret_literals_complete:
  "(profile_secret_literals prof = {PROFILE_SECRET_OVERFLOW}
      \<and> sanitize_source_name cs value (profile_secret_literals prof) = ''unnamed'')
   \<or> profile_secret_literals prof = set (secrets_in (RDict prof) None False)"
  using secret_walk_finds [of "[(RDict prof, None, False)]" "{}" 0]
  by (auto simp: profile_secret_literals_def sanitize_source_name_def stack_secrets_def)

section \<open>Malformed profiles escape the error classes\<close>

text \<open>A server of \<open>vnext\<close> that is no object passes \<open>validate_xray_profile\<close>, but \<open>_profile_identity\<close> calls
  \<open>get\<close> on it: the import and the recomputed fingerprint raise \<open>AttributeError\<close>.\<close>

definition malformed_outbound :: "(string, raw) dict" where
  "malformed_outbound = [(''protocol'', RStr ''vless''),
     (''streamSettings'', RDict [(''network'', RStr ''raw''), (''security'', RStr ''tls'')]),
     (''settings'', RDict [(''vnext'', RList [RStr ''x''])])]"

definition malformed_profile :: "(string, raw) dict" where
  "malformed_profile = [(''inbounds'', RList [RDict [(''protocol'', RStr ''socks'')]]),
                       (''outbounds'', RList [RDict malformed_outbound])]"

theorem malformed_profile_escapes:
  "safe_reconciliation_fingerprint cs (Some (RDict malformed_profile)) None = Inl AttributeError"
  "import_profiles cs [RDict malformed_profile] sid = Inl AttributeError"
proof -
  have fp: "profile_identity cs malformed_profile = Inl AttributeError"
    by (simp add: profile_identity_def outbound_list_def malformed_profile_def malformed_outbound_def
        outbound_identity_def attr_get_def item_def or_empty_def first_server_def str_of_def Let_def)
  then show "safe_reconciliation_fingerprint cs (Some (RDict malformed_profile)) None = Inl AttributeError"
    by (simp add: safe_reconciliation_fingerprint_def)
  have out: "check_outbound (RDict malformed_outbound) ({}, 0) = Inr ({}, 1)"
    by code_simp
  have inbound: "compatible_inbound_tag malformed_profile = Inr None"
    unfolding malformed_profile_def by (rule compatible_wrapped)
  have valid: "validate_xray_profile (RDict malformed_profile) = Inr malformed_profile"
    using out inbound by (simp add: validate_xray_profile_def) (simp add: malformed_profile_def item_def)
  have kinds: "vless_kinds malformed_profile = Inr [(''raw'', ''tls'')]" by code_simp
  have "import_profile cs sid (1, RDict malformed_profile) = Inl AttributeError"
    using valid kinds inbound fp by (simp add: import_profile_def)
  then show "import_profiles cs [RDict malformed_profile] sid = Inl AttributeError"
    by (simp add: import_profiles_def MAX_ENTRIES_def)
qed

end
