(* ===== verification/Sources.thy ===== *)
theory Sources
  imports Security PyUrl "HOL-Library.List_Lexorder" "HOL-Library.Char_ord"
begin

text \<open>
  \<open>src/xray_e2e_prober/sources.py\<close>: acquisition of the raw content of a source over HTTP or from local
  files. The environment of a fetch is a parameter: the bytes of secret files, the process environment,
  the local file tree, and what HTTPX answers to each request (\<open>exchange\<close>, which sees the number of
  the request, the URL and the headers). The result carries the requests that were sent, so that what
  a server is told is part of the statement.
\<close>

section \<open>Errors and payloads\<close>

text \<open>
  \<open>SourceFetchError\<close> is the class of the module; \<open>FetchValueError\<close>, \<open>FetchOSError\<close> and \<open>FetchHttpxError\<close>
  are \<open>ValueError\<close>, \<open>OSError\<close> and the exceptions of HTTPX that no handler of the module names.
\<close>

datatype fetch_error = SourceFetchError string | FetchValueError | FetchOSError | FetchHttpxError

definition SOURCE_REDIRECT_STATUSES :: "int set" where
  "SOURCE_REDIRECT_STATUSES = {301, 302, 303, 307, 308}"

record SourcePayload =
  sp_content :: string
  sp_content_type :: "string option"
  sp_origin :: string
  sp_documents :: "string list"

section \<open>A source of any shape\<close>

text \<open>
  The loader reads a source through \<open>_value\<close>, from a mapping or from an object: an absent field is
  \<open>None\<close> here and takes the default of the call. A header is a reference to a secret file, a
  \<open>SecretStr\<close>, an object with a \<open>value\<close>, or a plain value whose \<open>str\<close> is sent (\<open>None\<close> is dropped).
\<close>

datatype header_value = HeaderFile string | HeaderSecret string | HeaderObject "string option"
  | HeaderPlain "string option"

record any_source =
  as_kind :: "string option"
  as_location :: "string option"
  as_location_ref :: "SecretRef option"
  as_url :: "string option"
  as_path :: "string option"
  as_headers :: "(string, header_value) dict"
  as_headers_ref :: "(string, SecretRef) dict"
  as_max_bytes :: "int option"
  as_max_redirects :: "int option"
  as_allow_insecure_http :: "bool option"

fun source_kind_value :: "SourceKind \<Rightarrow> string" where
  "source_kind_value HTTP = ''http''"
| "source_kind_value FILE = ''file''"
| "source_kind_value DIRECTORY = ''directory''"

text \<open>What \<open>_value\<close> finds in a validated \<open>SourceConfig\<close>: it has no \<open>url\<close>, \<open>path\<close> or \<open>max_redirects\<close>.\<close>

definition any_source_of :: "SourceConfig \<Rightarrow> any_source" where
  "any_source_of s =
     \<lparr>as_kind = Some (source_kind_value (source_kind s)), as_location = location s,
      as_location_ref = location_ref s, as_url = None, as_path = None,
      as_headers = map (\<lambda>(k, v). (k, HeaderSecret v)) (headers s), as_headers_ref = headers_ref s,
      as_max_bytes = Some (max_bytes s), as_max_redirects = None,
      as_allow_insecure_http = Some (allow_insecure_http s)\<rparr>"

section \<open>The environment\<close>

text \<open>
  A failed request is either of the classes that the handler turns into a \<open>SourceFetchError\<close> (timeouts,
  network and protocol errors, the deadline of the whole fetch) or another exception of HTTPX. A body
  may break off after some chunks.
\<close>

datatype http_failure = CaughtFailure | OtherFailure

record source_response =
  sr_status :: int
  sr_url :: string
  sr_location :: "string option"
  sr_content_type :: "string option"
  sr_content_length :: "string option"
  sr_chunks :: "string list"
  sr_broken :: "http_failure option"

type_synonym http_headers = "(string, string) dict"

record child_file =
  cf_name :: string
  cf_is_file :: bool
  cf_size :: "int option"
  cf_bytes :: "string option"

datatype local_node = LocalFile "int option" "string option" | LocalDirectory "child_file list option"
  | LocalMissing

record fetch_env =
  fe_user_agent :: string
  fe_base_dir :: "string option"
  fe_utf8 :: "string \<Rightarrow> string option"
  fe_secret_bytes :: "string \<Rightarrow> string option"
  fe_environ :: "string \<Rightarrow> string option"
  fe_local :: "string \<Rightarrow> local_node"
  fe_exchange :: "nat \<Rightarrow> string \<Rightarrow> http_headers \<Rightarrow> http_failure + source_response"

section \<open>Secrets, headers, location\<close>

text \<open>\<open>secret_from_file\<close> on the file system: a missing file raises \<open>OSError\<close>, the rest \<open>ValueError\<close>.\<close>

definition read_secret_file :: "fetch_env \<Rightarrow> string \<Rightarrow> fetch_error + string" where
  "read_secret_file E path =
     (case fe_secret_bytes E path of
        None \<Rightarrow> Inl FetchOSError
      | Some data \<Rightarrow>
          (case secret_from_file (fe_utf8 E) (64 * 1024) data of
             Inl _ \<Rightarrow> Inl FetchValueError
           | Inr s \<Rightarrow> Inr s))"

text \<open>\<open>base_dir / path\<close> where \<open>path\<close> is not absolute.\<close>

definition below_base :: "string option \<Rightarrow> string \<Rightarrow> string" where
  "below_base base path =
     (case base of
        Some b \<Rightarrow> (if take 1 path = [CHR 0x2F] then path else b @ ''/'' @ path)
      | None \<Rightarrow> path)"

definition secret_reference :: "fetch_env \<Rightarrow> SecretRef \<Rightarrow> fetch_error + string" where
  "secret_reference E ref =
     (if truthy (ref_file ref)
      then read_secret_file E (below_base (fe_base_dir E) (the (ref_file ref)))
      else if truthy (ref_env ref)
      then (case fe_environ E (the (ref_env ref)) of
              Some v \<Rightarrow> Inr v
            | None \<Rightarrow> Inl (SourceFetchError ''required source secret is unavailable''))
      else Inl (SourceFetchError ''invalid source secret reference''))"

definition header_text :: "fetch_env \<Rightarrow> header_value \<Rightarrow> fetch_error + string option" where
  "header_text E v =
     (case v of
        HeaderFile path \<Rightarrow> bindE (read_secret_file E path) (\<lambda>s. Inr (Some s))
      | HeaderSecret s \<Rightarrow> Inr (Some s)
      | HeaderObject x \<Rightarrow> Inr x
      | HeaderPlain x \<Rightarrow> Inr x)"

definition resolved_headers :: "fetch_env \<Rightarrow> any_source \<Rightarrow> fetch_error + http_headers" where
  "resolved_headers E s =
     bindE (foldE (\<lambda>(k, v) hs. bindE (header_text E v)
                (\<lambda>x. Inr (case x of Some t \<Rightarrow> dict_set k t hs | None \<Rightarrow> hs))) (as_headers s) [])
       (foldE (\<lambda>(k, r) hs. bindE (secret_reference E r) (\<lambda>t. Inr (dict_set k t hs)))
         (as_headers_ref s))"

definition source_location :: "fetch_env \<Rightarrow> any_source \<Rightarrow> fetch_error + string" where
  "source_location E s =
     (case as_location s of
        Some v \<Rightarrow> Inr v
      | None \<Rightarrow>
          (case as_location_ref s of
             Some r \<Rightarrow> secret_reference E r
           | None \<Rightarrow> Inr (if truthy (as_url s) then the (as_url s)
                         else case as_path s of Some p \<Rightarrow> p | None \<Rightarrow> [])))"

section \<open>Origins\<close>

definition default_port :: "string \<Rightarrow> nat" where
  "default_port scheme = (if scheme = ''https'' then 443 else 80)"

definition origin_of :: "string \<Rightarrow> fetch_error + string" where
  "origin_of url =
     (case urlsplit url of
        None \<Rightarrow> Inl (SourceFetchError ''source URL is invalid'')
      | Some p \<Rightarrow>
          (case url_port p of
             None \<Rightarrow> Inl (SourceFetchError ''source URL is invalid'')
           | Some port \<Rightarrow>
               if url_scheme p \<notin> {''http'', ''https''} \<or> \<not> truthy (url_hostname p)
               then Inl (SourceFetchError ''source URL is invalid'')
               else Inr (url_scheme p @ ''://'' @ the (url_hostname p)
                      @ (case port of
                           Some n \<Rightarrow> (if n \<noteq> 0 \<and> n \<noteq> default_port (url_scheme p)
                                     then '':'' @ number_text 10 n else [])
                         | None \<Rightarrow> []))))"

section \<open>Reading a response\<close>

fun read_source_chunks :: "int \<Rightarrow> string list \<Rightarrow> int \<Rightarrow> string list \<Rightarrow> fetch_error + string" where
  "read_source_chunks limit [] seen chunks = Inr (concat chunks)"
| "read_source_chunks limit (c # cs) seen chunks =
     (let seen = seen + int (length c)
      in if seen > limit then Inl (SourceFetchError ''source response exceeds size limit'')
         else read_source_chunks limit cs seen (chunks @ [c]))"

definition failed_request :: "http_failure \<Rightarrow> fetch_error" where
  "failed_request f =
     (case f of
        CaughtFailure \<Rightarrow> SourceFetchError ''source request failed''
      | OtherFailure \<Rightarrow> FetchHttpxError)"

text \<open>\<open>int\<close> refuses a numeral of more than 4300 digits with a \<open>ValueError\<close>.\<close>

definition announced_too_large :: "source_response \<Rightarrow> int \<Rightarrow> fetch_error + bool" where
  "announced_too_large resp limit =
     (case sr_content_length resp of
        Some e \<Rightarrow>
          (if e = [] \<or> \<not> list_all ascii_digit e then Inr False
           else if length e > 4300 then Inl FetchValueError
           else Inr (int (digits_value 10 0 e) > limit))
      | None \<Rightarrow> Inr False)"

definition read_limited :: "source_response \<Rightarrow> int \<Rightarrow> fetch_error + string" where
  "read_limited resp limit =
     bindE (announced_too_large resp limit) (\<lambda>too_large.
     if too_large then Inl (SourceFetchError ''source response exceeds size limit'')
     else bindE (read_source_chunks limit (sr_chunks resp) 0 []) (\<lambda>body.
     case sr_broken resp of Some f \<Rightarrow> Inl (failed_request f) | None \<Rightarrow> Inr body))"

section \<open>HTTP sources\<close>

definition base_headers :: "fetch_env \<Rightarrow> http_headers" where
  "base_headers E = [(''User-Agent'', fe_user_agent E)]"

text \<open>\<open>{**base_headers, **resolved_headers}\<close>.\<close>

definition merged_headers :: "fetch_env \<Rightarrow> http_headers \<Rightarrow> http_headers" where
  "merged_headers E resolved = fold (\<lambda>(k, v). dict_set k v) resolved (base_headers E)"

definition allows_http :: "any_source \<Rightarrow> bool" where
  "allows_http s = (as_allow_insecure_http s = Some True)"

definition size_limit :: "any_source \<Rightarrow> int" where
  "size_limit s = (case as_max_bytes s of Some n \<Rightarrow> n | None \<Rightarrow> 4 * 1024 * 1024)"

definition redirects_allowed :: "any_source \<Rightarrow> int" where
  "redirects_allowed s = (case as_max_redirects s of Some n \<Rightarrow> n | None \<Rightarrow> 3)"

definition request_headers ::
  "fetch_env \<Rightarrow> http_headers \<Rightarrow> string \<Rightarrow> string \<Rightarrow> fetch_error + http_headers" where
  "request_headers E hs original url =
     bindE (origin_of url) (\<lambda>o1. Inr (if o1 \<noteq> original then base_headers E else hs))"

text \<open>One redirect: the URL of the next request.\<close>

definition redirect_target :: "any_source \<Rightarrow> nat \<Rightarrow> source_response \<Rightarrow> fetch_error + string" where
  "redirect_target s count resp =
     (if int count \<ge> redirects_allowed s then Inl (SourceFetchError ''source redirect limit exceeded'')
      else if \<not> truthy (sr_location resp) then Inl (SourceFetchError ''source redirect has no location'')
      else case urljoin (sr_url resp) (the (sr_location resp)) of
        None \<Rightarrow> Inl FetchValueError
      | Some url \<Rightarrow>
          (case urlsplit url of
             None \<Rightarrow> Inl FetchValueError
           | Some p \<Rightarrow>
               if url_scheme p \<notin> {''http'', ''https''}
               then Inl (SourceFetchError ''source redirected to an unsupported scheme'')
               else if url_scheme p = ''http'' \<and> \<not> allows_http s
               then Inl (SourceFetchError ''source redirected to plain HTTP'')
               else Inr url))"

definition accept_response :: "any_source \<Rightarrow> source_response \<Rightarrow> fetch_error + SourcePayload" where
  "accept_response s resp =
     (if sr_status resp < 200 \<or> sr_status resp \<ge> 300
      then Inl (SourceFetchError (''source returned HTTP status '' @ number_text 10 (nat (sr_status resp))))
      else bindE (read_limited resp (size_limit s)) (\<lambda>body.
           bindE (origin_of (sr_url resp)) (\<lambda>o1.
           Inr \<lparr>sp_content = body, sp_content_type = sr_content_type resp, sp_origin = o1,
                sp_documents = []\<rparr>)))"

type_synonym sent_requests = "(string \<times> http_headers) list"

text \<open>
  \<open>for redirect_count in range(max_redirects + 1)\<close>: \<open>turns\<close> iterations remain, \<open>count\<close> are behind. A range
  that is used up leaves the loop with the last line of the method.
\<close>

fun redirect_turns ::
  "fetch_env \<Rightarrow> any_source \<Rightarrow> http_headers \<Rightarrow> string \<Rightarrow> nat \<Rightarrow> nat \<Rightarrow> string
     \<Rightarrow> (fetch_error + SourcePayload) \<times> sent_requests" where
  "redirect_turns E s hs original 0 count url = (Inl (SourceFetchError ''source request failed''), [])"
| "redirect_turns E s hs original (Suc turns) count url =
     (case request_headers E hs original url of
        Inl e \<Rightarrow> (Inl e, [])
      | Inr rh \<Rightarrow>
          (case fe_exchange E count url rh of
             Inl f \<Rightarrow> (Inl (failed_request f), [(url, rh)])
           | Inr resp \<Rightarrow>
               if sr_status resp \<in> SOURCE_REDIRECT_STATUSES
               then (case redirect_target s count resp of
                       Inl e \<Rightarrow> (Inl e, [(url, rh)])
                     | Inr next \<Rightarrow>
                         (case redirect_turns E s hs original turns (Suc count) next of
                            (r, sent) \<Rightarrow> (r, (url, rh) # sent)))
               else (accept_response s resp, [(url, rh)])))"

definition fetch_http ::
  "fetch_env \<Rightarrow> any_source \<Rightarrow> string \<Rightarrow> (fetch_error + SourcePayload) \<times> sent_requests" where
  "fetch_http E s loc =
     (case urlsplit loc of
        None \<Rightarrow> (Inl (SourceFetchError ''source URL is invalid''), [])
      | Some p \<Rightarrow>
          if url_port p = None then (Inl (SourceFetchError ''source URL is invalid''), [])
          else if url_scheme p \<notin> {''http'', ''https''} \<or> \<not> truthy (url_hostname p)
          then (Inl (SourceFetchError ''source URL must be HTTP or HTTPS''), [])
          else if url_scheme p = ''http'' \<and> \<not> allows_http s
          then (Inl (SourceFetchError ''plain HTTP source requires allow_insecure_http''), [])
          else (case bindE (resolved_headers E s) (\<lambda>hs. bindE (origin_of loc) (\<lambda>o1. Inr (hs, o1))) of
                  Inl e \<Rightarrow> (Inl e, [])
                | Inr (hs, original) \<Rightarrow>
                    redirect_turns E s (merged_headers E hs) original
                      (nat (redirects_allowed s + 1)) 0 loc))"

section \<open>Local sources\<close>

text \<open>\<open>PurePath.suffix\<close>: from the last dot of the name, unless that dot is its first or last character.\<close>

definition path_suffix :: "string \<Rightarrow> string" where
  "path_suffix name =
     (case py_rpartition (CHR ''.'') name of
        (stem, True, ext) \<Rightarrow> (if stem = [] \<or> ext = [] then [] else ''.'' @ ext)
      | _ \<Rightarrow> [])"

definition source_document :: "child_file \<Rightarrow> bool" where
  "source_document c \<longleftrightarrow>
     cf_is_file c \<and> py_lower (path_suffix (cf_name c)) \<in> {''.json'', ''.txt'', ''.conf''}"

fun read_children :: "int \<Rightarrow> child_file list \<Rightarrow> int \<Rightarrow> fetch_error + string list" where
  "read_children limit [] seen = Inr []"
| "read_children limit (c # cs) seen =
     (if \<not> source_document c then read_children limit cs seen
      else case cf_size c of
        None \<Rightarrow> Inl FetchOSError
      | Some bytes \<Rightarrow>
          (let seen = seen + (bytes + 1)
           in if seen > limit then Inl FetchValueError
              else case cf_bytes c of
                None \<Rightarrow> Inl FetchOSError
              | Some b \<Rightarrow> bindE (read_children limit cs seen) (\<lambda>bs. Inr (b # bs))))"

definition read_local :: "local_node \<Rightarrow> int \<Rightarrow> fetch_error + string list" where
  "read_local node limit =
     (case node of
        LocalFile stat bytes \<Rightarrow>
          (case stat of
             None \<Rightarrow> Inl FetchOSError
           | Some n \<Rightarrow>
               if n > limit then Inl FetchValueError
               else (case bytes of None \<Rightarrow> Inl FetchOSError | Some b \<Rightarrow> Inr [b]))
      | LocalMissing \<Rightarrow> Inl FetchOSError
      | LocalDirectory None \<Rightarrow> Inl FetchOSError
      | LocalDirectory (Some cs) \<Rightarrow> read_children limit (sort_key cf_name cs) 0)"

definition fetch_local :: "fetch_env \<Rightarrow> any_source \<Rightarrow> string \<Rightarrow> fetch_error + SourcePayload" where
  "fetch_local E s path =
     (case read_local (fe_local E path) (size_limit s) of
        Inl _ \<Rightarrow> Inl (SourceFetchError ''local source could not be read'')
      | Inr docs \<Rightarrow>
          Inr \<lparr>sp_content = (case docs of [d] \<Rightarrow> d | _ \<Rightarrow> []), sp_content_type = None,
               sp_origin = ''local'', sp_documents = docs\<rparr>)"

section \<open>Any source\<close>

definition fetch_source ::
  "fetch_env \<Rightarrow> any_source \<Rightarrow> (fetch_error + SourcePayload) \<times> sent_requests" where
  "fetch_source E s =
     (case source_location E s of
        Inl e \<Rightarrow> (Inl e, [])
      | Inr loc \<Rightarrow>
          (let kind = py_casefold (case as_kind s of Some k \<Rightarrow> k | None \<Rightarrow> ''auto'')
           in if kind \<in> {''http'', ''https'', ''url''} then fetch_http E s loc
              else if kind \<in> {''file'', ''directory''} then (fetch_local E s loc, [])
              else if kind = ''auto''
              then (if take 7 loc = ''http://'' \<or> take 8 loc = ''https://'' then fetch_http E s loc
                    else (fetch_local E s loc, []))
              else (Inl (SourceFetchError ''unsupported source kind''), [])))"

section \<open>Where configured headers go\<close>

lemma request_headers_cases:
  "request_headers E hs original url = Inr rh \<Longrightarrow> rh = base_headers E \<or> origin_of url = Inr original"
  by (auto simp: request_headers_def bindE_Inr_iff split: if_splits)

lemma redirect_target_scheme:
  "redirect_target s count resp = Inr url \<Longrightarrow>
     \<exists>p. urlsplit url = Some p \<and> url_scheme p \<in> {''http'', ''https''}
       \<and> (url_scheme p = ''http'' \<longrightarrow> allows_http s)"
  by (auto simp: redirect_target_def split: if_splits option.splits)

text \<open>Whether a URL may be requested for a source at all.\<close>

definition requestable :: "any_source \<Rightarrow> string \<Rightarrow> bool" where
  "requestable s url \<longleftrightarrow>
     (case urlsplit url of
        None \<Rightarrow> False
      | Some p \<Rightarrow> url_scheme p = ''https'' \<or> (url_scheme p = ''http'' \<and> allows_http s))"

lemma redirect_requestable: "redirect_target s count resp = Inr url \<Longrightarrow> requestable s url"
  by (auto simp: requestable_def dest!: redirect_target_scheme)

lemma redirect_turns_sent:
  "(url, rh) \<in> set (snd (redirect_turns E s hs original turns count first)) \<Longrightarrow> requestable s first \<Longrightarrow>
     requestable s url \<and> (rh = base_headers E \<or> origin_of url = Inr original)"
proof (induction turns arbitrary: count first)
  case 0
  then show ?case by simp
next
  case (Suc turns)
  show ?case
  proof (cases "url = first \<and> request_headers E hs original first = Inr rh")
    case True
    then show ?thesis using Suc.prems(2) request_headers_cases by blast
  next
    case False
    with Suc.prems(1) obtain resp nxt where
      "redirect_target s count resp = Inr nxt"
      "(url, rh) \<in> set (snd (redirect_turns E s hs original turns (Suc count) nxt))"
      by (auto split: sum.splits if_splits prod.splits)
    then show ?thesis using Suc.IH redirect_requestable by blast
  qed
qed

lemma redirect_turns_length:
  "length (snd (redirect_turns E s hs original turns count first)) \<le> turns"
proof (induction turns arbitrary: count first)
  case (Suc turns)
  then show ?case
    using Suc.IH by (simp split: sum.splits prod.splits) (metis snd_conv)
qed simp

lemma fetch_http_sent:
  "fetch_http E s loc = (r, sent) \<Longrightarrow> sent \<noteq> [] \<Longrightarrow>
     \<exists>hs original. requestable s loc \<and> origin_of loc = Inr original \<and>
       redirect_turns E s hs original (nat (redirects_allowed s + 1)) 0 loc = (r, sent)"
  by (auto simp: fetch_http_def requestable_def bindE_Inr_iff
      split: option.splits if_splits sum.splits)

lemma fetch_source_sent:
  assumes "sent = snd (fetch_source E s)" "sent \<noteq> []"
  shows "\<exists>loc hs original. source_location E s = Inr loc \<and> requestable s loc \<and> origin_of loc = Inr original
     \<and> sent = snd (redirect_turns E s hs original (nat (redirects_allowed s + 1)) 0 loc)"
proof -
  obtain loc where loc: "source_location E s = Inr loc" "sent = snd (fetch_http E s loc)"
    using assms by (auto simp: fetch_source_def Let_def split: sum.splits if_splits)
  then show ?thesis
    using fetch_http_sent [of E s loc "fst (fetch_http E s loc)" sent] assms(2)
    by (metis prod.collapse snd_conv)
qed

section \<open>What an origin identifies\<close>

text \<open>The port of a URL, the default of its scheme included.\<close>

definition effective_port :: "url_parts \<Rightarrow> nat" where
  "effective_port p =
     (case url_port p of
        Some (Some n) \<Rightarrow> (if n = 0 then default_port (url_scheme p) else n)
      | _ \<Rightarrow> default_port (url_scheme p))"

definition port_suffix :: "url_parts \<Rightarrow> string" where
  "port_suffix p = (if effective_port p = default_port (url_scheme p) then []
                    else '':'' @ number_text 10 (effective_port p))"

lemma origin_of_form:
  assumes "origin_of url = Inr o1"
  obtains p where "urlsplit url = Some p" "url_scheme p \<in> {''http'', ''https''}"
    "truthy (url_hostname p)" "o1 = url_scheme p @ ''://'' @ the (url_hostname p) @ port_suffix p"
  using assms
  by (auto simp: origin_of_def port_suffix_def effective_port_def split: option.splits if_splits)

lemma host_suffix_inject:
  assumes "CHR '':'' \<notin> set a" "CHR '':'' \<notin> set b" "a @ x = b @ y"
    and "x = [] \<or> hd x = CHR '':''" "y = [] \<or> hd y = CHR '':''"
  shows "a = b \<and> x = y"
proof -
  have split: "takeWhile (\<lambda>c. c \<noteq> CHR '':'') (u @ z) = u"
    if "CHR '':'' \<notin> set u" "z = [] \<or> hd z = CHR '':''" for u z :: string
    using that by (subst takeWhile_append, cases z) auto
  have "a = b" using split [of a x] split [of b y] assms by simp
  then show ?thesis using assms(3) by simp
qed

lemma scheme_inject:
  assumes "s \<in> {''http'', ''https''}" "t \<in> {''http'', ''https''}" "s @ ''://'' @ x = t @ ''://'' @ y"
  shows "s = t \<and> x = y"
  using assms by auto

lemma origin_identifies:
  assumes "origin_of u = Inr o1" "origin_of v = Inr o1"
    and "urlsplit u = Some p" "urlsplit v = Some q"
    and "CHR '':'' \<notin> set (the (url_hostname p))" "CHR '':'' \<notin> set (the (url_hostname q))"
  shows "url_scheme p = url_scheme q \<and> url_hostname p = url_hostname q
     \<and> effective_port p = effective_port q"
proof -
  have u: "url_scheme p \<in> {''http'', ''https''}" "truthy (url_hostname p)"
    "o1 = url_scheme p @ ''://'' @ the (url_hostname p) @ port_suffix p"
    using origin_of_form [OF assms(1)] assms(3) by auto
  have v: "url_scheme q \<in> {''http'', ''https''}" "truthy (url_hostname q)"
    "o1 = url_scheme q @ ''://'' @ the (url_hostname q) @ port_suffix q"
    using origin_of_form [OF assms(2)] assms(4) by auto
  have scheme: "url_scheme p = url_scheme q"
    "the (url_hostname p) @ port_suffix p = the (url_hostname q) @ port_suffix q"
    using scheme_inject [OF u(1) v(1) trans [OF sym [OF u(3)] v(3)]] by blast+
  then have host: "the (url_hostname p) = the (url_hostname q)" "port_suffix p = port_suffix q"
    using host_suffix_inject [OF assms(5,6) scheme(2)] by (auto simp: port_suffix_def)
  then have "effective_port p = effective_port q"
    using scheme(1) by (auto simp: port_suffix_def number_text_inject split: if_splits)
  moreover have "url_hostname p = url_hostname q"
    using host(1) u(2) v(2) by (auto simp: truthy_def)
  ultimately show ?thesis using scheme(1) by blast
qed

section \<open>Size\<close>

lemma chunks_bounded:
  "read_source_chunks limit cs seen chunks = Inr body \<Longrightarrow> int (length (concat chunks)) = seen \<Longrightarrow>
     seen \<le> limit \<Longrightarrow> int (length body) \<le> limit"
  by (induction limit cs seen chunks rule: read_source_chunks.induct)
    (auto simp: Let_def split: if_splits)

lemma accept_bounded:
  "accept_response s resp = Inr pl \<Longrightarrow> 0 \<le> size_limit s \<Longrightarrow>
     int (length (sp_content pl)) \<le> size_limit s \<and> sp_documents pl = []"
  using chunks_bounded [of "size_limit s" "sr_chunks resp" 0 "[]" "sp_content pl"]
  by (auto simp: accept_response_def read_limited_def bindE_Inr_iff split: if_splits option.splits)

lemma redirect_turns_bounded:
  "fst (redirect_turns E s hs original turns count first) = Inr pl \<Longrightarrow> 0 \<le> size_limit s \<Longrightarrow>
     int (length (sp_content pl)) \<le> size_limit s \<and> sp_documents pl = []"
proof (induction turns arbitrary: count first)
  case (Suc turns)
  then show ?case
    using accept_bounded by (auto split: sum.splits prod.splits if_splits) (metis fst_conv)+
qed simp

text \<open>A file tree whose \<open>stat\<close> sizes are the sizes of the contents that are read.\<close>

definition honest_child :: "child_file \<Rightarrow> bool" where
  "honest_child c \<longleftrightarrow>
     (case (cf_size c, cf_bytes c) of (Some n, Some b) \<Rightarrow> n = int (length b) | _ \<Rightarrow> True)"

definition honest_node :: "local_node \<Rightarrow> bool" where
  "honest_node node \<longleftrightarrow>
     (case node of
        LocalFile (Some n) (Some b) \<Rightarrow> n = int (length b)
      | LocalDirectory (Some cs) \<Rightarrow> list_all honest_child cs
      | _ \<Rightarrow> True)"

definition documents_size :: "string list \<Rightarrow> int" where
  "documents_size docs = int (sum_list (map length docs))"

lemma read_children_bounded:
  "read_children limit cs seen = Inr docs \<Longrightarrow> list_all honest_child cs \<Longrightarrow> seen \<le> limit \<Longrightarrow>
     seen + documents_size docs + int (length docs) \<le> limit"
proof (induction limit cs seen arbitrary: docs rule: read_children.induct)
  case (1 limit seen)
  then show ?case by (simp add: documents_size_def)
next
  case (2 limit c cs seen)
  show ?case
  proof (cases "source_document c")
    case False
    then show ?thesis using 2 by simp
  next
    case True
    with "2.prems" obtain n b bs where c: "cf_size c = Some n" "cf_bytes c = Some b" "docs = b # bs"
      "seen + (n + 1) \<le> limit" "read_children limit cs (seen + (n + 1)) = Inr bs"
      by (auto simp: Let_def bindE_Inr_iff split: option.splits if_splits)
    then have "n = int (length b)" using "2.prems"(2) by (simp add: honest_child_def)
    moreover have "seen + (n + 1) + documents_size bs + int (length bs) \<le> limit"
      using "2.IH"(2) [of n "seen + (n + 1)" b bs] True c "2.prems"(2) by simp
    ultimately show ?thesis using c by (simp add: documents_size_def)
  qed
qed

lemma read_local_bounded:
  assumes "read_local node limit = Inr docs" "honest_node node" "0 \<le> limit"
  shows "documents_size docs \<le> limit"
proof (cases node)
  case (LocalFile stat bytes)
  then show ?thesis using assms
    by (auto simp: read_local_def honest_node_def documents_size_def split: option.splits if_splits)
next
  case (LocalDirectory cs)
  then obtain xs where xs: "cs = Some xs" "read_children limit (sort_key cf_name xs) 0 = Inr docs"
    using assms(1) by (auto simp: read_local_def split: option.splits)
  have "list_all honest_child (sort_key cf_name xs)"
    using assms(2) LocalDirectory xs(1) by (simp add: honest_node_def list_all_iff)
  then show ?thesis using read_children_bounded [OF xs(2)] assms(3) by force
next
  case LocalMissing
  then show ?thesis using assms by (simp add: read_local_def)
qed

lemma fetch_local_bounded:
  assumes "fetch_local E s path = Inr pl" "honest_node (fe_local E path)" "0 \<le> size_limit s"
  shows "int (length (sp_content pl)) \<le> size_limit s \<and> documents_size (sp_documents pl) \<le> size_limit s"
proof -
  obtain docs where docs: "read_local (fe_local E path) (size_limit s) = Inr docs"
    "sp_documents pl = docs" "sp_content pl = (case docs of [d] \<Rightarrow> d | _ \<Rightarrow> [])"
    using assms(1) by (auto simp: fetch_local_def split: sum.splits)
  have "documents_size docs \<le> size_limit s" using read_local_bounded [OF docs(1) assms(2,3)] .
  then show ?thesis using docs(2,3) assms(3)
    by (auto simp: documents_size_def split: list.splits)
qed

section \<open>Properties\<close>

definition ipv6_host :: "url_parts \<Rightarrow> bool" where
  "ipv6_host p \<longleftrightarrow> CHR '':'' \<in> set (the (url_hostname p))"

definition same_site :: "url_parts \<Rightarrow> url_parts \<Rightarrow> bool" where
  "same_site p q \<longleftrightarrow> url_scheme p = url_scheme q \<and> url_hostname p = url_hostname q
     \<and> effective_port p = effective_port q"


text \<open>A subscription server that redirects to another host.\<close>

definition redirecting_exchange :: "nat \<Rightarrow> string \<Rightarrow> http_headers \<Rightarrow> http_failure + source_response" where
  "redirecting_exchange n url hs =
     Inr \<lparr>sr_status = (if n = 0 then 302 else 200), sr_url = url,
          sr_location = (if n = 0 then Some ''https://b.test/list'' else None),
          sr_content_type = None, sr_content_length = Some ''2'', sr_chunks = [''o'', ''k''],
          sr_broken = None\<rparr>"

definition demo_fetch_env :: fetch_env where
  "demo_fetch_env =
     \<lparr>fe_user_agent = ''agent'', fe_base_dir = None, fe_utf8 = Some, fe_secret_bytes = (\<lambda>_. None),
      fe_environ = (\<lambda>_. None), fe_local = (\<lambda>_. LocalMissing), fe_exchange = redirecting_exchange\<rparr>"

definition demo_source :: any_source where
  "demo_source =
     \<lparr>as_kind = Some ''http'', as_location = Some ''https://a.test/list'', as_location_ref = None,
      as_url = None, as_path = None, as_headers = [(''X-Key'', HeaderSecret ''secret'')],
      as_headers_ref = [], as_max_bytes = Some 10, as_max_redirects = None,
      as_allow_insecure_http = None\<rparr>"

lemma demo_fetch:
  "fetch_source demo_fetch_env demo_source =
     (Inr \<lparr>sp_content = ''ok'', sp_content_type = None, sp_origin = ''https://b.test'', sp_documents = []\<rparr>,
      [(''https://a.test/list'', [(''User-Agent'', ''agent''), (''X-Key'', ''secret'')]),
       (''https://b.test/list'', [(''User-Agent'', ''agent'')])])"
  by code_simp


text \<open>C38: a fetch is bounded. It sends at most one request more than the redirects it may follow, and
  what it returns (a response body, a file, or all the files of a directory together) is no larger than
  the limit of the source, if files have the size the file system says.\<close>

theorem source_fetch_bounded:
  assumes "\<And>path. honest_node (fe_local E path)" "0 \<le> size_limit s"
  shows "length (snd (fetch_source E s)) \<le> nat (redirects_allowed s + 1)
     \<and> (case fst (fetch_source E s) of
          Inr pl \<Rightarrow> int (length (sp_content pl)) \<le> size_limit s
                   \<and> documents_size (sp_documents pl) \<le> size_limit s
        | Inl _ \<Rightarrow> True)"
proof -
  have sent: "length (snd (fetch_source E s)) \<le> nat (redirects_allowed s + 1)"
  proof (cases "snd (fetch_source E s) = []")
    case False
    then show ?thesis using fetch_source_sent [OF refl, of E s] redirect_turns_length by fastforce
  qed simp
  have http: "int (length (sp_content pl)) \<le> size_limit s \<and> documents_size (sp_documents pl) \<le> size_limit s"
    if r: "fst (fetch_http E s loc) = Inr pl" for loc pl
  proof -
    obtain hs original turns where
        "fst (redirect_turns E s hs original turns 0 loc) = Inr pl"
      using r by (auto simp: fetch_http_def split: option.splits if_splits sum.splits)
    then show ?thesis
      using redirect_turns_bounded assms(2) by (fastforce simp: documents_size_def)
  qed
  have "int (length (sp_content pl)) \<le> size_limit s \<and> documents_size (sp_documents pl) \<le> size_limit s"
    if "fst (fetch_source E s) = Inr pl" for pl
    using that http fetch_local_bounded [OF _ assms(1,2)]
    by (auto simp: fetch_source_def Let_def split: sum.splits if_splits)
  then show ?thesis using sent by (auto split: sum.splits)
qed

lemma source_fetch_bounded_witness: "length (snd (fetch_source demo_fetch_env demo_source)) \<le> 4"
  using source_fetch_bounded [of demo_fetch_env demo_source]
  by (simp add: demo_fetch_env_def demo_source_def honest_node_def size_limit_def redirects_allowed_def)

text \<open>
  Two IPv6 origins that the loader takes for one: brackets are not part of \<open>hostname\<close>, so a port and
  a last group cannot be told apart, and the headers of a source at port 8443 of \<open>2001:db8::1\<close> are sent
  to the host \<open>2001:db8::1:8443\<close> after a redirect.
\<close>

lemma replicate_numerals: "replicate 4 x = [x, x, x, x]" "replicate 5 x = [x, x, x, x, x]"
  by (simp_all add: numeral_eq_Suc)

lemmas ipv6_text_defs = ip_address_def ipv6_addr_def ipv4_int_def ipv6_groups_def ipv6_int_def
  char_class_defs Let_def ipv6_skip_def group_value_def parse_hextet_def upt_rec replicate_numerals
  py_partition_def

lemma two_ipv6_texts:
  "\<exists>n. ip_address ''2001:db8::1:8443'' = Some (IPv6 n None)"
  "\<exists>n. ip_address ''2001:db8::1'' = Some (IPv6 n None)"
  by (simp_all add: ipv6_text_defs)

lemma two_ipv6_netlocs:
  "bracketed_netloc_ok ''[2001:db8::1:8443]''" "bracketed_netloc_ok ''[2001:db8::1]:8443''"
  using two_ipv6_texts
  by (auto simp: bracketed_netloc_ok_def py_partition_def py_rpartition_def char_class_defs ipvfuture_def)

lemma two_ipv6_urls:
  "urlsplit ''https://[2001:db8::1]:8443/list'' =
     Some \<lparr>url_scheme = ''https'', url_netloc = ''[2001:db8::1]:8443''\<rparr>"
  "urlsplit ''https://[2001:db8::1:8443]/list'' =
     Some \<lparr>url_scheme = ''https'', url_netloc = ''[2001:db8::1:8443]''\<rparr>"
  using two_ipv6_netlocs
  by (simp_all add: urlsplit_def char_class_defs Let_def scheme_char_def py_lower_def lower_char_def)

lemma two_ipv6_hosts:
  "url_hostname \<lparr>url_scheme = ''https'', url_netloc = ''[2001:db8::1]:8443''\<rparr> = Some ''2001:db8::1''"
  "url_port \<lparr>url_scheme = ''https'', url_netloc = ''[2001:db8::1]:8443''\<rparr> = Some (Some 8443)"
  "url_hostname \<lparr>url_scheme = ''https'', url_netloc = ''[2001:db8::1:8443]''\<rparr> = Some ''2001:db8::1:8443''"
  "url_port \<lparr>url_scheme = ''https'', url_netloc = ''[2001:db8::1:8443]''\<rparr> = Some None"
  by (simp_all add: url_hostname_def url_port_def url_hostinfo_def py_partition_def py_rpartition_def
      py_lower_def lower_char_def char_class_defs)

lemma text_8443: "number_text 10 8443 = ''8443''"
  by (simp add: number_text.simps [of 10] digit_char_def)

lemma ipv6_origins_collide:
  "origin_of ''https://[2001:db8::1]:8443/list'' = Inr ''https://2001:db8::1:8443''
     \<and> origin_of ''https://[2001:db8::1:8443]/list'' = Inr ''https://2001:db8::1:8443''"
  by (simp add: origin_of_def two_ipv6_urls two_ipv6_hosts text_8443 default_port_def)

text \<open>A redirect target that cannot be split leaves the loader as a bare \<open>ValueError\<close>.\<close>

definition broken_exchange :: "nat \<Rightarrow> string \<Rightarrow> http_headers \<Rightarrow> http_failure + source_response" where
  "broken_exchange n url hs =
     Inr \<lparr>sr_status = 302, sr_url = url, sr_location = Some ''http://['', sr_content_type = None,
          sr_content_length = None, sr_chunks = [], sr_broken = None\<rparr>"

lemma bad_redirect_escapes:
  "fst (fetch_source (demo_fetch_env\<lparr>fe_exchange := broken_exchange\<rparr>) demo_source) = Inl FetchValueError"
  by code_simp

end
