(* ===== verification/Config.thy ===== *)
theory Config
  imports Sources FileSystem
begin

text \<open>
  \<open>src/xray_e2e_prober/config.py\<close>: loading and validating a configuration document, its serialisation
  with or without secrets, the redacted export and the resolution of secret references. The YAML
  parser and emitter, the UTF-8 codec and pydantic's conversion of a mapping to the field types are
  parameters; the validators of the fields and models are those of \<open>Models\<close>.
\<close>

datatype config_failure = ConfigLoadError string | ConfigValidationError string | ConfigError string

definition MAX_CONFIG_BYTES :: int where
  "MAX_CONFIG_BYTES = 2 * 1024 * 1024"

definition MAX_YAML_ALIASES :: nat where
  "MAX_YAML_ALIASES = 50"

definition REDACTED :: string where
  "REDACTED = ''<redacted>''"

section \<open>The safe YAML loader\<close>

text \<open>
  The constructed key of a mapping: equality of Python values (\<open>1\<close>, \<open>1.0\<close> and \<open>True\<close> are equal keys),
  and an unhashable list or dictionary.
\<close>

fun key_number :: "raw \<Rightarrow> rat option" where
  "key_number (RBool b) = Some (if b then 1 else 0)"
| "key_number (RInt i) = Some (of_int i)"
| "key_number (RFloat q) = Some q"
| "key_number _ = None"

definition same_key :: "raw \<Rightarrow> raw \<Rightarrow> bool" where
  "same_key a b \<longleftrightarrow> a = b \<or> (key_number a \<noteq> None \<and> key_number a = key_number b)"

fun hashable :: "raw \<Rightarrow> bool" where
  "hashable (RList _) = False"
| "hashable (RDict _) = False"
| "hashable _ = True"

datatype yaml_error = UnhashableKey | DuplicateKey | TooManyAliases | YamlError string

text \<open>
  \<open>_construct_unique_mapping\<close> after \<open>flatten_mapping\<close>: \<open>build\<close> constructs the value of a node, the key
  of a pair before its value.
\<close>

fun construct_unique_mapping ::
  "('node \<Rightarrow> yaml_error + raw) \<Rightarrow> ('node \<times> 'node) list \<Rightarrow> (raw \<times> raw) list \<Rightarrow> yaml_error + (raw \<times> raw) list" where
  "construct_unique_mapping build [] mapping = Inr mapping"
| "construct_unique_mapping build ((k, v) # nodes) mapping =
     bindE (build k) (\<lambda>key.
     if \<not> hashable key then Inl UnhashableKey
     else if list_ex (\<lambda>(j, _). same_key j key) mapping then Inl DuplicateKey
     else bindE (build v) (\<lambda>value.
          construct_unique_mapping build nodes (mapping @ [(key, value)])))"

text \<open>\<open>compose_node\<close> counts the alias events of the document.\<close>

definition compose_node :: "bool \<Rightarrow> nat \<Rightarrow> yaml_error + nat" where
  "compose_node is_alias alias_count =
     (if is_alias
      then (if alias_count + 1 > MAX_YAML_ALIASES then Inl TooManyAliases else Inr (alias_count + 1))
      else Inr alias_count)"

section \<open>Loading\<close>

text \<open>
  \<open>cf_yaml\<close> is \<open>yaml.load\<close> with that loader (\<open>None\<close> for a \<open>YAMLError\<close> or \<open>RecursionError\<close>),
  \<open>cf_parse\<close> pydantic's conversion with its list of errors (location, message), \<open>cf_utf8_sig\<close> and
  \<open>cf_utf8\<close> the codecs, \<open>cf_utf8_size\<close> the encoded size of a text,
  \<open>cf_emit\<close> is \<open>yaml.safe_dump\<close> to encoded text (\<open>None\<close> for a \<open>YAMLError\<close>).
\<close>

record config_env =
  cf_yaml :: "string \<Rightarrow> raw option"
  cf_parse :: "(string, raw) dict \<Rightarrow> (string list \<times> string option) list + AppConfig"
  cf_re_compiles :: "string \<Rightarrow> bool"
  cf_utf8_sig :: "string \<Rightarrow> string option"
  cf_utf8 :: "string \<Rightarrow> string option"
  cf_utf8_size :: "string \<Rightarrow> int"
  cf_emit :: "raw \<Rightarrow> string option"

definition validation_message :: "(string list \<times> string option) list \<Rightarrow> string" where
  "validation_message errors =
     (let line = (\<lambda>(loc, msg).
            (if py_join ''.'' loc = [] then ''config'' else py_join ''.'' loc) @ '': ''
              @ (case msg of Some m \<Rightarrow> m | None \<Rightarrow> ''invalid value''));
          text = py_join ''; '' (take 20 (map line errors))
      in if text = [] then ''configuration is invalid'' else text)"

definition safe_yaml_load :: "config_env \<Rightarrow> string \<Rightarrow> config_failure + raw" where
  "safe_yaml_load E text =
     (case cf_yaml E text of
        Some v \<Rightarrow> Inr v
      | None \<Rightarrow> Inl (ConfigLoadError ''configuration is not valid safe YAML''))"

datatype config_value = ParsedConfig AppConfig | RawConfig raw

text \<open>\<open>value.get("schema_version") != CURRENT_SCHEMA_VERSION\<close>: \<open>1.0\<close> and \<open>True\<close> pass.\<close>

definition validate_config :: "config_env \<Rightarrow> config_value \<Rightarrow> config_failure + AppConfig" where
  "validate_config E v =
     (case v of
        ParsedConfig c \<Rightarrow> Inr c
      | RawConfig (RDict d) \<Rightarrow>
          (case dict_get d ''schema_version'' of
             None \<Rightarrow> Inl (ConfigValidationError ''schema_version is required'')
           | Some version \<Rightarrow>
               if \<not> same_key version (RInt CURRENT_SCHEMA_VERSION)
               then Inl (ConfigValidationError ''unsupported schema_version; expected 1'')
               else (case cf_parse E d of
                       Inl errors \<Rightarrow> Inl (ConfigValidationError (validation_message errors))
                     | Inr c \<Rightarrow>
                         (case validate_AppConfig (cf_re_compiles E) c of
                            Inl m \<Rightarrow> Inl (ConfigValidationError (validation_message [([], Some m)]))
                          | Inr c' \<Rightarrow> Inr c')))
      | RawConfig _ \<Rightarrow> Inl (ConfigValidationError ''configuration root must be a mapping''))"

datatype config_text = ConfigBytes string | ConfigText string

definition loads_config :: "config_env \<Rightarrow> int \<Rightarrow> config_text \<Rightarrow> config_failure + AppConfig" where
  "loads_config E limit text =
     bindE (case text of
         ConfigBytes b \<Rightarrow>
           (if int (length b) > limit then Inl (ConfigLoadError ''configuration exceeds size limit'')
            else case cf_utf8_sig E b of
              None \<Rightarrow> Inl (ConfigLoadError ''configuration is not valid UTF-8'')
            | Some t \<Rightarrow> Inr t)
       | ConfigText t \<Rightarrow>
           (if cf_utf8_size E t > limit then Inl (ConfigLoadError ''configuration exceeds size limit'')
            else Inr t))
       (\<lambda>decoded. bindE (safe_yaml_load E decoded) (\<lambda>v. validate_config E (RawConfig v)))"

text \<open>What \<open>stat\<close> and \<open>read_bytes\<close> find at a path.\<close>

datatype file_read = FileMissing | FileUnreadable | FileBytes int string

definition load_config :: "config_env \<Rightarrow> int \<Rightarrow> file_read \<Rightarrow> config_failure + AppConfig" where
  "load_config E limit file_at =
     (case file_at of
        FileMissing \<Rightarrow> Inl (ConfigLoadError ''configuration file does not exist'')
      | FileUnreadable \<Rightarrow> Inl (ConfigLoadError ''configuration file cannot be read'')
      | FileBytes n data \<Rightarrow>
          (if n > limit then Inl (ConfigLoadError ''configuration exceeds size limit'')
           else loads_config E limit (ConfigBytes data)))"

section \<open>Serialisation\<close>

text \<open>
  The Python values that \<open>model_dump\<close> of a configuration holds, the class \<open>SecretStr\<close>, enumeration
  members and sets included.
\<close>

datatype pyval = PNone | PBool bool | PInt int | PFloat rat | PStr string | PSecret string
  | PEnum string | PStrSet "string set" | PIntSet "int set" | PList "pyval list"
  | PDict "(string \<times> pyval) list"

definition int_text :: "int \<Rightarrow> string" where
  "int_text i = (if i < 0 then ''-'' @ number_text 10 (nat (- i)) else number_text 10 (nat i))"

text \<open>\<open>_serialize\<close>: a set becomes the list of its elements sorted by their \<open>str\<close>.\<close>

fun serialize :: "bool \<Rightarrow> pyval \<Rightarrow> raw" where
  "serialize reveal PNone = RNone"
| "serialize reveal (PBool b) = RBool b"
| "serialize reveal (PInt i) = RInt i"
| "serialize reveal (PFloat q) = RFloat q"
| "serialize reveal (PStr s) = RStr s"
| "serialize reveal (PSecret s) = RStr (if reveal then s else REDACTED)"
| "serialize reveal (PEnum s) = RStr s"
| "serialize reveal (PStrSet S) = RList (map RStr (sorted_list_of_set S))"
| "serialize reveal (PIntSet S) = RList (map RInt (sort_key int_text (sorted_list_of_set S)))"
| "serialize reveal (PList vs) = RList (map (serialize reveal) vs)"
| "serialize reveal (PDict kvs) = RDict (map (\<lambda>(k, v). (k, serialize reveal v)) kvs)"

fun source_format_value :: "SourceFormat \<Rightarrow> string" where
  "source_format_value AUTO = ''auto''"
| "source_format_value VLESS = ''vless''"
| "source_format_value VLESS_BASE64 = ''vless_base64''"
| "source_format_value SourceFormat.XRAY_JSON = ''xray_json''"
| "source_format_value XRAY_JSON_ARRAY = ''xray_json_array''"

definition dump_opt :: "('a \<Rightarrow> pyval) \<Rightarrow> 'a option \<Rightarrow> pyval" where
  "dump_opt f x = (case x of None \<Rightarrow> PNone | Some v \<Rightarrow> f v)"

definition dump_strings :: "string list \<Rightarrow> pyval" where
  "dump_strings xs = PList (map PStr xs)"

text \<open>\<open>model_dump(mode="python")\<close>: the declared fields of each model in their order.\<close>

definition dump_SecretRef :: "SecretRef \<Rightarrow> pyval" where
  "dump_SecretRef r = PDict [(''file'', dump_opt PStr (ref_file r)), (''env'', dump_opt PStr (ref_env r))]"

definition dump_SourceConfig :: "SourceConfig \<Rightarrow> pyval" where
  "dump_SourceConfig s = PDict
     [(''source_id'', PStr (source_id s)), (''name'', PStr (source_name s)),
      (''kind'', PEnum (source_kind_value (source_kind s))),
      (''location'', dump_opt PSecret (location s)),
      (''location_ref'', dump_opt dump_SecretRef (location_ref s)),
      (''format'', PEnum (source_format_value (source_format s))),
      (''refresh_interval'', PFloat (refresh_interval s)), (''timeout'', PFloat (source_timeout s)),
      (''max_bytes'', PInt (max_bytes s)), (''allow_empty'', PBool (allow_empty s)),
      (''allow_insecure_http'', PBool (allow_insecure_http s)),
      (''target_set_ids'', dump_strings (source_target_set_ids s)),
      (''egress_assertion_ids'', dump_strings (source_egress_assertion_ids s)),
      (''headers'', PDict (map (\<lambda>(k, v). (k, PSecret v)) (headers s))),
      (''headers_ref'', PDict (map (\<lambda>(k, r). (k, dump_SecretRef r)) (headers_ref s))),
      (''enabled'', PBool (source_enabled s)), (''tags'', PStrSet (source_tags s))]"

definition dump_BodyMatcher :: "BodyMatcher \<Rightarrow> pyval" where
  "dump_BodyMatcher b = PDict
     [(''kind'', PEnum (case body_kind b of EXACT \<Rightarrow> ''exact'' | REGEX \<Rightarrow> ''regex'')),
      (''value'', PStr (body_value b))]"

definition dump_ThroughputConfig :: "ThroughputConfig \<Rightarrow> pyval" where
  "dump_ThroughputConfig t = PDict
     [(''direction'', PStr (case direction t of Download \<Rightarrow> ''download'' | Upload \<Rightarrow> ''upload'')),
      (''expected_bytes'', PInt (expected_bytes t)), (''interval'', PFloat (tp_interval t))]"

definition dump_TargetConfig :: "TargetConfig \<Rightarrow> pyval" where
  "dump_TargetConfig t = PDict
     [(''target_id'', PStr (target_id t)), (''name'', PStr (target_name t)), (''url'', PStr (target_url t)),
      (''method'', PStr (case target_method t of GET \<Rightarrow> ''GET'' | POST \<Rightarrow> ''POST'')),
      (''expected_statuses'', PIntSet (expected_statuses t)),
      (''timeout'', dump_opt PFloat (target_timeout t)), (''body'', dump_opt dump_BodyMatcher (target_body t)),
      (''throughput'', dump_opt dump_ThroughputConfig (throughput t)),
      (''max_body_bytes'', PInt (max_body_bytes t)), (''follow_redirects'', PBool (follow_redirects t)),
      (''max_redirects'', PInt (max_redirects t)), (''enabled'', PBool (target_enabled t))]"

definition dump_TargetSetConfig :: "TargetSetConfig \<Rightarrow> pyval" where
  "dump_TargetSetConfig ts = PDict
     [(''target_set_id'', PStr (target_set_id ts)), (''name'', PStr (target_set_name ts)),
      (''targets'', PList (map dump_TargetConfig (targets ts))), (''quorum'', PInt (quorum ts)),
      (''enabled'', PBool (target_set_enabled ts))]"

definition dump_AssignmentFilter :: "AssignmentFilter \<Rightarrow> pyval" where
  "dump_AssignmentFilter f = PDict
     [(''name_glob'', dump_opt PStr (name_glob f)), (''name_regex'', dump_opt PStr (name_regex f)),
      (''protocol'', dump_opt PStr (filter_protocol f)), (''transport'', dump_opt PStr (filter_transport f)),
      (''tags'', PStrSet (filter_tags f))]"

definition dump_AssignmentRule :: "AssignmentRule \<Rightarrow> pyval" where
  "dump_AssignmentRule r = PDict
     [(''assignment_id'', PStr (assignment_id r)), (''selection_id'', dump_opt PStr (rule_selection_id r)),
      (''entry_id'', dump_opt PStr (rule_entry_id r)), (''source_id'', dump_opt PStr (rule_source_id r)),
      (''filter'', dump_opt dump_AssignmentFilter (rule_filter r)), (''enabled'', PBool (rule_enabled r)),
      (''target_set_ids'', dump_strings (rule_target_set_ids r)),
      (''mode'', dump_opt (\<lambda>m. PEnum (check_mode_value m)) (rule_mode r)),
      (''runtime_lifecycle'', dump_opt (\<lambda>l. PEnum (lifecycle_value l)) (rule_runtime_lifecycle r)),
      (''outbound_tag'', dump_opt PStr (rule_outbound_tag r)),
      (''inbound_tag'', dump_opt PStr (rule_inbound_tag r)),
      (''egress_assertion_ids'', dump_strings (rule_egress_assertion_ids r))]"

definition dump_EgressAssertionConfig :: "EgressAssertionConfig \<Rightarrow> pyval" where
  "dump_EgressAssertionConfig a = PDict
     [(''assertion_id'', PStr (assertion_id a)), (''name'', PStr (assertion_name a)),
      (''url'', PStr (assertion_url a)), (''expected_cidrs'', dump_strings (expected_cidrs a)),
      (''response_format'', PEnum (case response_format a of PLAIN \<Rightarrow> ''plain'' | JSON \<Rightarrow> ''json'')),
      (''json_field'', dump_opt PStr (json_field a)), (''timeout'', dump_opt PFloat (assertion_timeout a)),
      (''enabled'', PBool (assertion_enabled a))]"

definition dump_SchedulerConfig :: "SchedulerConfig \<Rightarrow> pyval" where
  "dump_SchedulerConfig s = PDict
     [(''interval'', PFloat (interval s)), (''request_timeout'', PFloat (request_timeout s)),
      (''runtime_start_timeout'', PFloat (runtime_start_timeout s)),
      (''runtime_restart_backoff_initial'', PFloat (runtime_restart_backoff_initial s)),
      (''runtime_restart_backoff_max'', PFloat (runtime_restart_backoff_max s)),
      (''observatory_warmup_delay'', PFloat (observatory_warmup_delay s)),
      (''observatory_warmup_timeout'', PFloat (observatory_warmup_timeout s)),
      (''max_active_runtimes'', PInt (max_active_runtimes s)),
      (''max_parallel_requests'', PInt (max_parallel_requests s)),
      (''max_parallel_throughput_requests'', PInt (max_parallel_throughput_requests s)),
      (''max_queue_size'', PInt (max_queue_size s)), (''max_result_age'', PFloat (max_result_age s))]"

definition dump_AppConfig :: "AppConfig \<Rightarrow> pyval" where
  "dump_AppConfig c = PDict
     [(''schema_version'', PInt (schema_version c)), (''instance_id'', PStr (instance_id c)),
      (''sources'', PList (map dump_SourceConfig (sources c))),
      (''target_sets'', PList (map dump_TargetSetConfig (target_sets c))),
      (''assignments'', PList (map dump_AssignmentRule (assignments c))),
      (''egress_assertions'', PList (map dump_EgressAssertionConfig (egress_assertions c))),
      (''scheduler'', dump_SchedulerConfig (scheduler c)),
      (''api'', PDict [(''host'', PStr (api_host (api c))), (''port'', PInt (api_port (api c)))]),
      (''default_target_set_ids'', dump_strings (default_target_set_ids c))]"

definition config_to_dict :: "bool \<Rightarrow> AppConfig \<Rightarrow> (string, raw) dict" where
  "config_to_dict reveal c = (case serialize reveal (dump_AppConfig c) of RDict d \<Rightarrow> d | _ \<Rightarrow> [])"

section \<open>Persistence\<close>

definition dump_config :: "config_env \<Rightarrow> bool \<Rightarrow> AppConfig \<Rightarrow> config_failure + string" where
  "dump_config E reveal c =
     (case cf_emit E (RDict (config_to_dict reveal c)) of
        Some text \<Rightarrow> Inr text
      | None \<Rightarrow> Inl (ConfigError ''configuration cannot be serialized''))"

text \<open>A step of a program on the file system that may raise a \<open>ConfigError\<close> before it.\<close>

definition tryI :: "config_failure + 'a \<Rightarrow> ('a \<Rightarrow> ('p, config_failure + 'b) io) \<Rightarrow> ('p, config_failure + 'b) io" where
  "tryI r f = (case r of Inl e \<Rightarrow> returnI (Inl e) | Inr a \<Rightarrow> f a)"

definition save_config :: "config_env \<Rightarrow> config_value \<Rightarrow> 'p \<Rightarrow> ('p, config_failure + AppConfig) io" where
  "save_config E v path =
     tryI (validate_config E v) (\<lambda>validated.
     tryI (dump_config E True validated) (\<lambda>text.
     bindI (atomic_write_bytes path text) (\<lambda>_. returnI (Inr validated))))"

section \<open>Redacted export\<close>

definition field :: "(string, raw) dict \<Rightarrow> string \<Rightarrow> raw" where
  "field d k = (case dict_get d k of Some v \<Rightarrow> v | None \<Rightarrow> RNone)"

definition dict_field :: "(string, raw) dict \<Rightarrow> string \<Rightarrow> (string, raw) dict" where
  "dict_field d k = (case dict_get d k of Some (RDict e) \<Rightarrow> e | _ \<Rightarrow> [])"

definition export_location :: "(string, raw) dict \<Rightarrow> (string, raw) dict" where
  "export_location source =
     (if field source ''location_ref'' \<noteq> RNone then dict_set ''location'' RNone source
      else if field source ''location'' \<noteq> RNone then dict_set ''location'' (RStr REDACTED) source
      else source)"

definition export_headers :: "(string, raw) dict \<Rightarrow> (string, raw) dict" where
  "export_headers source =
     (let hs = dict_field source ''headers''; refs = dict_field source ''headers_ref'';
          hs = (if refs \<noteq> []
                then fold (\<lambda>k h. if k \<in> set (dict_keys refs) then dict_pop k h else h) (dict_keys hs) hs
                else hs);
          hs = fold (\<lambda>k h. dict_set k (RStr REDACTED) h) (dict_keys hs) hs
      in dict_set ''headers'' (RDict hs) source)"

definition export_assignment :: "(string, raw) dict \<Rightarrow> (string, raw) dict" where
  "export_assignment a =
     (let a = (if field a ''selection_id'' = RNone
                  \<and> (field a ''outbound_tag'' \<noteq> RNone \<or> field a ''inbound_tag'' \<noteq> RNone)
               then dict_set ''selection_id'' (field a ''assignment_id'') a else a)
      in dict_set ''inbound_tag'' RNone (dict_set ''outbound_tag'' RNone a))"

text \<open>The elements of a list of dictionaries, changed in place.\<close>

definition change_each :: "((string, raw) dict \<Rightarrow> (string, raw) dict) \<Rightarrow> raw \<Rightarrow> raw" where
  "change_each f v =
     (case v of
        RList vs \<Rightarrow> RList (map (\<lambda>x. case x of RDict d \<Rightarrow> RDict (f d) | _ \<Rightarrow> x) vs)
      | _ \<Rightarrow> v)"

definition export_config_dict :: "config_env \<Rightarrow> config_value \<Rightarrow> config_failure + (string, raw) dict" where
  "export_config_dict E v =
     bindE (validate_config E v) (\<lambda>validated.
       let exported = config_to_dict False validated;
           exported = dict_set ''sources''
             (change_each (\<lambda>s. export_headers (export_location s)) (field exported ''sources'')) exported
       in Inr (dict_set ''assignments''
                 (change_each export_assignment (field exported ''assignments'')) exported))"

definition export_config ::
  "config_env \<Rightarrow> config_value \<Rightarrow> 'p option \<Rightarrow> ('p, config_failure + (string, raw) dict) io" where
  "export_config E v path =
     tryI (export_config_dict E v) (\<lambda>exported.
       case path of
         None \<Rightarrow> returnI (Inr exported)
       | Some p \<Rightarrow>
           (case cf_emit E (RDict exported) of
              None \<Rightarrow> returnI (Inl (ConfigError ''configuration export cannot be serialized''))
            | Some text \<Rightarrow> bindI (atomic_write_bytes p text) (\<lambda>_. returnI (Inr exported))))"

definition export_config_yaml :: "config_env \<Rightarrow> config_value \<Rightarrow> config_failure + string" where
  "export_config_yaml E v =
     bindE (export_config_dict E v) (\<lambda>exported.
       case cf_emit E (RDict exported) of
         None \<Rightarrow> Inl (ConfigError ''configuration export cannot be serialized'')
       | Some text \<Rightarrow> Inr text)"

section \<open>Secret references\<close>

definition remove_newline :: "string \<Rightarrow> string" where
  "remove_newline s = (if s \<noteq> [] \<and> last s = LF then butlast s else s)"

definition resolve_secret_ref ::
  "config_env \<Rightarrow> (string \<Rightarrow> string option) \<Rightarrow> (string \<Rightarrow> file_read) \<Rightarrow> string option \<Rightarrow> int \<Rightarrow> SecretRef
     \<Rightarrow> config_failure + string" where
  "resolve_secret_ref E environ read_at base_dir limit ref =
     (case ref_env ref of
        Some name \<Rightarrow>
          (case environ name of
             Some v \<Rightarrow> Inr v
           | None \<Rightarrow> Inl (ConfigError ''referenced secret environment variable is not set''))
      | None \<Rightarrow>
          (case read_at (below_base base_dir (the (ref_file ref))) of
             FileBytes n data \<Rightarrow>
               (if n > limit then Inl (ConfigError ''referenced secret file exceeds size limit'')
                else case cf_utf8 E data of
                  None \<Rightarrow> Inl (ConfigError ''referenced secret file is not valid UTF-8'')
                | Some text \<Rightarrow> Inr (remove_newline text))
           | _ \<Rightarrow> Inl (ConfigError ''referenced secret file cannot be read'')))"

definition resolve_source_location ::
  "(SecretRef \<Rightarrow> config_failure + string) \<Rightarrow> SourceConfig \<Rightarrow> config_failure + string" where
  "resolve_source_location resolve s =
     (case location s of Some v \<Rightarrow> Inr v | None \<Rightarrow> resolve (the (location_ref s)))"

definition resolve_source_headers ::
  "(SecretRef \<Rightarrow> config_failure + string) \<Rightarrow> SourceConfig \<Rightarrow> config_failure + (string, string) dict" where
  "resolve_source_headers resolve s =
     foldE (\<lambda>(k, r) values. bindE (resolve r) (\<lambda>v. Inr (dict_set k v values))) (headers_ref s) (headers s)"

section \<open>The export does not depend on secrets\<close>

text \<open>A configuration with its inline secrets and profile tags replaced by one fixed text.\<close>

definition hide_source :: "SourceConfig \<Rightarrow> SourceConfig" where
  "hide_source s = s\<lparr>location := map_option (\<lambda>_. ''hidden'') (location s),
     headers := map (\<lambda>(k, _). (k, ''hidden'')) (headers s)\<rparr>"

definition hide_rule :: "AssignmentRule \<Rightarrow> AssignmentRule" where
  "hide_rule r = r\<lparr>rule_outbound_tag := map_option (\<lambda>_. ''hidden'') (rule_outbound_tag r),
     rule_inbound_tag := map_option (\<lambda>_. ''hidden'') (rule_inbound_tag r)\<rparr>"

definition hide_secrets :: "AppConfig \<Rightarrow> AppConfig" where
  "hide_secrets c = c\<lparr>sources := map hide_source (sources c), assignments := map hide_rule (assignments c)\<rparr>"

lemma serialize_hide_source:
  "serialize False (dump_SourceConfig (hide_source s)) = serialize False (dump_SourceConfig s)"
  by (simp add: dump_SourceConfig_def hide_source_def dump_opt_def comp_def case_prod_unfold
      split: option.split)

definition rule_dict :: "AssignmentRule \<Rightarrow> (string, raw) dict" where
  "rule_dict r = (case serialize False (dump_AssignmentRule r) of RDict d \<Rightarrow> d | _ \<Rightarrow> [])"

lemma rule_dict: "serialize False (dump_AssignmentRule r) = RDict (rule_dict r)"
  by (simp add: rule_dict_def dump_AssignmentRule_def)

lemma export_hide_rule: "export_assignment (rule_dict (hide_rule r)) = export_assignment (rule_dict r)"
  by (cases "rule_selection_id r"; cases "rule_outbound_tag r"; cases "rule_inbound_tag r")
    (simp_all add: rule_dict_def dump_AssignmentRule_def export_assignment_def field_def hide_rule_def
      dump_opt_def)

lemma change_rules:
  "change_each export_assignment (RList (map (\<lambda>r. serialize False (dump_AssignmentRule r)) rs)) =
     RList (map (\<lambda>r. RDict (export_assignment (rule_dict r))) rs)"
  by (simp add: change_each_def rule_dict comp_def)

lemma export_form:
  "export_config_dict E (ParsedConfig c) = Inr
     [(''schema_version'', RInt (schema_version c)), (''instance_id'', RStr (instance_id c)),
      (''sources'', change_each (\<lambda>s. export_headers (export_location s))
         (RList (map (\<lambda>s. serialize False (dump_SourceConfig s)) (sources c)))),
      (''target_sets'', serialize False (PList (map dump_TargetSetConfig (target_sets c)))),
      (''assignments'', RList (map (\<lambda>r. RDict (export_assignment (rule_dict r))) (assignments c))),
      (''egress_assertions'', serialize False (PList (map dump_EgressAssertionConfig (egress_assertions c)))),
      (''scheduler'', serialize False (dump_SchedulerConfig (scheduler c))),
      (''api'', RDict [(''host'', RStr (api_host (api c))), (''port'', RInt (api_port (api c)))]),
      (''default_target_set_ids'', serialize False (dump_strings (default_target_set_ids c)))]"
  by (simp add: export_config_dict_def validate_config_def config_to_dict_def dump_AppConfig_def field_def
      Let_def comp_def change_rules)

lemma export_hide: "export_config_dict E (ParsedConfig (hide_secrets c)) = export_config_dict E (ParsedConfig c)"
  by (simp add: export_form hide_secrets_def comp_def serialize_hide_source export_hide_rule)

text \<open>C40: the export carries no inline secret. Two configurations that differ only in the values of
  source locations and headers and in the tags of assignments have the same export.\<close>

theorem export_hides_secrets:
  assumes "hide_secrets c = hide_secrets d"
  shows "export_config_dict E (ParsedConfig c) = export_config_dict E (ParsedConfig d)"
  using export_hide [of E c] export_hide [of E d] assms by simp

definition secret_source :: "string \<Rightarrow> SourceConfig" where
  "secret_source s = \<lparr>source_id = ''s'', source_name = ''s'', source_kind = HTTP, location = Some (''https://'' @ s),
     location_ref = None, source_format = AUTO, refresh_interval = 300, source_timeout = 30,
     max_bytes = 100, allow_empty = False, allow_insecure_http = False, source_target_set_ids = [],
     source_egress_assertion_ids = [], headers = [(''X-Key'', s)], headers_ref = [],
     source_enabled = True, source_tags = {}\<rparr>"

definition secret_config :: "string \<Rightarrow> AppConfig" where
  "secret_config s = example_config\<lparr>sources := [secret_source s]\<rparr>"

definition no_yaml_env :: config_env where
  "no_yaml_env = \<lparr>cf_yaml = (\<lambda>_. None), cf_parse = (\<lambda>_. Inl []), cf_re_compiles = (\<lambda>_. True),
     cf_utf8_sig = Some, cf_utf8 = Some, cf_utf8_size = (\<lambda>s. int (length s)), cf_emit = (\<lambda>_. None)\<rparr>"

lemma export_hides_secrets_witness:
  "export_config_dict no_yaml_env (ParsedConfig (secret_config ''alpha'')) =
     export_config_dict no_yaml_env (ParsedConfig (secret_config ''beta''))"
  by (rule export_hides_secrets) (simp add: secret_config_def hide_secrets_def hide_source_def secret_source_def)

lemma export_secret_source:
  "field (export_headers (export_location (case serialize False (dump_SourceConfig (secret_source s)) of
       RDict d \<Rightarrow> d | _ \<Rightarrow> []))) ''location'' = RStr REDACTED"
  by (simp add: dump_SourceConfig_def secret_source_def export_location_def export_headers_def field_def
      dict_field_def dump_opt_def Let_def)

end
