(* ===== verification/Metrics.thy ===== *)
theory Metrics
  imports Prelude
begin

text \<open>
  \<open>src/xray_e2e_prober/metrics.py\<close>: the projection of the status snapshot to Prometheus metric
  families. The snapshot is what \<open>ProberService.status_snapshot\<close> returns; an optional field is a key
  that is absent (or \<open>None\<close>), for which the collector has a default or emits nothing. A family is the
  sequence of the samples (label values, value) that \<open>add_metric\<close> received, in order. The text format
  is written by \<open>prometheus_client\<close>.
\<close>

section \<open>The snapshot\<close>

record target_view =
  tv_target_id :: string
  tv_state :: "string option"
  tv_kind :: "string option"
  tv_direction :: "string option"
  tv_duration_seconds :: "rat option"
  tv_ttfb_seconds :: "rat option"
  tv_bytes_read :: "rat option"
  tv_bytes_written :: "rat option"
  tv_transfer_seconds :: "rat option"
  tv_throughput_mbps :: "rat option"
  tv_measurement_timestamp :: "rat option"

record egress_view =
  ev_assertion_id :: string
  ev_state :: "string option"

record check_view =
  cv_check_id :: string
  cv_source_id :: string
  cv_entry_name :: "string option"
  cv_mode :: string
  cv_target_set_id :: string
  cv_state :: "string option"
  cv_last_run_timestamp :: "rat option"
  cv_targets :: "target_view list"
  cv_egress :: "egress_view list"
  cv_errors_total :: "(string, rat) dict"

record source_view =
  sv_source_id :: string
  sv_refresh_success :: "bool option"
  sv_last_success_timestamp :: "rat option"

record status_view =
  sn_instance_id :: "string option"
  sn_checks :: "check_view list"
  sn_config_reload_success :: "bool option"
  sn_sources :: "source_view list"
  sn_runtime_active :: "rat option"
  sn_queue_size :: "rat option"

definition or_default :: "'a \<Rightarrow> 'a option \<Rightarrow> 'a" where
  "or_default d x = (case x of Some v \<Rightarrow> v | None \<Rightarrow> d)"

section \<open>Families\<close>

definition CHECK_STATES :: "string list" where
  "CHECK_STATES = [''unknown'', ''success'', ''failure'', ''error'', ''stale'', ''disabled'']"

definition TARGET_STATES :: "string list" where
  "TARGET_STATES = [''unknown'', ''success'', ''failure'', ''error'', ''stale'', ''disabled'']"

definition EGRESS_STATES :: "string list" where
  "EGRESS_STATES = [''match'', ''mismatch'', ''unknown'', ''error'', ''stale'', ''disabled'']"

datatype family = CheckInfo | CheckState | CheckStatus | TargetSuccess | TargetState | DurationSeconds
  | TtfbSeconds | DownloadState | DownloadSuccess | DownloadBytes | DownloadTransfer | DownloadMbps
  | DownloadTimestamp | UploadState | UploadSuccess | UploadBytes | UploadTransfer | UploadMbps
  | UploadTimestamp | LastRun | EgressOneHot | EgressMatch | ErrorsTotal | ReloadSuccess
  | SourceRefresh | SourceTimestamp | RuntimeActive | QueueSize

text \<open>Name and label names of each family.\<close>

fun describe :: "family \<Rightarrow> string \<times> string list" where
  "describe CheckInfo = (''synthetic_check_info'',
     [''check_id'', ''instance_id'', ''source_id'', ''entry_name'', ''mode'', ''target_set_id''])"
| "describe CheckState = (''synthetic_check_state'', [''check_id'', ''instance_id'', ''state''])"
| "describe CheckStatus = (''synthetic_check_status'', [''check_id'', ''instance_id''])"
| "describe TargetSuccess = (''synthetic_check_target_success'', [''check_id'', ''instance_id'', ''target_id''])"
| "describe TargetState =
     (''synthetic_check_target_state'', [''check_id'', ''instance_id'', ''target_id'', ''state''])"
| "describe DurationSeconds =
     (''synthetic_check_duration_seconds'', [''check_id'', ''instance_id'', ''target_id''])"
| "describe TtfbSeconds = (''synthetic_check_ttfb_seconds'', [''check_id'', ''instance_id'', ''target_id''])"
| "describe DownloadState =
     (''synthetic_check_download_state'', [''check_id'', ''instance_id'', ''target_id'', ''state''])"
| "describe DownloadSuccess =
     (''synthetic_check_download_success'', [''check_id'', ''instance_id'', ''target_id''])"
| "describe DownloadBytes =
     (''synthetic_check_download_bytes'', [''check_id'', ''instance_id'', ''target_id''])"
| "describe DownloadTransfer =
     (''synthetic_check_download_transfer_seconds'', [''check_id'', ''instance_id'', ''target_id''])"
| "describe DownloadMbps = (''synthetic_check_download_mbps'', [''check_id'', ''instance_id'', ''target_id''])"
| "describe DownloadTimestamp = (''synthetic_check_download_last_run_timestamp_seconds'',
     [''check_id'', ''instance_id'', ''target_id''])"
| "describe UploadState =
     (''synthetic_check_upload_state'', [''check_id'', ''instance_id'', ''target_id'', ''state''])"
| "describe UploadSuccess =
     (''synthetic_check_upload_success'', [''check_id'', ''instance_id'', ''target_id''])"
| "describe UploadBytes = (''synthetic_check_upload_bytes'', [''check_id'', ''instance_id'', ''target_id''])"
| "describe UploadTransfer =
     (''synthetic_check_upload_transfer_seconds'', [''check_id'', ''instance_id'', ''target_id''])"
| "describe UploadMbps = (''synthetic_check_upload_mbps'', [''check_id'', ''instance_id'', ''target_id''])"
| "describe UploadTimestamp = (''synthetic_check_upload_last_run_timestamp_seconds'',
     [''check_id'', ''instance_id'', ''target_id''])"
| "describe LastRun = (''synthetic_check_last_run_timestamp_seconds'', [''check_id'', ''instance_id''])"
| "describe EgressOneHot =
     (''synthetic_check_egress_state'', [''check_id'', ''instance_id'', ''assertion_id'', ''state''])"
| "describe EgressMatch =
     (''synthetic_check_egress_match'', [''check_id'', ''instance_id'', ''assertion_id''])"
| "describe ErrorsTotal = (''synthetic_check_errors'', [''check_id'', ''instance_id'', ''reason''])"
| "describe ReloadSuccess = (''synthetic_prober_config_last_reload_successful'', [''instance_id''])"
| "describe SourceRefresh = (''synthetic_prober_source_refresh_success'', [''instance_id'', ''source_id''])"
| "describe SourceTimestamp =
     (''synthetic_prober_source_last_success_timestamp_seconds'', [''instance_id'', ''source_id''])"
| "describe RuntimeActive = (''synthetic_prober_runtime_active'', [''instance_id''])"
| "describe QueueSize = (''synthetic_prober_scheduler_queue_size'', [''instance_id''])"

definition all_families :: "family list" where
  "all_families = [CheckInfo, CheckState, CheckStatus, TargetSuccess, TargetState, DurationSeconds,
     TtfbSeconds, DownloadState, DownloadSuccess, DownloadBytes, DownloadTransfer, DownloadMbps,
     DownloadTimestamp, UploadState, UploadSuccess, UploadBytes, UploadTransfer, UploadMbps,
     UploadTimestamp, LastRun, EgressOneHot, EgressMatch, ErrorsTotal, ReloadSuccess,
     SourceRefresh, SourceTimestamp, RuntimeActive, QueueSize]"

section \<open>Samples\<close>

type_synonym sample = "string list \<times> rat"
type_synonym metric_call = "family \<times> sample"

definition truth :: "bool \<Rightarrow> rat" where
  "truth b = (if b then 1 else 0)"

definition one_hot :: "family \<Rightarrow> string list \<Rightarrow> string list \<Rightarrow> string \<Rightarrow> metric_call list" where
  "one_hot f states labels current = map (\<lambda>p. (f, labels @ [p], truth (current = p))) states"

definition verdict :: "family \<Rightarrow> string list \<Rightarrow> string \<Rightarrow> string \<Rightarrow> string \<Rightarrow> metric_call list" where
  "verdict f labels good bad current =
     (if current \<in> {good, bad} then [(f, labels, truth (current = good))] else [])"

definition optional_sample :: "family \<Rightarrow> string list \<Rightarrow> rat option \<Rightarrow> metric_call list" where
  "optional_sample f labels x = (case x of Some v \<Rightarrow> [(f, labels, v)] | None \<Rightarrow> [])"

definition throughput_calls :: "string list \<Rightarrow> target_view \<Rightarrow> metric_call list" where
  "throughput_calls labels t =
     (let up = (or_default ''download'' (tv_direction t) = ''upload'');
          current = or_default ''unknown'' (tv_state t)
      in one_hot (if up then UploadState else DownloadState) TARGET_STATES labels current
         @ verdict (if up then UploadSuccess else DownloadSuccess) labels ''success'' ''failure'' current
         @ optional_sample (if up then UploadBytes else DownloadBytes) labels
             (if up then tv_bytes_written t else tv_bytes_read t)
         @ optional_sample (if up then UploadTransfer else DownloadTransfer) labels (tv_transfer_seconds t)
         @ optional_sample (if up then UploadMbps else DownloadMbps) labels (tv_throughput_mbps t)
         @ optional_sample (if up then UploadTimestamp else DownloadTimestamp) labels (tv_measurement_timestamp t))"

definition reachability_calls :: "string list \<Rightarrow> target_view \<Rightarrow> metric_call list" where
  "reachability_calls labels t =
     (let current = or_default ''unknown'' (tv_state t)
      in one_hot TargetState TARGET_STATES labels current
         @ verdict TargetSuccess labels ''success'' ''failure'' current
         @ optional_sample DurationSeconds labels (tv_duration_seconds t)
         @ optional_sample TtfbSeconds labels (tv_ttfb_seconds t))"

definition target_calls :: "string list \<Rightarrow> target_view \<Rightarrow> metric_call list" where
  "target_calls labels t =
     (if or_default ''reachability'' (tv_kind t) = ''throughput''
      then throughput_calls (labels @ [tv_target_id t]) t
      else reachability_calls (labels @ [tv_target_id t]) t)"

definition egress_calls :: "string list \<Rightarrow> egress_view \<Rightarrow> metric_call list" where
  "egress_calls labels a =
     (let labels = labels @ [ev_assertion_id a]; current = or_default ''unknown'' (ev_state a)
      in one_hot EgressOneHot EGRESS_STATES labels current
         @ verdict EgressMatch labels ''match'' ''mismatch'' current)"

definition error_calls :: "string list \<Rightarrow> (string, rat) dict \<Rightarrow> metric_call list" where
  "error_calls labels errs = map (\<lambda>(r, n). (ErrorsTotal, labels @ [r], n)) errs"

definition check_calls :: "string \<Rightarrow> check_view \<Rightarrow> metric_call list" where
  "check_calls inst c =
     (let labels = [cv_check_id c, inst]; current = or_default ''unknown'' (cv_state c)
      in [(CheckInfo, [cv_check_id c, inst, cv_source_id c, or_default [] (cv_entry_name c), cv_mode c,
                       cv_target_set_id c], 1)]
         @ one_hot CheckState CHECK_STATES labels current
         @ verdict CheckStatus labels ''success'' ''failure'' current
         @ [(LastRun, labels, or_default 0 (cv_last_run_timestamp c))]
         @ concat (map (target_calls labels) (cv_targets c))
         @ concat (map (egress_calls labels) (cv_egress c))
         @ error_calls labels (cv_errors_total c))"

definition source_calls :: "string \<Rightarrow> source_view \<Rightarrow> metric_call list" where
  "source_calls inst s =
     [(SourceRefresh, [inst, sv_source_id s], truth (sv_refresh_success s = Some True)),
      (SourceTimestamp, [inst, sv_source_id s], or_default 0 (sv_last_success_timestamp s))]"

definition collect_calls :: "status_view \<Rightarrow> metric_call list" where
  "collect_calls sn =
     (let inst = or_default ''unconfigured'' (sn_instance_id sn)
      in concat (map (check_calls inst) (sn_checks sn))
         @ [(ReloadSuccess, [inst], truth (sn_config_reload_success sn = Some True))]
         @ concat (map (source_calls inst) (sn_sources sn))
         @ [(RuntimeActive, [inst], or_default 0 (sn_runtime_active sn)),
            (QueueSize, [inst], or_default 0 (sn_queue_size sn))])"

definition samples_of :: "family \<Rightarrow> metric_call list \<Rightarrow> sample list" where
  "samples_of f calls = map snd (filter (\<lambda>(g, _). g = f) calls)"

definition collect :: "status_view \<Rightarrow> (family \<times> sample list) list" where
  "collect sn = map (\<lambda>f. (f, samples_of f (collect_calls sn))) all_families"

section \<open>Series\<close>

text \<open>The label values of a family's samples: what Prometheus requires to be distinct.\<close>

definition series :: "family \<Rightarrow> metric_call list \<Rightarrow> string list list" where
  "series f calls = map fst (samples_of f calls)"

lemma samples_simps [simp]:
  "samples_of f [] = []"
  "samples_of f ((g, s) # calls) = (if g = f then s # samples_of f calls else samples_of f calls)"
  "samples_of f (a @ b) = samples_of f a @ samples_of f b"
  by (simp_all add: samples_of_def)

lemma samples_concat: "samples_of f (concat (map g xs)) = concat (map (\<lambda>x. samples_of f (g x)) xs)"
  by (induction xs) simp_all

lemma samples_one_hot:
  "samples_of f (one_hot g states labels current) =
     (if f = g then map (\<lambda>p. (labels @ [p], truth (current = p))) states else [])"
  by (induction states) (auto simp: one_hot_def)

lemma samples_errors:
  "samples_of f (error_calls labels errs) =
     (if f = ErrorsTotal then map (\<lambda>(r, n). (labels @ [r], n)) errs else [])"
  by (induction errs) (auto simp: error_calls_def)

lemma series_simps [simp]:
  "series f [] = []"
  "series f ((g, s) # calls) = (if g = f then fst s # series f calls else series f calls)"
  "series f (a @ b) = series f a @ series f b"
  by (simp_all add: series_def)

lemma series_parts [simp]:
  "series f (concat (map h xs)) = concat (map (\<lambda>x. series f (h x)) xs)"
  "series f (one_hot g states labels current) = (if f = g then map (\<lambda>p. labels @ [p]) states else [])"
  "series f (error_calls labels errs) =
     (if f = ErrorsTotal then map (\<lambda>r. labels @ [r]) (dict_keys errs) else [])"
  by (simp_all add: series_def samples_concat samples_one_hot samples_errors map_concat comp_def)
     (simp add: case_prod_unfold)

lemma series_verdict [simp]:
  "series f (verdict g labels good bad current) = (if f = g \<and> current \<in> {good, bad} then [labels] else [])"
  by (auto simp: verdict_def)

lemma series_optional [simp]: "series f (optional_sample g labels x) = (if f = g \<and> x \<noteq> None then [labels] else [])"
  by (auto simp: optional_sample_def split: option.split)

definition target_families :: "family set" where
  "target_families = {TargetSuccess, TargetState, DurationSeconds, TtfbSeconds, DownloadState,
     DownloadSuccess, DownloadBytes, DownloadTransfer, DownloadMbps, DownloadTimestamp, UploadState,
     UploadSuccess, UploadBytes, UploadTransfer, UploadMbps, UploadTimestamp}"

lemma no_items [simp]: "concat (map (\<lambda>x. []) xs) = []"
  by (induction xs) simp_all

lemma states_distinct: "distinct TARGET_STATES" "distinct EGRESS_STATES" "distinct CHECK_STATES"
  by (simp_all add: TARGET_STATES_def EGRESS_STATES_def CHECK_STATES_def)

lemma one_hot_distinct:
  "distinct states \<Longrightarrow> distinct (map (\<lambda>p. labels @ [p]) states)"
  "distinct states \<Longrightarrow> distinct (map (\<lambda>p. labels @ [a, p]) states)"
  by (simp_all add: distinct_map inj_on_def)

lemmas target_call_defs = target_calls_def throughput_calls_def reachability_calls_def Let_def

lemma target_series_family: "f \<notin> target_families \<Longrightarrow> series f (target_calls labels t) = []"
  by (auto simp: target_call_defs target_families_def)

lemma target_series_distinct: "distinct (series f (target_calls labels t))"
  by (cases f) (auto simp: target_call_defs one_hot_distinct states_distinct)

lemma target_series_prefix:
  "l \<in> set (series f (target_calls labels t)) \<Longrightarrow> \<exists>r. l = labels @ [tv_target_id t] @ r"
  by (auto simp: target_call_defs split: if_splits)

lemma egress_series_family: "f \<notin> {EgressOneHot, EgressMatch} \<Longrightarrow> series f (egress_calls labels a) = []"
  by (auto simp: egress_calls_def Let_def)

lemma egress_series_distinct: "distinct (series f (egress_calls labels a))"
  by (cases f) (auto simp: egress_calls_def Let_def one_hot_distinct states_distinct)

lemma egress_series_prefix:
  "l \<in> set (series f (egress_calls labels a)) \<Longrightarrow> \<exists>r. l = labels @ [ev_assertion_id a] @ r"
  by (auto simp: egress_calls_def Let_def split: if_splits)

text \<open>Series of several items are distinct if a label tells the items apart.\<close>

lemma distinct_concat_tagged:
  assumes "distinct (map key xs)"
    and "\<And>x. x \<in> set xs \<Longrightarrow> distinct (g x)"
    and "\<And>x l. x \<in> set xs \<Longrightarrow> l \<in> set (g x) \<Longrightarrow> tag l = key x"
  shows "distinct (concat (map g xs))"
  using assms
proof (induction xs)
  case (Cons x xs)
  have "tag l = key x" if "l \<in> set (g x)" for l using Cons.prems(3) that by simp
  moreover have "tag l \<noteq> key x" if "l \<in> set (concat (map g xs))" for l
  proof -
    from that have "\<exists>y \<in> set xs. l \<in> set (g y)" by simp
    then obtain y where "y \<in> set xs" "l \<in> set (g y)" by blast
    then have "tag l = key y" "key y \<in> key ` set xs" using Cons.prems(3) by auto
    moreover have "key x \<notin> key ` set xs" using Cons.prems(1) by simp
    ultimately have "tag l = key y" "key y \<noteq> key x" by auto
    then show ?thesis by simp
  qed
  ultimately have "set (g x) \<inter> set (concat (map g xs)) = {}" by blast
  then show ?case using Cons by simp
qed simp

lemma targets_series_distinct:
  "distinct (map tv_target_id ts) \<Longrightarrow>
     distinct (concat (map (\<lambda>t. series f (target_calls [cid, inst] t)) ts))"
  by (rule distinct_concat_tagged [where key = tv_target_id and tag = "\<lambda>l. l ! 2"])
    (auto simp: target_series_distinct dest!: target_series_prefix)

lemma assertions_series_distinct:
  "distinct (map ev_assertion_id as) \<Longrightarrow>
     distinct (concat (map (\<lambda>a. series f (egress_calls [cid, inst] a)) as))"
  by (rule distinct_concat_tagged [where key = ev_assertion_id and tag = "\<lambda>l. l ! 2"])
    (auto simp: egress_series_distinct dest!: egress_series_prefix)

definition check_view_ok :: "check_view \<Rightarrow> bool" where
  "check_view_ok c \<longleftrightarrow> distinct (map tv_target_id (cv_targets c))
     \<and> distinct (map ev_assertion_id (cv_egress c)) \<and> dict_ok (cv_errors_total c)"

definition status_view_ok :: "status_view \<Rightarrow> bool" where
  "status_view_ok sn \<longleftrightarrow> distinct (map cv_check_id (sn_checks sn))
     \<and> distinct (map sv_source_id (sn_sources sn)) \<and> list_all check_view_ok (sn_checks sn)"

lemma check_series_distinct:
  assumes "check_view_ok c"
  shows "distinct (series f (check_calls inst c))"
proof -
  consider "f \<in> target_families" | "f \<in> {EgressOneHot, EgressMatch}"
    | "f \<notin> target_families" "f \<notin> {EgressOneHot, EgressMatch}" by blast
  then show ?thesis
  proof cases
    case 1
    then have "f \<notin> {EgressOneHot, EgressMatch}" by (auto simp: target_families_def)
    then have "series f (check_calls inst c) =
        concat (map (\<lambda>t. series f (target_calls [cv_check_id c, inst] t)) (cv_targets c))"
      using 1 by (auto simp: check_calls_def Let_def egress_series_family target_families_def)
    then show ?thesis using assms targets_series_distinct by (simp add: check_view_ok_def)
  next
    case 2
    then have "f \<notin> target_families" by (auto simp: target_families_def)
    then have "series f (check_calls inst c) =
        concat (map (\<lambda>a. series f (egress_calls [cv_check_id c, inst] a)) (cv_egress c))"
      using 2 by (auto simp: check_calls_def Let_def target_series_family)
    then show ?thesis using assms assertions_series_distinct by (simp add: check_view_ok_def)
  next
    case 3
    then show ?thesis using assms
      by (auto simp: check_calls_def Let_def target_series_family egress_series_family check_view_ok_def
          one_hot_distinct states_distinct dict_ok_def distinct_map inj_on_def)
  qed
qed

lemma check_series_prefix: "l \<in> set (series f (check_calls inst c)) \<Longrightarrow> \<exists>r. l = cv_check_id c # inst # r"
  by (auto simp: check_calls_def Let_def dest!: target_series_prefix egress_series_prefix split: if_splits)

section \<open>Properties\<close>

lemma source_series_distinct:
  "distinct (map sv_source_id ss) \<Longrightarrow> distinct (concat (map (\<lambda>s. series f (source_calls inst s)) ss))"
  by (rule distinct_concat_tagged [where key = sv_source_id and tag = "\<lambda>l. l ! 1"])
    (auto simp: source_calls_def split: if_splits)

lemma checks_series_distinct:
  "distinct (map cv_check_id cs) \<Longrightarrow> list_all check_view_ok cs \<Longrightarrow>
     distinct (concat (map (\<lambda>c. series f (check_calls inst c)) cs))"
  by (rule distinct_concat_tagged [where key = cv_check_id and tag = hd])
    (auto simp: check_series_distinct list_all_iff dest!: check_series_prefix)

definition service_families :: "family set" where
  "service_families = {ReloadSuccess, SourceRefresh, SourceTimestamp, RuntimeActive, QueueSize}"

lemma check_series_family: "f \<in> service_families \<Longrightarrow> series f (check_calls inst c) = []"
  by (auto simp: check_calls_def Let_def service_families_def target_series_family target_families_def
      egress_series_family)

lemma source_series_family: "f \<notin> {SourceRefresh, SourceTimestamp} \<Longrightarrow> series f (source_calls inst s) = []"
  by (auto simp: source_calls_def)

lemma collect_series_distinct:
  assumes "status_view_ok sn"
  shows "distinct (series f (collect_calls sn))"
proof (cases "f \<in> service_families")
  case True
  then show ?thesis
    using assms source_series_distinct [of "sn_sources sn"]
    by (auto simp: collect_calls_def Let_def check_series_family service_families_def source_series_family
        status_view_ok_def)
next
  case False
  then have "series f (collect_calls sn) =
      concat (map (\<lambda>c. series f (check_calls (or_default ''unconfigured'' (sn_instance_id sn)) c)) (sn_checks sn))"
    by (auto simp: collect_calls_def Let_def source_series_family service_families_def)
  then show ?thesis using assms checks_series_distinct by (simp add: status_view_ok_def)
qed

text \<open>Every sample has a value for each label of its family.\<close>

definition well_labelled :: "metric_call \<Rightarrow> bool" where
  "well_labelled call \<longleftrightarrow> length (fst (snd call)) = length (snd (describe (fst call)))"

lemma well_labelled_pair [simp]:
  "well_labelled (f, l, v) \<longleftrightarrow> length l = length (snd (describe f))"
  by (simp add: well_labelled_def)

lemma well_labelled_parts [simp]:
  "Suc (length labels) = length (snd (describe f)) \<Longrightarrow> list_all well_labelled (one_hot f states labels current)"
  "length labels = length (snd (describe f)) \<Longrightarrow> list_all well_labelled (verdict f labels good bad current)"
  "length labels = length (snd (describe f)) \<Longrightarrow> list_all well_labelled (optional_sample f labels x)"
  "length labels = 2 \<Longrightarrow> list_all well_labelled (error_calls labels errs)"
  "list_all well_labelled (concat (map g xs)) \<longleftrightarrow> list_all (\<lambda>x. list_all well_labelled (g x)) xs"
  by (auto simp: one_hot_def verdict_def optional_sample_def error_calls_def list_all_iff split: option.split)

lemma target_calls_labelled: "length labels = 2 \<Longrightarrow> list_all well_labelled (target_calls labels t)"
  by (simp add: target_call_defs)

lemma egress_calls_labelled: "length labels = 2 \<Longrightarrow> list_all well_labelled (egress_calls labels a)"
  by (simp add: egress_calls_def Let_def)

lemma collect_calls_labelled: "list_all well_labelled (collect_calls sn)"
  by (simp add: collect_calls_def check_calls_def source_calls_def Let_def target_calls_labelled
      egress_calls_labelled list.pred_True)

lemma samples_labelled:
  "list_all well_labelled calls \<Longrightarrow> list_all (\<lambda>(ls, v). length ls = length (snd (describe f))) (samples_of f calls)"
  by (induction calls) (auto simp: well_labelled_def)

text \<open>The exposition is a valid set of time series. If checks, targets, assertions, error reasons
  and sources of the snapshot are unique, no family holds two samples with the same label values, and
  each sample has exactly the labels that its family declares.\<close>

theorem metrics_series_unique:
  assumes "status_view_ok sn" "(f, samples) \<in> set (collect sn)"
  shows "distinct (map fst samples) \<and> list_all (\<lambda>(ls, v). length ls = length (snd (describe f))) samples"
proof -
  have samples: "samples = samples_of f (collect_calls sn)" using assms(2) by (auto simp: collect_def)
  then show ?thesis
    using collect_series_distinct [OF assms(1), of f] samples_labelled [OF collect_calls_labelled]
    by (simp add: series_def)
qed

lemma filter_of_one:
  assumes "distinct (map key xs)" "x \<in> set xs"
    and "\<And>y s. y \<in> set xs \<Longrightarrow> s \<in> set (g y) \<Longrightarrow> P s \<Longrightarrow> key y = key x"
  shows "filter P (concat (map g xs)) = filter P (g x)"
  using assms
proof (induction xs)
  case (Cons y ys)
  show ?case
  proof (cases "y = x")
    case True
    then have "filter P (g z) = []" if "z \<in> set ys" for z
      using Cons.prems(1,3) that by (auto simp: filter_empty_conv) (metis image_eqI)
    then have "filter P (concat (map g ys)) = []" by (auto simp: filter_empty_conv)
    then show ?thesis using True by simp
  next
    case False
    then have x: "x \<in> set ys" using Cons.prems(2) by simp
    then have "key y \<noteq> key x" using Cons.prems(1) by (auto intro: image_eqI)
    then have "filter P (g y) = []" using Cons.prems(3) by (auto simp: filter_empty_conv)
    then show ?thesis using Cons x by simp
  qed
qed simp

lemma check_state_samples:
  "samples_of CheckState (collect_calls sn) =
     concat (map (\<lambda>c. map (\<lambda>p. ([cv_check_id c, or_default ''unconfigured'' (sn_instance_id sn), p],
       truth (or_default ''unknown'' (cv_state c) = p))) CHECK_STATES) (sn_checks sn))"
proof -
  have none: "samples_of CheckState calls = []" if "series CheckState calls = []" for calls
    using that by (simp add: series_def)
  show ?thesis
    by (simp add: collect_calls_def check_calls_def source_calls_def Let_def samples_concat samples_one_hot
        samples_errors none target_series_family target_families_def egress_series_family)
qed

text \<open>The state family is one-hot. Of the samples of a check in it exactly one is 1, the one
  labelled with the check's current state, and the others are 0.\<close>

theorem check_state_one_hot:
  assumes "distinct (map cv_check_id (sn_checks sn))" "c \<in> set (sn_checks sn)"
    and "or_default ''unknown'' (cv_state c) \<in> set CHECK_STATES"
  shows "filter (\<lambda>(l, v). hd l = cv_check_id c \<and> v \<noteq> 0) (samples_of CheckState (collect_calls sn)) =
     [([cv_check_id c, or_default ''unconfigured'' (sn_instance_id sn), or_default ''unknown'' (cv_state c)], 1)]"
proof -
  let ?g = "\<lambda>c. map (\<lambda>p. ([cv_check_id c, or_default ''unconfigured'' (sn_instance_id sn), p],
       truth (or_default ''unknown'' (cv_state c) = p))) CHECK_STATES"
  have "filter (\<lambda>(l, v). hd l = cv_check_id c \<and> v \<noteq> 0) (concat (map ?g (sn_checks sn))) =
      filter (\<lambda>(l, v). hd l = cv_check_id c \<and> v \<noteq> 0) (?g c)"
    using assms(1,2) by (rule filter_of_one) auto
  also have "\<dots> = [([cv_check_id c, or_default ''unconfigured'' (sn_instance_id sn),
      or_default ''unknown'' (cv_state c)], 1)]"
    using assms(3) by (auto simp: CHECK_STATES_def truth_def)
  finally show ?thesis by (simp only: check_state_samples)
qed

definition demo_check :: "string \<Rightarrow> string \<Rightarrow> check_view" where
  "demo_check cid s = \<lparr>cv_check_id = cid, cv_source_id = ''s'', cv_entry_name = None, cv_mode = ''connection'',
     cv_target_set_id = ''t'', cv_state = Some s, cv_last_run_timestamp = None,
     cv_targets = [\<lparr>tv_target_id = ''web'', tv_state = Some s, tv_kind = None, tv_direction = None,
        tv_duration_seconds = Some 1, tv_ttfb_seconds = None, tv_bytes_read = None, tv_bytes_written = None,
        tv_transfer_seconds = None, tv_throughput_mbps = None, tv_measurement_timestamp = None\<rparr>],
     cv_egress = [\<lparr>ev_assertion_id = ''ip'', ev_state = None\<rparr>], cv_errors_total = [(''dns'', 2)]\<rparr>"

definition demo_status :: status_view where
  "demo_status = \<lparr>sn_instance_id = Some ''i'', sn_checks = [demo_check ''a'' ''failure'', demo_check ''b'' ''success''],
     sn_config_reload_success = Some True,
     sn_sources = [\<lparr>sv_source_id = ''s'', sv_refresh_success = Some True, sv_last_success_timestamp = Some 7\<rparr>],
     sn_runtime_active = Some 1, sn_queue_size = None\<rparr>"

lemma metrics_series_unique_witness:
  "distinct (map fst [([''a'', ''i'', ''dns''], 2 :: rat), ([''b'', ''i'', ''dns''], 2)])
     \<and> list_all (\<lambda>(ls, v). length ls = length (snd (describe ErrorsTotal)))
         [([''a'', ''i'', ''dns''], 2 :: rat), ([''b'', ''i'', ''dns''], 2)]"
proof (rule metrics_series_unique [of demo_status])
  show "status_view_ok demo_status"
    by (simp add: status_view_ok_def demo_status_def demo_check_def check_view_ok_def dict_ok_def)
  have "samples_of ErrorsTotal (collect_calls demo_status) =
      [([''a'', ''i'', ''dns''], 2), ([''b'', ''i'', ''dns''], 2)]"
    by code_simp
  then show "(ErrorsTotal, [([''a'', ''i'', ''dns''], 2), ([''b'', ''i'', ''dns''], 2)]) \<in> set (collect demo_status)"
    by (simp add: collect_def all_families_def)
qed

lemma check_state_one_hot_witness:
  "filter (\<lambda>(l, v). hd l = ''a'' \<and> v \<noteq> 0) (samples_of CheckState (collect_calls demo_status)) =
     [([''a'', ''i'', ''failure''], 1)]"
  using check_state_one_hot [of demo_status "demo_check ''a'' ''failure''"]
  by (simp add: demo_status_def demo_check_def CHECK_STATES_def or_default_def)

end
