(* ===== verification/EffectiveConfig.thy ===== *)
theory EffectiveConfig
  imports Importers
begin

text \<open>
  \<open>src/xray_e2e_prober/runtime.py\<close>, first part: the construction of the Xray configuration that a check
  runs with. An Xray configuration is a JSON tree and stays one; the code walks it with \<open>get\<close> and
  \<open>isinstance\<close>. \<open>EffectiveConfigError\<close> carries its \<open>reason\<close> and message; a \<open>TypeError\<close> of an operation
  that the tree does not support, or another foreign exception, is an outcome of its own. Tags that a
  caller passes in a mapping are texts.
\<close>

datatype effective_error = EffectiveConfigError string string | EffOtherException

abbreviation unsupported :: "string \<Rightarrow> effective_error" where
  "unsupported m \<equiv> EffectiveConfigError ''unsupported'' m"

abbreviation config_invalid :: "string \<Rightarrow> effective_error" where
  "config_invalid m \<equiv> EffectiveConfigError ''config_invalid'' m"

definition PROBER_INBOUND_TAG :: string where
  "PROBER_INBOUND_TAG = ''xray-e2e-prober-socks''"

definition SUPPORTED_OUTBOUNDS :: "string set" where
  "SUPPORTED_OUTBOUNDS = {''vless'', ''freedom'', ''blackhole'', ''dns''}"

definition ADAPTABLE_INBOUNDS :: "string set" where
  "ADAPTABLE_INBOUNDS = {''socks'', ''http''}"

definition UNSAFE_TOP_LEVEL :: "string list" where
  "UNSAFE_TOP_LEVEL = [''api'', ''browserForwarder'', ''env'', ''metrics'', ''reverse'']"

definition UNREPRODUCIBLE_RULE_FIELDS :: "string list" where
  "UNREPRODUCIBLE_RULE_FIELDS = [''attrs'', ''process'', ''processPath'', ''source'', ''sourcePort'', ''user'']"

definition EXTERNAL_FILE_KEYS :: "string set" where
  "EXTERNAL_FILE_KEYS = {''certificatefile'', ''keyfile'', ''masterkeylog'', ''masterkeylogfile''}"

type_synonym json_object = "(string, raw) dict"

section \<open>Addresses of the host\<close>

text \<open>
  \<open>ipaddress\<close>: the registries of IPv4 and IPv6 that \<open>is_global\<close> and \<open>is_multicast\<close> consult. An IPv4
  address mapped into IPv6 is classified as the IPv4 address.
\<close>

definition in_block :: "nat \<Rightarrow> nat \<times> nat \<Rightarrow> nat \<Rightarrow> bool" where
  "in_block width block n \<longleftrightarrow> (case block of (base, plen) \<Rightarrow>
     n div 2 ^ (width - plen) = base div 2 ^ (width - plen))"

definition v4 :: "nat \<Rightarrow> nat \<Rightarrow> nat \<Rightarrow> nat \<Rightarrow> nat \<Rightarrow> nat \<times> nat" where
  "v4 a b c d plen = (((a * 256 + b) * 256 + c) * 256 + d, plen)"

text \<open>The first four groups of an IPv6 block, the remaining ones as a number.\<close>

definition v6 :: "nat \<Rightarrow> nat \<Rightarrow> nat \<Rightarrow> nat \<Rightarrow> nat \<Rightarrow> nat \<times> nat" where
  "v6 a b c rest plen = (a * 2 ^ 112 + b * 2 ^ 96 + c * 2 ^ 80 + rest, plen)"

definition private_v4 :: "(nat \<times> nat) list" where
  "private_v4 = [v4 0 0 0 0 8, v4 10 0 0 0 8, v4 127 0 0 0 8, v4 169 254 0 0 16, v4 172 16 0 0 12,
     v4 192 0 0 0 24, v4 192 0 0 170 31, v4 192 0 2 0 24, v4 192 168 0 0 16, v4 198 18 0 0 15,
     v4 198 51 100 0 24, v4 203 0 113 0 24, v4 240 0 0 0 4, v4 255 255 255 255 32]"

definition private_v4_exceptions :: "(nat \<times> nat) list" where
  "private_v4_exceptions = [v4 192 0 0 9 32, v4 192 0 0 10 32]"

definition private_v6 :: "(nat \<times> nat) list" where
  "private_v6 = [v6 0 0 0 1 128, v6 0 0 0 0 128, v6 0 0 0 (65535 * 2 ^ 32) 96, v6 100 65435 1 0 48,
     v6 256 0 0 0 64, v6 8193 0 0 0 23, v6 8193 3512 0 0 32, v6 8194 0 0 0 16, v6 16383 0 0 0 20,
     v6 64512 0 0 0 7, v6 65152 0 0 0 10]"

definition private_v6_exceptions :: "(nat \<times> nat) list" where
  "private_v6_exceptions = [v6 8193 1 0 1 128, v6 8193 1 0 2 128, v6 8193 3 0 0 32, v6 8193 4 274 0 48,
     v6 8193 32 0 0 28, v6 8193 48 0 0 28]"

definition in_any :: "nat \<Rightarrow> (nat \<times> nat) list \<Rightarrow> nat \<Rightarrow> bool" where
  "in_any width blocks n \<longleftrightarrow> list_ex (\<lambda>b. in_block width b n) blocks"

definition global_v4 :: "nat \<Rightarrow> bool" where
  "global_v4 n \<longleftrightarrow> \<not> in_block 32 (v4 100 64 0 0 10) n
     \<and> \<not> (in_any 32 private_v4 n \<and> \<not> in_any 32 private_v4_exceptions n)"

definition multicast_v4 :: "nat \<Rightarrow> bool" where
  "multicast_v4 n \<longleftrightarrow> in_block 32 (v4 224 0 0 0 4) n"

definition mapped_v4 :: "nat \<Rightarrow> nat option" where
  "mapped_v4 n = (if n div 2 ^ 32 = 65535 then Some (n mod 2 ^ 32) else None)"

fun is_global :: "ip_addr \<Rightarrow> bool" where
  "is_global (IPv4 n) = global_v4 n"
| "is_global (IPv6 n _) =
     (case mapped_v4 n of
        Some m \<Rightarrow> global_v4 m
      | None \<Rightarrow> \<not> (in_any 128 private_v6 n \<and> \<not> in_any 128 private_v6_exceptions n))"

fun is_multicast :: "ip_addr \<Rightarrow> bool" where
  "is_multicast (IPv4 n) = multicast_v4 n"
| "is_multicast (IPv6 n _) =
     (case mapped_v4 n of Some m \<Rightarrow> multicast_v4 m | None \<Rightarrow> in_block 128 (v6 65280 0 0 0 8) n)"

definition local_address :: "ip_addr \<Rightarrow> bool" where
  "local_address a \<longleftrightarrow> is_multicast a \<or> \<not> is_global a"

definition ends_with :: "string \<Rightarrow> string \<Rightarrow> bool" where
  "ends_with tail_text s \<longleftrightarrow> length tail_text \<le> length s \<and> drop (length s - length tail_text) s = tail_text"

definition local_name :: "string \<Rightarrow> bool" where
  "local_name h \<longleftrightarrow> h \<in> {''local'', ''localhost'', ''localhost.localdomain''}
     \<or> list_ex (\<lambda>x. ends_with x h) [''.localhost'', ''.local'', ''.localdomain'']"

definition before_percent :: "string \<Rightarrow> string" where
  "before_percent s = fst (py_partition (CHR ''%'') s)"

definition is_host_local_endpoint :: "raw \<Rightarrow> bool" where
  "is_host_local_endpoint v =
     (case v of
        RStr s \<Rightarrow>
          (let candidate = py_strip s; lowered = py_casefold candidate
           in if candidate = [] then False
              else if local_name lowered then True
              else if list_ex (\<lambda>p. starts_with p lowered) [''/'', ''./'', ''../'', ''file:'', ''unix:''] then True
              else case ip_address (before_percent candidate) of
                Some a \<Rightarrow> local_address a
              | None \<Rightarrow>
                  (case urlsplit (if occurs_in ''://'' candidate then candidate else ''//'' @ candidate) of
                     None \<Rightarrow> False
                   | Some p \<Rightarrow>
                       if ends_with ''+local'' (py_casefold (url_scheme p)) then True
                       else case url_hostname p of
                         None \<Rightarrow> False
                       | Some h \<Rightarrow>
                           (let host = before_percent h
                            in if local_name (py_casefold host) then True
                               else case ip_address host of
                                 Some a \<Rightarrow> local_address a
                               | None \<Rightarrow> False)))
      | _ \<Rightarrow> False)"

section \<open>Unsafe and unreproducible features\<close>

definition dns_address :: "raw \<Rightarrow> raw" where
  "dns_address server = (case server of RDict d \<Rightarrow> item d ''address'' | v \<Rightarrow> v)"

definition as_answers :: "raw \<Rightarrow> raw list" where
  "as_answers v = (case v of RList vs \<Rightarrow> vs | x \<Rightarrow> [x])"

definition reject_local_dns :: "json_object \<Rightarrow> effective_error + unit" where
  "reject_local_dns config =
     (case item config ''dns'' of
        RDict dns \<Rightarrow>
          bindE (case dict_get dns ''servers'' of
              Some (RList servers) \<Rightarrow>
                ensure (\<not> list_ex (\<lambda>s. is_host_local_endpoint (dns_address s)) servers)
                  (unsupported ''profile requires a host-local DNS server'')
            | _ \<Rightarrow> Inr ()) (\<lambda>_.
          case item dns ''hosts'' of
              RDict hosts \<Rightarrow>
                ensure (\<not> list_ex (\<lambda>v. list_ex is_host_local_endpoint (as_answers v)) (dict_values hosts))
                  (unsupported ''profile DNS maps a name to a local address'')
            | _ \<Rightarrow> Inr ())
      | _ \<Rightarrow> Inr ())"

definition server_address :: "raw \<Rightarrow> raw" where
  "server_address server = (case server of RDict d \<Rightarrow> item d ''address'' | _ \<Rightarrow> RNone)"

definition reject_local_outbound :: "raw \<Rightarrow> effective_error + unit" where
  "reject_local_outbound v =
     (case v of
        RDict outbound \<Rightarrow>
          (if has_key outbound ''sendThrough'' then Inl (unsupported ''profile outbound requires sendThrough'')
           else case item outbound ''settings'' of
             RDict settings \<Rightarrow>
               bindE (case dict_get settings ''vnext'' of
                   Some (RList servers) \<Rightarrow>
                     ensure (\<not> list_ex (\<lambda>s. is_host_local_endpoint (server_address s)) servers)
                       (unsupported ''profile outbound requires a host-local server'')
                 | _ \<Rightarrow> Inr ()) (\<lambda>_.
               ensure (\<not> is_host_local_endpoint (item settings ''redirect''))
                 (unsupported ''profile outbound redirects to a host-local endpoint''))
           | _ \<Rightarrow> Inr ())
      | _ \<Rightarrow> Inr ())"

definition check_all :: "('a \<Rightarrow> effective_error + unit) \<Rightarrow> 'a list \<Rightarrow> effective_error + unit" where
  "check_all f xs = foldE (\<lambda>x _. f x) xs ()"

definition reject_host_local_dependencies :: "json_object \<Rightarrow> effective_error + unit" where
  "reject_host_local_dependencies config =
     bindE (reject_local_dns config) (\<lambda>_.
     case dict_get config ''outbounds'' of
       Some (RList outbounds) \<Rightarrow> check_all reject_local_outbound outbounds
     | _ \<Rightarrow> Inr ())"

text \<open>\<open>reject_external_files\<close>: a key of an external file with a true value, or a text \<open>ext:...\<close>.\<close>

fun reject_external_files :: "raw \<Rightarrow> effective_error + unit"
  and reject_external_items :: "raw list \<Rightarrow> effective_error + unit"
  and reject_external_pairs :: "(string \<times> raw) list \<Rightarrow> effective_error + unit" where
  "reject_external_files (RDict kvs) = reject_external_pairs kvs"
| "reject_external_files (RList vs) = reject_external_items vs"
| "reject_external_files (RStr s) =
     (if starts_with ''ext:'' (py_casefold s)
      then Inl (unsupported ''profile requires an external routing resource'') else Inr ())"
| "reject_external_files RNone = Inr ()"
| "reject_external_files (RBool b) = Inr ()"
| "reject_external_files (RInt i) = Inr ()"
| "reject_external_files (RFloat q) = Inr ()"
| "reject_external_items [] = Inr ()"
| "reject_external_items (v # vs) = bindE (reject_external_files v) (\<lambda>_. reject_external_items vs)"
| "reject_external_pairs [] = Inr ()"
| "reject_external_pairs ((k, v) # kvs) =
     (if py_casefold k \<in> EXTERNAL_FILE_KEYS \<and> raw_true v
      then Inl (unsupported ''profile requires an external key or certificate file'')
      else bindE (reject_external_files v) (\<lambda>_. reject_external_pairs kvs))"

text \<open>What a \<open>for\<close> loop over a value iterates: a list, the characters of a text, the keys of an object.\<close>

definition iterated :: "raw option \<Rightarrow> effective_error + raw list" where
  "iterated v =
     (case v of
        None \<Rightarrow> Inr []
      | Some (RList vs) \<Rightarrow> Inr vs
      | Some (RStr s) \<Rightarrow> Inr (map (\<lambda>c. RStr [c]) s)
      | Some (RDict d) \<Rightarrow> Inr (map RStr (dict_keys d))
      | _ \<Rightarrow> Inl EffOtherException)"

definition sockopt_of :: "raw \<Rightarrow> json_object option" where
  "sockopt_of outbound =
     (case outbound of
        RDict d \<Rightarrow>
          (case item d ''streamSettings'' of
             RDict stream \<Rightarrow> (case item stream ''sockopt'' of RDict s \<Rightarrow> Some s | _ \<Rightarrow> None)
           | _ \<Rightarrow> None)
      | _ \<Rightarrow> None)"

definition host_state_free :: "raw \<Rightarrow> bool" where
  "host_state_free outbound \<longleftrightarrow>
     (case sockopt_of outbound of
        Some s \<Rightarrow> \<not> list_ex (has_key s) [''interface'', ''mark'', ''tproxy'']
      | None \<Rightarrow> True)"

definition reject_unsafe_features :: "json_object \<Rightarrow> effective_error + unit" where
  "reject_unsafe_features config =
     (case filter (has_key config) UNSAFE_TOP_LEVEL of
        k # _ \<Rightarrow> Inl (unsupported (''unsupported externally-listening feature: '' @ k))
      | [] \<Rightarrow>
          bindE (iterated (dict_get config ''outbounds'')) (\<lambda>outbounds.
          bindE (check_all (\<lambda>o1. ensure (host_state_free o1)
              (unsupported ''profile requires interface, packet mark, or transparent-proxy state'')) outbounds) (\<lambda>_.
          bindE (reject_external_pairs config) (\<lambda>_.
          reject_host_local_dependencies config))))"

definition validate_profile_routing :: "json_object \<Rightarrow> effective_error + unit" where
  "validate_profile_routing prof =
     (case item prof ''routing'' of
        RNone \<Rightarrow> Inr ()
      | RDict routing \<Rightarrow>
          (case (case dict_get routing ''rules'' of None \<Rightarrow> RList [] | Some v \<Rightarrow> v) of
             RList rules \<Rightarrow>
               check_all (\<lambda>r. case r of
                   RDict rule \<Rightarrow>
                     (case filter (has_key rule) UNREPRODUCIBLE_RULE_FIELDS of
                        k # _ \<Rightarrow> Inl (unsupported (''routing rule depends on unavailable field: '' @ k))
                      | [] \<Rightarrow> Inr ())
                 | _ \<Rightarrow> Inl (config_invalid ''routing rule must be an object'')) rules
           | _ \<Rightarrow> Inl (config_invalid ''routing.rules must be a list''))
      | _ \<Rightarrow> Inl (config_invalid ''routing must be an object''))"

section \<open>The profile of an entry\<close>

text \<open>
  An entry is an \<open>EntryRecord\<close> or an \<open>ImportedEntry\<close> (its payload, profile and tags), or a mapping.
\<close>

datatype entry_value = EntryValue "raw option" "raw option" "string option" "string option"
  | MappingValue json_object

definition raw_of :: "raw option \<Rightarrow> raw" where
  "raw_of v = (case v of Some x \<Rightarrow> x | None \<Rightarrow> RNone)"

definition text_field :: "json_object \<Rightarrow> string \<Rightarrow> string option" where
  "text_field d k = (case item d k of RStr s \<Rightarrow> Some s | _ \<Rightarrow> None)"

definition value_outbound_tag :: "entry_value \<Rightarrow> string option" where
  "value_outbound_tag v =
     (case v of EntryValue _ _ t _ \<Rightarrow> t | MappingValue d \<Rightarrow> text_field d ''outbound_tag'')"

definition value_inbound_tag :: "entry_value \<Rightarrow> string option" where
  "value_inbound_tag v =
     (case v of EntryValue _ _ _ t \<Rightarrow> t | MappingValue d \<Rightarrow> text_field d ''inbound_tag'')"

definition candidate_of :: "entry_value \<Rightarrow> raw" where
  "candidate_of v =
     (case v of
        EntryValue pay prof _ _ \<Rightarrow> (if raw_of prof \<noteq> RNone then raw_of prof else raw_of pay)
      | MappingValue d \<Rightarrow>
          (if item d ''profile'' \<noteq> RNone then item d ''profile''
           else if item d ''payload'' \<noteq> RNone then item d ''payload'' else RDict d))"

definition or_tag :: "string option \<Rightarrow> string option \<Rightarrow> string option" where
  "or_tag a b = (if truthy a then a else b)"

text \<open>\<open>except SourceImportError\<close>: the reason of the class; another exception passes through.\<close>

fun import_reason :: "import_error \<Rightarrow> effective_error" where
  "import_reason (SourceImportError m) = EffectiveConfigError ''source_parse'' m"
| "import_reason (UnknownSourceFormatError m) = EffectiveConfigError ''source_parse'' m"
| "import_reason (UnsupportedEntryError m) = EffectiveConfigError ''unsupported'' m"
| "import_reason (InvalidEntryError m) = EffectiveConfigError ''source_parse'' m"
| "import_reason _ = EffOtherException"

definition plain_json :: "codecs \<Rightarrow> string \<Rightarrow> import_error option + raw" where
  "plain_json cs s = json_loads cs (\<lambda>kvs. Inr (RDict (dict_of kvs))) s"

definition resolved_candidate :: "codecs \<Rightarrow> entry_value \<Rightarrow> string option \<Rightarrow> effective_error + raw" where
  "resolved_candidate cs v vless_tag =
     (case candidate_of v of
        RStr s \<Rightarrow>
          (if starts_with ''vless://'' (py_casefold s)
           then (case vless_uri_to_outbound cs (tag_or_default (or_tag vless_tag (value_outbound_tag v))) s of
                   Inl e \<Rightarrow> Inl (import_reason e)
                 | Inr outbound \<Rightarrow> Inr (RDict [(''outbounds'', RList [RDict outbound])]))
           else (case plain_json cs s of
                   Inl _ \<Rightarrow> Inl (config_invalid ''entry does not contain an Xray JSON profile'')
                 | Inr j \<Rightarrow> Inr j))
      | c \<Rightarrow> Inr c)"

definition as_mapping :: "string \<Rightarrow> raw \<Rightarrow> effective_error + json_object" where
  "as_mapping what v =
     (case v of RDict d \<Rightarrow> Inr d | _ \<Rightarrow> Inl (config_invalid (what @ '' must be a mapping'')))"

definition profile_from :: "codecs \<Rightarrow> entry_value \<Rightarrow> string option \<Rightarrow> effective_error + json_object" where
  "profile_from cs v vless_tag =
     bindE (resolved_candidate cs v vless_tag) (\<lambda>c.
     bindE (as_mapping ''Xray profile'' c) (\<lambda>d.
     Inr (if \<not> has_key d ''outbounds'' \<and> (case item d ''protocol'' of RStr _ \<Rightarrow> True | _ \<Rightarrow> False)
          then [(''outbounds'', RList [RDict d])] else d)))"

section \<open>Ports and listeners\<close>

definition valid_port :: "raw \<Rightarrow> effective_error + int" where
  "valid_port v =
     (case v of
        RInt p \<Rightarrow> (if 0 \<le> p \<and> p \<le> 65535 then Inr p
                   else Inl (config_invalid ''SOCKS port must be between 0 and 65535''))
      | _ \<Rightarrow> Inl (config_invalid ''SOCKS port must be between 0 and 65535''))"

definition safe_socks_inbound :: "int \<Rightarrow> string \<Rightarrow> raw \<Rightarrow> effective_error + json_object" where
  "safe_socks_inbound port tag sniffing =
     bindE (valid_port (RInt port)) (\<lambda>p.
     Inr ([(''tag'', RStr tag), (''listen'', RStr ''127.0.0.1''), (''port'', RInt p),
           (''protocol'', RStr ''socks''),
           (''settings'', RDict [(''auth'', RStr ''noauth''), (''udp'', RBool False)])]
          @ (case sniffing of RDict s \<Rightarrow> [(''sniffing'', RDict s)] | _ \<Rightarrow> [])))"

section \<open>Outbounds\<close>

definition outbound_name :: "nat \<Rightarrow> string" where
  "outbound_name i = ''outbound '' @ number_text 10 i"

definition indexed :: "'a list \<Rightarrow> (nat \<times> 'a) list" where
  "indexed xs = zip [0..<length xs] xs"

text \<open>The explicit tags: texts, not empty, different.\<close>

definition explicit_tag :: "nat \<times> raw \<Rightarrow> string list \<Rightarrow> effective_error + string list" where
  "explicit_tag iv tags =
     bindE (as_mapping (outbound_name (fst iv)) (snd iv)) (\<lambda>outbound.
     case dict_get outbound ''tag'' of
       None \<Rightarrow> Inr tags
     | Some (RStr t) \<Rightarrow>
         (if t = [] \<or> t \<in> set tags then Inl (config_invalid ''outbound tags must be non-empty and unique'')
          else Inr (tags @ [t]))
     | Some _ \<Rightarrow> Inl (config_invalid ''outbound tags must be non-empty and unique''))"

text \<open>\<open>while tag in tags\<close>: the base name, then the base name with the suffixes 1, 2, ...\<close>

definition numbered :: "string \<Rightarrow> nat \<Rightarrow> string" where
  "numbered base k = (if k = 0 then base else base @ ''-'' @ number_text 10 k)"

lemma numbered_inject: "numbered base j = numbered base k \<longleftrightarrow> j = k"
  by (auto simp: numbered_def number_text_inject)

text \<open>The search ends: every further suffix excludes one more used tag.\<close>

lemma fewer_candidates:
  assumes "numbered base k \<in> set used"
  shows "card (set used \<inter> numbered base ` {Suc k..}) < card (set used \<inter> numbered base ` {k..})"
proof (rule psubset_card_mono)
  have "numbered base k \<in> set used \<inter> numbered base ` {k..}" using assms by simp
  moreover have "numbered base k \<notin> numbered base ` {Suc k..}" by (auto simp: numbered_inject)
  moreover have "numbered base ` {Suc k..} \<subseteq> numbered base ` {k..}" by (rule image_mono) auto
  ultimately show "set used \<inter> numbered base ` {Suc k..} \<subset> set used \<inter> numbered base ` {k..}" by blast
qed simp

function free_tag :: "string \<Rightarrow> string list \<Rightarrow> nat \<Rightarrow> string" where
  "free_tag base used k =
     (if numbered base k \<in> set used then free_tag base used (Suc k) else numbered base k)"
  by pat_completeness auto
termination
  by (relation "measure (\<lambda>(base, used, k). card (set used \<inter> numbered base ` {k..}))")
    (simp_all add: fewer_candidates)

declare free_tag.simps [simp del]

lemma free_tag_unused: "free_tag base used k \<notin> set used"
  by (induction base used k rule: free_tag.induct) (subst free_tag.simps, simp)

definition normalize_outbound ::
  "bool \<Rightarrow> nat \<times> raw \<Rightarrow> string list \<times> json_object list \<Rightarrow> effective_error + string list \<times> json_object list" where
  "normalize_outbound synthesize iv st =
     bindE (as_mapping (outbound_name (fst iv)) (snd iv)) (\<lambda>outbound.
     case item outbound ''protocol'' of
       RList _ \<Rightarrow> Inl EffOtherException
     | RDict _ \<Rightarrow> Inl EffOtherException
     | prot \<Rightarrow>
         (if prot \<notin> RStr ` SUPPORTED_OUTBOUNDS
          then Inl (unsupported (''unsupported outbound protocol at index '' @ number_text 10 (fst iv)))
          else if \<not> has_key outbound ''tag'' \<and> synthesize
          then let t = free_tag (''xray-e2e-prober-outbound-'' @ number_text 10 (fst iv)) (fst st) 0
               in Inr (fst st @ [t], snd st @ [outbound @ [(''tag'', RStr t)]])
          else Inr (fst st, snd st @ [outbound])))"

definition outbounds_of :: "bool \<Rightarrow> json_object \<Rightarrow> effective_error + json_object list" where
  "outbounds_of synthesize prof =
     (case item prof ''outbounds'' of
        RList (v # vs) \<Rightarrow>
          bindE (foldE explicit_tag (indexed (v # vs)) []) (\<lambda>tags.
          bindE (foldE (normalize_outbound synthesize) (indexed (v # vs)) (tags, [])) (\<lambda>(_, result).
          Inr result))
      | _ \<Rightarrow> Inl (config_invalid ''profile has no outbounds''))"

definition select_effective_outbound :: "json_object list \<Rightarrow> string option \<Rightarrow> effective_error + json_object" where
  "select_effective_outbound outs requested =
     bindE (if truthy requested
         then (case filter (\<lambda>o1. item o1 ''tag'' = RStr (the requested)) outs of
                 [o1] \<Rightarrow> Inr o1
               | _ \<Rightarrow> Inl (config_invalid ''selected outbound tag is missing''))
         else (case filter (\<lambda>o1. item o1 ''protocol'' = RStr ''vless'') outs of
                 [o1] \<Rightarrow> Inr o1
               | _ \<Rightarrow> Inl (unsupported ''connection mode requires one selected VLESS outbound'')))
       (\<lambda>selected.
       if item selected ''protocol'' \<noteq> RStr ''vless''
       then Inl (unsupported ''connection mode supports a selected VLESS outbound only'')
       else Inr selected)"

section \<open>Chained dependencies\<close>

text \<open>\<open>item["tag"]\<close>: connection mode has given every outbound a tag.\<close>

definition tag_of :: "json_object \<Rightarrow> string" where
  "tag_of outbound = (case item outbound ''tag'' of RStr t \<Rightarrow> t | _ \<Rightarrow> [])"

text \<open>The tags of \<open>_dependency_tags\<close>, a set of at most two.\<close>

definition dependency_tags :: "json_object \<Rightarrow> string list" where
  "dependency_tags outbound = remdups
     ((case item outbound ''proxySettings'' of
         RDict p \<Rightarrow> (case item p ''tag'' of RStr t \<Rightarrow> [t] | _ \<Rightarrow> [])
       | _ \<Rightarrow> [])
      @ (case item outbound ''streamSettings'' of
           RDict stream \<Rightarrow>
             (case item stream ''sockopt'' of
                RDict s \<Rightarrow> (case item s ''dialerProxy'' of RStr t \<Rightarrow> [t] | _ \<Rightarrow> [])
              | _ \<Rightarrow> [])
         | _ \<Rightarrow> []))"

text \<open>\<open>{item["tag"]: item for item in outbounds}\<close>.\<close>

definition by_tag :: "json_object list \<Rightarrow> (string, json_object) dict" where
  "by_tag outs = dict_of (map (\<lambda>o1. (tag_of o1, o1)) outs)"

text \<open>One dependency of the outbound that was popped; \<open>needed\<close> and \<open>pending\<close> are the state.\<close>

definition add_dependency ::
  "(string, json_object) dict \<Rightarrow> string \<Rightarrow> string list \<times> string list \<Rightarrow> effective_error + string list \<times> string list" where
  "add_dependency tags d st =
     (if dict_get tags d = None
      then Inl (config_invalid ''selected outbound has a missing chained dependency'')
      else if d \<in> set (fst st) then Inr st
      else Inr (fst st @ [d], snd st @ [d]))"

definition room :: "(string, json_object) dict \<Rightarrow> string list \<Rightarrow> nat" where
  "room tags needed = card (set (dict_keys tags) - set needed)"

lemma add_dependency_room:
  assumes "add_dependency tags d (needed, pending) = Inr (needed', pending')"
  shows "length pending' + room tags needed' = length pending + room tags needed"
proof (cases "d \<in> set needed")
  case True
  then show ?thesis using assms by (auto simp: add_dependency_def split: if_splits)
next
  case False
  then have d: "d \<in> set (dict_keys tags)" "needed' = needed @ [d]" "pending' = pending @ [d]"
    using assms by (auto simp: add_dependency_def dict_get_None_iff split: if_splits)
  have "set (dict_keys tags) - set needed' = (set (dict_keys tags) - set needed) - {d}" using d(2) by auto
  moreover have "d \<in> set (dict_keys tags) - set needed" using d(1) False by blast
  ultimately have "Suc (room tags needed') = room tags needed"
    by (simp add: room_def card_Suc_Diff1 del: card_Diff_insert)
  then show ?thesis using d(3) by simp
qed

lemma add_dependencies_room:
  "foldE (add_dependency tags) ds (needed, pending) = Inr (needed', pending') \<Longrightarrow>
     length pending' + room tags needed' = length pending + room tags needed"
proof (induction ds arbitrary: needed pending)
  case (Cons d ds)
  then obtain n p where np: "add_dependency tags d (needed, pending) = Inr (n, p)"
    "foldE (add_dependency tags) ds (n, p) = Inr (needed', pending')"
    by (auto simp: bindE_Inr_iff)
  then show ?case using add_dependency_room [OF np(1)] Cons.IH [OF np(2)] by simp
qed simp

text \<open>\<open>while pending\<close>: the loop ends because an outbound is queued at most once.\<close>

function needed_tags ::
  "(string, json_object) dict \<Rightarrow> string list \<Rightarrow> string list \<Rightarrow> effective_error + string list" where
  "needed_tags tags needed pending =
     (if pending = [] then Inr needed
      else case dict_get tags (last pending) of
        None \<Rightarrow> Inl EffOtherException
      | Some current \<Rightarrow>
          (case foldE (add_dependency tags) (dependency_tags current) (needed, butlast pending) of
             Inl e \<Rightarrow> Inl e
           | Inr (needed', pending') \<Rightarrow> needed_tags tags needed' pending'))"
  by pat_completeness auto
termination
proof (relation "measure (\<lambda>(tags, needed, pending). length pending + room tags needed)")
  fix tags :: "(string, json_object) dict" and needed pending current x needed' pending'
  assume "pending \<noteq> []"
    "foldE (add_dependency tags) (dependency_tags current) (needed, butlast pending) = Inr x"
    "(needed', pending') = x"
  then have "length pending' + room tags needed' = length (butlast pending) + room tags needed"
    using add_dependencies_room by blast
  then show "((tags, needed', pending'), tags, needed, pending)
      \<in> measure (\<lambda>(tags, needed, pending). length pending + room tags needed)"
    using \<open>pending \<noteq> []\<close> by (cases pending) auto
qed simp

declare needed_tags.simps [simp del]

definition connection_outbounds :: "json_object list \<Rightarrow> string \<Rightarrow> effective_error + json_object list" where
  "connection_outbounds outs selected_tag =
     bindE (needed_tags (by_tag outs) [selected_tag] [selected_tag]) (\<lambda>needed.
     Inr (filter (\<lambda>o1. tag_of o1 \<in> set needed) outs))"

section \<open>Validation of an effective configuration\<close>

definition managed_inbound :: "json_object \<Rightarrow> string option \<Rightarrow> effective_error + json_object" where
  "managed_inbound config tag =
     (case item config ''inbounds'' of
        RList [RDict inbound] \<Rightarrow>
          (if tag \<noteq> None \<and> item inbound ''tag'' \<noteq> RStr (the tag)
           then Inl (config_invalid ''managed inbound tag changed'') else Inr inbound)
      | _ \<Rightarrow> Inl (unsupported ''effective config must have exactly one inbound''))"

definition hashable_value :: "raw \<Rightarrow> bool" where
  "hashable_value v \<longleftrightarrow> (case v of RList _ \<Rightarrow> False | RDict _ \<Rightarrow> False | _ \<Rightarrow> True)"

text \<open>\<open>value in {...}\<close> of a set of texts.\<close>

definition among :: "raw \<Rightarrow> string set \<Rightarrow> effective_error + bool" where
  "among v S =
     (if \<not> hashable_value v then Inl EffOtherException
      else Inr (case v of RStr s \<Rightarrow> s \<in> S | _ \<Rightarrow> False))"

definition item_or :: "raw \<Rightarrow> json_object \<Rightarrow> string \<Rightarrow> raw" where
  "item_or dflt d k = (case dict_get d k of None \<Rightarrow> dflt | Some v \<Rightarrow> v)"

text \<open>
  The port has just been checked to be an \<open>int\<close>. The \<open>json.dumps\<close> of the last step cannot fail here:
  a JSON tree of the model holds no foreign object and no NaN.
\<close>

definition validate_effective_config ::
  "json_object \<Rightarrow> int option \<Rightarrow> string option \<Rightarrow> effective_error + unit" where
  "validate_effective_config config expected_port tag =
     bindE (reject_unsafe_features config) (\<lambda>_.
     bindE (managed_inbound config tag) (\<lambda>inbound.
     bindE (among (item inbound ''listen'') {''127.0.0.1'', ''::1''}) (\<lambda>loopback.
     bindE (ensure loopback (unsupported ''managed SOCKS inbound must listen on loopback'')) (\<lambda>_.
     bindE (ensure (item inbound ''protocol'' = RStr ''socks'') (unsupported ''managed inbound must use SOCKS'')) (\<lambda>_.
     bindE (valid_port (item inbound ''port'')) (\<lambda>p.
     bindE (ensure (expected_port = None \<or> expected_port = Some p)
              (config_invalid ''managed SOCKS port changed'')) (\<lambda>_.
     case item inbound ''settings'' of
       RDict settings \<Rightarrow>
         bindE (ensure (item_or (RStr ''noauth'') settings ''auth'' = RStr ''noauth''
                        \<and> \<not> raw_true (item_or (RBool False) settings ''udp''))
                  (unsupported ''managed SOCKS must be TCP-only without authentication'')) (\<lambda>_.
         bindE (outbounds_of False config) (\<lambda>_.
         case item config ''log'' of
           RDict log_settings \<Rightarrow>
             ensure (item log_settings ''loglevel'' = RStr ''none'') (unsupported ''effective config must use managed logging'')
         | _ \<Rightarrow> Inl (unsupported ''effective config must use managed logging'')))
     | _ \<Rightarrow> Inl (config_invalid ''managed SOCKS settings are missing''))))))))"

definition replace_managed_port :: "json_object \<Rightarrow> int \<Rightarrow> effective_error + json_object" where
  "replace_managed_port config port =
     bindE (managed_inbound config None) (\<lambda>inbound.
     bindE (valid_port (RInt port)) (\<lambda>p.
     let res = dict_set ''inbounds'' (RList [RDict (dict_set ''port'' (RInt p) inbound)]) config
     in bindE (validate_effective_config res (Some port) None) (\<lambda>_. Inr res)))"

definition validate_imported_profile :: "codecs \<Rightarrow> entry_value \<Rightarrow> effective_error + unit" where
  "validate_imported_profile cs v =
     bindE (profile_from cs v None) (\<lambda>prof.
     bindE (reject_unsafe_features prof) (\<lambda>_.
     bindE (validate_profile_routing prof) (\<lambda>_.
     bindE (outbounds_of False prof) (\<lambda>_. Inr ()))))"

section \<open>Connection mode\<close>

definition managed_log :: raw where
  "managed_log = RDict [(''loglevel'', RStr ''none''), (''dnsLog'', RBool False)]"

definition catch_all_routing :: "string \<Rightarrow> string \<Rightarrow> raw" where
  "catch_all_routing inbound_tag selected_tag =
     RDict [(''domainStrategy'', RStr ''AsIs''),
            (''rules'', RList [RDict [(''type'', RStr ''field''), (''inboundTag'', RList [RStr inbound_tag]),
                                      (''outboundTag'', RStr selected_tag)]])]"

definition build_connection_config ::
  "codecs \<Rightarrow> entry_value \<Rightarrow> int \<Rightarrow> string option \<Rightarrow> string \<Rightarrow> effective_error + json_object" where
  "build_connection_config cs v port outbound_tag inbound_tag =
     (let requested = or_tag outbound_tag (value_outbound_tag v)
      in bindE (profile_from cs v requested) (\<lambda>prof.
         bindE (reject_unsafe_features prof) (\<lambda>_.
         bindE (outbounds_of True prof) (\<lambda>outs.
         bindE (select_effective_outbound outs requested) (\<lambda>selected.
         let selected_tag = tag_of selected
         in bindE (safe_socks_inbound port inbound_tag RNone) (\<lambda>inbound.
            bindE (connection_outbounds outs selected_tag) (\<lambda>needed.
            let res = dict_pop ''burstObservatory'' (dict_pop ''observatory''
                  (dict_set ''routing'' (catch_all_routing inbound_tag selected_tag)
                  (dict_set ''outbounds'' (RList (map RDict needed))
                  (dict_set ''inbounds'' (RList [RDict inbound])
                  (dict_set ''log'' managed_log prof)))))
            in bindE (validate_effective_config res (Some port) (Some inbound_tag)) (\<lambda>_. Inr res))))))))"

section \<open>Profile mode\<close>

definition adaptable_inbound :: "raw \<Rightarrow> json_object list \<Rightarrow> effective_error + json_object list" where
  "adaptable_inbound v acc =
     bindE (as_mapping ''inbound'' v) (\<lambda>inbound.
     bindE (among (item inbound ''protocol'') ADAPTABLE_INBOUNDS) (\<lambda>fits.
     Inr (if fits then acc @ [inbound] else acc)))"

definition select_inbound :: "json_object \<Rightarrow> string option \<Rightarrow> effective_error + json_object" where
  "select_inbound prof requested =
     (case item prof ''inbounds'' of
        RList (v # vs) \<Rightarrow>
          bindE (foldE adaptable_inbound (v # vs) []) (\<lambda>inbounds.
          if inbounds = [] then Inl (unsupported ''profile has no compatible SOCKS or HTTP client inbound'')
          else if truthy requested
          then (case filter (\<lambda>i. item i ''tag'' = RStr (the requested)) inbounds of
                  [i] \<Rightarrow> Inr i
                | _ \<Rightarrow> Inl (unsupported ''selected inbound tag is missing or ambiguous''))
          else (case inbounds of
                  [i] \<Rightarrow> Inr i
                | _ \<Rightarrow> Inl (unsupported ''profile mode requires an explicit inbound selection'')))
      | _ \<Rightarrow> Inl (config_invalid ''profile mode requires a client inbound''))"

definition mapping_tag :: "raw \<Rightarrow> string list" where
  "mapping_tag v = (case v of RDict d \<Rightarrow> (case item d ''tag'' of RStr t \<Rightarrow> [t] | _ \<Rightarrow> []) | _ \<Rightarrow> [])"

definition text_items :: "raw \<Rightarrow> string list" where
  "text_items v = (case v of RStr s \<Rightarrow> [s] | _ \<Rightarrow> [])"

definition rule_references :: "raw \<Rightarrow> string list" where
  "rule_references v =
     (case v of
        RDict rule \<Rightarrow>
          (case item rule ''inboundTag'' of
             RStr s \<Rightarrow> [s]
           | RList vs \<Rightarrow> concat (map text_items vs)
           | _ \<Rightarrow> [])
      | _ \<Rightarrow> [])"

definition used_inbound_tags :: "json_object \<Rightarrow> string list" where
  "used_inbound_tags prof =
     (case item prof ''inbounds'' of RList vs \<Rightarrow> concat (map mapping_tag vs) | _ \<Rightarrow> [])
     @ (case item prof ''routing'' of
          RDict routing \<Rightarrow>
            (case item routing ''rules'' of RList rules \<Rightarrow> concat (map rule_references rules) | _ \<Rightarrow> [])
        | _ \<Rightarrow> [])"

definition collision_free_inbound_tag :: "json_object \<Rightarrow> string" where
  "collision_free_inbound_tag prof = free_tag PROBER_INBOUND_TAG (used_inbound_tags prof) 0"

definition build_profile_config ::
  "codecs \<Rightarrow> entry_value \<Rightarrow> int \<Rightarrow> string option \<Rightarrow> effective_error + json_object" where
  "build_profile_config cs v port inbound_tag =
     bindE (profile_from cs v None) (\<lambda>prof.
     bindE (reject_unsafe_features prof) (\<lambda>_.
     bindE (validate_profile_routing prof) (\<lambda>_.
     bindE (outbounds_of False prof) (\<lambda>outs.
     bindE (select_inbound prof (or_tag inbound_tag (value_inbound_tag v))) (\<lambda>selected.
     case (if has_key selected ''tag'' then item selected ''tag'' else RStr (collision_free_inbound_tag prof)) of
       RStr (c # cs') \<Rightarrow>
         bindE (safe_socks_inbound port (c # cs') (item selected ''sniffing'')) (\<lambda>inbound.
         let res = dict_set ''outbounds'' (RList (map RDict outs))
               (dict_set ''inbounds'' (RList [RDict inbound]) (dict_set ''log'' managed_log prof))
         in bindE (validate_effective_config res (Some port) (Some (c # cs'))) (\<lambda>_. Inr res))
     | _ \<Rightarrow> Inl (config_invalid ''selected inbound tag is invalid''))))))"

definition build_effective_config ::
  "codecs \<Rightarrow> entry_value \<Rightarrow> string \<Rightarrow> int \<Rightarrow> string option \<Rightarrow> string option \<Rightarrow> effective_error + json_object" where
  "build_effective_config cs v mode port outbound_tag inbound_tag =
     (if mode = ''connection''
      then build_connection_config cs v port outbound_tag
             (case inbound_tag of Some (c # t) \<Rightarrow> c # t | _ \<Rightarrow> PROBER_INBOUND_TAG)
      else if mode = ''profile'' then build_profile_config cs v port inbound_tag
      else Inl (config_invalid ''mode must be connection or profile''))"

end
