(* ===== verification/EffectiveLaws.thy ===== *)
theory EffectiveLaws
  imports EffectiveConfig
begin

text \<open>
  The guarantees of the configurations that a check runs with: the boundary that every mode keeps, the
  isolation of connection mode, and what profile mode preserves.
\<close>

section \<open>Outbounds\<close>

lemma number_tags_unused: "free_tag base used 0 \<notin> set used"
  by (rule free_tag_unused)

lemma as_mapping_Inr_iff [simp]: "as_mapping what v = Inr d \<longleftrightarrow> v = RDict d"
  by (cases v) (auto simp: as_mapping_def)

lemma explicit_tag_Inr:
  assumes "explicit_tag iv tags = Inr tags'"
  shows "tags' = tags @ mapping_tag (snd iv) \<and> (\<exists>d. snd iv = RDict d)
    \<and> distinct (mapping_tag (snd iv)) \<and> set (mapping_tag (snd iv)) \<inter> set tags = {} \<and> [] \<notin> set (mapping_tag (snd iv))
    \<and> (\<forall>d. snd iv = RDict d \<longrightarrow> has_key d ''tag'' \<longrightarrow> mapping_tag (snd iv) = [tag_of d] \<and> item d ''tag'' = RStr (tag_of d))"
proof -
  obtain d where d: "snd iv = RDict d" using assms by (auto simp: explicit_tag_def bindE_Inr_iff)
  show ?thesis
  proof (cases "dict_get d ''tag''")
    case None
    then show ?thesis using assms d by (simp add: explicit_tag_def as_mapping_def mapping_tag_def item_def has_key_def)
  next
    case (Some v)
    then obtain u where "v = RStr u" using assms d by (cases v) (simp_all add: explicit_tag_def as_mapping_def)
    then show ?thesis using assms d Some
      by (auto simp: explicit_tag_def as_mapping_def mapping_tag_def item_def has_key_def tag_of_def split: if_splits)
  qed
qed

lemma explicit_tags_Inr:
  "foldE explicit_tag ivs tags = Inr tags' \<Longrightarrow> distinct tags \<Longrightarrow>
     tags' = tags @ concat (map (\<lambda>iv. mapping_tag (snd iv)) ivs) \<and> distinct tags'
     \<and> [] \<notin> set (concat (map (\<lambda>iv. mapping_tag (snd iv)) ivs))
     \<and> (\<forall>iv \<in> set ivs. \<exists>d. snd iv = RDict d
          \<and> (has_key d ''tag'' \<longrightarrow> mapping_tag (snd iv) = [tag_of d] \<and> item d ''tag'' = RStr (tag_of d)))"
proof (induction ivs arbitrary: tags)
  case (Cons iv ivs)
  then obtain t where t: "explicit_tag iv tags = Inr t" "foldE explicit_tag ivs t = Inr tags'"
    by (auto simp: bindE_Inr_iff)
  have head: "t = tags @ mapping_tag (snd iv)" "\<exists>d. snd iv = RDict d"
    "distinct (mapping_tag (snd iv))" "set (mapping_tag (snd iv)) \<inter> set tags = {}" "[] \<notin> set (mapping_tag (snd iv))"
    "\<forall>d. snd iv = RDict d \<longrightarrow> has_key d ''tag'' \<longrightarrow> mapping_tag (snd iv) = [tag_of d] \<and> item d ''tag'' = RStr (tag_of d)"
    using explicit_tag_Inr [OF t(1)] by blast+
  have "distinct t" using head(1,3,4) Cons.prems(2) by auto
  note tail = Cons.IH [OF t(2) this]
  have names: "tags' = tags @ concat (map (\<lambda>iv. mapping_tag (snd iv)) (iv # ivs))" using tail head(1) by simp
  have clean: "[] \<notin> set (concat (map (\<lambda>iv. mapping_tag (snd iv)) (iv # ivs)))" using tail head(5) by simp
  have each: "\<exists>d. snd j = RDict d \<and> (has_key d ''tag'' \<longrightarrow> mapping_tag (snd j) = [tag_of d] \<and> item d ''tag'' = RStr (tag_of d))"
    if "j \<in> set (iv # ivs)" for j
  proof (cases "j = iv")
    case True
    then show ?thesis using head(2,6) by blast
  next
    case False
    then show ?thesis using that tail by auto
  qed
  show ?case using names clean each tail by blast
qed simp

lemma normalize_outbound_Inr:
  assumes "normalize_outbound s iv (tags, res) = Inr (tags', res')"
  obtains d where "snd iv = RDict d" "\<exists>p \<in> SUPPORTED_OUTBOUNDS. item d ''protocol'' = RStr p"
    "has_key d ''tag'' \<or> \<not> s \<Longrightarrow> tags' = tags \<and> res' = res @ [d]"
    "\<not> has_key d ''tag'' \<Longrightarrow> s \<Longrightarrow>
       \<exists>t. t \<notin> set tags \<and> t \<noteq> [] \<and> tags' = tags @ [t] \<and> res' = res @ [d @ [(''tag'', RStr t)]]"
proof -
  obtain d where d: "snd iv = RDict d" using assms by (auto simp: normalize_outbound_def bindE_Inr_iff)
  have p: "\<exists>p \<in> SUPPORTED_OUTBOUNDS. item d ''protocol'' = RStr p"
    using assms d by (auto simp: normalize_outbound_def bindE_Inr_iff as_mapping_def split: raw.splits if_splits)
  then obtain q where q: "item d ''protocol'' = RStr q" "q \<in> SUPPORTED_OUTBOUNDS" by blast
  have "free_tag (''xray-e2e-prober-outbound-'' @ number_text 10 (fst iv)) tags 0 \<noteq> []"
  proof (rule ccontr)
    have named: "\<exists>k. free_tag b u j = numbered b k" for b u j
      by (induction b u j rule: free_tag.induct) (subst free_tag.simps, auto)
    assume "\<not> ?thesis"
    then show False using named [of "''xray-e2e-prober-outbound-'' @ number_text 10 (fst iv)" tags 0]
      by (auto simp: numbered_def split: if_splits)
  qed
  then show ?thesis using assms q that [OF d p] free_tag_unused
    by (force simp: normalize_outbound_def d as_mapping_def Let_def split: if_splits)
qed

lemma tag_of_synthesized [simp]:
  "\<not> has_key d ''tag'' \<Longrightarrow> tag_of (d @ [(''tag'', RStr t)]) = t \<and> item (d @ [(''tag'', RStr t)]) ''tag'' = RStr t"
  by (simp add: tag_of_def item_def has_key_def map_add_def)

text \<open>An outbound with a tag and a protocol that the prober can run.\<close>

definition named_outbound :: "json_object \<Rightarrow> bool" where
  "named_outbound o1 \<longleftrightarrow> item o1 ''tag'' = RStr (tag_of o1) \<and> tag_of o1 \<noteq> []
     \<and> (\<exists>p \<in> SUPPORTED_OUTBOUNDS. item o1 ''protocol'' = RStr p)"

abbreviation explicit_tags :: "(nat \<times> raw) list \<Rightarrow> string list" where
  "explicit_tags ivs \<equiv> concat (map (\<lambda>iv. mapping_tag (snd iv)) ivs)"

definition tag_wf :: "nat \<times> raw \<Rightarrow> bool" where
  "tag_wf iv \<longleftrightarrow> [] \<notin> set (mapping_tag (snd iv))
     \<and> (\<forall>d. snd iv = RDict d \<longrightarrow> has_key d ''tag''
          \<longrightarrow> mapping_tag (snd iv) = [tag_of d] \<and> item d ''tag'' = RStr (tag_of d))"

lemma item_append_tag: "\<not> has_key d ''tag'' \<Longrightarrow> k \<noteq> ''tag'' \<Longrightarrow> item (d @ [(''tag'', RStr t)]) k = item d k"
  by (simp add: item_def map_add_def split: option.splits)

lemma synthesized_tags:
  assumes "foldE (normalize_outbound True) ivs (tags, res) = Inr (tags', res')"
    and "distinct (explicit_tags ivs)" "set (explicit_tags ivs) \<subseteq> set tags"
    and "set (map tag_of res) \<subseteq> set tags" "distinct (map tag_of res)"
    and "set (map tag_of res) \<inter> set (explicit_tags ivs) = {}"
    and "\<forall>iv \<in> set ivs. tag_wf iv" "\<forall>o1 \<in> set res. named_outbound o1"
  shows "distinct (map tag_of res') \<and> (\<forall>o1 \<in> set res'. named_outbound o1)"
  using assms
proof (induction ivs arbitrary: tags res)
  case (Cons iv ivs)
  then obtain t r where t: "normalize_outbound True iv (tags, res) = Inr (t, r)"
    "foldE (normalize_outbound True) ivs (t, r) = Inr (tags', res')"
    by (auto simp: bindE_Inr_iff)
  obtain d where d: "snd iv = RDict d" "\<exists>p \<in> SUPPORTED_OUTBOUNDS. item d ''protocol'' = RStr p"
    "has_key d ''tag'' \<longrightarrow> t = tags \<and> r = res @ [d]"
    "\<not> has_key d ''tag'' \<longrightarrow> (\<exists>u. u \<notin> set tags \<and> u \<noteq> [] \<and> t = tags @ [u] \<and> r = res @ [d @ [(''tag'', RStr u)]])"
    using normalize_outbound_Inr [OF t(1)] by metis
  have wf: "tag_wf iv" using Cons.prems(7) by simp
  show ?case
  proof (cases "has_key d ''tag''")
    case True
    then have tr: "t = tags" "r = res @ [d]" using d(3) by auto
    have m: "mapping_tag (snd iv) = [tag_of d]" "item d ''tag'' = RStr (tag_of d)" "tag_of d \<noteq> []"
      using wf True d(1) by (auto simp: tag_wf_def)
    show ?thesis
    proof (rule Cons.IH [OF t(2)])
      show "\<forall>o1 \<in> set r. named_outbound o1"
        using Cons.prems(8) m(2,3) d(2) tr by (auto simp: named_outbound_def)
    qed (use Cons.prems m(1) tr in auto)
  next
    case False
    then obtain u where u: "u \<notin> set tags" "u \<noteq> []" "t = tags @ [u]" "r = res @ [d @ [(''tag'', RStr u)]]"
      using d(4) by blast
    have tag: "tag_of (d @ [(''tag'', RStr u)]) = u" using False by simp
    show ?thesis
    proof (rule Cons.IH [OF t(2)])
      show "\<forall>o1 \<in> set r. named_outbound o1"
        using Cons.prems(8) u(2,4) d(2) False by (auto simp: named_outbound_def item_append_tag)
    qed (use Cons.prems u tag in auto)
  qed
qed simp

lemma kept_outbounds:
  "foldE (normalize_outbound False) ivs (tags, res) = Inr (tags', res') \<Longrightarrow>
     \<exists>ds. map snd ivs = map RDict ds \<and> res' = res @ ds
       \<and> (\<forall>d \<in> set ds. \<exists>p \<in> SUPPORTED_OUTBOUNDS. item d ''protocol'' = RStr p)"
proof (induction ivs arbitrary: tags res)
  case (Cons iv ivs)
  then obtain t r where t: "normalize_outbound False iv (tags, res) = Inr (t, r)"
    "foldE (normalize_outbound False) ivs (t, r) = Inr (tags', res')"
    by (auto simp: bindE_Inr_iff)
  obtain d where d: "snd iv = RDict d" "\<exists>p \<in> SUPPORTED_OUTBOUNDS. item d ''protocol'' = RStr p" "r = res @ [d]"
    using normalize_outbound_Inr [OF t(1)] by metis
  obtain ds where "map snd ivs = map RDict ds" "res' = r @ ds"
    "\<forall>d \<in> set ds. \<exists>p \<in> SUPPORTED_OUTBOUNDS. item d ''protocol'' = RStr p"
    using Cons.IH [OF t(2)] by blast
  then show ?case using d by (intro exI [of _ "d # ds"]) auto
qed simp

lemma map_snd_indexed [simp]: "map snd (indexed xs) = xs"
  by (simp add: indexed_def)

lemma outbounds_of_Inr:
  assumes "outbounds_of s prof = Inr outs"
  obtains raws tags tags' where "item prof ''outbounds'' = RList raws" "raws \<noteq> []"
    "foldE explicit_tag (indexed raws) [] = Inr tags"
    "foldE (normalize_outbound s) (indexed raws) (tags, []) = Inr (tags', outs)"
  using assms that by (auto simp: outbounds_of_def bindE_Inr_iff split: raw.splits list.splits)

lemma outbounds_kept:
  assumes "outbounds_of False prof = Inr outs"
  shows "item prof ''outbounds'' = RList (map RDict outs) \<and> outs \<noteq> []
    \<and> (\<forall>o1 \<in> set outs. \<exists>p \<in> SUPPORTED_OUTBOUNDS. item o1 ''protocol'' = RStr p)"
proof -
  obtain raws tags tags' where r: "item prof ''outbounds'' = RList raws" "raws \<noteq> []"
    "foldE (normalize_outbound False) (indexed raws) (tags, []) = Inr (tags', outs)"
    using assms outbounds_of_Inr by blast
  obtain ds where ds: "map snd (indexed raws) = map RDict ds" "outs = [] @ ds"
    "\<forall>d \<in> set ds. \<exists>p \<in> SUPPORTED_OUTBOUNDS. item d ''protocol'' = RStr p"
    using kept_outbounds [OF r(3)] by blast
  then show ?thesis using r by auto
qed

lemma outbounds_named:
  assumes "outbounds_of True prof = Inr outs"
  shows "distinct (map tag_of outs)" "\<forall>o1 \<in> set outs. named_outbound o1"
proof -
  obtain raws tags tags' where r: "foldE explicit_tag (indexed raws) [] = Inr tags"
    "foldE (normalize_outbound True) (indexed raws) (tags, []) = Inr (tags', outs)"
    using assms outbounds_of_Inr by blast
  have e0: "tags = explicit_tags (indexed raws) \<and> distinct tags \<and> [] \<notin> set (explicit_tags (indexed raws))
    \<and> (\<forall>iv \<in> set (indexed raws). \<exists>d. snd iv = RDict d
       \<and> (has_key d ''tag'' \<longrightarrow> mapping_tag (snd iv) = [tag_of d] \<and> item d ''tag'' = RStr (tag_of d)))"
    using explicit_tags_Inr [OF r(1) distinct.simps(1) [THEN iffD2, OF TrueI]] unfolding append_Nil by blast
  have e: "tags = explicit_tags (indexed raws)" "distinct tags" "[] \<notin> set (explicit_tags (indexed raws))"
    "\<forall>iv \<in> set (indexed raws). \<exists>d. snd iv = RDict d
       \<and> (has_key d ''tag'' \<longrightarrow> mapping_tag (snd iv) = [tag_of d] \<and> item d ''tag'' = RStr (tag_of d))"
    using conjunct1 [OF e0] conjunct2 [OF e0] by blast+
  have "\<forall>iv \<in> set (indexed raws). tag_wf iv"
  proof
    fix iv assume i: "iv \<in> set (indexed raws)"
    then have "[] \<notin> set (mapping_tag (snd iv))" using e(3) by auto
    then show "tag_wf iv" using e(4) i by (fastforce simp: tag_wf_def)
  qed
  then have "distinct (map tag_of outs) \<and> (\<forall>o1 \<in> set outs. named_outbound o1)"
    using synthesized_tags [OF r(2)] e(1,2) by simp
  then show "distinct (map tag_of outs)" "\<forall>o1 \<in> set outs. named_outbound o1" by blast+
qed

section \<open>Chained dependencies\<close>

text \<open>Outbound \<open>b\<close> is a chained dependency of \<open>a\<close>.\<close>

definition deps_of :: "(string, json_object) dict \<Rightarrow> string \<Rightarrow> string set" where
  "deps_of tags a = (case dict_get tags a of Some o1 \<Rightarrow> set (dependency_tags o1) | None \<Rightarrow> {})"

definition chained :: "(string, json_object) dict \<Rightarrow> (string \<times> string) set" where
  "chained tags = {(a, b). b \<in> deps_of tags a}"

lemma add_dependencies_Inr:
  "foldE (add_dependency tags) ds (n, p) = Inr (n', p') \<Longrightarrow>
     set ds \<subseteq> set (dict_keys tags) \<and> set n' = set n \<union> set ds \<and> (\<exists>new. n' = n @ new \<and> p' = p @ new)"
proof (induction ds arbitrary: n p)
  case (Cons d ds)
  then obtain m q where m: "add_dependency tags d (n, p) = Inr (m, q)"
    "foldE (add_dependency tags) ds (m, q) = Inr (n', p')"
    by (auto simp: bindE_Inr_iff)
  have "d \<in> set (dict_keys tags) \<and> set m = insert d (set n) \<and> (\<exists>new. m = n @ new \<and> q = p @ new)"
    using m(1) dict_get_None_iff [of tags d] by (auto simp: add_dependency_def insert_absorb split: if_splits)
  then show ?case using Cons.IH [OF m(2)] by force
qed simp

lemma add_dependencies_Inl:
  "foldE (add_dependency tags) ds st = Inl e \<Longrightarrow>
     e = config_invalid ''selected outbound has a missing chained dependency'' \<and> \<not> set ds \<subseteq> set (dict_keys tags)"
proof (induction ds arbitrary: st)
  case (Cons d ds)
  show ?case
  proof (cases "add_dependency tags d st")
    case (Inl x)
    then show ?thesis using Cons.prems by (auto simp: add_dependency_def dict_get_None_iff split: if_splits)
  next
    case (Inr x)
    then show ?thesis using Cons by auto
  qed
qed simp

abbreviation missing_dependency :: effective_error where
  "missing_dependency \<equiv> config_invalid ''selected outbound has a missing chained dependency''"

text \<open>The worklist computes the closure, and fails exactly when a dependency in it is missing.\<close>

lemma needed_tags_closure:
  assumes "set needed \<subseteq> set (dict_keys tags)" "set pending \<subseteq> set needed"
    and "\<forall>x \<in> set needed - set pending. deps_of tags x \<subseteq> set needed"
  shows "(case needed_tags tags needed pending of
      Inr res \<Rightarrow> set res = (chained tags)\<^sup>* `` set needed \<and> set res \<subseteq> set (dict_keys tags)
    | Inl e \<Rightarrow> e = missing_dependency \<and> \<not> (chained tags)\<^sup>* `` set needed \<subseteq> set (dict_keys tags))"
  using assms
proof (induction tags needed pending rule: needed_tags.induct)
  case (1 tags needed pending)
  show ?case
  proof (cases "pending = []")
    case True
    have closed: "chained tags `` set needed \<subseteq> set needed" using 1(4) True by (auto simp: chained_def)
    have "(chained tags)\<^sup>* `` set needed = set needed" by (rule Image_closed_trancl [OF closed])
    then show ?thesis using True 1(2) by (subst needed_tags.simps) simp
  next
    case False
    let ?x = "last pending"
    have "?x \<in> set needed" using 1(3) False by auto
    then obtain cur where cur: "dict_get tags ?x = Some cur"
      using 1(2) by (cases "dict_get tags ?x") (auto simp: dict_get_None_iff)
    have deps: "set (dependency_tags cur) = chained tags `` {?x}" by (auto simp: chained_def deps_of_def cur)
    show ?thesis
    proof (cases "foldE (add_dependency tags) (dependency_tags cur) (needed, butlast pending)")
      case (Inl e)
      have "chained tags `` {?x} \<subseteq> (chained tags)\<^sup>* `` set needed" using \<open>?x \<in> set needed\<close> by blast
      then have "\<not> (chained tags)\<^sup>* `` set needed \<subseteq> set (dict_keys tags)"
        using add_dependencies_Inl [OF Inl] unfolding deps by blast
      then show ?thesis using add_dependencies_Inl [OF Inl] cur False Inl
        by (subst needed_tags.simps) simp
    next
      case (Inr st)
      obtain n p where st: "st = (n, p)" by (cases st)
      note step = add_dependencies_Inr [OF Inr [unfolded st]]
      obtain new where new: "n = needed @ new" "p = butlast pending @ new" using step by blast
      have n: "set n = set needed \<union> chained tags `` {?x}" "set n \<subseteq> set (dict_keys tags)"
        using step deps 1(2) by auto
      have "set pending = insert ?x (set (butlast pending))" using False by (metis append_butlast_last_id list.set(1) list.simps(15) set_append Un_insert_right sup_bot.right_neutral)
      then have rest: "\<forall>x \<in> set n - set p. deps_of tags x \<subseteq> set n"
        using 1(4) n(1) new by (auto simp: chained_def)
      have "set p \<subseteq> set n" using 1(3) new by (auto dest: in_set_butlastD)
      note IH = 1(1) [OF False cur Inr st [symmetric] n(2) this rest]
      have "(chained tags)\<^sup>* `` set n = (chained tags)\<^sup>* `` set needed"
        using n(1) \<open>?x \<in> set needed\<close> by (auto intro: converse_rtrancl_into_rtrancl)
      then show ?thesis using IH False cur Inr st by (subst needed_tags.simps) (auto split: sum.splits)
    qed
  qed
qed

lemma by_tag_keys [simp]: "fst ` set (by_tag outs) = tag_of ` set outs"
proof -
  have "k \<in> fst ` set (by_tag outs) \<longleftrightarrow> k \<in> tag_of ` set outs" for k
    using dict_get_None_iff [of "by_tag outs" k]
    by (auto simp: by_tag_def dict_get_of map_of_eq_None_iff image_image)
  then show ?thesis by blast
qed

lemma connection_outbounds_eq:
  assumes "t \<in> tag_of ` set outs"
  shows "connection_outbounds outs t =
    (if (chained (by_tag outs))\<^sup>* `` {t} \<subseteq> tag_of ` set outs
     then Inr (filter (\<lambda>o1. (t, tag_of o1) \<in> (chained (by_tag outs))\<^sup>*) outs)
     else Inl missing_dependency)"
proof -
  have "(case needed_tags (by_tag outs) [t] [t] of
      Inr res \<Rightarrow> set res = (chained (by_tag outs))\<^sup>* `` {t} \<and> set res \<subseteq> tag_of ` set outs
    | Inl e \<Rightarrow> e = missing_dependency \<and> \<not> (chained (by_tag outs))\<^sup>* `` {t} \<subseteq> tag_of ` set outs)"
    using needed_tags_closure [of "[t]" "by_tag outs" "[t]"] assms by (auto split: sum.splits)
  then show ?thesis by (auto simp: connection_outbounds_def split: sum.splits)
qed

section \<open>Restriction to the chained outbounds\<close>

lemma by_tag_get:
  assumes "distinct (map tag_of outs)" "o1 \<in> set outs"
  shows "dict_get (by_tag outs) (tag_of o1) = Some o1"
  using assms by (simp add: by_tag_def dict_get_of_distinct comp_def)

lemma chained_restrict:
  assumes d: "distinct (map tag_of outs)" and t: "t \<in> tag_of ` set outs"
    and c: "(chained (by_tag outs))\<^sup>* `` {t} \<subseteq> tag_of ` set outs"
  defines "kept \<equiv> filter (\<lambda>o1. (t, tag_of o1) \<in> (chained (by_tag outs))\<^sup>*) outs"
  shows "tag_of ` set kept = (chained (by_tag kept))\<^sup>* `` {t}" and "distinct (map tag_of kept)"
    and "\<exists>o1 \<in> set kept. tag_of o1 = t"
proof -
  let ?R = "chained (by_tag outs)" and ?S = "chained (by_tag kept)"
  have tags: "tag_of ` set kept = ?R\<^sup>* `` {t}" using c by (auto simp: kept_def)
  show dk: "distinct (map tag_of kept)" using d by (simp add: kept_def distinct_map_filter)
  have same: "(a, b) \<in> ?R \<longleftrightarrow> (a, b) \<in> ?S" if "(t, a) \<in> ?R\<^sup>*" for a b
  proof -
    obtain o1 where o1: "o1 \<in> set outs" "tag_of o1 = a" using c \<open>(t, a) \<in> ?R\<^sup>*\<close> by auto
    then have "o1 \<in> set kept" using that by (simp add: kept_def)
    then show ?thesis using by_tag_get [OF d o1(1)] by_tag_get [OF dk, of o1] o1(2)
      by (simp add: chained_def deps_of_def)
  qed
  have "(t, x) \<in> ?R\<^sup>* \<Longrightarrow> (t, x) \<in> ?S\<^sup>*" for x
    by (induction rule: rtrancl_induct) (auto simp: same intro: rtrancl_into_rtrancl)
  moreover have "(t, x) \<in> ?S\<^sup>* \<Longrightarrow> (t, x) \<in> ?R\<^sup>*" for x
    by (induction rule: rtrancl_induct) (auto simp: same intro: rtrancl_into_rtrancl)
  ultimately show "tag_of ` set kept = ?S\<^sup>* `` {t}" using tags by blast
  have "t \<in> tag_of ` set kept" unfolding tags by blast
  then show "\<exists>o1 \<in> set kept. tag_of o1 = t" by blast
qed

section \<open>The boundary\<close>

lemma check_all_Inr_iff: "check_all f xs = Inr u \<longleftrightarrow> (\<forall>x \<in> set xs. f x = Inr ())"
  by (induction xs) (auto simp: check_all_def bindE_Inr_iff)

text \<open>An outbound that depends on nothing of the host that runs the prober.\<close>

definition remote_only :: "json_object \<Rightarrow> bool" where
  "remote_only o1 \<longleftrightarrow> \<not> has_key o1 ''sendThrough'' \<and> host_state_free (RDict o1)
     \<and> (\<forall>settings servers s. item o1 ''settings'' = RDict settings \<longrightarrow> item settings ''vnext'' = RList servers
          \<longrightarrow> s \<in> set servers \<longrightarrow> \<not> is_host_local_endpoint (server_address s))
     \<and> (\<forall>settings. item o1 ''settings'' = RDict settings \<longrightarrow> \<not> is_host_local_endpoint (item settings ''redirect''))"

lemma item_list_get: "item d k = RList vs \<longleftrightarrow> dict_get d k = Some (RList vs)"
  by (auto simp: item_def split: option.splits)

lemma reject_local_outbound_Inr:
  assumes "reject_local_outbound (RDict o1) = Inr ()"
  shows "\<not> has_key o1 ''sendThrough''
     \<and> (\<forall>settings servers s. item o1 ''settings'' = RDict settings \<longrightarrow> item settings ''vnext'' = RList servers
          \<longrightarrow> s \<in> set servers \<longrightarrow> \<not> is_host_local_endpoint (server_address s))
     \<and> (\<forall>settings. item o1 ''settings'' = RDict settings \<longrightarrow> \<not> is_host_local_endpoint (item settings ''redirect''))"
proof (cases "item o1 ''settings''")
  case (RDict st)
  then show ?thesis using assms
    by (auto simp: reject_local_outbound_def item_list_get [of st] result_iffs list_ex_iff split: if_splits)
qed (use assms in \<open>auto simp: reject_local_outbound_def split: if_splits\<close>)

lemma reject_unsafe_Inr:
  assumes "reject_unsafe_features cfg = Inr ()" "item cfg ''outbounds'' = RList (map RDict outs)"
  shows "\<forall>k \<in> set UNSAFE_TOP_LEVEL. \<not> has_key cfg k" "\<forall>o1 \<in> set outs. remote_only o1"
proof -
  have o: "dict_get cfg ''outbounds'' = Some (RList (map RDict outs))" using assms(2) by (simp add: item_list_get)
  have f: "filter (has_key cfg) UNSAFE_TOP_LEVEL = []"
    using assms(1) by (auto simp: reject_unsafe_features_def split: list.splits)
  then show "\<forall>k \<in> set UNSAFE_TOP_LEVEL. \<not> has_key cfg k" by (simp add: filter_empty_conv)
  have h: "\<forall>o1 \<in> set outs. host_state_free (RDict o1)"
    using assms(1) f o by (auto simp: reject_unsafe_features_def iterated_def bindE_Inr_iff check_all_Inr_iff ensure_Inr_iff)
  have "\<forall>o1 \<in> set outs. reject_local_outbound (RDict o1) = Inr ()"
    using assms(1) f o
    by (auto simp: reject_unsafe_features_def iterated_def bindE_Inr_iff check_all_Inr_iff reject_host_local_dependencies_def)
  then show "\<forall>o1 \<in> set outs. remote_only o1"
    using h reject_local_outbound_Inr by (auto simp: remote_only_def)
qed

lemma validate_Inr:
  assumes "validate_effective_config cfg port tag = Inr ()"
  shows "reject_unsafe_features cfg = Inr ()" "\<exists>outs. outbounds_of False cfg = Inr outs"
proof -
  show "reject_unsafe_features cfg = Inr ()"
    using assms by (auto simp: validate_effective_config_def bindE_Inr_iff)
  obtain inbound where i: "managed_inbound cfg tag = Inr inbound"
    using assms by (auto simp: validate_effective_config_def bindE_Inr_iff)
  show "\<exists>outs. outbounds_of False cfg = Inr outs"
  proof (cases "item inbound ''settings''")
    case (RDict st)
    then show ?thesis using assms i by (auto simp: validate_effective_config_def result_iffs)
  qed (use assms i in \<open>simp_all add: validate_effective_config_def result_iffs\<close>)
qed

lemma validated_outbounds:
  assumes "validate_effective_config cfg port tag = Inr ()"
  shows "(\<forall>k \<in> set UNSAFE_TOP_LEVEL. \<not> has_key cfg k)
    \<and> (\<exists>outs. outs \<noteq> [] \<and> item cfg ''outbounds'' = RList (map RDict outs)
        \<and> (\<forall>o1 \<in> set outs. remote_only o1 \<and> (\<exists>p \<in> SUPPORTED_OUTBOUNDS. item o1 ''protocol'' = RStr p)))"
proof -
  obtain outs where outs: "outbounds_of False cfg = Inr outs" using validate_Inr(2) [OF assms] by blast
  show ?thesis
    using reject_unsafe_Inr [OF validate_Inr(1) [OF assms], of outs] outbounds_kept [OF outs] by blast
qed

section \<open>The managed inbound\<close>

definition socks_inbound :: "int \<Rightarrow> string \<Rightarrow> raw \<Rightarrow> json_object" where
  "socks_inbound port tag sniffing =
     [(''tag'', RStr tag), (''listen'', RStr ''127.0.0.1''), (''port'', RInt port), (''protocol'', RStr ''socks''),
      (''settings'', RDict [(''auth'', RStr ''noauth''), (''udp'', RBool False)])]
     @ (case sniffing of RDict s \<Rightarrow> [(''sniffing'', RDict s)] | _ \<Rightarrow> [])"

lemma safe_socks_inbound_eq:
  "safe_socks_inbound port tag sniffing =
     (if 0 \<le> port \<and> port \<le> 65535 then Inr (socks_inbound port tag sniffing)
      else Inl (config_invalid ''SOCKS port must be between 0 and 65535''))"
  by (simp add: safe_socks_inbound_def valid_port_def socks_inbound_def)

lemma item_set [simp]: "item (dict_set k v d) j = (if j = k then v else item d j)"
  by (simp add: item_def)

lemma item_pop [simp]: "item (dict_pop k d) j = (if j = k then RNone else item d j)"
  by (simp add: item_def)

lemma has_key_pop [simp]: "has_key (dict_pop k d) j \<longleftrightarrow> j \<noteq> k \<and> has_key d j"
  by (simp add: has_key_def)

section \<open>What the builders return\<close>

definition connection_result :: "json_object \<Rightarrow> int \<Rightarrow> string \<Rightarrow> string \<Rightarrow> json_object list \<Rightarrow> json_object" where
  "connection_result prof port inbound_tag t needed =
     dict_pop ''burstObservatory'' (dict_pop ''observatory''
       (dict_set ''routing'' (catch_all_routing inbound_tag t)
       (dict_set ''outbounds'' (RList (map RDict needed))
       (dict_set ''inbounds'' (RList [RDict (socks_inbound port inbound_tag RNone)])
       (dict_set ''log'' managed_log prof)))))"

definition profile_result :: "json_object \<Rightarrow> int \<Rightarrow> string \<Rightarrow> raw \<Rightarrow> json_object list \<Rightarrow> json_object" where
  "profile_result prof port inbound_tag sniffing outs =
     dict_set ''outbounds'' (RList (map RDict outs))
       (dict_set ''inbounds'' (RList [RDict (socks_inbound port inbound_tag sniffing)])
       (dict_set ''log'' managed_log prof))"

lemma build_connection_Inr:
  assumes "build_connection_config cs v port outbound_tag inbound_tag = Inr cfg"
  obtains prof outs sel needed r where "outbounds_of True prof = Inr outs"
    "select_effective_outbound outs r = Inr sel" "connection_outbounds outs (tag_of sel) = Inr needed"
    "0 \<le> port" "port \<le> 65535" "cfg = connection_result prof port inbound_tag (tag_of sel) needed"
    "validate_effective_config cfg (Some port) (Some inbound_tag) = Inr ()"
  using assms that
  by (auto simp: build_connection_config_def bindE_Inr_iff Let_def safe_socks_inbound_eq connection_result_def
      split: if_splits)

lemma filter_head: "filter P xs = y # ys \<Longrightarrow> y \<in> set xs"
  by (auto simp: filter_eq_Cons_iff)

lemma select_inbound_Inr:
  assumes "select_inbound prof r = Inr sel"
  shows "\<exists>raws. item prof ''inbounds'' = RList raws \<and> RDict sel \<in> set raws
    \<and> (\<exists>p \<in> ADAPTABLE_INBOUNDS. item sel ''protocol'' = RStr p)"
proof -
  obtain w ws where raws: "item prof ''inbounds'' = RList (w # ws)"
    using assms by (auto simp: select_inbound_def split: raw.splits list.splits)
  obtain inbounds where fold: "foldE adaptable_inbound (w # ws) [] = Inr inbounds" and sel: "sel \<in> set inbounds"
  proof -
    obtain inbounds where i: "foldE adaptable_inbound (w # ws) [] = Inr inbounds" "inbounds \<noteq> []"
      using assms raws by (auto simp: select_inbound_def bindE_Inr_iff split: if_splits)
    have "sel \<in> set inbounds"
    proof (cases "truthy r")
      case True
      then obtain xs where "filter (\<lambda>i. item i ''tag'' = RStr (the r)) inbounds = sel # xs"
        using assms raws i by (auto simp: select_inbound_def split: if_splits list.splits)
      then show ?thesis by (rule filter_head)
    next
      case False
      then show ?thesis using assms raws i by (auto simp: select_inbound_def split: list.splits)
    qed
    then show ?thesis using i(1) that by blast
  qed
  have "\<forall>s \<in> set inbounds. RDict s \<in> set (w # ws) \<and> (\<exists>p \<in> ADAPTABLE_INBOUNDS. item s ''protocol'' = RStr p)"
    by (rule foldE_invariant [OF fold])
      (auto simp: adaptable_inbound_def bindE_Inr_iff among_def split: if_splits raw.splits)
  then show ?thesis using raws sel by blast
qed

lemma build_profile_Inr:
  assumes "build_profile_config cs v port inbound_tag = Inr cfg"
  obtains prof outs sel r t where "profile_from cs v None = Inr prof" "outbounds_of False prof = Inr outs"
    "select_inbound prof r = Inr sel" "t \<noteq> []"
    "if has_key sel ''tag'' then item sel ''tag'' = RStr t else t = collision_free_inbound_tag prof"
    "0 \<le> port" "port \<le> 65535" "cfg = profile_result prof port t (item sel ''sniffing'') outs"
    "validate_effective_config cfg (Some port) (Some t) = Inr ()"
proof -
  obtain prof outs sel where p: "profile_from cs v None = Inr prof" "reject_unsafe_features prof = Inr ()"
    "validate_profile_routing prof = Inr ()" "outbounds_of False prof = Inr outs"
    "select_inbound prof (or_tag inbound_tag (value_inbound_tag v)) = Inr sel"
    using assms by (auto simp: build_profile_config_def bindE_Inr_iff)
  let ?tag = "if has_key sel ''tag'' then item sel ''tag'' else RStr (collision_free_inbound_tag prof)"
  obtain c ct where t: "?tag = RStr (c # ct)"
    using assms p by (auto simp: build_profile_config_def split: raw.splits list.splits)
  show ?thesis
  proof (rule that [OF p(1,4,5), of "c # ct"])
    show "if has_key sel ''tag'' then item sel ''tag'' = RStr (c # ct) else c # ct = collision_free_inbound_tag prof"
      using t by (auto split: if_splits)
  qed (use assms p t in \<open>auto simp: build_profile_config_def bindE_Inr_iff Let_def safe_socks_inbound_eq
      profile_result_def split: if_splits\<close>)
qed

lemma select_effective_Inr:
  "select_effective_outbound outs r = Inr sel \<Longrightarrow> sel \<in> set outs \<and> item sel ''protocol'' = RStr ''vless''"
proof -
  assume a: "select_effective_outbound outs r = Inr sel"
  show ?thesis using a
    by (auto dest: filter_head simp: select_effective_outbound_def bindE_Inr_iff split: if_splits list.splits)
qed

end
