(* ===== verification/EffectivePort.thy ===== *)
theory EffectivePort
  imports EffectiveLaws
begin

text \<open>
  A configuration is built with port 0 and gets its port when the runtime starts
  (\<open>XrayRuntimeManager.start\<close>): the result is the configuration built for that port.
\<close>

section \<open>Dictionaries\<close>

lemma dict_set_set: "dict_set k v (dict_set k w d) = dict_set k v d"
  by (induction d) auto

lemma dict_set_swap: "k \<in> fst ` set d \<Longrightarrow> k \<noteq> j \<Longrightarrow> dict_set k v (dict_set j w d) = dict_set j w (dict_set k v d)"
  by (induction d) auto

lemma dict_set_pop: "k \<noteq> j \<Longrightarrow> dict_set k v (dict_pop j d) = dict_pop j (dict_set k v d)"
  by (induction d) auto

lemma dict_set_keys [simp]: "fst ` set (dict_set k v d) = insert k (fst ` set d)"
  by (induction d) auto

lemma dict_pop_keys [simp]: "fst ` set (dict_pop k d) = fst ` set d - {k}"
  by (induction d) auto

section \<open>The features that are rejected\<close>

lemma external_set:
  assumes "reject_external_files w = reject_external_files v" "raw_true w = raw_true v"
  shows "dict_get d k = Some v \<Longrightarrow> reject_external_pairs (dict_set k w d) = reject_external_pairs d"
  by (induction d) (use assms in auto)

lemma port_not_external: "py_casefold ''port'' \<notin> EXTERNAL_FILE_KEYS"
  by code_simp

lemma external_inbound:
  "reject_external_files (RList [RDict (socks_inbound p t s)]) = reject_external_files (RList [RDict (socks_inbound q t s)])"
  by (simp add: socks_inbound_def port_not_external)

lemma unsafe_port:
  assumes "dict_get cfg ''inbounds'' = Some (RList [RDict (socks_inbound q t s)])"
  shows "reject_unsafe_features (dict_set ''inbounds'' (RList [RDict (socks_inbound p t s)]) cfg)
    = reject_unsafe_features cfg"
proof -
  let ?c = "dict_set ''inbounds'' (RList [RDict (socks_inbound p t s)]) cfg"
  have "has_key ?c = has_key cfg" using assms by (auto simp: has_key_def fun_eq_iff)
  moreover have "reject_external_pairs ?c = reject_external_pairs cfg"
    by (rule external_set [OF external_inbound _ assms]) simp
  moreover have "reject_host_local_dependencies ?c = reject_host_local_dependencies cfg"
    by (simp add: reject_host_local_dependencies_def reject_local_dns_def)
  ultimately show ?thesis by (simp add: reject_unsafe_features_def split: list.splits)
qed

section \<open>Validation\<close>

lemma validate_port:
  assumes i: "item cfg ''inbounds'' = RList [RDict (socks_inbound q t s)]"
    and v: "validate_effective_config cfg (Some q) tag = Inr ()"
    and p: "0 \<le> p" "p \<le> 65535" and tag: "tag' = None \<or> tag' = Some t"
  shows "validate_effective_config (dict_set ''inbounds'' (RList [RDict (socks_inbound p t s)]) cfg) (Some p) tag' = Inr ()"
proof -
  let ?c = "dict_set ''inbounds'' (RList [RDict (socks_inbound p t s)]) cfg"
  have "dict_get cfg ''inbounds'' = Some (RList [RDict (socks_inbound q t s)])" using i by (simp add: item_list_get)
  then have u: "reject_unsafe_features ?c = Inr ()" using unsafe_port validate_Inr(1) [OF v] by simp
  have m: "managed_inbound ?c tag' = Inr (socks_inbound p t s)"
    using tag by (auto simp: managed_inbound_def socks_inbound_def item_def)
  have f: "item (socks_inbound p t s) ''listen'' = RStr ''127.0.0.1''" "item (socks_inbound p t s) ''protocol'' = RStr ''socks''"
    "item (socks_inbound p t s) ''port'' = RInt p"
    "item (socks_inbound p t s) ''settings'' = RDict [(''auth'', RStr ''noauth''), (''udp'', RBool False)]" for p
    by (simp_all add: socks_inbound_def item_def)
  obtain outs where o: "outbounds_of False cfg = Inr outs" using validate_Inr(2) [OF v] by blast
  then have oc: "outbounds_of False ?c = Inr outs" by (simp add: outbounds_of_def)
  have m0: "managed_inbound cfg tag = Inr (socks_inbound q t s)"
    using v i by (auto simp: validate_effective_config_def managed_inbound_def bindE_Inr_iff split: if_splits)
  have l: "\<exists>l. item cfg ''log'' = RDict l \<and> item l ''loglevel'' = RStr ''none''"
    using v by (auto simp: validate_effective_config_def m0 f o result_iffs split: raw.splits)
  show ?thesis
    using l by (auto simp: validate_effective_config_def u m f oc among_def hashable_value_def item_or_def valid_port_def p)
qed

lemma replace_port:
  assumes "item cfg ''inbounds'' = RList [RDict (socks_inbound q t s)]"
    and "validate_effective_config cfg (Some q) tag = Inr ()" "0 \<le> p" "p \<le> 65535"
  shows "replace_managed_port cfg p = Inr (dict_set ''inbounds'' (RList [RDict (socks_inbound p t s)]) cfg)"
proof -
  have "managed_inbound cfg None = Inr (socks_inbound q t s)" using assms(1) by (simp add: managed_inbound_def)
  moreover have "dict_set ''port'' (RInt p) (socks_inbound q t s) = socks_inbound p t s"
    by (simp add: socks_inbound_def)
  moreover have "valid_port (RInt p) = Inr p" using assms(3,4) by (simp add: valid_port_def)
  ultimately show ?thesis
    using validate_port [OF assms(1,2,3,4), of None] by (simp add: replace_managed_port_def Let_def)
qed

section \<open>Both modes\<close>

lemmas managed_swap = dict_set_swap [of "''inbounds''" _ "''outbounds''"] dict_set_swap [of "''inbounds''" _ "''routing''"]

lemma connection_result_port:
  "dict_set ''inbounds'' (RList [RDict (socks_inbound p tag RNone)]) (connection_result prof q tag t needed)
     = connection_result prof p tag t needed"
  by (simp add: connection_result_def dict_set_pop managed_swap dict_set_set)

lemma profile_result_port:
  "dict_set ''inbounds'' (RList [RDict (socks_inbound p t s)]) (profile_result prof q t s outs)
     = profile_result prof p t s outs"
  by (simp add: profile_result_def managed_swap dict_set_set)

lemma connection_port:
  assumes b: "build_connection_config cs v q outbound_tag tag = Inr cfg" and p: "0 \<le> p" "p \<le> 65535"
  shows "build_connection_config cs v p outbound_tag tag = replace_managed_port cfg p"
proof -
  let ?r = "or_tag outbound_tag (value_outbound_tag v)"
  obtain prof outs sel needed where f: "profile_from cs v ?r = Inr prof" "reject_unsafe_features prof = Inr ()"
    "outbounds_of True prof = Inr outs" "select_effective_outbound outs ?r = Inr sel"
    "connection_outbounds outs (tag_of sel) = Inr needed"
    and cfg: "cfg = connection_result prof q tag (tag_of sel) needed"
    and v: "validate_effective_config cfg (Some q) (Some tag) = Inr ()"
    using b by (auto simp: build_connection_config_def bindE_Inr_iff Let_def safe_socks_inbound_eq connection_result_def
        split: if_splits)
  have i: "item cfg ''inbounds'' = RList [RDict (socks_inbound q tag RNone)]" by (simp add: cfg connection_result_def)
  have s: "dict_set ''inbounds'' (RList [RDict (socks_inbound p tag RNone)]) cfg
      = connection_result prof p tag (tag_of sel) needed"
    unfolding cfg by (rule connection_result_port)
  show ?thesis
    using replace_port [OF i v p] validate_port [OF i v p, of "Some tag"] f s p
    by (simp add: build_connection_config_def Let_def safe_socks_inbound_eq connection_result_def)
qed

lemma profile_port:
  assumes b: "build_profile_config cs v q tag = Inr cfg" and p: "0 \<le> p" "p \<le> 65535"
  shows "build_profile_config cs v p tag = replace_managed_port cfg p"
proof -
  let ?r = "or_tag tag (value_inbound_tag v)"
  obtain prof outs sel where f: "profile_from cs v None = Inr prof" "reject_unsafe_features prof = Inr ()"
    "validate_profile_routing prof = Inr ()" "outbounds_of False prof = Inr outs" "select_inbound prof ?r = Inr sel"
    using b by (auto simp: build_profile_config_def bindE_Inr_iff)
  let ?tag = "if has_key sel ''tag'' then item sel ''tag'' else RStr (collision_free_inbound_tag prof)"
  obtain c ct where t: "?tag = RStr (c # ct)"
    using b f by (auto simp: build_profile_config_def split: raw.splits list.splits)
  have cfg: "cfg = profile_result prof q (c # ct) (item sel ''sniffing'') outs"
    and v: "validate_effective_config cfg (Some q) (Some (c # ct)) = Inr ()"
    using b f t by (auto simp: build_profile_config_def bindE_Inr_iff Let_def safe_socks_inbound_eq
      profile_result_def split: if_splits)
  have i: "item cfg ''inbounds'' = RList [RDict (socks_inbound q (c # ct) (item sel ''sniffing''))]"
    by (simp add: cfg profile_result_def)
  have s: "dict_set ''inbounds'' (RList [RDict (socks_inbound p (c # ct) (item sel ''sniffing''))]) cfg
      = profile_result prof p (c # ct) (item sel ''sniffing'') outs"
    unfolding cfg by (rule profile_result_port)
  show ?thesis
    using replace_port [OF i v p] validate_port [OF i v p, of "Some (c # ct)"] f s p t
    by (simp add: build_profile_config_def Let_def safe_socks_inbound_eq profile_result_def)
qed

section \<open>Concrete instances\<close>

definition demo_profile :: json_object where
  "demo_profile =
     [(''outbounds'', RList
        [RDict [(''tag'', RStr ''proxy''), (''protocol'', RStr ''vless''),
           (''settings'', RDict [(''vnext'', RList [RDict [(''address'', RStr ''node.example.org'')]])]),
           (''proxySettings'', RDict [(''tag'', RStr ''hop'')])],
         RDict [(''protocol'', RStr ''freedom'')],
         RDict [(''tag'', RStr ''hop''), (''protocol'', RStr ''vless'')]]),
      (''inbounds'', RList [RDict [(''protocol'', RStr ''socks''), (''sniffing'', RDict [(''enabled'', RBool True)])]]),
      (''routing'', RDict [(''rules'', RList [RDict [(''inboundTag'', RStr ''xray-e2e-prober-socks'')]])])]"

definition demo_connection :: json_object where
  "demo_connection = connection_result demo_profile 0 ''probe'' ''proxy''
     [[(''tag'', RStr ''proxy''), (''protocol'', RStr ''vless''),
        (''settings'', RDict [(''vnext'', RList [RDict [(''address'', RStr ''node.example.org'')]])]),
        (''proxySettings'', RDict [(''tag'', RStr ''hop'')])],
      [(''tag'', RStr ''hop''), (''protocol'', RStr ''vless'')]]"

lemma demo_connection_built:
  "build_effective_config cs (MappingValue demo_profile) ''connection'' 0 (Some ''proxy'') (Some ''probe'') = Inr demo_connection"
  by code_simp

section \<open>Properties\<close>

text \<open>
  C9: isolation of connection mode: the configuration has one private SOCKS inbound, a single rule sends
  everything from it to a VLESS outbound of the profile, and the outbounds that are left are exactly that
  outbound and its chained dependencies, so nothing else can carry the traffic of the check.
\<close>

theorem connection_config_isolated:
  assumes "build_connection_config cs v port outbound_tag inbound_tag = Inr cfg"
  shows "\<exists>t outs. item cfg ''inbounds'' = RList [RDict (socks_inbound port inbound_tag RNone)]
    \<and> item cfg ''routing'' = catch_all_routing inbound_tag t
    \<and> item cfg ''outbounds'' = RList (map RDict outs)
    \<and> distinct (map tag_of outs)
    \<and> (\<exists>o1 \<in> set outs. tag_of o1 = t \<and> item o1 ''protocol'' = RStr ''vless'')
    \<and> tag_of ` set outs = (chained (by_tag outs))\<^sup>* `` {t}
    \<and> \<not> has_key cfg ''observatory'' \<and> \<not> has_key cfg ''burstObservatory''"
proof -
  obtain prof outs sel needed r where b: "outbounds_of True prof = Inr outs"
    "select_effective_outbound outs r = Inr sel" "connection_outbounds outs (tag_of sel) = Inr needed"
    "cfg = connection_result prof port inbound_tag (tag_of sel) needed"
    using assms build_connection_Inr by metis
  let ?t = "tag_of sel" and ?R = "chained (by_tag outs)"
  note d = outbounds_named(1) [OF b(1)]
  have sel: "sel \<in> set outs" "item sel ''protocol'' = RStr ''vless''" using select_effective_Inr [OF b(2)] by simp_all
  then have t: "?t \<in> tag_of ` set outs" by blast
  have c: "?R\<^sup>* `` {?t} \<subseteq> tag_of ` set outs" and needed: "needed = filter (\<lambda>o1. (?t, tag_of o1) \<in> ?R\<^sup>*) outs"
    using b(3) connection_outbounds_eq [OF t] by (simp_all split: if_splits)
  have "sel \<in> set needed" using sel(1) needed by simp
  moreover have "tag_of ` set needed = (chained (by_tag needed))\<^sup>* `` {?t}" "distinct (map tag_of needed)"
    using chained_restrict(1,2) [OF d t c] needed by simp_all
  ultimately show ?thesis using sel(2)
    by (intro exI [of _ ?t] exI [of _ needed]) (auto simp: b(4) connection_result_def)
qed

text \<open>
  C10: the boundary of both modes: one inbound, on the loopback address at the requested port, SOCKS without
  authentication and without UDP; managed logging; no feature that opens a listener; and outbounds that run
  a supported protocol and depend on nothing of the host.
\<close>

theorem effective_config_sealed:
  assumes "build_effective_config cs v mode port outbound_tag inbound_tag = Inr cfg"
  shows "(\<exists>tag sniffing. tag \<noteq> [] \<and> item cfg ''inbounds'' = RList [RDict (socks_inbound port tag sniffing)])
    \<and> 0 \<le> port \<and> port \<le> 65535 \<and> item cfg ''log'' = managed_log
    \<and> (\<forall>k \<in> set UNSAFE_TOP_LEVEL. \<not> has_key cfg k)
    \<and> (\<exists>outs. outs \<noteq> [] \<and> item cfg ''outbounds'' = RList (map RDict outs)
        \<and> (\<forall>o1 \<in> set outs. remote_only o1 \<and> (\<exists>p \<in> SUPPORTED_OUTBOUNDS. item o1 ''protocol'' = RStr p)))"
proof -
  define tag0 where "tag0 = (case inbound_tag of Some (c # t) \<Rightarrow> c # t | _ \<Rightarrow> PROBER_INBOUND_TAG)"
  have tag0: "tag0 \<noteq> []" by (simp add: tag0_def PROBER_INBOUND_TAG_def split: option.splits list.splits)
  consider (connection) "build_connection_config cs v port outbound_tag tag0 = Inr cfg"
    | (in_profile) "build_profile_config cs v port inbound_tag = Inr cfg"
    using assms by (auto simp: build_effective_config_def tag0_def split: if_splits)
  then show ?thesis
  proof cases
    case connection
    then obtain prof t needed where c: "0 \<le> port" "port \<le> 65535" "cfg = connection_result prof port tag0 t needed"
      "validate_effective_config cfg (Some port) (Some tag0) = Inr ()"
      using build_connection_Inr by metis
    have "item cfg ''inbounds'' = RList [RDict (socks_inbound port tag0 RNone)]" "item cfg ''log'' = managed_log"
      by (simp_all add: c(3) connection_result_def)
    then show ?thesis using validated_outbounds [OF c(4)] tag0 c(1,2) by blast
  next
    case in_profile
    then obtain prof t sniffing outs where c: "0 \<le> port" "port \<le> 65535" "t \<noteq> []" "cfg = profile_result prof port t sniffing outs"
      "validate_effective_config cfg (Some port) (Some t) = Inr ()"
      using build_profile_Inr by metis
    have "item cfg ''inbounds'' = RList [RDict (socks_inbound port t sniffing)]" "item cfg ''log'' = managed_log"
      by (simp_all add: c(4) profile_result_def)
    then show ?thesis using validated_outbounds [OF c(5)] c(1-3) by blast
  qed
qed


text \<open>
  C12: the port that the runtime chooses can be written into a built configuration: replacing the port of
  a configuration of either mode gives exactly the configuration that would have been built for that port.
\<close>

theorem replaced_port_is_built:
  assumes "build_effective_config cs v mode q outbound_tag inbound_tag = Inr cfg" "0 \<le> p" "p \<le> 65535"
  shows "replace_managed_port cfg p = build_effective_config cs v mode p outbound_tag inbound_tag"
  using assms connection_port profile_port by (auto simp: build_effective_config_def split: if_splits)

lemma numbered_used_bound:
  assumes "\<forall>i < k. numbered base i \<in> set used"
  shows "k \<le> length used"
proof -
  have "k = card (numbered base ` {..<k})" by (simp add: card_image inj_on_def numbered_inject)
  also have "\<dots> \<le> card (set used)" using assms by (intro card_mono) auto
  also have "\<dots> \<le> length used" by (rule card_length)
  finally show ?thesis .
qed

lemma free_tag_least:
  "(\<forall>i < k. numbered base i \<in> set used) \<Longrightarrow>
     \<exists>n. free_tag base used k = numbered base n \<and> numbered base n \<notin> set used \<and> (\<forall>i < n. numbered base i \<in> set used)"
proof (induction base used k rule: free_tag.induct)
  case (1 base used k)
  then show ?case by (subst free_tag.simps) (auto simp: less_Suc_eq)
qed

text \<open>
  C39: the search for a tag ends: it returns the first of the base name and its numbered variants that is
  not in use, after at most as many attempts as there are tags in use.
\<close>

theorem free_tag_terminates:
  "\<exists>n \<le> length used. free_tag base used 0 = numbered base n \<and> numbered base n \<notin> set used
     \<and> (\<forall>i < n. numbered base i \<in> set used)"
proof -
  obtain n where n: "free_tag base used 0 = numbered base n" "numbered base n \<notin> set used"
    "\<forall>i < n. numbered base i \<in> set used"
    using free_tag_least [of 0 base used] by auto
  then show ?thesis using numbered_used_bound by blast
qed

text \<open>
  C13: connection mode keeps exactly the outbounds that the selected one reaches through chained
  dependencies, in the order of the profile, and is refused exactly when one of them does not exist.
\<close>

theorem chained_dependencies_closed:
  assumes "t \<in> tag_of ` set outs"
  shows "connection_outbounds outs t =
    (if (chained (by_tag outs))\<^sup>* `` {t} \<subseteq> tag_of ` set outs
     then Inr (filter (\<lambda>o1. (t, tag_of o1) \<in> (chained (by_tag outs))\<^sup>*) outs)
     else Inl (config_invalid ''selected outbound has a missing chained dependency''))"
  using assms by (rule connection_outbounds_eq)

section \<open>Witnesses\<close>

theorem connection_config_isolated_witness:
  "\<exists>t outs. item demo_connection ''inbounds'' = RList [RDict (socks_inbound 0 ''probe'' RNone)]
    \<and> item demo_connection ''routing'' = catch_all_routing ''probe'' t
    \<and> item demo_connection ''outbounds'' = RList (map RDict outs)
    \<and> tag_of ` set outs = (chained (by_tag outs))\<^sup>* `` {t}"
proof -
  have "build_connection_config undefined (MappingValue demo_profile) 0 (Some ''proxy'') ''probe'' = Inr demo_connection"
    using demo_connection_built [of undefined] by (simp add: build_effective_config_def)
  from connection_config_isolated [OF this] show ?thesis by blast
qed

theorem effective_config_sealed_witness:
  "item demo_connection ''log'' = managed_log \<and> \<not> has_key demo_connection ''api''
    \<and> (\<exists>outs. outs \<noteq> [] \<and> item demo_connection ''outbounds'' = RList (map RDict outs))"
  using effective_config_sealed [OF demo_connection_built [of undefined]] by (auto simp: UNSAFE_TOP_LEVEL_def)

definition demo_in_profile :: json_object where
  "demo_in_profile = profile_result demo_profile 0 ''xray-e2e-prober-socks-1'' (RDict [(''enabled'', RBool True)])
     [[(''tag'', RStr ''proxy''), (''protocol'', RStr ''vless''),
        (''settings'', RDict [(''vnext'', RList [RDict [(''address'', RStr ''node.example.org'')]])]),
        (''proxySettings'', RDict [(''tag'', RStr ''hop'')])],
      [(''protocol'', RStr ''freedom'')],
      [(''tag'', RStr ''hop''), (''protocol'', RStr ''vless'')]]"

lemma demo_profile_built:
  "build_profile_config cs (MappingValue demo_profile) 0 None = Inr demo_in_profile"
  by code_simp


theorem replaced_port_is_built_witness:
  "replace_managed_port demo_connection 10808
     = build_effective_config undefined (MappingValue demo_profile) ''connection'' 10808 (Some ''proxy'') (Some ''probe'')"
  using replaced_port_is_built [OF demo_connection_built [of undefined], of 10808] by simp

theorem free_tag_terminates_witness:
  "\<exists>n. n \<le> 2 \<and> free_tag ''probe'' [''probe-1'', ''probe''] 0 = numbered ''probe'' n
     \<and> numbered ''probe'' n \<notin> {''probe-1'', ''probe''}"
proof -
  obtain n where "n \<le> length [''probe-1'', ''probe'']"
    "free_tag ''probe'' [''probe-1'', ''probe''] 0 = numbered ''probe'' n"
    "numbered ''probe'' n \<notin> set [''probe-1'', ''probe'']"
    using free_tag_terminates [of "[''probe-1'', ''probe'']" "''probe''"] by blast
  then show ?thesis by (intro exI [of _ n]) simp
qed

theorem chained_dependencies_closed_witness:
  "connection_outbounds [[(''tag'', RStr ''a''), (''proxySettings'', RDict [(''tag'', RStr ''gone'')])]] ''a''
     = Inl (config_invalid ''selected outbound has a missing chained dependency'')"
proof -
  let ?outs = "[[(''tag'', RStr ''a''), (''proxySettings'', RDict [(''tag'', RStr ''gone'')])]]"
  have tag: "tag_of (hd ?outs) = ''a''" by code_simp
  have "deps_of (by_tag ?outs) ''a'' = {''gone''}" by code_simp
  then have "(''a'', ''gone'') \<in> (chained (by_tag ?outs))\<^sup>*" by (simp add: chained_def r_into_rtrancl)
  then have "\<not> (chained (by_tag ?outs))\<^sup>* `` {''a''} \<subseteq> tag_of ` set ?outs" using tag by auto
  then show ?thesis using chained_dependencies_closed [of "''a''" ?outs] tag by simp
qed

end
