(* ===== verification/ServiceState.thy ===== *)
theory ServiceState
  imports Config Metrics DataStore
begin

text \<open>
  \<open>src/xray_e2e_prober/service.py\<close>, first part: the in-memory state of \<open>ProberService\<close>, the results of
  checks (execution, publication, error counters, invalidation), manual runs with their exit code, and
  the snapshots for the API and the metrics. The clock, fresh run identifiers, what the runtime pool
  and the checker return and the size of the pool and the queue are arguments of the operations.
\<close>

section \<open>State\<close>

record SourceStatus =
  ss_source_id :: string
  ss_refresh_success :: "bool option"
  ss_last_success :: rat
  ss_last_attempt :: rat
  ss_reason :: "string option"
  ss_detail :: "string option"
  ss_candidate_count :: "nat option"

definition new_status :: "string \<Rightarrow> SourceStatus" where
  "new_status sid = \<lparr>ss_source_id = sid, ss_refresh_success = None, ss_last_success = 0,
     ss_last_attempt = 0, ss_reason = None, ss_detail = None, ss_candidate_count = None\<rparr>"

record service =
  svc_config :: "AppConfig option"
  svc_generations :: "(string, SourceGeneration) dict"
  svc_identity :: IdentityRegistry
  svc_inventory :: "(string, CompiledCheck) dict"
  svc_results :: "(string, RunResult) dict"
  svc_errors :: "(string, (string, nat) dict) dict"
  svc_status :: "(string, SourceStatus) dict"
  svc_reload_success :: bool
  svc_ready :: bool
  svc_stopping :: bool
  svc_loaded_ids :: "string set"
  svc_schedule_enabled :: bool
  svc_has_executor :: bool

text \<open>
  What the service is built on: the serialisers of the store, the canonical JSON text of a
  configuration, SHA-256, the regular expression engine, and \<open>model_dump\<close> of a result.
\<close>

record service_env =
  se_store :: store_env
  se_canonical :: "raw \<Rightarrow> string"
  se_sha256 :: "string \<Rightarrow> string"
  se_regex :: regex_engine
  se_dump_result :: "RunResult \<Rightarrow> (string, raw) dict"

definition new_service :: "bool \<Rightarrow> service" where
  "new_service schedule =
     \<lparr>svc_config = None, svc_generations = [], svc_identity = [], svc_inventory = [], svc_results = [],
      svc_errors = [], svc_status = [], svc_reload_success = False, svc_ready = False,
      svc_stopping = False, svc_loaded_ids = {}, svc_schedule_enabled = schedule, svc_has_executor = False\<rparr>"

definition revision_of :: "service_env \<Rightarrow> AppConfig option \<Rightarrow> string option" where
  "revision_of E c =
     map_option (\<lambda>c. se_sha256 E (se_canonical E (RDict (config_to_dict True c)))) c"

definition compiled_for :: "service_env \<Rightarrow> service \<Rightarrow> AppConfig \<Rightarrow> InventoryFailure + (string, CompiledCheck) dict" where
  "compiled_for E s c = compile_inventory (se_sha256 E) (se_regex E) c (svc_generations s)"

section \<open>Counters\<close>

text \<open>\<open>counter[k] += 1\<close> on a \<open>Counter\<close>, and \<open>errors.setdefault(check_id, Counter())[k] += 1\<close>.\<close>

definition count_up :: "string \<Rightarrow> (string, nat) dict \<Rightarrow> (string, nat) dict" where
  "count_up k d = dict_set k (Suc (case dict_get d k of Some n \<Rightarrow> n | None \<Rightarrow> 0)) d"

definition counter_of :: "string \<Rightarrow> service \<Rightarrow> (string, nat) dict" where
  "counter_of cid s = (case dict_get (svc_errors s) cid of Some d \<Rightarrow> d | None \<Rightarrow> [])"

definition count_reason :: "string \<Rightarrow> string \<Rightarrow> service \<Rightarrow> service" where
  "count_reason cid k s = s\<lparr>svc_errors := dict_set cid (count_up k (counter_of cid s)) (svc_errors s)\<rparr>"

definition result_reasons :: "RunResult \<Rightarrow> Reason list" where
  "result_reasons r =
     (case run_reason r of Some x \<Rightarrow> [x] | None \<Rightarrow> [])
     @ List.map_filter tr_reason (target_results r) @ List.map_filter er_reason (egress_results r)"

definition count_errors :: "RunResult \<Rightarrow> service \<Rightarrow> service" where
  "count_errors r s = s\<lparr>svc_errors := dict_set (run_check_id r)
     (fold (\<lambda>x. count_up (reason_value x)) (result_reasons r) (counter_of (run_check_id r) s)) (svc_errors s)\<rparr>"

section \<open>Results of the current inventory\<close>

definition is_current :: "service_env \<Rightarrow> service \<Rightarrow> RunResult \<Rightarrow> bool" where
  "is_current E s r \<longleftrightarrow>
     (case dict_get (svc_inventory s) (run_check_id r) of
        Some c \<Rightarrow> chk_generation (definition_of c) = run_generation r
                  \<and> config_revision r = revision_of E (svc_config s)
      | None \<Rightarrow> False)"

text \<open>\<open>_drop_obsolete_results\<close>: a result is keyed by its own check identifier.\<close>

definition obsolete_result :: "service_env \<Rightarrow> service \<Rightarrow> string \<Rightarrow> RunResult \<Rightarrow> bool" where
  "obsolete_result E s cid r \<longleftrightarrow>
     (case dict_get (svc_inventory s) cid of
        None \<Rightarrow> True
      | Some c \<Rightarrow> chk_generation (definition_of c) \<noteq> run_generation r
                  \<or> config_revision r \<noteq> revision_of E (svc_config s))"

definition drop_obsolete_results :: "service_env \<Rightarrow> service \<Rightarrow> service" where
  "drop_obsolete_results E s =
     (let gone = map fst (filter (\<lambda>(cid, r). obsolete_result E s cid r) (svc_results s));
          dead = filter (\<lambda>cid. dict_get (svc_inventory s) cid = None) (dict_keys (svc_errors s))
      in s\<lparr>svc_results := fold dict_pop gone (svc_results s),
           svc_loaded_ids := svc_loaded_ids s - set gone,
           svc_errors := fold dict_pop dead (svc_errors s)\<rparr>)"

text \<open>
  \<open>_drop_and_prune_obsolete_results\<close>: the memory is pruned in any case; files that cannot be removed are
  left with a warning. An error of another class than \<open>StorageError\<close> is reported by the flag.
\<close>

definition attempt :: "(path, 'a) io \<Rightarrow> (path, storage_error + 'a) io" where
  "attempt m w = (case m w of (r, w') \<Rightarrow> (Inr r, w'))"

definition tolerated :: "storage_error + 'a \<Rightarrow> bool" where
  "tolerated r \<longleftrightarrow> (case r of Inl (StorageError _) \<Rightarrow> True | Inl _ \<Rightarrow> False | Inr _ \<Rightarrow> True)"

definition drop_and_prune :: "service_env \<Rightarrow> service \<Rightarrow> (path, service \<times> bool) io" where
  "drop_and_prune E s =
     bindI (attempt (prune_results (dict_keys (svc_inventory s)))) (\<lambda>r.
       returnI (drop_obsolete_results E s, tolerated r))"

section \<open>Execution\<close>

text \<open>
  What the pool and the checker do for one check: a cycle, an error of the runtime with its \<open>reason\<close>
  attribute and text, or any other exception.
\<close>

datatype cycle_outcome = CycleDone CycleResult | RuntimeFailure string string | OtherFailureOutcome

definition reason_of :: "string \<Rightarrow> Reason" where
  "reason_of v =
     (case List.find (\<lambda>r. reason_value r = v)
        [CONNECT, PROXY, DNS, TIMEOUT, TLS, HTTP_STATUS, BODY_MISMATCH, EGRESS_MISMATCH, RESPONSE_INVALID,
         CONFIG_INVALID, Reason.UNSUPPORTED, RUNTIME_START, RUNTIME_EXIT, SCHEDULER, SOURCE_FETCH,
         SOURCE_PARSE, Reason.IDENTITY_CONFLICT, INTERNAL] of
        Some r \<Rightarrow> r | None \<Rightarrow> INTERNAL)"

definition blank_run ::
  "service_env \<Rightarrow> string \<Rightarrow> AppConfig option \<Rightarrow> string \<Rightarrow> CompiledCheck \<Rightarrow> rat \<Rightarrow> rat \<Rightarrow> RunResult" where
  "blank_run E rid c inst check begun finished =
     (let d = definition_of check
      in \<lparr>run_id = rid, run_check_id = check_id d, run_instance_id = inst,
          run_source_id = chk_source_id d, run_entry_id = chk_entry_id d, run_mode = chk_mode d,
          run_target_set_id = chk_target_set_id d, run_generation = chk_generation d,
          config_revision = revision_of E c, run_state = ReachabilityState.ERROR, run_running = False,
          run_started_at = begun, run_completed_at = Some finished, run_success_count = 0,
          run_quorum = quorum (cc_target_set check), target_results = [], egress_results = [],
          run_reason = None, run_error = None\<rparr>)"

definition error_run ::
  "service_env \<Rightarrow> string \<Rightarrow> AppConfig option \<Rightarrow> string \<Rightarrow> CompiledCheck \<Rightarrow> rat \<Rightarrow> rat \<Rightarrow> Reason \<Rightarrow> string \<Rightarrow> RunResult" where
  "error_run E rid c inst check begun finished reason text =
     (blank_run E rid c inst check begun finished)\<lparr>run_reason := Some reason, run_error := Some text\<rparr>"

definition cycle_run ::
  "service_env \<Rightarrow> string \<Rightarrow> AppConfig option \<Rightarrow> string \<Rightarrow> CompiledCheck \<Rightarrow> CycleResult \<Rightarrow> RunResult" where
  "cycle_run E rid c inst check cycle =
     (blank_run E rid c inst check (started_at cycle) (completed_at cycle))
       \<lparr>run_state := overall_state cycle, run_success_count := success_count (reachability cycle),
        run_quorum := rr_quorum (reachability cycle), target_results := rr_targets (reachability cycle),
        egress_results := egress cycle\<rparr>"

text \<open>
  The result that \<open>execute\<close> builds. A cycle whose times the model \<open>RunResult\<close> refuses is an internal
  error, like every unexpected exception.
\<close>

definition run_outcome ::
  "service_env \<Rightarrow> string \<Rightarrow> AppConfig \<Rightarrow> CompiledCheck \<Rightarrow> rat \<Rightarrow> rat \<Rightarrow> cycle_outcome \<Rightarrow> RunResult" where
  "run_outcome E rid c check begun finished outcome =
     (let err = error_run E rid (Some c) (instance_id c) check begun finished
      in case outcome of
           CycleDone cycle \<Rightarrow>
             (case valid_times (cycle_run E rid (Some c) (instance_id c) check cycle) of
                Inr r \<Rightarrow> r
              | Inl _ \<Rightarrow> err INTERNAL ''internal executor error'')
         | RuntimeFailure reason text \<Rightarrow> err (reason_of reason) (redact_text 240 text)
         | OtherFailureOutcome \<Rightarrow> err INTERNAL ''internal executor error'')"

text \<open>
  Publication. The configuration, the inventory and the registry may have changed while the check ran:
  a result that is not current any more is returned but not kept. A result that cannot be saved is
  replaced by an error.
\<close>

definition unsaved :: "rat \<Rightarrow> RunResult \<Rightarrow> RunResult" where
  "unsaved now r = r\<lparr>run_state := ReachabilityState.ERROR, run_completed_at := Some now,
     run_success_count := 0, target_results := [], egress_results := [], run_reason := Some INTERNAL,
     run_error := Some ''result persistence failed''\<rparr>"

definition keep_result :: "RunResult \<Rightarrow> service \<Rightarrow> service" where
  "keep_result r s = s\<lparr>svc_results := dict_set (run_check_id r) r (svc_results s),
     svc_loaded_ids := svc_loaded_ids s - {run_check_id r}\<rparr>"

definition publish_result ::
  "service_env \<Rightarrow> rat \<Rightarrow> RunResult \<Rightarrow> service \<Rightarrow> (path, service \<times> RunResult) io" where
  "publish_result E now r s =
     (if \<not> is_current E s r then returnI (s, r)
      else bindI (attempt (save_result (se_store E) (se_dump_result E r))) (\<lambda>saved.
        let s = count_errors r (keep_result r s)
        in case saved of
             Inr _ \<Rightarrow> returnI (s, r)
           | Inl _ \<Rightarrow>
               returnI (count_reason (run_check_id r) (reason_value INTERNAL) (keep_result (unsaved now r) s),
                        unsaved now r)))"

text \<open>\<open>_execute_scheduled\<close> refuses an item of another generation before anything runs.\<close>

definition admitted_check :: "service \<Rightarrow> string \<Rightarrow> string \<Rightarrow> string + CompiledCheck" where
  "admitted_check s cid gen =
     (case dict_get (svc_inventory s) cid of
        Some c \<Rightarrow> (if chk_generation (definition_of c) = gen then Inr c
                   else Inl ''scheduled check belongs to an obsolete generation'')
      | None \<Rightarrow> Inl ''scheduled check belongs to an obsolete generation'')"

text \<open>\<open>previous_target_results\<close>: only those of the same generation and configuration.\<close>

definition previous_targets :: "service_env \<Rightarrow> service \<Rightarrow> CompiledCheck \<Rightarrow> TargetResult list" where
  "previous_targets E s check =
     (case dict_get (svc_results s) (check_id (definition_of check)) of
        Some r \<Rightarrow> (if run_generation r = chk_generation (definition_of check)
                      \<and> config_revision r = revision_of E (svc_config s) then target_results r else [])
      | None \<Rightarrow> [])"

text \<open>\<open>_scheduler_error\<close>: the scheduler reports work that it could not admit or that raised.\<close>

definition scheduler_failure ::
  "service_env \<Rightarrow> string \<Rightarrow> rat \<Rightarrow> string \<Rightarrow> string \<Rightarrow> string \<Rightarrow> service \<Rightarrow> (path, service) io" where
  "scheduler_failure E rid now cid gen reason s =
     (case (dict_get (svc_inventory s) cid, svc_config s) of
        (Some c, Some config) \<Rightarrow>
          (if \<not> chk_enabled (definition_of c) \<or> chk_generation (definition_of c) \<noteq> gen then returnI s
           else let r = error_run E rid (Some config) (instance_id config) c now now
                      (if reason = ''scheduler'' then SCHEDULER else INTERNAL)
                      (if reason = ''scheduler'' then ''scheduler could not admit the check''
                       else ''scheduled execution failed'')
                in bindI (attempt (save_result (se_store E) (se_dump_result E r))) (\<lambda>_.
                   returnI ((count_reason cid reason s)
                     \<lparr>svc_results := dict_set cid r (svc_results s), svc_loaded_ids := svc_loaded_ids s - {cid}\<rparr>)))
      | _ \<Rightarrow> returnI s)"

section \<open>Manual runs\<close>

definition selected_checks :: "service \<Rightarrow> string option \<Rightarrow> string + CompiledCheck list" where
  "selected_checks s cid =
     (if \<not> svc_ready s then Inl ''service is not ready''
      else if truthy cid
      then (case dict_get (svc_inventory s) (the cid) of
              None \<Rightarrow> Inl ''check not found''
            | Some c \<Rightarrow> (if chk_enabled (definition_of c) then Inr [c] else Inl ''check is disabled''))
      else Inr (enabled_checks (svc_inventory s)))"

definition exit_code :: "RunResult list \<Rightarrow> nat" where
  "exit_code results =
     (let states = map run_state results; egr = map er_state (concat (map egress_results results))
      in if list_ex (\<lambda>x. x \<notin> {ReachabilityState.SUCCESS, ReachabilityState.FAILURE}) states
            \<or> list_ex (\<lambda>x. x \<in> {EgressState.ERROR, EgressState.UNKNOWN, EgressState.STALE}) egr
         then 2
         else if list_ex (\<lambda>x. x = ReachabilityState.FAILURE) states \<or> list_ex (\<lambda>x. x = MISMATCH) egr
         then 1 else 0)"

text \<open>
  \<open>run_checks\<close>: \<open>run\<close> is \<open>_run_manual_check\<close> of one check, all of which run concurrently. Nothing
  selected is exit code 2.
\<close>

definition run_checks ::
  "service \<Rightarrow> string option \<Rightarrow> (CompiledCheck \<Rightarrow> string + RunResult) \<Rightarrow> string + RunResult list \<times> nat" where
  "run_checks s cid run =
     bindE (selected_checks s cid) (\<lambda>selected.
     if selected = [] then Inr ([], 2)
     else if \<not> svc_has_executor s then Inl ''scheduler is not initialized''
     else bindE (mapE run selected) (\<lambda>results. Inr (results, exit_code results)))"

text \<open>
  \<open>_run_manual_check\<close> when the scheduler refuses the request: the error result that the scheduler has
  just reported for the check, if there is one, and a fresh one otherwise.
\<close>

definition refused_run ::
  "service_env \<Rightarrow> service \<Rightarrow> string \<Rightarrow> rat \<Rightarrow> CompiledCheck \<Rightarrow> string \<Rightarrow> RunResult" where
  "refused_run E s rid now check text =
     (let d = definition_of check;
          fresh = error_run E rid (svc_config s)
            (case svc_config s of Some c \<Rightarrow> instance_id c | None \<Rightarrow> ''unconfigured'')
            check now now SCHEDULER (redact_text 240 text)
      in case dict_get (svc_results s) (check_id d) of
           Some r \<Rightarrow> (if run_generation r = chk_generation d \<and> run_reason r = Some SCHEDULER then r else fresh)
         | None \<Rightarrow> fresh)"

section \<open>Public views\<close>

text \<open>
  The dictionaries that \<open>_check_public\<close> renders. \<open>pt_result\<close> and \<open>pe_result\<close> are the measured fields of
  a result (duration, bytes, address and so on) where the code copies them.
\<close>

record target_public =
  pt_target_id :: string
  pt_kind :: string
  pt_direction :: "string option"
  pt_state :: string
  pt_reason :: "string option"
  pt_error :: "string option"
  pt_result :: "TargetResult option"

record egress_public =
  pe_assertion_id :: string
  pe_state :: string
  pe_reason :: "string option"
  pe_error :: "string option"
  pe_result :: "EgressResult option"

record check_public =
  pc_definition :: CheckDefinition
  pc_entry_name :: string
  pc_target_set_name :: string
  pc_assignment :: string
  pc_running :: bool
  pc_state :: string
  pc_last_run :: rat
  pc_age :: "rat option"
  pc_targets :: "target_public list"
  pc_egress :: "egress_public list"
  pc_errors_total :: "(string, nat) dict"
  pc_reason :: "string option"
  pc_error :: "string option"
  pc_success_count :: "nat option"
  pc_quorum :: "int option"

definition target_kind :: "TargetConfig \<Rightarrow> string" where
  "target_kind t = (if throughput t \<noteq> None then ''throughput'' else ''reachability'')"

definition target_direction :: "TargetConfig \<Rightarrow> string option" where
  "target_direction t =
     map_option (\<lambda>tp. case direction tp of Download \<Rightarrow> ''download'' | Upload \<Rightarrow> ''upload'') (throughput t)"

definition bare_target :: "string \<Rightarrow> TargetConfig \<Rightarrow> target_public" where
  "bare_target st t = \<lparr>pt_target_id = target_id t, pt_kind = target_kind t, pt_direction = target_direction t,
     pt_state = st, pt_reason = None, pt_error = None, pt_result = None\<rparr>"

definition bare_egress :: "string \<Rightarrow> EgressAssertionConfig \<Rightarrow> egress_public" where
  "bare_egress st a = \<lparr>pe_assertion_id = assertion_id a, pe_state = st, pe_reason = None, pe_error = None,
     pe_result = None\<rparr>"

definition missing_state :: "RunResult \<Rightarrow> string" where
  "missing_state r = (if run_state r = ReachabilityState.ERROR then ''error'' else ''unknown'')"

definition rendered_target :: "RunResult \<Rightarrow> TargetConfig \<Rightarrow> target_public" where
  "rendered_target r t =
     (if \<not> target_enabled t then bare_target ''disabled'' t
      else case dict_get (dict_of (map (\<lambda>x. (tr_target_id x, x)) (target_results r))) (target_id t) of
        None \<Rightarrow> (bare_target (missing_state r) t)
                 \<lparr>pt_reason := map_option reason_value (run_reason r), pt_error := run_error r\<rparr>
      | Some x \<Rightarrow> (bare_target (reachability_value (tr_state x)) t)
                 \<lparr>pt_reason := map_option reason_value (tr_reason x), pt_error := tr_error x, pt_result := Some x\<rparr>)"

definition rendered_egress :: "RunResult \<Rightarrow> EgressAssertionConfig \<Rightarrow> egress_public" where
  "rendered_egress r a =
     (if \<not> assertion_enabled a then bare_egress ''disabled'' a
      else case dict_get (dict_of (map (\<lambda>x. (er_assertion_id x, x)) (egress_results r))) (assertion_id a) of
        None \<Rightarrow> (bare_egress (missing_state r) a)
                 \<lparr>pe_reason := map_option reason_value (run_reason r), pe_error := run_error r\<rparr>
      | Some x \<Rightarrow> (bare_egress (egress_value (er_state x)) a)
                 \<lparr>pe_reason := map_option reason_value (er_reason x), pe_error := er_error x, pe_result := Some x\<rparr>)"

definition base_public :: "service \<Rightarrow> bool \<Rightarrow> CompiledCheck \<Rightarrow> check_public" where
  "base_public s running check =
     (let d = definition_of check;
          idle = (\<lambda>on. if chk_enabled d \<and> on then ''unknown'' else ''disabled'')
      in \<lparr>pc_definition = d, pc_entry_name = entry_name (cc_entry check),
          pc_target_set_name = target_set_name (cc_target_set check),
          pc_assignment = assignment_reason check, pc_running = running,
          pc_state = (if chk_enabled d then ''unknown'' else ''disabled''), pc_last_run = 0, pc_age = None,
          pc_targets = map (\<lambda>t. bare_target (idle (target_enabled t)) t) (targets (cc_target_set check)),
          pc_egress = map (\<lambda>a. bare_egress (idle (assertion_enabled a)) a) (cc_egress_assertions check),
          pc_errors_total = counter_of (check_id d) s, pc_reason = None, pc_error = None,
          pc_success_count = None, pc_quorum = None\<rparr>)"

definition is_stale :: "service \<Rightarrow> rat \<Rightarrow> RunResult \<Rightarrow> string \<Rightarrow> bool" where
  "is_stale s now r cid \<longleftrightarrow> cid \<in> svc_loaded_ids s
     \<or> (case (run_completed_at r, svc_config s) of
          (Some done, Some c) \<Rightarrow> now - done > max_result_age (scheduler c)
        | _ \<Rightarrow> False)"

definition check_public_of :: "service_env \<Rightarrow> service \<Rightarrow> rat \<Rightarrow> bool \<Rightarrow> CompiledCheck \<Rightarrow> check_public" where
  "check_public_of E s now running check =
     (let d = definition_of check; base = base_public s running check
      in case dict_get (svc_results s) (check_id d) of
           None \<Rightarrow> base
         | Some r \<Rightarrow>
             if \<not> chk_enabled d \<or> run_generation r \<noteq> chk_generation d
                \<or> (config_revision r \<noteq> None \<and> config_revision r \<noteq> revision_of E (svc_config s))
             then base
             else let stale = is_stale s now r (check_id d);
                      base = base\<lparr>pc_state := (if stale then ''stale'' else reachability_value (run_state r)),
                        pc_last_run := (case run_completed_at r of Some t \<Rightarrow> t | None \<Rightarrow> 0),
                        pc_age := map_option (\<lambda>t. max 0 (now - t)) (run_completed_at r),
                        pc_reason := map_option reason_value (run_reason r), pc_error := run_error r,
                        pc_success_count := Some (run_success_count r), pc_quorum := Some (run_quorum r)\<rparr>
                  in if stale
                     then base\<lparr>pc_targets := map (\<lambda>t. bare_target (if target_enabled t then ''stale'' else ''disabled'') t)
                                   (targets (cc_target_set check)),
                               pc_egress := map (\<lambda>a. bare_egress (if assertion_enabled a then ''stale'' else ''disabled'') a)
                                   (cc_egress_assertions check)\<rparr>
                     else base\<lparr>pc_targets := map (rendered_target r) (targets (cc_target_set check)),
                               pc_egress := map (rendered_egress r) (cc_egress_assertions check)\<rparr>)"

definition checks_snapshot :: "service_env \<Rightarrow> service \<Rightarrow> rat \<Rightarrow> (string \<Rightarrow> bool) \<Rightarrow> check_public list" where
  "checks_snapshot E s now running =
     map (\<lambda>c. check_public_of E s now (running (check_id (definition_of c))) c) (dict_values (svc_inventory s))"

text \<open>What the metrics collector reads of the snapshot.\<close>

definition target_view_of :: "target_public \<Rightarrow> target_view" where
  "target_view_of p =
     (let from = (\<lambda>f. case pt_result p of Some x \<Rightarrow> f x | None \<Rightarrow> None)
      in \<lparr>tv_target_id = pt_target_id p, tv_state = Some (pt_state p), tv_kind = Some (pt_kind p),
          tv_direction = pt_direction p, tv_duration_seconds = from duration_seconds,
          tv_ttfb_seconds = from ttfb_seconds,
          tv_bytes_read = from (\<lambda>x. map_option of_int (bytes_read x)),
          tv_bytes_written = from (\<lambda>x. map_option of_int (bytes_written x)),
          tv_transfer_seconds = from transfer_seconds, tv_throughput_mbps = from throughput_mbps,
          tv_measurement_timestamp = from measurement_timestamp\<rparr>)"

definition check_view_of :: "check_public \<Rightarrow> check_view" where
  "check_view_of p =
     (let d = pc_definition p
      in \<lparr>cv_check_id = check_id d, cv_source_id = chk_source_id d, cv_entry_name = Some (pc_entry_name p),
          cv_mode = check_mode_value (chk_mode d), cv_target_set_id = chk_target_set_id d,
          cv_state = Some (pc_state p), cv_last_run_timestamp = Some (pc_last_run p),
          cv_targets = map target_view_of (pc_targets p),
          cv_egress = map (\<lambda>e. \<lparr>ev_assertion_id = pe_assertion_id e, ev_state = Some (pe_state e)\<rparr>) (pc_egress p),
          cv_errors_total = map (\<lambda>(k, n). (k, of_nat n)) (pc_errors_total p)\<rparr>)"

definition status_snapshot ::
  "service_env \<Rightarrow> service \<Rightarrow> rat \<Rightarrow> (string \<Rightarrow> bool) \<Rightarrow> nat \<Rightarrow> nat \<Rightarrow> status_view" where
  "status_snapshot E s now running active queued_items =
     \<lparr>sn_instance_id = Some (case svc_config s of Some c \<Rightarrow> instance_id c | None \<Rightarrow> ''unconfigured''),
      sn_checks = map check_view_of (checks_snapshot E s now running),
      sn_config_reload_success = Some (svc_reload_success s),
      sn_sources = map (\<lambda>x. \<lparr>sv_source_id = ss_source_id x, sv_refresh_success = ss_refresh_success x,
          sv_last_success_timestamp = Some (ss_last_success x)\<rparr>) (dict_values (svc_status s)),
      sn_runtime_active = Some (of_nat active), sn_queue_size = Some (of_nat queued_items)\<rparr>"

definition check_ids_of_entry :: "service \<Rightarrow> string \<Rightarrow> string list" where
  "check_ids_of_entry s eid =
     (case dict_get (group_by (\<lambda>c. chk_entry_id (definition_of c)) (dict_values (svc_inventory s))) eid of
        Some cs \<Rightarrow> sort (map (\<lambda>c. check_id (definition_of c)) cs) | None \<Rightarrow> [])"

definition entries_snapshot :: "service \<Rightarrow> (EntryRecord \<times> string list) list" where
  "entries_snapshot s =
     concat (map (\<lambda>g. map (\<lambda>e. (e, check_ids_of_entry s (entry_id e))) (entries g)) (dict_values (svc_generations s)))"

end
