(* ===== verification/SourceCommit.thy ===== *)
theory SourceCommit
  imports ServiceState EffectiveConfig
begin

text \<open>
  \<open>src/xray_e2e_prober/service.py\<close>, second part: how a source gets a new last-known-good generation.
  Candidates are fetched and parsed, reconciled with the identity registry on a copy, compiled and
  tested; \<open>_commit_source_state\<close> then publishes the generation and swaps the memory. What comes from
  outside a request (the payload of the loader, fresh identifiers, the clock, the verdict of
  \<open>xray -test\<close>, whether the pool and the scheduler accept the new checks) is the record
  \<open>source_request\<close>.
\<close>

section \<open>Refusals\<close>

text \<open>
  Exceptions as the handlers of \<open>refresh_source\<close> tell them apart: those that carry a reason and a text
  (\<open>ServiceError\<close> has none and gets \<open>identity_conflict\<close>), \<open>InventoryError\<close>, and every other one.
\<close>

datatype refusal = Refusal string string | CapacityRefusal string | InternalRefusal

abbreviation service_error :: "string \<Rightarrow> refusal" where
  "service_error m \<equiv> Refusal ''identity_conflict'' m"

definition raise_as :: "('e \<Rightarrow> refusal) \<Rightarrow> 'e + 'a \<Rightarrow> refusal + 'a" where
  "raise_as f r = (case r of Inl e \<Rightarrow> Inl (f e) | Inr a \<Rightarrow> Inr a)"

fun refuse_fetch :: "fetch_error \<Rightarrow> refusal" where
  "refuse_fetch (SourceFetchError m) = Refusal ''source_fetch'' m"
| "refuse_fetch _ = InternalRefusal"

fun refuse_import :: "import_error \<Rightarrow> refusal" where
  "refuse_import (SourceImportError m) = Refusal ''source_parse'' m"
| "refuse_import (UnknownSourceFormatError m) = Refusal ''source_parse'' m"
| "refuse_import (UnsupportedEntryError m) = Refusal ''unsupported'' m"
| "refuse_import (InvalidEntryError m) = Refusal ''source_parse'' m"
| "refuse_import _ = InternalRefusal"

fun refuse_effective :: "effective_error \<Rightarrow> refusal" where
  "refuse_effective (EffectiveConfigError r m) = Refusal r m"
| "refuse_effective EffOtherException = InternalRefusal"

fun refuse_inventory :: "InventoryFailure \<Rightarrow> refusal" where
  "refuse_inventory (InventoryError m) = CapacityRefusal m"
| "refuse_inventory (ValueError _) = InternalRefusal"

section \<open>Requests\<close>

datatype xray_test = TestPassed | TestFailed string string | TestCrashed

record source_request =
  rq_codecs :: codecs
  rq_payload :: "fetch_error + SourcePayload"
  rq_fresh_entry :: "nat \<Rightarrow> string"
  rq_compare_id :: string
  rq_generation_id :: string
  rq_state_ids :: "string \<times> string"
  rq_attempt_time :: rat
  rq_accept_time :: rat
  rq_config_test :: "json_object \<Rightarrow> xray_test"
  rq_pool_accepts :: bool
  rq_scheduler_accepts :: bool

section \<open>Candidates\<close>

definition index_text :: "nat \<Rightarrow> string" where
  "index_text n = (let t = number_text 10 n in replicate (4 - length t) (CHR ''0'') @ t)"

definition imported_value :: "ImportedEntry \<Rightarrow> entry_value" where
  "imported_value e = EntryValue (imp_payload e) (imp_profile e) (imp_outbound_tag e) (imp_inbound_tag e)"

definition check_imported :: "codecs \<Rightarrow> ImportedEntry \<Rightarrow> refusal + unit" where
  "check_imported cs e =
     (case imp_profile e of
        Some (RDict _) \<Rightarrow>
          (case validate_imported_profile cs (imported_value e) of
             Inr _ \<Rightarrow> Inr ()
           | Inl (EffectiveConfigError _ m) \<Rightarrow>
               Inl (refuse_import (SourceImportError (''entry '' @ candidate_id e @ '': '' @ m)))
           | Inl EffOtherException \<Rightarrow> Inl InternalRefusal)
      | _ \<Rightarrow> Inr ())"

definition payload_documents :: "SourcePayload \<Rightarrow> string list" where
  "payload_documents p = (if sp_documents p = [] then [sp_content p] else sp_documents p)"

definition import_document ::
  "codecs \<Rightarrow> SourceConfig \<Rightarrow> bool \<Rightarrow> nat \<times> string \<Rightarrow> ImportedEntry list \<Rightarrow> refusal + ImportedEntry list" where
  "import_document cs source several doc acc =
     bindE (raise_as refuse_import
              (import_content cs (Bytes (snd doc)) (source_format source) (Some (source_id source)))) (\<lambda>parsed.
     let parsed = (if several
           then map (\<lambda>e. e\<lparr>candidate_id := CHR ''d'' # index_text (fst doc) @ ''_'' @ candidate_id e\<rparr>) parsed
           else parsed)
     in bindE (foldE (\<lambda>e _. check_imported cs e) parsed ()) (\<lambda>_.
        if length (acc @ parsed) > MAX_ENTRIES
        then Inl (refuse_import (SourceImportError ''source contains too many entries''))
        else Inr (acc @ parsed)))"

definition fetch_source_candidates ::
  "codecs \<Rightarrow> SourceConfig \<Rightarrow> fetch_error + SourcePayload \<Rightarrow> refusal + ImportedEntry list" where
  "fetch_source_candidates cs source fetched =
     bindE (raise_as refuse_fetch fetched) (\<lambda>p.
     let docs = payload_documents p
     in foldE (import_document cs source (length docs > 1)) (enumerate 1 docs) [])"

definition service_source :: "service \<Rightarrow> string \<Rightarrow> refusal + SourceConfig" where
  "service_source s sid =
     (case svc_config s of
        None \<Rightarrow> Inl (service_error ''configuration is not loaded'')
      | Some c \<Rightarrow> (case List.find (\<lambda>x. source_id x = sid) (sources c) of
          Some x \<Rightarrow> Inr x | None \<Rightarrow> Inl (service_error ''source not found'')))"

definition accepted_candidates :: "source_request \<Rightarrow> SourceConfig \<Rightarrow> refusal + ImportedEntry list" where
  "accepted_candidates rq source =
     bindE (fetch_source_candidates (rq_codecs rq) source (rq_payload rq)) (\<lambda>cands.
     if cands = [] \<and> \<not> allow_empty source
     then Inl (refuse_import (SourceImportError ''empty source rejected by allow_empty policy''))
     else Inr cands)"

section \<open>Comparison of entries\<close>

text \<open>\<open>==\<close> of JSON values: numbers by value (\<open>True\<close> is 1), objects without regard to the order of keys.\<close>

fun py_eq :: "raw \<Rightarrow> raw \<Rightarrow> bool" and py_eq_items :: "raw list \<Rightarrow> raw list \<Rightarrow> bool"
  and py_eq_pairs :: "(string \<times> raw) list \<Rightarrow> (string, raw) dict \<Rightarrow> bool" where
  "py_eq (RDict a) w = (case w of RDict b \<Rightarrow> length a = length b \<and> py_eq_pairs a b | _ \<Rightarrow> False)"
| "py_eq (RList a) w = (case w of RList b \<Rightarrow> py_eq_items a b | _ \<Rightarrow> False)"
| "py_eq (RStr a) w = (w = RStr a)"
| "py_eq RNone w = (w = RNone)"
| "py_eq (RBool a) w = (key_number w = Some (if a then 1 else 0))"
| "py_eq (RInt a) w = (key_number w = Some (of_int a))"
| "py_eq (RFloat a) w = (key_number w = Some a)"
| "py_eq_items [] b = (b = [])"
| "py_eq_items (x # xs) b = (case b of [] \<Rightarrow> False | y # ys \<Rightarrow> py_eq x y \<and> py_eq_items xs ys)"
| "py_eq_pairs [] b = True"
| "py_eq_pairs ((k, v) # kvs) b =
     ((case dict_get b k of Some w \<Rightarrow> py_eq v w | None \<Rightarrow> False) \<and> py_eq_pairs kvs b)"

definition py_eq_opt :: "raw option \<Rightarrow> raw option \<Rightarrow> bool" where
  "py_eq_opt a b = (case (a, b) of (None, None) \<Rightarrow> True | (Some x, Some y) \<Rightarrow> py_eq x y | _ \<Rightarrow> False)"

text \<open>\<open>normalized(previous) == normalized(candidate)\<close>: every field but the generation.\<close>

definition same_entry :: "EntryRecord \<Rightarrow> EntryRecord \<Rightarrow> bool" where
  "same_entry a b \<longleftrightarrow> py_eq_opt (payload a) (payload b) \<and> py_eq_opt (profile a) (profile b)
     \<and> py_eq (RDict (metadata a)) (RDict (metadata b))
     \<and> a\<lparr>entry_generation := [], payload := None, profile := None, metadata := []\<rparr>
       = b\<lparr>entry_generation := [], payload := None, profile := None, metadata := []\<rparr>"

definition entries_equal :: "EntryRecord list \<Rightarrow> EntryRecord list \<Rightarrow> bool" where
  "entries_equal = list_all2 same_entry"

section \<open>Tests of the inventory\<close>

definition record_value :: "EntryRecord \<Rightarrow> entry_value" where
  "record_value e = EntryValue (payload e) (profile e) (entry_outbound_tag e) (entry_inbound_tag e)"

text \<open>\<open>manager.validate_for\<close>: build the configuration, validate it, and let \<open>xray -test\<close> read it.\<close>

definition validate_for :: "codecs \<Rightarrow> (json_object \<Rightarrow> xray_test) \<Rightarrow> CompiledCheck \<Rightarrow> refusal + unit" where
  "validate_for cs test c =
     (let d = definition_of c
      in bindE (raise_as refuse_effective (build_effective_config cs (record_value (cc_entry c))
             (check_mode_value (chk_mode d)) 0 (chk_outbound_tag d) (chk_inbound_tag d))) (\<lambda>cfg.
         bindE (raise_as refuse_effective (validate_effective_config cfg (Some 0) None)) (\<lambda>_.
         case test cfg of
           TestPassed \<Rightarrow> Inr ()
         | TestFailed reason m \<Rightarrow> Inl (Refusal reason m)
         | TestCrashed \<Rightarrow> Inl InternalRefusal)))"

definition validate_check ::
  "codecs \<Rightarrow> (json_object \<Rightarrow> xray_test) \<Rightarrow> string option \<Rightarrow> CompiledCheck \<Rightarrow> profile_id list
     \<Rightarrow> refusal + profile_id list" where
  "validate_check cs test only c done_keys =
     (if \<not> chk_enabled (definition_of c) \<or> (only \<noteq> None \<and> only \<noteq> Some (chk_source_id (definition_of c)))
         \<or> profile_key c \<in> set done_keys
      then Inr done_keys
      else bindE (validate_for cs test c) (\<lambda>_. Inr (profile_key c # done_keys)))"

definition validate_inventory ::
  "codecs \<Rightarrow> (json_object \<Rightarrow> xray_test) \<Rightarrow> (string, CompiledCheck) dict \<Rightarrow> string option \<Rightarrow> refusal + unit" where
  "validate_inventory cs test inventory only =
     bindE (foldE (validate_check cs test only) (dict_values inventory) []) (\<lambda>_. Inr ())"

section \<open>The new generation\<close>

text \<open>
  A plan is what is handed to \<open>_commit_source_state\<close>. It is the same for a refresh and for a manual
  reconciliation, up to the registry and the metadata. The entries of an unchanged source keep their
  generation; nothing but the registry is published for it again.
\<close>

record source_plan =
  pl_generation :: SourceGeneration
  pl_registry :: IdentityRegistry
  pl_generations :: "(string, SourceGeneration) dict"
  pl_inventory :: "(string, CompiledCheck) dict"
  pl_changed :: bool

definition entry_records ::
  "ImportedEntry list \<Rightarrow> ReconciliationResult \<Rightarrow> string \<Rightarrow> refusal + EntryRecord list" where
  "entry_records cands r gid =
     raise_as (\<lambda>_. InternalRefusal)
       (mapE (\<lambda>e. bindE (entry_id_for r (candidate_id e)) (\<lambda>eid. to_entry_record e eid gid)) cands)"

definition changed_plan ::
  "service_env \<Rightarrow> source_request \<Rightarrow> service \<Rightarrow> string \<Rightarrow> ImportedEntry list \<Rightarrow> IdentityRegistry
     \<Rightarrow> ReconciliationResult \<Rightarrow> (string, raw) dict \<Rightarrow> refusal + source_plan" where
  "changed_plan E rq s sid cands reg r extra =
     (let gid = rq_generation_id rq
      in bindE (entry_records cands r gid) (\<lambda>es.
         bindE (raise_as (\<lambda>_. InternalRefusal) (validate_SourceGeneration
             \<lparr>gen_source_id = sid, generation = gid, accepted_at = rq_accept_time rq, entries = es,
              gen_metadata = (''entry_count'', RInt (int (length es))) # extra\<rparr>)) (\<lambda>g.
         case svc_config s of
           None \<Rightarrow> Inl (service_error ''configuration is not loaded'')
         | Some c \<Rightarrow>
             (let gens = dict_set sid g (svc_generations s)
              in bindE (raise_as refuse_inventory
                          (compile_inventory (se_sha256 E) (se_regex E) c gens)) (\<lambda>inv.
                 if \<not> svc_has_executor s then Inl (service_error ''runtime manager is not initialized'')
                 else bindE (validate_inventory (rq_codecs rq) (rq_config_test rq) inv (Some sid)) (\<lambda>_.
                      Inr \<lparr>pl_generation = g, pl_registry = reg, pl_generations = gens, pl_inventory = inv,
                           pl_changed = True\<rparr>))))))"

text \<open>The entries as they would be in the current generation, for the comparison with it.\<close>

definition compared_entries ::
  "source_request \<Rightarrow> service \<Rightarrow> string \<Rightarrow> ImportedEntry list \<Rightarrow> ReconciliationResult \<Rightarrow> refusal + EntryRecord list" where
  "compared_entries rq s sid cands r =
     entry_records cands r
       (case dict_get (svc_generations s) sid of Some g \<Rightarrow> generation g | None \<Rightarrow> rq_compare_id rq)"

definition source_plan_of ::
  "service_env \<Rightarrow> source_request \<Rightarrow> service \<Rightarrow> string \<Rightarrow> ImportedEntry list \<Rightarrow> IdentityRegistry
     \<Rightarrow> ReconciliationResult \<Rightarrow> (string, raw) dict \<Rightarrow> EntryRecord list \<Rightarrow> refusal + source_plan" where
  "source_plan_of E rq s sid cands reg r extra compared =
     (case dict_get (svc_generations s) sid of
        None \<Rightarrow> changed_plan E rq s sid cands reg r extra
      | Some g \<Rightarrow>
          if entries_equal (entries g) compared
          then Inr \<lparr>pl_generation = g, pl_registry = reg, pl_generations = svc_generations s,
                    pl_inventory = svc_inventory s, pl_changed = False\<rparr>
          else changed_plan E rq s sid cands reg r extra)"

text \<open>
  A refresh reconciles first without applying anything; conflicts are left to the operator. The
  registry that is published is a copy with the reconciliation applied.
\<close>

definition refresh_plan ::
  "service_env \<Rightarrow> source_request \<Rightarrow> service \<Rightarrow> string \<Rightarrow> ImportedEntry list \<Rightarrow> refusal + source_plan" where
  "refresh_plan E rq s sid cands =
     (let ids = map from_entry cands; fresh = rq_fresh_entry rq; internal = raise_as (\<lambda>_. InternalRefusal)
      in bindE (internal (reconcile fresh sid ids False (svc_identity s))) (\<lambda>(_, dry).
         if \<not> rec_ok dry then Inl (service_error ''source entries require identity reconciliation'')
         else bindE (internal (reconcile fresh sid ids True (svc_identity s))) (\<lambda>(reg, r).
              bindE (compared_entries rq s sid cands r)
                (source_plan_of E rq s sid cands (fst (prune_unmatchable_inactive reg)) r []))))"

text \<open>\<open>_candidate_revision\<close>: what the operator saw when the mapping was made.\<close>

definition candidate_revision ::
  "service_env \<Rightarrow> (ImportedEntry \<Rightarrow> raw) \<Rightarrow> service \<Rightarrow> string \<Rightarrow> ImportedEntry list \<Rightarrow> string" where
  "candidate_revision E dump s sid cands =
     (let text = (\<lambda>x. case x of Some t \<Rightarrow> RStr t | None \<Rightarrow> RNone)
      in se_sha256 E (se_canonical E (RDict
        [(''source_id'', RStr sid),
         (''config_revision'', text (revision_of E (svc_config s))),
         (''generation'', text (map_option generation (dict_get (svc_generations s) sid))),
         (''bindings'', RList (dump_bindings (se_store E) (bindings_of sid (svc_identity s)))),
         (''candidates'', RList (map dump cands))])))"

definition manual_registry ::
  "service_env \<Rightarrow> (ImportedEntry \<Rightarrow> raw) \<Rightarrow> service \<Rightarrow> string \<Rightarrow> (string, string) dict
     \<Rightarrow> string \<Rightarrow> ImportedEntry list \<Rightarrow> refusal + IdentityRegistry \<times> ReconciliationResult" where
  "manual_registry E dump s sid mapping expected cands =
     (if expected \<noteq> candidate_revision E dump s sid cands
      then Inl (service_error ''source candidates changed concurrently; restart reconciliation'')
      else bindE (raise_as (\<lambda>_. InternalRefusal)
                   (apply_manual_mapping sid (map from_entry cands) mapping (svc_identity s))) (\<lambda>(reg, r).
           Inr (fst (prune_unmatchable_inactive reg), r)))"

section \<open>Commit\<close>

text \<open>
  The publication is tried twice. If both attempts report a failure the disk decides: the commit
  happened if the generation and its bindings can be read back.
\<close>

definition publish_twice ::
  "store_env \<Rightarrow> string \<times> string \<Rightarrow> SourceGeneration \<Rightarrow> IdentityRegistry \<Rightarrow> (path, storage_error option) io" where
  "publish_twice env ids g reg =
     bindI (attempt (publish_source_state env (fst ids) g reg)) (\<lambda>first.
     case first of
       Inr _ \<Rightarrow> returnI None
     | Inl _ \<Rightarrow>
         bindI (attempt (publish_source_state env (snd ids) g reg)) (\<lambda>second.
         returnI (case second of Inr _ \<Rightarrow> None | Inl e \<Rightarrow> Some e)))"

definition source_publish_is_visible ::
  "store_env \<Rightarrow> SourceGeneration \<Rightarrow> IdentityRegistry \<Rightarrow> path disk \<Rightarrow> bool" where
  "source_publish_is_visible env g reg d \<longleftrightarrow>
     (case (load_lkg env (gen_source_id g) d, load_identity_registry env d) of
        (Inr found, Inr persisted) \<Rightarrow>
          found = Some g \<and> bindings_of (gen_source_id g) persisted = bindings_of (gen_source_id g) reg
      | _ \<Rightarrow> False)"

definition set_status :: "SourceStatus \<Rightarrow> service \<Rightarrow> service" where
  "set_status st s = s\<lparr>svc_status := dict_set (ss_source_id st) st (svc_status s)\<rparr>"

definition accepted_status :: "rat \<Rightarrow> SourceStatus \<Rightarrow> SourceStatus" where
  "accepted_status now st =
     st\<lparr>ss_refresh_success := Some True, ss_last_success := now, ss_reason := None, ss_detail := None\<rparr>"

text \<open>
  After the commit point: the logical view is swapped, then the pool, the results and the scheduler
  follow. An executor that does not follow makes the service not ready; it never undoes the commit.
\<close>

definition swap_view :: "source_plan \<Rightarrow> SourceStatus \<Rightarrow> service \<Rightarrow> service" where
  "swap_view p st s =
     set_status st (s\<lparr>svc_identity := pl_registry p, svc_generations := pl_generations p,
       svc_inventory := pl_inventory p\<rparr>)"

definition activate_source ::
  "service_env \<Rightarrow> source_request \<Rightarrow> source_plan \<Rightarrow> SourceStatus \<Rightarrow> service \<Rightarrow> (path, service) io" where
  "activate_source E rq p st s =
     (let s1 = swap_view p (accepted_status (rq_accept_time rq) st) s
      in if \<not> pl_changed p then returnI s1
         else bindI (drop_and_prune E s1) (\<lambda>(s2, pruned).
              returnI (if (svc_has_executor s2 \<longrightarrow> rq_pool_accepts rq \<and> rq_scheduler_accepts rq) \<and> pruned
                       then s2 else s2\<lparr>svc_ready := False\<rparr>)))"

definition commit_source_state ::
  "service_env \<Rightarrow> source_request \<Rightarrow> source_plan \<Rightarrow> SourceStatus \<Rightarrow> service \<Rightarrow> (path, refusal + service) io" where
  "commit_source_state E rq p st s =
     bindI (publish_twice (se_store E) (rq_state_ids rq) (pl_generation p) (pl_registry p)) (\<lambda>failed.
     bindI (readI (\<lambda>d. Inr (source_publish_is_visible (se_store E) (pl_generation p) (pl_registry p) d))) (\<lambda>visible.
     if failed \<noteq> None \<and> \<not> visible then returnI (Inl InternalRefusal)
     else bindI (activate_source E rq p st s) (\<lambda>s2. returnI (Inr s2))))"

section \<open>Refresh and reconciliation\<close>

definition status_of :: "service \<Rightarrow> string \<Rightarrow> SourceStatus" where
  "status_of s sid = (case dict_get (svc_status s) sid of Some st \<Rightarrow> st | None \<Rightarrow> new_status sid)"

fun refused_status :: "refusal \<Rightarrow> SourceStatus \<Rightarrow> SourceStatus" where
  "refused_status (Refusal reason m) st =
     st\<lparr>ss_refresh_success := Some False, ss_reason := Some reason, ss_detail := Some (redact_text 512 m)\<rparr>"
| "refused_status (CapacityRefusal m) st =
     st\<lparr>ss_refresh_success := Some False, ss_reason := Some ''config_invalid'', ss_detail := Some (redact_text 512 m)\<rparr>"
| "refused_status InternalRefusal st =
     st\<lparr>ss_refresh_success := Some False, ss_reason := Some ''internal'',
        ss_detail := Some ''internal source refresh error''\<rparr>"

definition guarded_source :: "service \<Rightarrow> string \<Rightarrow> refusal + SourceConfig" where
  "guarded_source s sid =
     (if svc_stopping s then Inl (service_error ''service is stopping'') else service_source s sid)"

text \<open>
  Both return the service as it is afterwards and, if the request raises, the exception. A refresh
  raises only if the service stops or does not know the source: everything else is a status.
\<close>

definition refresh_source ::
  "service_env \<Rightarrow> source_request \<Rightarrow> string \<Rightarrow> service \<Rightarrow> (path, service \<times> refusal option) io" where
  "refresh_source E rq sid s =
     (case guarded_source s sid of
        Inl e \<Rightarrow> returnI (s, Some e)
      | Inr source \<Rightarrow>
          (let st0 = (status_of s sid)\<lparr>ss_last_attempt := rq_attempt_time rq\<rparr>;
               fetched = fetch_source_candidates (rq_codecs rq) source (rq_payload rq);
               st = (case fetched of Inl _ \<Rightarrow> st0 | Inr cands \<Rightarrow> st0\<lparr>ss_candidate_count := Some (length cands)\<rparr>);
               refuse = (\<lambda>e. (set_status (refused_status e st) s, None))
           in case bindE (accepted_candidates rq source) (refresh_plan E rq s sid) of
                Inl e \<Rightarrow> returnI (refuse e)
              | Inr p \<Rightarrow>
                  bindI (commit_source_state E rq p st s) (\<lambda>r.
                  returnI (case r of Inl e \<Rightarrow> refuse e | Inr s2 \<Rightarrow> (s2, None)))))"

definition reconcile_source ::
  "service_env \<Rightarrow> (ImportedEntry \<Rightarrow> raw) \<Rightarrow> source_request \<Rightarrow> string \<Rightarrow> (string, string) dict \<Rightarrow> string
     \<Rightarrow> service \<Rightarrow> (path, service \<times> refusal option) io" where
  "reconcile_source E dump rq sid mapping expected s =
     (if expected = [] then returnI (s, Some (service_error ''candidate revision is required''))
      else case bindE (guarded_source s sid) (\<lambda>source.
                bindE (accepted_candidates rq source) (\<lambda>cands.
                bindE (manual_registry E dump s sid mapping expected cands) (\<lambda>(reg, r).
                bindE (compared_entries rq s sid cands r) (\<lambda>compared.
                Inr (cands, reg, r, compared))))) of
        Inl e \<Rightarrow> returnI (s, Some e)
      | Inr (cands, reg, r, compared) \<Rightarrow>
          (let st = (status_of s sid)\<lparr>ss_last_attempt := rq_attempt_time rq,
                       ss_candidate_count := Some (length cands)\<rparr>
           in case source_plan_of E rq s sid cands reg r [(''manually_reconciled'', RBool True)] compared of
                Inl e \<Rightarrow> returnI (set_status st s, Some e)
              | Inr p \<Rightarrow>
                  bindI (commit_source_state E rq p st s) (\<lambda>outcome.
                  returnI (case outcome of Inl e \<Rightarrow> (set_status st s, Some e) | Inr s2 \<Rightarrow> (s2, None)))))"

text \<open>\<open>preview_reconciliation\<close> changes nothing.\<close>

definition preview_reconciliation ::
  "service_env \<Rightarrow> (ImportedEntry \<Rightarrow> raw) \<Rightarrow> source_request \<Rightarrow> string \<Rightarrow> service
     \<Rightarrow> refusal + string \<times> ImportedEntry list \<times> ReconciliationResult" where
  "preview_reconciliation E dump rq sid s =
     bindE (guarded_source s sid) (\<lambda>source.
     bindE (accepted_candidates rq source) (\<lambda>cands.
     bindE (raise_as (\<lambda>_. InternalRefusal)
              (reconcile (rq_fresh_entry rq) sid (map from_entry cands) False (svc_identity s))) (\<lambda>(_, r).
     Inr (candidate_revision E dump s sid cands, cands, r))))"

end
