(* ===== verification/ServiceConfig.thy ===== *)
theory ServiceConfig
  imports SourceCommit ConfigTransaction Scheduler
begin

text \<open>
  \<open>src/xray_e2e_prober/service.py\<close>, third part: the configuration of a running service (\<open>_apply_config\<close>,
  \<open>reload_config\<close>, \<open>replace_config\<close> with its journal), what is loaded at startup, and the work handed to
  the scheduler. Constructing, draining and starting the executor succeed or fail as a parameter says,
  and so does the point at which a cancellation of the caller arrives.
\<close>

section \<open>The work of the scheduler\<close>

definition scheduled_checks_for ::
  "service \<Rightarrow> AppConfig \<Rightarrow> (string, CompiledCheck) dict \<Rightarrow> ScheduledCheck list" where
  "scheduled_checks_for s c inventory =
     (if \<not> svc_schedule_enabled s then []
      else map (\<lambda>x. \<lparr>sc_check_id = check_id (definition_of x), sc_generation = chk_generation (definition_of x),
                  interval_seconds = interval (scheduler c)\<rparr>) (enabled_checks inventory))"

definition scheduled_checks :: "service \<Rightarrow> ScheduledCheck list" where
  "scheduled_checks s =
     (case svc_config s of None \<Rightarrow> [] | Some c \<Rightarrow> scheduled_checks_for s c (svc_inventory s))"

section \<open>Installing a configuration\<close>

text \<open>
  A caller may be cancelled before the shielded transition or while it runs; in the second case the
  transition is finished first.
\<close>

datatype interruption = Undisturbed | BeforeTransition | DuringTransition

record apply_request =
  ap_codecs :: codecs
  ap_config_test :: "json_object \<Rightarrow> xray_test"
  ap_executor_built :: bool
  ap_old_quiesced :: bool
  ap_scheduler_started :: bool
  ap_interruption :: interruption

datatype apply_outcome = Applied | AppliedInterrupted | ApplyRefused refusal | ApplyInterrupted

definition candidate_generations :: "AppConfig \<Rightarrow> service \<Rightarrow> (string, SourceGeneration) dict" where
  "candidate_generations c s =
     filter (\<lambda>(sid, g). sid \<in> source_id ` set (sources c)) (svc_generations s)"

text \<open>The old executor is drained, the complete view is replaced, and only then new work may start.\<close>

definition install_config :: "AppConfig \<Rightarrow> (string, CompiledCheck) dict \<Rightarrow> service \<Rightarrow> service" where
  "install_config c inventory s =
     s\<lparr>svc_config := Some c, svc_generations := candidate_generations c s, svc_inventory := inventory,
       svc_status := map (\<lambda>sid. (sid, status_of s sid)) (remdups (map source_id (sources c))),
       svc_has_executor := True, svc_ready := False\<rparr>"

definition apply_config ::
  "service_env \<Rightarrow> apply_request \<Rightarrow> AppConfig \<Rightarrow> service \<Rightarrow> (path, service \<times> apply_outcome) io" where
  "apply_config E ap c s =
     (case compile_inventory (se_sha256 E) (se_regex E) c (candidate_generations c s) of
        Inl f \<Rightarrow> returnI (s, ApplyRefused (refuse_inventory f))
      | Inr inventory \<Rightarrow>
          if \<not> ap_executor_built ap then returnI (s, ApplyRefused InternalRefusal)
          else (case validate_inventory (ap_codecs ap) (ap_config_test ap) inventory None of
                  Inl e \<Rightarrow> returnI (s, ApplyRefused e)
                | Inr _ \<Rightarrow>
                    if ap_interruption ap = BeforeTransition then returnI (s, ApplyInterrupted)
                    else if \<not> ap_old_quiesced ap
                    then returnI (s\<lparr>svc_ready := False\<rparr>, ApplyRefused InternalRefusal)
                    else bindI (drop_and_prune E (install_config c inventory s)) (\<lambda>(s1, pruned).
                         returnI (if pruned \<and> ap_scheduler_started ap
                           then (s1\<lparr>svc_ready := \<not> svc_stopping s1\<rparr>,
                                 if ap_interruption ap = DuringTransition then AppliedInterrupted else Applied)
                           else (s1, ApplyRefused InternalRefusal)))))"

section \<open>Reload\<close>

fun refuse_config :: "config_failure \<Rightarrow> refusal" where
  "refuse_config (ConfigLoadError m) = Refusal ''config_invalid'' m"
| "refuse_config (ConfigValidationError m) = Refusal ''config_invalid'' m"
| "refuse_config (ConfigError m) = Refusal ''config_invalid'' m"

definition stored_config :: "config_env \<Rightarrow> string \<Rightarrow> path disk \<Rightarrow> config_failure + AppConfig" where
  "stored_config C target d =
     load_config C MAX_CONFIG_BYTES
       (case dict_get d (PConfig target) of
          None \<Rightarrow> FileMissing | Some f \<Rightarrow> FileBytes (size_of (content f)) (content f))"

text \<open>The flag of the last reload; a cancellation that comes too early leaves it as it was.\<close>

definition note_reload :: "service \<times> apply_outcome \<Rightarrow> service \<times> apply_outcome" where
  "note_reload r =
     (case r of (s, outcome) \<Rightarrow>
       (case outcome of
          ApplyInterrupted \<Rightarrow> s
        | ApplyRefused _ \<Rightarrow> s\<lparr>svc_reload_success := False\<rparr>
        | _ \<Rightarrow> s\<lparr>svc_reload_success := True\<rparr>, outcome))"

definition reload_config ::
  "service_env \<Rightarrow> config_env \<Rightarrow> apply_request \<Rightarrow> string \<Rightarrow> service \<Rightarrow> (path, service \<times> apply_outcome) io" where
  "reload_config E C ap target s =
     (if svc_stopping s then returnI (s, ApplyRefused (service_error ''service is stopping''))
      else bindI (readI (\<lambda>d. Inr (stored_config C target d))) (\<lambda>loaded.
           case loaded of
             Inl f \<Rightarrow> returnI (note_reload (s, ApplyRefused (refuse_config f)))
           | Inr c \<Rightarrow> bindI (apply_config E ap c s) (\<lambda>r. returnI (note_reload r))))"

section \<open>Replacement through the daemon\<close>

text \<open>The UTF-8 size of a text of Latin-1 characters.\<close>

definition utf8_size :: "string \<Rightarrow> nat" where
  "utf8_size s = sum_list (map (\<lambda>c. if (of_char c :: nat) < 128 then 1 else 2) s)"

definition MAX_SECRET_BYTES :: int where
  "MAX_SECRET_BYTES = 2 * 1024 * 1024"

definition check_secrets :: "(string, string) dict \<Rightarrow> refusal + unit" where
  "check_secrets secrets =
     (if int (sum_list (map utf8_size (dict_values secrets))) > MAX_SECRET_BYTES
      then Inl (service_error ''secret payload exceeds size limit'')
      else ensure (length secrets \<le> 256) (service_error ''secret payload contains too many files''))"

text \<open>The revision that the editor has seen; \<open>__absent__\<close> stands for no configuration.\<close>

definition check_expected :: "service_env \<Rightarrow> string option \<Rightarrow> service \<Rightarrow> refusal + unit" where
  "check_expected E expected s =
     (case expected of
        None \<Rightarrow> Inr ()
      | Some v \<Rightarrow>
          ensure ((if v = ''__absent__'' then None else Some v) = revision_of E (svc_config s))
            (service_error ''configuration changed concurrently; restart the edit''))"

definition admitted_config ::
  "service_env \<Rightarrow> config_env \<Rightarrow> config_value \<Rightarrow> string option \<Rightarrow> (string, string) dict \<Rightarrow> service
     \<Rightarrow> refusal + AppConfig" where
  "admitted_config E C v expected secrets s =
     bindE (raise_as refuse_config (validate_config C v)) (\<lambda>c.
     bindE (check_secrets secrets) (\<lambda>_.
     bindE (ensure (\<not> svc_stopping s) (service_error ''service is stopping'')) (\<lambda>_.
     bindE (check_expected E expected s) (\<lambda>_.
     bindE (raise_as refuse_inventory (compiled_for E s c)) (\<lambda>_. Inr c)))))"

text \<open>
  \<open>_referenced_secret_files\<close>: the files that a configuration names. \<open>locate\<close> is the file system: the
  file of the store that a name resolves to from the directory of the configuration.
\<close>

definition referenced_secret_files :: "(string \<Rightarrow> path option) \<Rightarrow> AppConfig \<Rightarrow> path set" where
  "referenced_secret_files locate c =
     set (List.map_filter (\<lambda>r. Option.bind (ref_file r) locate)
       (concat (map (\<lambda>s. (case location_ref s of Some r \<Rightarrow> [r] | None \<Rightarrow> []) @ dict_values (headers_ref s)) (sources c))))"

text \<open>\<open>_prune_transaction_secrets\<close>: a \<open>StorageError\<close> is only a warning.\<close>

definition prune_secrets :: "(string \<Rightarrow> path option) \<Rightarrow> AppConfig \<Rightarrow> (path, unit) io" where
  "prune_secrets locate c =
     bindI (attempt (prune_transaction_secrets (referenced_secret_files locate c))) (\<lambda>_. returnI ())"

record replace_request =
  rp_value :: config_value
  rp_expected :: "string option"
  rp_secrets :: "(string, string) dict"
  rp_locate :: "string \<Rightarrow> path option"
  rp_apply :: apply_request
  rp_commit_interrupted :: bool
  rp_restore :: apply_request

text \<open>
  The journal is durable before the new secrets and the new configuration are, and the new configuration
  is durable before it is applied. \<open>None\<close>: one of the writes raised.
\<close>

definition write_candidate ::
  "service_env \<Rightarrow> config_env \<Rightarrow> replace_request \<Rightarrow> string \<Rightarrow> AppConfig \<Rightarrow> (path, config_failure + AppConfig) io" where
  "write_candidate E C rp target c =
     bindI (begin_config_replace (se_store E) target (dict_keys (rp_secrets rp))) (\<lambda>_.
     bindI (mapI (\<lambda>(name, secret). bindI (write_new_secret name secret) (\<lambda>_. returnI ())) (rp_secrets rp)) (\<lambda>_.
     save_config C (ParsedConfig c) (PConfig target)))"

definition apply_candidate ::
  "service_env \<Rightarrow> config_env \<Rightarrow> replace_request \<Rightarrow> string \<Rightarrow> AppConfig \<Rightarrow> service \<Rightarrow> (path, service \<times> apply_outcome) io" where
  "apply_candidate E C rp target c s =
     bindI (attempt (write_candidate E C rp target c)) (\<lambda>written.
     case written of
       Inr (Inr _) \<Rightarrow> apply_config E (rp_apply rp) c s
     | _ \<Rightarrow> returnI (s, ApplyRefused InternalRefusal))"

definition roll_back_config ::
  "service_env \<Rightarrow> replace_request \<Rightarrow> string \<Rightarrow> service \<Rightarrow> (path, bool) io" where
  "roll_back_config E rp target s =
     bindI (attempt (recover_config_replace (se_store E) target)) (\<lambda>r. returnI (\<not> isl r))"

text \<open>
  What follows a refused or interrupted application: the file is rolled back (if that fails, the journal
  stays for the next start), and secrets that the old configuration does not use are removed.
\<close>

definition refuse_replace ::
  "service_env \<Rightarrow> replace_request \<Rightarrow> string \<Rightarrow> AppConfig option \<Rightarrow> service \<Rightarrow> (path, service) io" where
  "refuse_replace E rp target previous s =
     bindI (roll_back_config E rp target s) (\<lambda>_.
     bindI (case previous of Some c0 \<Rightarrow> prune_secrets (rp_locate rp) c0 | None \<Rightarrow> returnI ()) (\<lambda>_.
     returnI (s\<lparr>svc_reload_success := False\<rparr>)))"

text \<open>What follows a commit that failed with the journal still there: the old configuration is restored.\<close>

definition restore_previous ::
  "service_env \<Rightarrow> replace_request \<Rightarrow> string \<Rightarrow> AppConfig option \<Rightarrow> service \<Rightarrow> (path, service) io" where
  "restore_previous E rp target previous s =
     bindI (roll_back_config E rp target s) (\<lambda>rolled_back.
     if \<not> rolled_back then returnI (s\<lparr>svc_ready := False\<rparr>)
     else (case previous of
             None \<Rightarrow> returnI (s\<lparr>svc_ready := False\<rparr>)
           | Some c0 \<Rightarrow>
               bindI (apply_config E (rp_restore rp) c0 s) (\<lambda>(s1, outcome).
               case outcome of
                 Applied \<Rightarrow> bindI (prune_secrets (rp_locate rp) c0) (\<lambda>_. returnI s1)
               | ApplyRefused _ \<Rightarrow> returnI (s1\<lparr>svc_ready := False\<rparr>)
               | _ \<Rightarrow> returnI s1)))"

definition still_pending :: "service_env \<Rightarrow> string \<Rightarrow> path disk \<Rightarrow> bool" where
  "still_pending E target d =
     (case has_pending_config_replace (se_store E) target d of Inr b \<Rightarrow> b | Inl _ \<Rightarrow> True)"

definition commit_candidate ::
  "service_env \<Rightarrow> replace_request \<Rightarrow> string \<Rightarrow> AppConfig option \<Rightarrow> AppConfig \<Rightarrow> service
     \<Rightarrow> (path, service \<times> apply_outcome) io" where
  "commit_candidate E rp target previous c s =
     bindI (attempt (commit_config_replace (se_store E) target)) (\<lambda>committed.
     let accepted = bindI (prune_secrets (rp_locate rp) c) (\<lambda>_. returnI (s\<lparr>svc_reload_success := True\<rparr>));
         raised = (if rp_commit_interrupted rp then ApplyInterrupted else ApplyRefused InternalRefusal)
     in if \<not> isl committed \<and> \<not> rp_commit_interrupted rp
        then bindI accepted (\<lambda>s. returnI (s, Applied))
        else bindI (readI (\<lambda>d. Inr (still_pending E target d))) (\<lambda>pending.
             if \<not> pending then bindI accepted (\<lambda>s. returnI (s, raised))
             else bindI (restore_previous E rp target previous (s\<lparr>svc_reload_success := False\<rparr>)) (\<lambda>s.
                  returnI (s, raised))))"

text \<open>
  A cancellation that arrived during the transition is delivered after it: the candidate is committed
  without the precautions of the undisturbed case.
\<close>

definition commit_interrupted ::
  "service_env \<Rightarrow> replace_request \<Rightarrow> string \<Rightarrow> AppConfig \<Rightarrow> service \<Rightarrow> (path, service \<times> apply_outcome) io" where
  "commit_interrupted E rp target c s =
     bindI (attempt (commit_config_replace (se_store E) target)) (\<lambda>committed.
     if isl committed then returnI (s, ApplyRefused InternalRefusal)
     else bindI (prune_secrets (rp_locate rp) c) (\<lambda>_.
          returnI (s\<lparr>svc_reload_success := True\<rparr>, AppliedInterrupted)))"

definition replace_config ::
  "service_env \<Rightarrow> config_env \<Rightarrow> replace_request \<Rightarrow> string \<Rightarrow> service \<Rightarrow> (path, service \<times> apply_outcome) io" where
  "replace_config E C rp target s =
     (case admitted_config E C (rp_value rp) (rp_expected rp) (rp_secrets rp) s of
        Inl e \<Rightarrow> returnI (s, ApplyRefused e)
      | Inr c \<Rightarrow>
          bindI (apply_candidate E C rp target c s) (\<lambda>(s1, outcome).
          case outcome of
            Applied \<Rightarrow> commit_candidate E rp target (svc_config s) c s1
          | AppliedInterrupted \<Rightarrow> commit_interrupted E rp target c s1
          | _ \<Rightarrow> bindI (refuse_replace E rp target (svc_config s) s1) (\<lambda>s2. returnI (s2, outcome))))"

section \<open>Startup\<close>

text \<open>The sources that were accepted before; a source that cannot be read is left out.\<close>

definition loaded_status :: "SourceGeneration \<Rightarrow> SourceStatus" where
  "loaded_status g = (new_status (gen_source_id g))
     \<lparr>ss_last_success := accepted_at g, ss_candidate_count := Some (length (entries g))\<rparr>"

definition load_generation :: "store_env \<Rightarrow> path disk \<Rightarrow> string \<Rightarrow> service \<Rightarrow> service" where
  "load_generation env d sid s =
     (case load_lkg env sid d of
        Inr (Some g) \<Rightarrow>
          set_status (loaded_status g) (s\<lparr>svc_generations := dict_set (gen_source_id g) g (svc_generations s)\<rparr>)
      | _ \<Rightarrow> s)"

definition load_generations :: "store_env \<Rightarrow> path disk \<Rightarrow> service \<Rightarrow> service" where
  "load_generations env d s = fold (load_generation env d) (list_lkg_sources d) s"

definition load_identity :: "store_env \<Rightarrow> path disk \<Rightarrow> service \<Rightarrow> service" where
  "load_identity env d s =
     (case load_identity_registry env d of Inr reg \<Rightarrow> s\<lparr>svc_identity := reg\<rparr> | Inl _ \<Rightarrow> s)"

text \<open>Stored results are kept, but marked, so that they are never shown as current.\<close>

definition load_result_as_stale :: "RunResult option \<Rightarrow> service \<Rightarrow> service" where
  "load_result_as_stale v s =
     (case v of
        None \<Rightarrow> s
      | Some r \<Rightarrow> s\<lparr>svc_results := dict_set (run_check_id r) r (svc_results s),
                   svc_loaded_ids := insert (run_check_id r) (svc_loaded_ids s)\<rparr>)"

definition load_results_as_stale ::
  "store_env \<Rightarrow> ((string, raw) dict \<Rightarrow> RunResult option) \<Rightarrow> path disk \<Rightarrow> service \<Rightarrow> service" where
  "load_results_as_stale env validate d s =
     (case load_results env d of
        Inl _ \<Rightarrow> s
      | Inr values \<Rightarrow> fold (\<lambda>v. load_result_as_stale (validate v)) (dict_values values) s)"

text \<open>
  \<open>start\<close>, when nothing stops the service meanwhile: an interrupted replacement is recovered before
  anything is read. A refused configuration leaves a service that is not ready.
\<close>

definition start_config ::
  "service_env \<Rightarrow> config_env \<Rightarrow> apply_request \<Rightarrow> (string \<Rightarrow> path option) \<Rightarrow> string \<Rightarrow> service \<Rightarrow> (path, service) io" where
  "start_config E C ap locate target s =
     bindI (readI (\<lambda>d. Inr (dict_get d (PConfig target) \<noteq> None, stored_config C target d))) (\<lambda>(exists, loaded).
     if \<not> exists then bindI (prune_transaction_secrets {}) (\<lambda>_. returnI s)
     else case loaded of
            Inl _ \<Rightarrow> returnI (s\<lparr>svc_reload_success := False\<rparr>)
          | Inr c \<Rightarrow>
              bindI (apply_config E ap c s) (\<lambda>r.
              case note_reload r of
                (s1, Applied) \<Rightarrow> bindI (prune_secrets locate c) (\<lambda>_. returnI s1)
              | (s1, _) \<Rightarrow> returnI s1))"

definition start_service ::
  "service_env \<Rightarrow> config_env \<Rightarrow> apply_request \<Rightarrow> (string \<Rightarrow> path option)
     \<Rightarrow> ((string, raw) dict \<Rightarrow> RunResult option) \<Rightarrow> string \<Rightarrow> service \<Rightarrow> (path, service) io" where
  "start_service E C ap locate validate target s =
     bindI (recover_config_replace (se_store E) target) (\<lambda>_.
     bindI (prune_source_histories (se_store E)) (\<lambda>_.
     bindI (readI (\<lambda>d. Inr (load_results_as_stale (se_store E) validate d
              (load_generations (se_store E) d (load_identity (se_store E) d s))))) (\<lambda>s1.
     start_config E C ap locate target (s1\<lparr>svc_stopping := False\<rparr>))))"

text \<open>\<open>_stop_locked\<close> as far as the state is concerned.\<close>

definition stop_service :: "service \<Rightarrow> service" where
  "stop_service s = s\<lparr>svc_stopping := True, svc_ready := False, svc_has_executor := False\<rparr>"

end
