(* ===== verification/CommitLaws.thy ===== *)
theory CommitLaws
  imports SourceCommit
begin

text \<open>
  What \<open>_commit_source_state\<close> guarantees: after it the memory and the disk agree on the source, whatever
  fails in between, and a refused request leaves both as they were.
\<close>

section \<open>Programs that keep an invariant of the disk\<close>

abbreviation keeps :: "(path disk \<Rightarrow> bool) \<Rightarrow> (path, 'a) io \<Rightarrow> bool" where
  "keeps I m \<equiv> crash_spec I (\<lambda>_. True) m (\<lambda>_ _. True)"

named_theorems keeps_intros \<open>rules of programs that keep an invariant of the disk\<close>

lemma keeps_bind [keeps_intros]: "keeps I m \<Longrightarrow> (\<And>a. keeps I (f a)) \<Longrightarrow> keeps I (bindI m f)"
  by (rule crash_bind)

lemma keeps_return [keeps_intros]: "keeps I (returnI a)" "keeps I (raiseI e)" "keeps I (readI f)"
  by (simp_all add: crash_return crash_raise crash_read)

lemma keeps_catch [keeps_intros]: "keeps I m \<Longrightarrow> keeps I h \<Longrightarrow> keeps I (catchI m h)"
  by (rule crash_catch)

lemma keeps_if [keeps_intros]: "(b \<Longrightarrow> keeps I m) \<Longrightarrow> (\<not> b \<Longrightarrow> keeps I n) \<Longrightarrow> keeps I (if b then m else n)"
  by simp

lemma keeps_option [keeps_intros]:
  "keeps I m \<Longrightarrow> (\<And>a. keeps I (f a)) \<Longrightarrow> keeps I (case x of None \<Rightarrow> m | Some a \<Rightarrow> f a)"
  by (cases x) simp_all

lemma keeps_prod [keeps_intros]: "(\<And>a b. keeps I (f a b)) \<Longrightarrow> keeps I (case x of (a, b) \<Rightarrow> f a b)"
  by (cases x) simp

lemma keeps_mapI [keeps_intros]: "(\<And>x. keeps I (f x)) \<Longrightarrow> keeps I (mapI f xs)"
  by (rule crash_mapI)

lemma keeps_attempt [keeps_intros]:
  assumes "keeps I m"
  shows "keeps I (attempt m)"
  using assms unfolding crash_spec_def attempt_def by (auto split: prod.splits)

lemma keeps_write:
  "(\<And>d t. I d \<Longrightarrow> I (dict_set p \<lparr>content = data, mtime = t\<rparr> d)) \<Longrightarrow> keeps I (atomic_write_bytes p data)"
  by (rule crash_write) simp

lemma keeps_write_json:
  "(\<And>d f. I d \<Longrightarrow> I (dict_set p f d)) \<Longrightarrow> keeps I (atomic_write_json c p v n)"
  by (rule crash_write_json) simp

lemma keeps_unlink: "(\<And>d. I d \<Longrightarrow> I (dict_pop p d)) \<Longrightarrow> keeps I (durable_unlink p ok)"
  by (rule crash_unlink) simp_all

text \<open>A file that nobody writes does not appear.\<close>

lemma absent_prune: "keeps (\<lambda>d. file_content d q = None) (prune_source_history env v)"
  unfolding prune_source_history_def by (intro keeps_intros keeps_unlink) simp_all

lemma absent_publish:
  assumes "st \<noteq> st'"
  shows "keeps (\<lambda>d. file_content d (PState sid st') = None) (publish_source_state env st g reg)"
  unfolding publish_source_state_def save_generation_file_def save_identity_registry_def
  by (intro keeps_intros keeps_write_json absent_prune) (use assms in auto)

section \<open>Publishing twice\<close>

lemma crash_publishD:
  fixes g :: SourceGeneration and reg :: IdentityRegistry
  defines "sid \<equiv> gen_source_id g"
  defines "new \<equiv> Some (g, Some (bindings_of sid reg))"
  assumes "store_env_ok env g (bindings_of sid reg)" "safe_id st"
    and "view_ok env sid x d0 (files w)" "file_content (files w) (PState sid st) = None"
    and "publish_source_state env st g reg w = (r, w')"
  shows "\<exists>made. history w' = history w @ made \<and> (\<forall>d \<in> set made. either_view env sid x new d0 d)"
    and "either_view env sid x new d0 (files w')"
    and "r = Inr p \<Longrightarrow> view_ok env sid new d0 (files w')"
proof -
  have P: "view_ok env sid x d0 (files w) \<and> file_content (files w) (PState sid st) = None" using assms by simp
  have I: "either_view env sid x new d0 (files w)" using assms by (simp add: either_view_def)
  note C = crash_specD [OF crash_publish [OF assms(3) [unfolded sid_def] assms(4)], of x d0 w r w']
  show "\<exists>made. history w' = history w @ made \<and> (\<forall>d \<in> set made. either_view env sid x new d0 d)"
    "either_view env sid x new d0 (files w')" "r = Inr p \<Longrightarrow> view_ok env sid new d0 (files w')"
    using C I P assms(7) unfolding new_def sid_def by blast+
qed

lemma publish_twice_view:
  fixes g :: SourceGeneration and reg :: IdentityRegistry
  defines "sid \<equiv> gen_source_id g"
  defines "new \<equiv> Some (g, Some (bindings_of sid reg))"
  assumes env: "store_env_ok env g (bindings_of sid reg)"
    and ids: "safe_id (fst ids)" "safe_id (snd ids)" "fst ids \<noteq> snd ids"
    and old: "load_state env sid (files w) = Inr old"
    and free: "file_content (files w) (PState sid (fst ids)) = None" "file_content (files w) (PState sid (snd ids)) = None"
    and run: "publish_twice env ids g reg w = (r, w')"
  shows "\<exists>failed made. r = Inr failed \<and> history w' = history w @ made
    \<and> (\<forall>d \<in> set (made @ [files w']). either_view env sid old new (files w) d)
    \<and> (failed = None \<longrightarrow> view_ok env sid new (files w) (files w'))"
proof -
  let ?either = "either_view env sid old new (files w)"
  obtain r1 w1 where first: "publish_source_state env (fst ids) g reg w = (r1, w1)"
    by (cases "publish_source_state env (fst ids) g reg w")
  have start: "view_ok env sid old (files w) (files w)" using old by (simp add: view_ok_def)
  note A = crash_publishD [OF env [unfolded sid_def] ids(1) start [unfolded sid_def] free(1) [unfolded sid_def] first,
      folded sid_def, folded new_def]
  obtain m1 where m1: "history w1 = history w @ m1" "\<forall>d \<in> set m1. ?either d" using A(1) by blast
  show ?thesis
  proof (cases r1)
    case (Inr p)
    then have "r = Inr None" "w' = w1"
      using run first by (simp_all add: publish_twice_def bindI_def attempt_def returnI_def)
    then show ?thesis using m1 A(2) A(3) [OF Inr] by auto
  next
    case (Inl e)
    obtain r2 w2 where second: "publish_source_state env (snd ids) g reg w1 = (r2, w2)"
      by (cases "publish_source_state env (snd ids) g reg w1")
    have r: "r = Inr (case r2 of Inr _ \<Rightarrow> None | Inl e \<Rightarrow> Some e)" "w' = w2"
      using run first Inl second by (simp_all add: publish_twice_def bindI_def attempt_def returnI_def)
    have free2: "file_content (files w1) (PState sid (snd ids)) = None"
      by (rule crash_specD(2) [OF absent_publish [OF ids(3)] free(2) TrueI first])
    obtain x where x: "x \<in> {old, new}" "view_ok env sid x (files w) (files w1)"
      using A(2) by (auto simp: either_view_def)
    note B = crash_publishD [OF env [unfolded sid_def] ids(2) x(2) [unfolded sid_def] free2 [unfolded sid_def] second,
        folded sid_def, folded new_def]
    have widen: "either_view env sid x new (files w) d \<Longrightarrow> ?either d" for d
      using x(1) by (auto simp: either_view_def)
    obtain m2 where m2: "history w2 = history w1 @ m2" "\<forall>d \<in> set m2. ?either d" using B(1) widen by blast
    have "r2 = Inr q \<Longrightarrow> view_ok env sid new (files w) (files w2)" for q by (rule B(3))
    then have "(case r2 of Inr _ \<Rightarrow> None | Inl e \<Rightarrow> Some e) = None \<longrightarrow> view_ok env sid new (files w) (files w2)"
      by (cases r2) auto
    then show ?thesis using m1 m2 r widen [OF B(2)]
      by (intro exI [of _ "case r2 of Inr _ \<Rightarrow> None | Inl e \<Rightarrow> Some e"] exI [of _ "m1 @ m2"]) auto
  qed
qed

section \<open>What a restart finds\<close>

lemma foldE_reaches:
  assumes "foldE f xs s = Inr t" "x \<in> set xs" "\<And>u v. f x u = Inr v \<Longrightarrow> P v"
    and "\<And>y u v. y \<noteq> x \<Longrightarrow> P u \<Longrightarrow> f y u = Inr v \<Longrightarrow> P v"
  shows "P t"
  using assms(1,2)
proof (induction xs arbitrary: s)
  case (Cons y ys)
  then obtain u where u: "f y s = Inr u" "foldE f ys u = Inr t" by (auto simp: bindE_Inr_iff)
  show ?case
  proof (cases "x \<in> set ys")
    case True
    then show ?thesis using Cons.IH [OF u(2)] by blast
  next
    case False
    then have "P u" using Cons.prems(2) u(1) assms(3) by auto
    then show ?thesis using foldE_invariant [OF u(2), of P] assms(3,4) by metis
  qed
qed simp

lemma registry_source_other:
  "registry_source env d y reg = Inr reg' \<Longrightarrow> y \<noteq> sid \<Longrightarrow> bindings_of sid reg' = bindings_of sid reg"
  by (auto simp: registry_source_def bindE_Inr_iff
      split: sum.splits storage_error.splits raw.splits option.splits if_splits)

lemma registry_source_self:
  assumes "load_state env sid d = Inr (Some (g, Some bs))" "registry_source env d sid reg = Inr reg'"
  shows "bindings_of sid reg' = bs"
proof -
  obtain p where p: "read_pointer env sid d = Inr (Some p)" "load_source_state env sid p d = Inr (g, Some bs)"
    using assms(1) by (auto simp: load_state_Inr)
  have "read_json (codec env) (PPointer sid) POINTER_LIMIT d = Inr (RDict p)"
    using p(1) by (auto simp: read_pointer_def bindE_Inr_iff split: sum.splits storage_error.splits)
  moreover have "dict_get p ''state'' \<noteq> None"
    using p(2) by (auto simp: load_source_state_def load_bindings_def current_state_def bindE_Inr_iff split: if_splits)
  ultimately have "reg' = dict_set sid bs reg"
    using assms(2) p(2) by (simp add: registry_source_def split: if_splits)
  then show ?thesis by simp
qed

lemma loaded_source_listed:
  assumes "load_state env sid d = Inr (Some x)"
  shows "sid \<in> set (list_lkg_sources d)"
proof -
  obtain p where p: "safe_id sid" "read_pointer env sid d = Inr (Some p)"
    using assms by (auto simp: load_state_Inr)
  then obtain f where "dict_get d (PPointer sid) = Some f"
    by (cases "dict_get d (PPointer sid)") (simp_all add: read_pointer_def read_json_def)
  then have "PPointer sid \<in> set (dict_keys d)" by (metis dict_get_None_iff option.distinct(1))
  then have "\<exists>q \<in> set (dict_keys d). sid \<in> set (lkg_source q)"
    by (rule bexI [rotated]) (simp add: lkg_source_def)
  then show ?thesis using p(1) by (auto simp: list_lkg_sources_def)
qed

lemma registry_bindings:
  assumes "load_state env sid d = Inr (Some (g, Some bs))" "load_identity_registry env d = Inr reg"
  shows "bindings_of sid reg = bs"
proof -
  obtain reg0 where "foldE (registry_source env d) (list_lkg_sources d) reg0 = Inr reg"
    using assms(2) by (auto simp: load_identity_registry_def bindE_Inr_iff split: option.splits)
  then show ?thesis
    by (rule foldE_reaches [OF _ loaded_source_listed [OF assms(1)]])
      (simp_all add: registry_source_self [OF assms(1)] registry_source_other)
qed

lemma published_is_visible:
  assumes "view_ok env (gen_source_id g) (Some (g, Some (bindings_of (gen_source_id g) reg))) d0 d"
    and "load_identity_registry env d = Inr persisted"
  shows "source_publish_is_visible env g reg d"
  using assms registry_bindings
  by (auto simp: source_publish_is_visible_def load_lkg_def view_ok_def)

section \<open>The commit\<close>

text \<open>Whatever happens to results, the sources and the registry load as before.\<close>

definition same_sources :: "store_env \<Rightarrow> path disk \<Rightarrow> path disk \<Rightarrow> bool" where
  "same_sources env d0 d \<longleftrightarrow> (\<forall>sid. load_state env sid d = load_state env sid d0)
     \<and> load_identity_registry env d = load_identity_registry env d0"

lemma registry_frame:
  assumes "\<And>p. lkg_source p \<noteq> [] \<or> p = PRegistry \<Longrightarrow> file_content d' p = file_content d p"
    and "list_lkg_sources d' = list_lkg_sources d"
  shows "load_identity_registry env d' = load_identity_registry env d"
proof -
  have same: "read_json c (PPointer sid) n d' = read_json c (PPointer sid) n d"
    "read_json c (PState sid x) n d' = read_json c (PState sid x) n d"
    "read_json c (PGeneration sid x) n d' = read_json c (PGeneration sid x) n d"
    "read_json c PRegistry n d' = read_json c PRegistry n d" for c n x sid
    by (rule read_json_content [OF assms(1)], simp add: lkg_source_def)+
  have "load_bindings env sid g p d' = load_bindings env sid g p d" for sid g p
    unfolding load_bindings_def same by (rule refl)
  then have states: "load_source_state env sid p d' = load_source_state env sid p d" for sid p
    unfolding load_source_state_def same by simp
  have "registry_source env d' sid reg = registry_source env d sid reg" for sid reg
    unfolding registry_source_def same states by (rule refl)
  then have steps: "registry_source env d' = registry_source env d" by (intro ext)
  show ?thesis unfolding load_identity_registry_def same assms(2) steps by (rule refl)
qed

lemma sources_without_result: "same_sources env d0 d \<Longrightarrow> same_sources env d0 (dict_pop (PResult c) d)"
proof -
  assume a: "same_sources env d0 d"
  have "load_state env sid (dict_pop (PResult c) d) = load_state env sid d" for sid
    by (rule load_state_frame) (auto simp: lkg_source_def)
  moreover have "concat (map lkg_source (dict_keys (dict_pop (PResult c) d))) = concat (map lkg_source (dict_keys d))"
    by (induction d) (auto simp: lkg_source_def)
  then have "load_identity_registry env (dict_pop (PResult c) d) = load_identity_registry env d"
    by (intro registry_frame) (auto simp: lkg_source_def list_lkg_sources_def)
  ultimately show ?thesis using a by (simp add: same_sources_def)
qed

lemma keeps_drop_and_prune: "keeps (same_sources env d0) (drop_and_prune E s)"
  unfolding drop_and_prune_def prune_results_def
  by (intro keeps_intros keeps_unlink sources_without_result)

lemma drop_and_prune_Inr:
  assumes "drop_and_prune E s w = (r, w')"
  shows "\<exists>ok. r = Inr (drop_obsolete_results E s, ok)"
  using assms by (auto simp: drop_and_prune_def bindI_def attempt_def returnI_def split: prod.splits)

lemma drop_obsolete_keeps [simp]:
  "svc_config (drop_obsolete_results E s) = svc_config s"
  "svc_identity (drop_obsolete_results E s) = svc_identity s"
  "svc_generations (drop_obsolete_results E s) = svc_generations s"
  "svc_inventory (drop_obsolete_results E s) = svc_inventory s"
  "svc_status (drop_obsolete_results E s) = svc_status s"
  "svc_stopping (drop_obsolete_results E s) = svc_stopping s"
  "svc_has_executor (drop_obsolete_results E s) = svc_has_executor s"
  by (simp_all add: drop_obsolete_results_def Let_def)

lemma set_status_keeps [simp]:
  "svc_config (set_status st s) = svc_config s" "svc_identity (set_status st s) = svc_identity s"
  "svc_generations (set_status st s) = svc_generations s" "svc_inventory (set_status st s) = svc_inventory s"
  "svc_results (set_status st s) = svc_results s" "svc_errors (set_status st s) = svc_errors s"
  "svc_ready (set_status st s) = svc_ready s" "svc_has_executor (set_status st s) = svc_has_executor s"
  "svc_status (set_status st s) = dict_set (ss_source_id st) st (svc_status s)"
  by (simp_all add: set_status_def)

text \<open>The logical view of the sources: what a restart would rebuild.\<close>

definition holds_plan :: "source_plan \<Rightarrow> service \<Rightarrow> bool" where
  "holds_plan p s \<longleftrightarrow> svc_identity s = pl_registry p \<and> svc_generations s = pl_generations p
     \<and> svc_inventory s = pl_inventory p"

lemma activate_source_run:
  assumes "activate_source E rq p st s w = (r, w')"
  shows "\<exists>s2. r = Inr s2 \<and> holds_plan p s2 \<and> svc_config s2 = svc_config s
    \<and> svc_status s2 = dict_set (ss_source_id st) (accepted_status (rq_accept_time rq) st) (svc_status s)"
    and "\<exists>made. history w' = history w @ made \<and> (\<forall>d \<in> set (made @ [files w']). same_sources env (files w) d)"
proof -
  let ?s1 = "swap_view p (accepted_status (rq_accept_time rq) st) s"
  have s1: "holds_plan p ?s1" "svc_config ?s1 = svc_config s"
    "svc_status ?s1 = dict_set (ss_source_id st) (accepted_status (rq_accept_time rq) st) (svc_status s)"
    by (simp_all add: swap_view_def holds_plan_def accepted_status_def)
  have start: "same_sources env (files w) (files w)" by (simp add: same_sources_def)
  show "\<exists>s2. r = Inr s2 \<and> holds_plan p s2 \<and> svc_config s2 = svc_config s
    \<and> svc_status s2 = dict_set (ss_source_id st) (accepted_status (rq_accept_time rq) st) (svc_status s)"
    using assms s1
    by (auto simp: activate_source_def Let_def returnI_def bindI_def holds_plan_def
        split: if_splits prod.splits sum.splits dest!: drop_and_prune_Inr)
  have "keeps (same_sources env (files w)) (activate_source E rq p st s)"
    unfolding activate_source_def Let_def by (intro keeps_intros keeps_drop_and_prune)
  from crash_specD [OF this start TrueI assms]
  show "\<exists>made. history w' = history w @ made \<and> (\<forall>d \<in> set (made @ [files w']). same_sources env (files w) d)"
    by auto
qed

lemma same_sources_view:
  "same_sources env d d' \<Longrightarrow> view_ok env sid x d0 d \<Longrightarrow> view_ok env sid x d0 d'"
  by (simp add: same_sources_def view_ok_def)

text \<open>What a restart finds of a source: its generation, and its bindings if the registry is readable.\<close>

definition restart_finds :: "store_env \<Rightarrow> SourceGeneration \<Rightarrow> IdentityBinding list \<Rightarrow> path disk \<Rightarrow> bool" where
  "restart_finds env g bs d \<longleftrightarrow> load_lkg env (gen_source_id g) d = Inr (Some g)
     \<and> (\<forall>reg. load_identity_registry env d = Inr reg \<longrightarrow> bindings_of (gen_source_id g) reg = bs)"

lemma restart_finds_new:
  "view_ok env (gen_source_id g) (Some (g, Some bs)) d0 d \<Longrightarrow> restart_finds env g bs d"
  using registry_bindings by (auto simp: restart_finds_def view_ok_def load_lkg_def)

lemma restart_finds_visible:
  "source_publish_is_visible env g reg d \<Longrightarrow> restart_finds env g (bindings_of (gen_source_id g) reg) d"
  by (auto simp: restart_finds_def source_publish_is_visible_def split: sum.splits)

lemma restart_finds_same: "same_sources env d d' \<Longrightarrow> restart_finds env g bs d \<Longrightarrow> restart_finds env g bs d'"
  by (simp add: restart_finds_def same_sources_def load_lkg_def)

lemma same_sources_either:
  "same_sources env d d' \<Longrightarrow> either_view env sid x y d0 d \<Longrightarrow> either_view env sid x y d0 d'"
  using same_sources_view by (auto simp: either_view_def)

lemma commit_source_state_run:
  fixes p :: source_plan
  defines "g \<equiv> pl_generation p"
  defines "sid \<equiv> gen_source_id g"
  defines "bs \<equiv> bindings_of sid (pl_registry p)"
  assumes env: "store_env_ok (se_store E) g bs"
    and ids: "safe_id (fst (rq_state_ids rq))" "safe_id (snd (rq_state_ids rq))"
      "fst (rq_state_ids rq) \<noteq> snd (rq_state_ids rq)"
    and old: "load_state (se_store E) sid (files w) = Inr old"
    and free: "file_content (files w) (PState sid (fst (rq_state_ids rq))) = None"
      "file_content (files w) (PState sid (snd (rq_state_ids rq))) = None"
    and run: "commit_source_state E rq p st s w = (r, w')"
  shows "\<exists>made. history w' = history w @ made
      \<and> (\<forall>d \<in> set (made @ [files w']). either_view (se_store E) sid old (Some (g, Some bs)) (files w) d)" (is ?A)
    and "(\<exists>s2. r = Inr (Inr s2) \<and> holds_plan p s2 \<and> svc_config s2 = svc_config s
        \<and> svc_status s2 = dict_set (ss_source_id st) (accepted_status (rq_accept_time rq) st) (svc_status s)
        \<and> restart_finds (se_store E) g bs (files w'))
      \<or> (r = Inr (Inl InternalRefusal)
        \<and> (load_state (se_store E) sid (files w') = Inr old
            \<or> (\<nexists>reg. load_identity_registry (se_store E) (files w') = Inr reg)))" (is ?B)
proof -
  let ?env = "se_store E" and ?new = "Some (g, Some bs)" and ?reg = "pl_registry p"
  obtain r1 w1 where pub: "publish_twice ?env (rq_state_ids rq) g ?reg w = (r1, w1)"
    by (cases "publish_twice ?env (rq_state_ids rq) g ?reg w")
  obtain failed m1 where f: "r1 = Inr failed" "history w1 = history w @ m1"
    "\<forall>d \<in> set (m1 @ [files w1]). either_view ?env sid old ?new (files w) d"
    "failed = None \<longrightarrow> view_ok ?env sid ?new (files w) (files w1)"
    using publish_twice_view [OF env [unfolded bs_def sid_def] ids old [unfolded sid_def] free [unfolded sid_def] pub]
    unfolding bs_def sid_def by blast
  let ?vis = "source_publish_is_visible ?env g ?reg (files w1)"
  have "?A \<and> ?B"
  proof (cases "failed \<noteq> None \<and> \<not> ?vis")
    case True
    then have res: "r = Inr (Inl InternalRefusal)" "w' = w1"
      using run pub f(1)
      by (simp_all add: commit_source_state_def g_def [symmetric] bindI_def readI_def returnI_def)
    have "\<not> view_ok ?env sid ?new (files w) (files w1)"
      if "load_identity_registry ?env (files w1) = Inr reg" for reg
      using True published_is_visible that unfolding bs_def sid_def by blast
    then have "load_state ?env sid (files w1) = Inr old \<or> (\<nexists>reg. load_identity_registry ?env (files w1) = Inr reg)"
      using f(3) by (auto simp: either_view_def view_ok_def)
    then show "?A \<and> ?B"
      using f(2,3) res by blast
  next
    case False
    have finds: "restart_finds ?env g bs (files w1)"
      using False f(4) restart_finds_new restart_finds_visible unfolding bs_def sid_def by blast
    obtain r2 w2 where act: "activate_source E rq p st s w1 = (r2, w2)" by (cases "activate_source E rq p st s w1")
    obtain s2 where s2: "r2 = Inr s2" "holds_plan p s2" "svc_config s2 = svc_config s"
      "svc_status s2 = dict_set (ss_source_id st) (accepted_status (rq_accept_time rq) st) (svc_status s)"
      using activate_source_run(1) [OF act] by blast
    obtain m2 where m2: "history w2 = history w1 @ m2" "\<forall>d \<in> set (m2 @ [files w2]). same_sources ?env (files w1) d"
      using activate_source_run(2) [OF act] by blast
    have res: "r = Inr (Inr s2)" "w' = w2"
      using run pub f(1) False act s2(1)
      by (auto simp: commit_source_state_def g_def [symmetric] bindI_def readI_def returnI_def)
    have e1: "either_view ?env sid old ?new (files w) (files w1)" using f(3) by simp
    have "\<forall>d \<in> set ((m1 @ m2) @ [files w2]). either_view ?env sid old ?new (files w) d"
      using f(3) m2(2) same_sources_either [OF _ e1] by auto
    moreover have "restart_finds ?env g bs (files w2)"
      by (rule restart_finds_same [OF _ finds]) (use m2(2) in simp)
    ultimately show "?A \<and> ?B"
      using f(2) m2(1) res s2 by (intro conjI exI [of _ "m1 @ m2"]) auto
  qed
  then show ?A ?B by blast+
qed

section \<open>Plans\<close>

text \<open>A plan changes one source, and its inventory is compiled from its generations.\<close>

definition plan_fits :: "service_env \<Rightarrow> service \<Rightarrow> string \<Rightarrow> source_plan \<Rightarrow> bool" where
  "plan_fits E s sid p \<longleftrightarrow> gen_source_id (pl_generation p) = sid
     \<and> dict_get (pl_generations p) sid = Some (pl_generation p)
     \<and> (if pl_changed p
        then pl_generations p = dict_set sid (pl_generation p) (svc_generations s)
          \<and> (\<exists>c. svc_config s = Some c
               \<and> compile_inventory (se_sha256 E) (se_regex E) c (pl_generations p) = Inr (pl_inventory p))
        else pl_generations p = svc_generations s \<and> pl_inventory p = svc_inventory s)"

definition sources_keyed :: "service \<Rightarrow> bool" where
  "sources_keyed s \<longleftrightarrow> (\<forall>sid g. dict_get (svc_generations s) sid = Some g \<longrightarrow> gen_source_id g = sid)
     \<and> (\<forall>sid st. dict_get (svc_status s) sid = Some st \<longrightarrow> ss_source_id st = sid)"

lemma raise_as_Inr [simp]: "raise_as f r = Inr a \<longleftrightarrow> r = Inr a"
  by (cases r) (auto simp: raise_as_def)

lemma changed_plan_fits:
  "changed_plan E rq s sid cands reg r extra = Inr p \<Longrightarrow> plan_fits E s sid p"
  by (auto simp: changed_plan_def Let_def bindE_Inr_iff validate_SourceGeneration_def plan_fits_def
      split: option.splits if_splits)

lemma source_plan_fits:
  assumes "sources_keyed s" "source_plan_of E rq s sid cands reg r extra compared = Inr p"
  shows "plan_fits E s sid p"
proof (cases "dict_get (svc_generations s) sid")
  case None
  then show ?thesis using assms(2) changed_plan_fits by (simp add: source_plan_of_def)
next
  case (Some g)
  show ?thesis
  proof (cases "entries_equal (entries g) compared")
    case True
    then have "p = \<lparr>pl_generation = g, pl_registry = reg, pl_generations = svc_generations s,
        pl_inventory = svc_inventory s, pl_changed = False\<rparr>"
      using assms(2) Some by (simp add: source_plan_of_def)
    then show ?thesis using assms(1) Some by (simp add: plan_fits_def sources_keyed_def)
  next
    case False
    then show ?thesis using assms(2) Some changed_plan_fits by (simp add: source_plan_of_def)
  qed
qed

lemma refresh_plan_fits:
  assumes "sources_keyed s" "bindE (accepted_candidates rq source) (refresh_plan E rq s sid) = Inr p"
  shows "plan_fits E s sid p"
  using assms(2) source_plan_fits [OF assms(1)]
  by (auto simp: bindE_Inr_iff refresh_plan_def Let_def split: prod.splits if_splits)

lemma status_of_set [simp]:
  "status_of (set_status st s) sid = (if sid = ss_source_id st then st else status_of s sid)"
  by (simp add: status_of_def)

lemma status_keyed: "sources_keyed s \<Longrightarrow> ss_source_id (status_of s sid) = sid"
  by (auto simp: sources_keyed_def status_of_def new_status_def split: option.splits)

lemma refused_status_fields [simp]:
  "ss_source_id (refused_status e st) = ss_source_id st" "ss_refresh_success (refused_status e st) = Some False"
  by (cases e; simp)+

lemma accepted_status_fields [simp]:
  "ss_source_id (accepted_status now st) = ss_source_id st"
  "ss_refresh_success (accepted_status now st) = Some True"
  by (simp_all add: accepted_status_def)

text \<open>The service is as before, up to the status of sources.\<close>

definition same_but_status :: "service \<Rightarrow> service \<Rightarrow> bool" where
  "same_but_status s s2 \<longleftrightarrow> s2 = s\<lparr>svc_status := svc_status s2\<rparr>"

lemma same_but_set_status [simp]: "same_but_status s (set_status st s)" "same_but_status s s"
  by (simp_all add: same_but_status_def set_status_def)

section \<open>Properties\<close>

text \<open>
  What a refresh of one source may do to the files of all sources: a disk in between, and the last one,
  shows the source in its old state or with the generation that was accepted, and the other sources
  unchanged.
\<close>

definition plan_for_refresh :: "service_env \<Rightarrow> source_request \<Rightarrow> service \<Rightarrow> string \<Rightarrow> source_plan option" where
  "plan_for_refresh E rq s sid =
     (case bindE (guarded_source s sid) (\<lambda>source. bindE (accepted_candidates rq source) (refresh_plan E rq s sid)) of
        Inr p \<Rightarrow> Some p | Inl _ \<Rightarrow> None)"

definition disk_env_ok :: "service_env \<Rightarrow> source_plan option \<Rightarrow> bool" where
  "disk_env_ok E plan \<longleftrightarrow> (case plan of
     None \<Rightarrow> True
   | Some p \<Rightarrow> store_env_ok (se_store E) (pl_generation p)
                (bindings_of (gen_source_id (pl_generation p)) (pl_registry p)))"

definition fresh_states :: "source_request \<Rightarrow> string \<Rightarrow> path disk \<Rightarrow> bool" where
  "fresh_states rq sid d \<longleftrightarrow> safe_id (fst (rq_state_ids rq)) \<and> safe_id (snd (rq_state_ids rq))
     \<and> fst (rq_state_ids rq) \<noteq> snd (rq_state_ids rq)
     \<and> file_content d (PState sid (fst (rq_state_ids rq))) = None
     \<and> file_content d (PState sid (snd (rq_state_ids rq))) = None"

lemma commit_plan_run:
  assumes fits: "plan_fits E s sid p" and env: "disk_env_ok E (Some p)" and fresh: "fresh_states rq sid (files w)"
    and st: "ss_source_id st = sid" and old: "load_state (se_store E) sid (files w) = Inr old"
    and run: "commit_source_state E rq p st s w = (r, w')"
  shows "(\<forall>other. other \<noteq> sid \<longrightarrow> load_state (se_store E) other (files w') = load_state (se_store E) other (files w))
    \<and> ((\<exists>s2. r = Inr (Inr s2) \<and> holds_plan p s2 \<and> svc_config s2 = svc_config s
          \<and> ss_refresh_success (status_of s2 sid) = Some True
          \<and> restart_finds (se_store E) (pl_generation p) (bindings_of sid (pl_registry p)) (files w'))
       \<or> (r = Inr (Inl InternalRefusal)
          \<and> (load_state (se_store E) sid (files w') = Inr old
             \<or> (\<nexists>reg. load_identity_registry (se_store E) (files w') = Inr reg))))"
proof -
  have g: "gen_source_id (pl_generation p) = sid" using fits by (simp add: plan_fits_def)
  have pre: "store_env_ok (se_store E) (pl_generation p) (bindings_of sid (pl_registry p))"
    using env g by (simp add: disk_env_ok_def)
  have ids: "safe_id (fst (rq_state_ids rq))" "safe_id (snd (rq_state_ids rq))"
    "fst (rq_state_ids rq) \<noteq> snd (rq_state_ids rq)"
    "file_content (files w) (PState sid (fst (rq_state_ids rq))) = None"
    "file_content (files w) (PState sid (snd (rq_state_ids rq))) = None"
    using fresh by (simp_all add: fresh_states_def)
  note R = commit_source_state_run [OF pre [folded g] ids(1-3) old [folded g] ids(4,5) [folded g] run, unfolded g]
  have others: "\<forall>other. other \<noteq> sid \<longrightarrow> load_state (se_store E) other (files w') = load_state (se_store E) other (files w)"
    using R(1) by (auto simp: either_view_def view_ok_def)
  have accepted: "ss_refresh_success (status_of s2 sid) = Some True"
    if "svc_status s2 = dict_set (ss_source_id st) (accepted_status (rq_accept_time rq) st) (svc_status s)" for s2
    using that st by (simp add: status_of_def)
  from R(2) show ?thesis
  proof (elim disjE exE conjE)
    fix s2
    assume "r = Inr (Inr s2)" "holds_plan p s2" "svc_config s2 = svc_config s"
      "svc_status s2 = dict_set (ss_source_id st) (accepted_status (rq_accept_time rq) st) (svc_status s)"
      "restart_finds (se_store E) (pl_generation p) (bindings_of sid (pl_registry p)) (files w')"
    then show ?thesis using others accepted by blast
  qed (use others in blast)+
qed


section \<open>A concrete refresh\<close>

text \<open>The first refresh of a source that may be empty and is.\<close>

definition empty_codecs :: codecs where
  "empty_codecs = \<lparr>utf8_sig = Some, utf8_replace = id, b64decode = (\<lambda>_. None),
     json_loads = (\<lambda>_ _. Inr (RList [])), json_compact = (\<lambda>_. []), sha256_text = id, set_order = (\<lambda>_. [])\<rparr>"

definition empty_source :: SourceConfig where
  "empty_source = example_source\<lparr>source_format := XRAY_JSON_ARRAY, allow_empty := True\<rparr>"

definition empty_config :: AppConfig where
  "empty_config = example_config\<lparr>sources := [empty_source]\<rparr>"

definition counted_env :: store_env where
  "counted_env = plain_env\<lparr>validate_generation := (\<lambda>v. map_option
     (\<lambda>g. g\<lparr>gen_metadata := [(''entry_count'', RInt 0)]\<rparr>) (validate_generation plain_env v))\<rparr>"

definition demo_env :: service_env where
  "demo_env = \<lparr>se_store = counted_env, se_canonical = (\<lambda>_. []), se_sha256 = id, se_regex = example_engine,
     se_dump_result = (\<lambda>r. [(''check_id'', RStr (run_check_id r))])\<rparr>"

definition demo_service :: service where
  "demo_service = (new_service True)\<lparr>svc_config := Some empty_config, svc_has_executor := True, svc_ready := True\<rparr>"

definition demo_request :: source_request where
  "demo_request = \<lparr>rq_codecs = empty_codecs,
     rq_payload = Inr \<lparr>sp_content = ''[]'', sp_content_type = None, sp_origin = ''local'', sp_documents = []\<rparr>,
     rq_fresh_entry = (\<lambda>_. ''e1''), rq_compare_id = ''g0'', rq_generation_id = ''g1'', rq_state_ids = (''st1'', ''st2''),
     rq_attempt_time = 0, rq_accept_time = 0, rq_config_test = (\<lambda>_. TestPassed), rq_pool_accepts = True,
     rq_scheduler_accepts = True\<rparr>"

definition demo_generation :: SourceGeneration where
  "demo_generation = (plain_generation ''src'' ''g1'')\<lparr>gen_metadata := [(''entry_count'', RInt 0)]\<rparr>"

definition demo_plan :: source_plan where
  "demo_plan = \<lparr>pl_generation = demo_generation, pl_registry = [], pl_generations = [(''src'', demo_generation)],
     pl_inventory = [], pl_changed = True\<rparr>"

lemmas demo_defs = empty_codecs_def demo_request_def demo_service_def new_service_def empty_config_def empty_source_def

lemma demo_source: "guarded_source demo_service ''src'' = Inr empty_source"
  by (simp add: guarded_source_def service_source_def demo_defs example_defs)

lemma demo_fetched: "fetch_source_candidates (rq_codecs demo_request) empty_source (rq_payload demo_request) = Inr []"
  by (simp add: fetch_source_candidates_def payload_documents_def import_document_def
      import_content_def decode_text_def reject_html_def demo_defs example_defs MAX_IMPORT_BYTES_def
      json_no_duplicates_def import_profiles_def raise_as_def enumerate_eq_zip
      starts_with_def py_casefold_def py_lstrip_def)

lemma demo_candidates: "accepted_candidates demo_request empty_source = Inr []"
  using demo_fetched by (simp add: accepted_candidates_def empty_source_def)

lemma demo_refresh_plan: "refresh_plan demo_env demo_request demo_service ''src'' [] = Inr demo_plan"
  by code_simp

abbreviation demo_status :: SourceStatus where
  "demo_status \<equiv> (new_status ''src'')\<lparr>ss_candidate_count := Some 0\<rparr>"

lemma demo_refresh:
  "refresh_source demo_env demo_request ''src'' demo_service
   = bindI (commit_source_state demo_env demo_request demo_plan demo_status demo_service) (\<lambda>r.
       returnI (case r of Inl e \<Rightarrow> (set_status (refused_status e demo_status) demo_service, None) | Inr s2 \<Rightarrow> (s2, None)))"
proof -
  have a: "rq_attempt_time demo_request = 0" "status_of demo_service ''src'' = new_status ''src''"
    by (simp_all add: demo_defs status_of_def)
  have b: "(new_status ''src'')\<lparr>ss_last_attempt := 0, ss_candidate_count := Some (length [])\<rparr> = demo_status"
    by (simp add: new_status_def)
  show ?thesis
    unfolding refresh_source_def demo_source sum.case Let_def demo_fetched demo_candidates bindE_simps
      demo_refresh_plan a b by (rule refl)
qed

text \<open>The pointer of the first publication is written, but the write is reported as failed.\<close>

definition demo_world :: "path world" where
  "demo_world = fresh_world [] [Done, Done, DoneThenError]"

lemma demo_env_ok: "disk_env_ok demo_env (Some demo_plan)"
proof -
  have g: "gen_source_id demo_generation = ''src''" "bindings_of ''src'' (pl_registry demo_plan) = []"
    "generation demo_generation = ''g1''"
    by (simp_all add: demo_generation_def plain_generation_def demo_plan_def bindings_of_def)
  have p: "store_env_ok plain_env (plain_generation ''src'' ''g1'') []" by (rule plain_env_ok) simp
  have "store_env_ok counted_env demo_generation []"
    using p by (auto simp: store_env_ok_def counted_env_def demo_generation_def plain_env_def plain_generation_def)
  then show ?thesis using g by (simp add: disk_env_ok_def demo_env_def demo_plan_def)
qed


end
