(* ===== verification/ServiceLaws.thy ===== *)
theory ServiceLaws
  imports ServiceConfig CommitLaws
begin

text \<open>
  The service as a state machine: every operation that changes its memory is a step, whatever the disk
  does and whatever fails. Two properties of all reachable states follow: the inventory is always the
  one compiled from the configuration and the accepted generations, with results of nothing else, and
  the metrics that are scraped from it never repeat a series.
\<close>

section \<open>The invariant\<close>

definition valid_config :: "AppConfig \<Rightarrow> bool" where
  "valid_config c \<longleftrightarrow> (\<exists>re c0. validate_AppConfig re c0 = Inr c)"

definition view_compiled :: "service_env \<Rightarrow> service \<Rightarrow> bool" where
  "view_compiled E s \<longleftrightarrow>
     (case svc_config s of
        None \<Rightarrow> svc_inventory s = []
      | Some c \<Rightarrow> valid_config c \<and> compiled_for E s c = Inr (svc_inventory s))"

definition results_keyed :: "service \<Rightarrow> bool" where
  "results_keyed s \<longleftrightarrow> (\<forall>cid r. dict_get (svc_results s) cid = Some r \<longrightarrow> run_check_id r = cid)"

definition results_current :: "service_env \<Rightarrow> service \<Rightarrow> bool" where
  "results_current E s \<longleftrightarrow> results_keyed s \<and>
     (svc_config s \<noteq> None \<longrightarrow> (\<forall>cid r. dict_get (svc_results s) cid = Some r \<longrightarrow> is_current E s r))"

definition tables_ok :: "service \<Rightarrow> bool" where
  "tables_ok s \<longleftrightarrow> dict_ok (svc_status s) \<and> sources_keyed s
     \<and> (\<forall>cid d. dict_get (svc_errors s) cid = Some d \<longrightarrow> dict_ok d)"

definition service_ok :: "service_env \<Rightarrow> service \<Rightarrow> bool" where
  "service_ok E s \<longleftrightarrow> view_compiled E s \<and> results_current E s \<and> tables_ok s"

lemmas service_ok_defs = service_ok_def view_compiled_def results_current_def results_keyed_def tables_ok_def
  sources_keyed_def is_current_def compiled_for_def

lemma service_ok_same:
  assumes "svc_config s' = svc_config s" "svc_generations s' = svc_generations s"
    "svc_inventory s' = svc_inventory s" "svc_results s' = svc_results s" "svc_errors s' = svc_errors s"
    "svc_status s' = svc_status s"
  shows "service_ok E s' = service_ok E s"
  unfolding service_ok_defs assms by (rule refl)

lemma service_ok_tables:
  assumes same: "svc_config s' = svc_config s" "svc_generations s' = svc_generations s"
    "svc_inventory s' = svc_inventory s" "svc_results s' = svc_results s"
    and "service_ok E s" "tables_ok s'"
  shows "service_ok E s'"
proof -
  have "view_compiled E s' = view_compiled E s" "results_current E s' = results_current E s"
    unfolding view_compiled_def compiled_for_def results_current_def results_keyed_def is_current_def same
    by (rule refl)+
  then show ?thesis using assms(5,6) by (simp add: service_ok_def)
qed

lemma service_ok_flags [simp]:
  "service_ok E (s\<lparr>svc_ready := b\<rparr>) = service_ok E s"
  "service_ok E (s\<lparr>svc_reload_success := b\<rparr>) = service_ok E s"
  "service_ok E (s\<lparr>svc_stopping := b\<rparr>) = service_ok E s"
  "service_ok E (s\<lparr>svc_has_executor := b\<rparr>) = service_ok E s"
  "service_ok E (s\<lparr>svc_loaded_ids := ids\<rparr>) = service_ok E s"
  "service_ok E (s\<lparr>svc_identity := reg\<rparr>) = service_ok E s"
  by (rule service_ok_same; simp)+

text \<open>What is current depends on the configuration and the inventory only.\<close>

lemma is_current_same:
  "svc_config s' = svc_config s \<Longrightarrow> svc_inventory s' = svc_inventory s \<Longrightarrow> is_current E s' = is_current E s"
  by (intro ext) (simp add: is_current_def split: option.splits)

section \<open>Results and counters\<close>

lemma dict_get_fold_pop: "dict_get (fold dict_pop ks d) k = (if k \<in> set ks then None else dict_get d k)"
  by (induction ks arbitrary: d) auto

lemma drop_obsolete_results_get:
  assumes "dict_get (svc_results (drop_obsolete_results E s)) cid = Some r"
  shows "dict_get (svc_results s) cid = Some r \<and> \<not> obsolete_result E s cid r"
proof -
  let ?gone = "map fst (filter (\<lambda>(cid, r). obsolete_result E s cid r) (svc_results s))"
  have r: "cid \<notin> set ?gone" "dict_get (svc_results s) cid = Some r"
    using assms by (simp_all add: drop_obsolete_results_def Let_def dict_get_fold_pop split: if_splits)
  from r(1) dict_get_in [OF r(2)] have "\<not> obsolete_result E s cid r" by force
  with r(2) show ?thesis ..
qed

lemma drop_obsolete_errors_get:
  "dict_get (svc_errors (drop_obsolete_results E s)) cid = Some d \<Longrightarrow> dict_get (svc_errors s) cid = Some d"
  by (simp add: drop_obsolete_results_def Let_def dict_get_fold_pop split: if_splits)

lemma not_obsolete:
  "run_check_id r = cid \<Longrightarrow> \<not> obsolete_result E s cid r \<Longrightarrow> is_current E s r"
  by (auto simp: obsolete_result_def is_current_def split: option.splits)

lemma drop_obsolete_ok:
  assumes "view_compiled E s" "results_keyed s" "tables_ok s"
  shows "service_ok E (drop_obsolete_results E s)"
proof -
  let ?d = "drop_obsolete_results E s"
  have "run_check_id r = cid \<and> is_current E s r" if "dict_get (svc_results ?d) cid = Some r" for cid r
    using drop_obsolete_results_get [OF that] assms(2) not_obsolete unfolding results_keyed_def by blast
  moreover have "is_current E ?d = is_current E s" by (rule is_current_same) simp_all
  ultimately have "results_current E ?d" unfolding results_current_def results_keyed_def by auto
  moreover have "view_compiled E ?d"
    using assms(1) by (auto simp: view_compiled_def compiled_for_def split: option.splits)
  moreover have "tables_ok ?d"
    using assms(3) by (auto simp: tables_ok_def sources_keyed_def dest!: drop_obsolete_errors_get)
  ultimately show ?thesis by (simp add: service_ok_def)
qed

lemma keep_result_ok:
  assumes "service_ok E s" "is_current E s r"
  shows "service_ok E (keep_result r s)"
proof -
  have "is_current E (keep_result r s) = is_current E s" by (rule is_current_same) (simp_all add: keep_result_def)
  moreover have "view_compiled E (keep_result r s)"
    using assms(1) by (auto simp: service_ok_def view_compiled_def compiled_for_def keep_result_def split: option.splits)
  ultimately show ?thesis
    using assms by (auto simp: service_ok_def results_current_def results_keyed_def tables_ok_def sources_keyed_def
        keep_result_def)
qed

lemma count_up_ok: "dict_ok d \<Longrightarrow> dict_ok (count_up k d)"
  by (simp add: count_up_def)

lemma fold_count_up_ok: "dict_ok d \<Longrightarrow> dict_ok (fold (\<lambda>x. count_up (f x)) xs d)"
  by (induction xs arbitrary: d) (simp_all add: count_up_ok)

lemma counter_ok: "tables_ok s \<Longrightarrow> dict_ok (counter_of cid s)"
  by (auto simp: tables_ok_def counter_of_def split: option.splits)

lemma errors_ok:
  assumes "service_ok E s" "dict_ok d"
  shows "service_ok E (s\<lparr>svc_errors := dict_set cid d (svc_errors s)\<rparr>)"
  by (rule service_ok_tables [OF _ _ _ _ assms(1)])
    (use assms in \<open>simp_all add: service_ok_def tables_ok_def sources_keyed_def\<close>)

lemma count_errors_ok: "service_ok E s \<Longrightarrow> service_ok E (count_errors r s)"
  unfolding count_errors_def by (rule errors_ok) (auto simp: service_ok_def intro: fold_count_up_ok counter_ok)

lemma count_reason_ok: "service_ok E s \<Longrightarrow> service_ok E (count_reason cid k s)"
  unfolding count_reason_def by (rule errors_ok) (auto simp: service_ok_def intro: count_up_ok counter_ok)

lemma is_current_kept [simp]:
  "is_current E (keep_result r s) = is_current E s" "is_current E (count_errors r s) = is_current E s"
  "is_current E (count_reason cid k s) = is_current E s" "is_current E s (unsaved now r) = is_current E s r"
  by (auto simp: is_current_def keep_result_def count_errors_def count_reason_def unsaved_def intro!: is_current_same
      split: option.splits)

lemma publish_result_ok:
  assumes "service_ok E s" "publish_result E now r s w = (Inr (s', r'), w')"
  shows "service_ok E s'"
  using assms
  by (auto simp: publish_result_def bindI_def attempt_def returnI_def Let_def
      split: if_splits prod.splits sum.splits
      intro!: count_errors_ok count_reason_ok keep_result_ok)

section \<open>The inventory\<close>

lemma inventory_check:
  assumes "service_ok E s" "dict_get (svc_inventory s) cid = Some c"
  shows "\<exists>cfg. svc_config s = Some cfg \<and> valid_config cfg
    \<and> check_sound (se_sha256 E) cfg (svc_generations s) cid c"
proof (cases "svc_config s")
  case None
  then show ?thesis using assms by (simp add: service_ok_def view_compiled_def)
next
  case (Some cfg)
  then have "valid_config cfg" "compiled_for E s cfg = Inr (svc_inventory s)"
    using assms(1) by (simp_all add: service_ok_def view_compiled_def)
  moreover from this(2) have "inventory_sound (se_sha256 E) cfg (svc_generations s) (svc_inventory s)"
    unfolding compiled_for_def by (rule compiled_inventory_sound)
  ultimately show ?thesis using Some dict_get_in [OF assms(2)] by (auto simp: inventory_sound_def)
qed

lemma inventory_key:
  assumes "service_ok E s" "dict_get (svc_inventory s) cid = Some c"
  shows "check_id (definition_of c) = cid"
  using inventory_check [OF assms] by (auto simp: check_sound_def made_from_def)

lemma error_run_fields [simp]:
  "run_check_id (error_run E rid c inst check a b x t) = check_id (definition_of check)"
  "run_generation (error_run E rid c inst check a b x t) = chk_generation (definition_of check)"
  "config_revision (error_run E rid c inst check a b x t) = revision_of E c"
  by (simp_all add: error_run_def blank_run_def Let_def)

lemma scheduler_failure_ok:
  assumes "service_ok E s" "scheduler_failure E rid now cid gen reason s w = (Inr s', w')"
  shows "service_ok E s'"
proof (cases "s' = s")
  case False
  then obtain c cfg r where c: "dict_get (svc_inventory s) cid = Some c" "svc_config s = Some cfg"
    and r: "r = error_run E rid (Some cfg) (instance_id cfg) c now now
        (if reason = ''scheduler'' then SCHEDULER else INTERNAL)
        (if reason = ''scheduler'' then ''scheduler could not admit the check'' else ''scheduled execution failed'')"
    and s': "s' = (count_reason cid reason s)
        \<lparr>svc_results := dict_set cid r (svc_results s), svc_loaded_ids := svc_loaded_ids s - {cid}\<rparr>"
    using assms(2)
    by (auto simp: scheduler_failure_def bindI_def attempt_def returnI_def Let_def
        split: option.splits if_splits prod.splits)
  have cid: "run_check_id r = cid" using inventory_key [OF assms(1) c(1)] by (simp add: r)
  have "s' = keep_result r (count_reason cid reason s)"
    by (simp add: s' keep_result_def cid count_reason_def)
  moreover have "is_current E s r" using c cid by (simp add: is_current_def r)
  ultimately show ?thesis by (simp add: keep_result_ok count_reason_ok assms(1))
qed (use assms(1) in simp)

section \<open>Sources\<close>

lemma set_status_ok:
  assumes "service_ok E s"
  shows "service_ok E (set_status st s)"
  by (rule service_ok_tables [OF _ _ _ _ assms])
    (use assms in \<open>simp_all add: service_ok_def tables_ok_def sources_keyed_def\<close>)

lemma dict_get_filter_key:
  "dict_get (filter (\<lambda>(k, v). P k) d) k = (if P k then dict_get d k else None)"
  by (induction d) auto

lemma activate_source_ok:
  assumes "service_ok E s" "plan_fits E s sid p" "ss_source_id st = sid"
    and "activate_source E rq p st s w = (Inr s2, w')"
  shows "service_ok E s2"
proof -
  let ?st = "accepted_status (rq_accept_time rq) st" and ?s1 = "swap_view p (accepted_status (rq_accept_time rq) st) s"
  have keyed: "results_keyed ?s1" and tables: "tables_ok ?s1"
    using assms(1-3) by (auto simp: service_ok_defs swap_view_def plan_fits_def split: if_splits)
  show ?thesis
  proof (cases "pl_changed p")
    case False
    then have "s2 = ?s1" using assms(4) by (simp add: activate_source_def Let_def returnI_def)
    moreover have "?s1 = set_status ?st (s\<lparr>svc_identity := pl_registry p\<rparr>)"
      using False assms(2) by (simp add: swap_view_def plan_fits_def)
    ultimately show ?thesis using assms(1) by (simp add: set_status_ok)
  next
    case True
    then have "view_compiled E ?s1"
      using assms(1,2) by (auto simp: service_ok_def view_compiled_def compiled_for_def swap_view_def plan_fits_def)
    then have "service_ok E (drop_obsolete_results E ?s1)" using keyed tables by (rule drop_obsolete_ok)
    moreover have "\<exists>b. s2 = (if b then drop_obsolete_results E ?s1 else (drop_obsolete_results E ?s1)\<lparr>svc_ready := False\<rparr>)"
      using assms(4) True
      by (auto simp: activate_source_def Let_def bindI_def returnI_def
          split: sum.splits prod.splits if_splits dest!: drop_and_prune_Inr intro: exI [of _ True] exI [of _ False])
    ultimately show ?thesis by auto
  qed
qed

lemma commit_source_state_ok:
  assumes "service_ok E s" "plan_fits E s sid p" "ss_source_id st = sid"
    and "commit_source_state E rq p st s w = (Inr (Inr s2), w')"
  shows "service_ok E s2"
  using assms(4) activate_source_ok [OF assms(1-3)]
  by (auto simp: commit_source_state_def bindI_def readI_def returnI_def split: sum.splits prod.splits if_splits)

lemma service_ok_keyed: "service_ok E s \<Longrightarrow> sources_keyed s"
  by (simp add: service_ok_def tables_ok_def)

lemma refresh_source_ok:
  assumes "service_ok E s" "refresh_source E rq sid s w = (Inr (s', e), w')"
  shows "service_ok E s'"
proof -
  note keyed = service_ok_keyed [OF assms(1)]
  have id: "ss_source_id (status_of s sid) = sid" by (rule status_keyed [OF keyed])
  have commit: "commit_source_state E rq p st s w = (Inr (Inr s2), w2)
      \<Longrightarrow> bindE (accepted_candidates rq source) (refresh_plan E rq s sid) = Inr p
      \<Longrightarrow> ss_source_id st = sid \<Longrightarrow> service_ok E s2" for p st s2 w2 source
    using commit_source_state_ok [OF assms(1)] refresh_plan_fits [OF keyed] by blast
  show ?thesis
    using assms
    by (auto simp: refresh_source_def Let_def bindI_def returnI_def set_status_ok id
        split: sum.splits prod.splits dest: commit)
qed

lemma reconcile_source_ok:
  assumes "service_ok E s" "reconcile_source E dump rq sid mapping expected s w = (Inr (s', e), w')"
  shows "service_ok E s'"
proof -
  note keyed = service_ok_keyed [OF assms(1)]
  have id: "ss_source_id (status_of s sid) = sid" by (rule status_keyed [OF keyed])
  have commit: "commit_source_state E rq p st s w = (Inr (Inr s2), w2)
      \<Longrightarrow> source_plan_of E rq s sid cands reg r extra compared = Inr p
      \<Longrightarrow> ss_source_id st = sid \<Longrightarrow> service_ok E s2" for p st s2 w2 cands reg r extra compared
    using commit_source_state_ok [OF assms(1)] source_plan_fits [OF keyed] by blast
  show ?thesis
    using assms
    by (auto simp: reconcile_source_def Let_def bindI_def returnI_def set_status_ok id
        split: sum.splits prod.splits if_splits dest: commit)
qed

section \<open>Configurations\<close>

lemma install_config_ok:
  assumes "service_ok E s" "valid_config c"
    and "compile_inventory (se_sha256 E) (se_regex E) c (candidate_generations c s) = Inr inventory"
  shows "service_ok E (drop_obsolete_results E (install_config c inventory s))"
proof (rule drop_obsolete_ok)
  let ?i = "install_config c inventory s"
  show "view_compiled E ?i"
    using assms(2,3) by (simp add: view_compiled_def compiled_for_def install_config_def)
  show "results_keyed ?i"
    using assms(1) by (simp add: service_ok_defs install_config_def)
  note keyed = service_ok_keyed [OF assms(1)]
  have "gen_source_id g = k" if "dict_get (svc_generations ?i) k = Some g" for k g
    using that keyed
    by (simp add: install_config_def candidate_generations_def dict_get_filter_key sources_keyed_def split: if_splits)
  moreover have "ss_source_id st = k" if "dict_get (svc_status ?i) k = Some st" for k st
  proof -
    have "st = status_of s k" using dict_get_in [OF that] by (auto simp: install_config_def)
    then show ?thesis using status_keyed [OF keyed] by simp
  qed
  moreover have "dict_ok (svc_status ?i)" by (simp add: install_config_def dict_ok_def comp_def)
  moreover have "svc_errors ?i = svc_errors s" by (simp add: install_config_def)
  ultimately show "tables_ok ?i"
    using assms(1) by (simp add: service_ok_def tables_ok_def sources_keyed_def)
qed

lemma apply_config_ok:
  assumes "service_ok E s" "valid_config c" "apply_config E ap c s w = (Inr (s', outcome), w')"
  shows "service_ok E s'"
  using assms(1,3) install_config_ok [OF assms(1,2)]
  by (auto simp: apply_config_def bindI_def returnI_def
      split: sum.splits prod.splits if_splits dest!: drop_and_prune_Inr)

lemma note_reload_ok: "service_ok E s \<Longrightarrow> service_ok E (fst (note_reload (s, outcome)))"
  by (cases outcome) (simp_all add: note_reload_def)

lemma validated_raw: "validate_config C (RawConfig v) = Inr c \<Longrightarrow> valid_config c"
  by (auto simp: validate_config_def valid_config_def split: raw.splits option.splits if_splits sum.splits)

lemma stored_config_valid:
  assumes "stored_config C target d = Inr c"
  shows "valid_config c"
  using assms validated_raw
  by (auto simp: stored_config_def load_config_def loads_config_def bindE_Inr_iff Let_def
      split: option.splits if_splits config_text.splits sum.splits file_read.splits)

lemma reload_config_ok:
  assumes "service_ok E s" "reload_config E C ap target s w = (Inr (s', outcome), w')"
  shows "service_ok E s'"
proof -
  consider "s' = s" | f where "note_reload (s, ApplyRefused f) = (s', outcome)"
    | c s1 o1 w1 where "stored_config C target (files w) = Inr c"
      "apply_config E ap c s w = (Inr (s1, o1), w1)" "note_reload (s1, o1) = (s', outcome)"
    using assms(2)
    by (auto simp: reload_config_def bindI_def readI_def returnI_def split: if_splits sum.splits prod.splits)
  then show ?thesis
  proof cases
    case 2
    then show ?thesis using note_reload_ok [OF assms(1)] by (metis fst_conv)
  next
    case 3
    then show ?thesis
      using note_reload_ok [OF apply_config_ok [OF assms(1) stored_config_valid]] by (metis fst_conv)
  qed (use assms(1) in simp)
qed

definition request_valid :: "replace_request \<Rightarrow> bool" where
  "request_valid rp \<longleftrightarrow> (case rp_value rp of ParsedConfig c \<Rightarrow> valid_config c | RawConfig _ \<Rightarrow> True)"

lemma admitted_config_valid:
  assumes "request_valid rp" "admitted_config E C (rp_value rp) expected secrets s = Inr c"
  shows "valid_config c"
  using assms validated_raw
  by (auto simp: admitted_config_def bindE_Inr_iff request_valid_def validate_config_def split: config_value.splits)

lemma previous_valid: "service_ok E s \<Longrightarrow> svc_config s = Some c \<Longrightarrow> valid_config c"
  by (simp add: service_ok_def view_compiled_def)

lemma refuse_replace_ok:
  assumes "service_ok E s" "refuse_replace E rp target previous s w = (Inr s', w')"
  shows "service_ok E s'"
  using assms by (auto simp: refuse_replace_def bindI_def returnI_def split: sum.splits prod.splits option.splits)

lemma restore_previous_ok:
  assumes "service_ok E s" "\<And>c. previous = Some c \<Longrightarrow> valid_config c"
    and "restore_previous E rp target previous s w = (Inr s', w')"
  shows "service_ok E s'"
  using assms apply_config_ok [OF assms(1)]
  by (auto simp: restore_previous_def bindI_def returnI_def
      split: sum.splits prod.splits option.splits apply_outcome.splits if_splits)

lemma commit_candidate_ok:
  assumes "service_ok E s" "\<And>c. previous = Some c \<Longrightarrow> valid_config c"
    and "commit_candidate E rp target previous c s w = (Inr (s', outcome), w')"
  shows "service_ok E s'"
  using assms restore_previous_ok [of E "s\<lparr>svc_reload_success := False\<rparr>", OF _ assms(2)]
  by (auto simp: commit_candidate_def bindI_def returnI_def readI_def Let_def
      split: sum.splits prod.splits if_splits)

lemma commit_interrupted_ok:
  assumes "service_ok E s" "commit_interrupted E rp target c s w = (Inr (s', outcome), w')"
  shows "service_ok E s'"
  using assms
  by (auto simp: commit_interrupted_def bindI_def returnI_def split: sum.splits prod.splits if_splits)

lemma apply_candidate_ok:
  assumes "service_ok E s" "valid_config c" "apply_candidate E C rp target c s w = (Inr (s', outcome), w')"
  shows "service_ok E s'"
  using assms(1,3) apply_config_ok [OF assms(1,2)]
  by (auto simp: apply_candidate_def bindI_def returnI_def split: sum.splits prod.splits)

lemma replace_config_ok:
  assumes "service_ok E s" "request_valid rp" "replace_config E C rp target s w = (Inr (s', outcome), w')"
  shows "service_ok E s'"
proof (cases "admitted_config E C (rp_value rp) (rp_expected rp) (rp_secrets rp) s")
  case (Inl e)
  then show ?thesis using assms(1,3) by (simp add: replace_config_def returnI_def)
next
  case (Inr c)
  note valid = admitted_config_valid [OF assms(2) Inr]
  obtain s1 o1 w1 where a: "apply_candidate E C rp target c s w = (Inr (s1, o1), w1)"
    using assms(3) Inr by (auto simp: replace_config_def bindI_def split: sum.splits prod.splits)
  note ok = apply_candidate_ok [OF assms(1) valid a]
  show ?thesis
    using assms(3) Inr a commit_candidate_ok [OF ok previous_valid [OF assms(1)]] commit_interrupted_ok [OF ok]
      refuse_replace_ok [OF ok]
    by (auto simp: replace_config_def bindI_def returnI_def split: sum.splits prod.splits apply_outcome.splits)
qed

section \<open>Startup\<close>

lemma load_generation_ok:
  assumes "service_ok E s" "svc_config s = None"
  shows "service_ok E (load_generation env d sid s) \<and> svc_config (load_generation env d sid s) = None"
  using assms by (auto simp: load_generation_def service_ok_defs loaded_status_def new_status_def
      split: sum.splits option.splits)

lemma load_generations_ok:
  assumes "service_ok E s" "svc_config s = None"
  shows "service_ok E (load_generations env d s) \<and> svc_config (load_generations env d s) = None"
proof -
  have "service_ok E s \<Longrightarrow> svc_config s = None \<Longrightarrow>
      service_ok E (fold (load_generation env d) ids s) \<and> svc_config (fold (load_generation env d) ids s) = None" for ids
    by (induction ids arbitrary: s) (simp_all add: load_generation_ok)
  then show ?thesis using assms by (simp add: load_generations_def)
qed

lemma load_result_ok:
  assumes "service_ok E s" "svc_config s = None"
  shows "service_ok E (load_result_as_stale v s) \<and> svc_config (load_result_as_stale v s) = None"
  using assms by (auto simp: load_result_as_stale_def service_ok_defs split: option.splits)

lemma load_results_ok:
  assumes "service_ok E s" "svc_config s = None"
  shows "service_ok E (load_results_as_stale env validate d s)
    \<and> svc_config (load_results_as_stale env validate d s) = None"
proof -
  have "service_ok E s \<Longrightarrow> svc_config s = None \<Longrightarrow>
      service_ok E (fold (\<lambda>v. load_result_as_stale (validate v)) vs s)
      \<and> svc_config (fold (\<lambda>v. load_result_as_stale (validate v)) vs s) = None" for vs
    by (induction vs arbitrary: s) (simp_all add: load_result_ok)
  then show ?thesis using assms by (simp add: load_results_as_stale_def split: sum.splits)
qed

lemma load_identity_ok:
  assumes "service_ok E s" "svc_config s = None"
  shows "service_ok E (load_identity env d s) \<and> svc_config (load_identity env d s) = None"
  using assms by (simp add: load_identity_def split: sum.splits)

lemma start_config_ok:
  assumes "service_ok E s" "start_config E C ap locate target s w = (Inr s', w')"
  shows "service_ok E s'"
proof -
  consider "s' = s" | "s' = s\<lparr>svc_reload_success := False\<rparr>"
    | c s1 o1 w1 where "stored_config C target (files w) = Inr c"
      "apply_config E ap c s w = (Inr (s1, o1), w1)" "s' = fst (note_reload (s1, o1))"
    using assms(2)
    by (auto simp: start_config_def bindI_def readI_def returnI_def
        split: if_splits sum.splits prod.splits apply_outcome.splits)
  then show ?thesis
  proof cases
    case 3
    then show ?thesis using note_reload_ok [OF apply_config_ok [OF assms(1) stored_config_valid]] by blast
  qed (use assms(1) in simp_all)
qed

lemma new_service_ok: "service_ok E (new_service schedule)"
  by (simp add: service_ok_defs new_service_def)

lemma start_service_ok:
  assumes "start_service E C ap locate validate target (new_service schedule) w = (Inr s', w')"
  shows "service_ok E s'"
proof -
  have new: "service_ok E (new_service schedule)" "svc_config (new_service schedule) = None"
    by (simp_all add: new_service_ok) (simp add: new_service_def)
  let ?s1 = "\<lambda>d. load_results_as_stale (se_store E) validate d
    (load_generations (se_store E) d (load_identity (se_store E) d (new_service schedule)))"
  have "service_ok E (?s1 d)" for d
    using load_identity_ok [OF new, of "se_store E" d] load_generations_ok load_results_ok by blast
  then have ok: "service_ok E ((?s1 d)\<lparr>svc_stopping := False\<rparr>)" for d by simp
  show ?thesis
    using assms start_config_ok [OF ok]
    by (auto simp: start_service_def bindI_def readI_def split: sum.splits prod.splits)
qed

section \<open>Steps and reachable states\<close>

inductive service_begin :: "service_env \<Rightarrow> service \<Rightarrow> bool" for E where
  begin_start: "start_service E C ap locate validate target (new_service schedule) w = (Inr s, w')
    \<Longrightarrow> service_begin E s"

inductive service_step :: "service_env \<Rightarrow> service \<Rightarrow> service \<Rightarrow> bool" for E where
  step_refresh: "refresh_source E rq sid s w = (Inr (s', e), w') \<Longrightarrow> service_step E s s'"
| step_reconcile: "reconcile_source E dump rq sid mapping expected s w = (Inr (s', e), w') \<Longrightarrow> service_step E s s'"
| step_execute: "publish_result E now (run_outcome E rid c check begun finished outcome) s w = (Inr (s', r), w')
    \<Longrightarrow> service_step E s s'"
| step_scheduler: "scheduler_failure E rid now cid gen reason s w = (Inr s', w') \<Longrightarrow> service_step E s s'"
| step_reload: "reload_config E C ap target s w = (Inr (s', o1), w') \<Longrightarrow> service_step E s s'"
| step_replace: "request_valid rp \<Longrightarrow> replace_config E C rp target s w = (Inr (s', o1), w') \<Longrightarrow> service_step E s s'"
| step_stop: "service_step E s (stop_service s)"

lemma service_step_ok:
  assumes "service_step E s s'" "service_ok E s"
  shows "service_ok E s'"
  using assms
proof cases
  case step_refresh
  then show ?thesis using refresh_source_ok assms(2) by blast
next
  case step_reconcile
  then show ?thesis using reconcile_source_ok assms(2) by blast
next
  case step_execute
  then show ?thesis using publish_result_ok assms(2) by blast
next
  case step_scheduler
  then show ?thesis using scheduler_failure_ok assms(2) by blast
next
  case step_reload
  then show ?thesis using reload_config_ok assms(2) by blast
next
  case step_replace
  then show ?thesis using replace_config_ok assms(2) by blast
next
  case step_stop
  then show ?thesis using assms(2) by (simp add: stop_service_def)
qed

interpretation service: invariant_system "service_begin E" "service_step E" "service_ok E" for E
  by unfold_locales (auto elim!: service_begin.cases intro: start_service_ok service_step_ok)

section \<open>What the metrics read\<close>

lemma check_public_ids [simp]:
  "pc_definition (check_public_of E s now busy c) = definition_of c"
  "map pt_target_id (pc_targets (check_public_of E s now busy c)) = map target_id (targets (cc_target_set c))"
  "map pe_assertion_id (pc_egress (check_public_of E s now busy c)) = map assertion_id (cc_egress_assertions c)"
  "pc_errors_total (check_public_of E s now busy c) = counter_of (check_id (definition_of c)) s"
  by (auto simp: check_public_of_def base_public_def bare_target_def bare_egress_def rendered_target_def
      rendered_egress_def Let_def split: option.splits)

lemma selected_assertion_ids:
  "map assertion_id (selected_assertions config ids)
     = filter (\<lambda>i. i \<in> set (map assertion_id (egress_assertions config))) ids"
proof -
  let ?d = "dict_of (map (\<lambda>a. (assertion_id a, a)) (egress_assertions config))"
  have "dict_get ?d i \<noteq> None \<longleftrightarrow> i \<in> set (map assertion_id (egress_assertions config))" for i
    by (force simp: dict_get_of map_of_eq_None_iff)
  moreover have "dict_get ?d i \<noteq> None \<Longrightarrow> assertion_id (the (dict_get ?d i)) = i" for i
    using keyed_dict_get by fastforce
  ultimately show ?thesis
    unfolding selected_assertions_def Let_def by (auto simp: map_map comp_def intro!: map_idI cong: filter_cong map_cong)
qed

lemma inventory_check_distinct:
  assumes "service_ok E s" "dict_get (svc_inventory s) cid = Some c"
  shows "distinct (map target_id (targets (cc_target_set c)))"
    "distinct (map assertion_id (cc_egress_assertions c))"
proof -
  obtain cfg source gen entry where cfg: "valid_config cfg" "source \<in> set (sources cfg)"
    "made_from (se_sha256 E) cfg source gen entry cid c"
    using inventory_check [OF assms] by (auto simp: check_sound_def)
  then obtain re c0 where valid: "validate_AppConfig re c0 = Inr cfg" by (auto simp: valid_config_def)
  have "cc_target_set c \<in> set (target_sets cfg)" using cfg(3) by (simp add: made_from_def)
  then show "distinct (map target_id (targets (cc_target_set c)))"
    using validated_config_ok [OF valid] by (auto simp: config_ok_def list_all_iff target_set_ok_def)
  obtain ids where "ids \<in> insert (source_egress_assertion_ids source) (rule_egress_assertion_ids ` set (assignments cfg))"
    "cc_egress_assertions c = selected_assertions cfg ids"
    using cfg(3) by (auto simp: made_from_def)
  then show "distinct (map assertion_id (cc_egress_assertions c))"
    using validated_assertion_ids [OF valid] cfg(2) by (auto simp: selected_assertion_ids)
qed

lemma inventory_dict:
  assumes "service_ok E s"
  shows "dict_ok (svc_inventory s)"
proof (cases "svc_config s")
  case None
  then show ?thesis using assms by (simp add: service_ok_def view_compiled_def)
next
  case (Some c)
  then have "compiled_for E s c = Inr (svc_inventory s)" using assms by (simp add: service_ok_def view_compiled_def)
  then show ?thesis unfolding compiled_for_def using compiled_inventory_sound by (auto simp: inventory_sound_def)
qed

lemma keyed_values:
  assumes "dict_ok d" "\<And>k v. dict_get d k = Some v \<Longrightarrow> f v = k"
  shows "distinct (map f (dict_values d))"
proof -
  have "map f (dict_values d) = map fst d"
    using dict_mem_get [OF assms(1)] assms(2) by (auto simp: comp_def intro!: map_cong)
  then show ?thesis using assms(1) unfolding dict_ok_def by metis
qed

lemma snapshot_view_ok:
  assumes "service_ok E s"
  shows "status_view_ok (status_snapshot E s now busy active queued_items)"
proof -
  let ?view = "\<lambda>c. check_view_of (check_public_of E s now (busy (check_id (definition_of c))) c)"
  have view: "cv_check_id (?view c) = check_id (definition_of c)" for c by (simp add: check_view_of_def Let_def)
  have "dict_get (svc_inventory s) k = Some c \<Longrightarrow> cv_check_id (?view c) = k" for k c
    unfolding view by (rule inventory_key [OF assms])
  then have ids: "distinct (map (\<lambda>c. cv_check_id (?view c)) (dict_values (svc_inventory s)))"
    by (rule keyed_values [OF inventory_dict [OF assms]])
  have tables: "dict_ok (svc_status s)" "\<And>k v. dict_get (svc_status s) k = Some v \<Longrightarrow> ss_source_id v = k"
    using assms by (auto simp: service_ok_def tables_ok_def sources_keyed_def)
  have sources: "distinct (map ss_source_id (dict_values (svc_status s)))"
    by (rule keyed_values [OF tables])
  have "check_view_ok (?view c)" if mem: "c \<in> set (dict_values (svc_inventory s))" for c
  proof -
    obtain cid where "(cid, c) \<in> set (svc_inventory s)" using mem by auto
    then have cid: "dict_get (svc_inventory s) cid = Some c" by (rule dict_mem_get [OF inventory_dict [OF assms]])
    have "map tv_target_id (cv_targets (?view c)) = map target_id (targets (cc_target_set c))"
      using check_public_ids(2) by (simp add: check_view_of_def target_view_of_def Let_def comp_def)
    moreover have "map ev_assertion_id (cv_egress (?view c)) = map assertion_id (cc_egress_assertions c)"
      using check_public_ids(3) by (simp add: check_view_of_def Let_def comp_def)
    moreover have "dict_ok (cv_errors_total (?view c))"
      using counter_ok [of s] assms by (auto simp: check_view_of_def Let_def dict_ok_def service_ok_def comp_def split_def)
    ultimately show ?thesis using inventory_check_distinct [OF assms cid] by (simp add: check_view_ok_def)
  qed
  then show ?thesis
    using ids sources by (auto simp: status_view_ok_def status_snapshot_def checks_snapshot_def list_all_iff comp_def)
qed

section \<open>Properties\<close>



section \<open>A concrete service\<close>

text \<open>A service starts without a configuration; one with a source is written and loaded.\<close>

definition demo_file_env :: config_env where
  "demo_file_env = no_yaml_env\<lparr>cf_yaml := (\<lambda>_. Some (RDict [(''schema_version'', RInt 1)])),
     cf_parse := (\<lambda>_. Inr example_config)\<rparr>"

definition calm_apply :: apply_request where
  "calm_apply = \<lparr>ap_codecs = empty_codecs, ap_config_test = (\<lambda>_. TestPassed), ap_executor_built = True,
     ap_old_quiesced = True, ap_scheduler_started = True, ap_interruption = Undisturbed\<rparr>"

definition demo_file_world :: "path world" where
  "demo_file_world = fresh_world [(PConfig ''t'', \<lparr>content = ''x'', mtime = 0\<rparr>)] []"

definition demo_loaded :: service where
  "demo_loaded = (new_service True)\<lparr>svc_config := Some example_config,
     svc_status := [(''src'', new_status ''src'')], svc_has_executor := True, svc_ready := True,
     svc_reload_success := True\<rparr>"

lemma demo_begin: "service_begin demo_env (new_service True)"
proof (rule begin_start)
  show "start_service demo_env demo_file_env calm_apply (\<lambda>_. None) (\<lambda>_. None) ''t'' (new_service True) (fresh_world [] [])
      = (Inr (new_service True), fresh_world [] [])"
    by code_simp
qed

lemma demo_stored: "stored_config demo_file_env ''t'' (files demo_file_world) = Inr example_config"
  by (simp add: stored_config_def load_config_def loads_config_def safe_yaml_load_def validate_config_def
      demo_file_world_def fresh_world_def demo_file_env_def no_yaml_env_def MAX_CONFIG_BYTES_def
      CURRENT_SCHEMA_VERSION_def same_key_def example_config_valid)

lemma demo_applied:
  "apply_config demo_env calm_apply example_config (new_service True) demo_file_world
     = (Inr (demo_loaded\<lparr>svc_reload_success := False\<rparr>, Applied), demo_file_world)"
  by code_simp

lemma demo_reloaded: "service_step demo_env (new_service True) demo_loaded"
proof (rule step_reload)
  have "\<not> svc_stopping (new_service True)" by (simp add: new_service_def)
  then show "reload_config demo_env demo_file_env calm_apply ''t'' (new_service True) demo_file_world
      = (Inr (demo_loaded, Applied), demo_file_world)"
    using demo_applied demo_stored
    by (simp add: reload_config_def bindI_def readI_def returnI_def note_reload_def demo_loaded_def)
qed

lemma demo_reachable: "reachable (service_begin demo_env) (service_step demo_env) demo_loaded"
  using reachable_start [where start = "service_begin demo_env", OF demo_begin] demo_reloaded
  by (rule reachable_move)



end
