(* ===== verification/ReplaceLaws.thy ===== *)
theory ReplaceLaws
  imports ServiceConfig CommitLaws
begin

text \<open>
  What \<open>replace_config\<close> guarantees: memory and disk agree on the configuration afterwards, or the service
  is not ready, and a crash or a failing file operation at any point leaves a disk from which the next
  start recovers the old or the new configuration.
\<close>

section \<open>Disks that lead back\<close>

text \<open>
  What may be cleaned up meanwhile: results of checks, and secrets of earlier transactions that the
  configuration to keep does not use.
\<close>

definition junk :: "(string \<Rightarrow> path option) \<Rightarrow> AppConfig option \<Rightarrow> path set" where
  "junk locate keep = {p. (\<exists>cid. p = PResult cid)
     \<or> (\<exists>n c. p = PSecret [n] \<and> keep = Some c \<and> p \<notin> referenced_secret_files locate c)}"

lemma junk_other [simp]: "PConfig t \<notin> junk locate keep" "PTransaction \<notin> junk locate keep" "PBackup \<notin> junk locate keep"
  by (simp_all add: junk_def)

definition revertible ::
  "store_env \<Rightarrow> string \<Rightarrow> string list \<Rightarrow> path set \<Rightarrow> path disk \<Rightarrow> path disk \<Rightarrow> bool" where
  "revertible env target names J d0 d \<longleftrightarrow>
     (\<exists>d1. (same_outside J d0 d1 \<and> file_content d1 PTransaction = None) \<and> recoverable env target names d1 d)"

definition in_candidate ::
  "store_env \<Rightarrow> string \<Rightarrow> string list \<Rightarrow> path set \<Rightarrow> path disk \<Rightarrow> path disk \<Rightarrow> bool" where
  "in_candidate env target names J d0 d \<longleftrightarrow>
     (\<exists>d1. same_outside J d0 d1 \<and> file_content d1 PTransaction = None \<and> midway env target names d1 d)"

definition accepted_disk :: "path set \<Rightarrow> path disk \<Rightarrow> path disk \<Rightarrow> bool" where
  "accepted_disk J d1 d \<longleftrightarrow> (\<exists>d2. same_outside J d1 d2 \<and> committed d2 d)"

lemma same_outside_refl [simp]: "same_outside ps d d"
  by (simp add: same_outside_def)

lemma same_outside_trans: "same_outside ps d e \<Longrightarrow> same_outside qs e f \<Longrightarrow> ps \<subseteq> rs \<Longrightarrow> qs \<subseteq> rs \<Longrightarrow> same_outside rs d f"
  unfolding same_outside_def by (metis subsetD)

lemma midway_trim:
  assumes "midway env target names d1 d" "p \<notin> {PBackup, PTransaction, PConfig target}"
  shows "midway env target names (dict_pop p d1) (dict_pop p d)"
  using assms by (auto simp: midway_def journal_ok_def same_outside_def)

lemma restored_trim: "restored d1 d \<Longrightarrow> p \<noteq> PBackup \<Longrightarrow> restored (dict_pop p d1) (dict_pop p d)"
  by (auto simp: restored_def same_outside_def)

lemma committed_trim: "committed d1 d \<Longrightarrow> committed (dict_pop p d1) (dict_pop p d)"
  by (auto simp: committed_def same_outside_def)

lemma revertible_pop:
  assumes "revertible env target names J d0 d" "p \<in> J" "p \<notin> {PBackup, PTransaction, PConfig target}"
  shows "revertible env target names J d0 (dict_pop p d)"
proof -
  obtain d1 where d1: "same_outside J d0 d1" "file_content d1 PTransaction = None" "recoverable env target names d1 d"
    using assms(1) by (auto simp: revertible_def)
  have "same_outside J d0 (dict_pop p d1)" using d1(1) assms(2) by (rule same_outside_pop)
  moreover have "file_content (dict_pop p d1) PTransaction = None" using d1(2) by simp
  moreover have "recoverable env target names (dict_pop p d1) (dict_pop p d)"
    using d1(3) assms(3) midway_trim restored_trim by (auto simp: recoverable_def)
  ultimately show ?thesis unfolding revertible_def by blast
qed

lemma in_candidate_pop:
  assumes "in_candidate env target names J d0 d" "p \<in> J" "p \<notin> {PBackup, PTransaction, PConfig target}"
  shows "in_candidate env target names J d0 (dict_pop p d)"
proof -
  obtain d1 where d1: "same_outside J d0 d1" "file_content d1 PTransaction = None" "midway env target names d1 d"
    using assms(1) by (auto simp: in_candidate_def)
  have "same_outside J d0 (dict_pop p d1)" using d1(1) assms(2) by (rule same_outside_pop)
  moreover have "file_content (dict_pop p d1) PTransaction = None" using d1(2) by simp
  ultimately show ?thesis using midway_trim [OF d1(3) assms(3)] unfolding in_candidate_def by blast
qed

lemma in_candidate_revertible: "in_candidate env target names J d0 d \<Longrightarrow> revertible env target names J d0 d"
  unfolding in_candidate_def revertible_def recoverable_def by blast

lemma revertible_mono: "J \<subseteq> K \<Longrightarrow> revertible env target names J d0 d \<Longrightarrow> revertible env target names K d0 d"
  unfolding revertible_def by (meson same_outside_trans same_outside_refl subset_refl)

lemma accepted_pop:
  assumes "accepted_disk J d1 d" "p \<in> J"
  shows "accepted_disk J d1 (dict_pop p d)"
proof -
  obtain d2 where "same_outside J d1 d2" "committed d2 d" using assms(1) by (auto simp: accepted_disk_def)
  then show ?thesis
    using committed_trim same_outside_pop [OF _ assms(2)] unfolding accepted_disk_def by blast
qed

text \<open>What a restart finds.\<close>

lemma revertible_recovers:
  assumes "json_ok (codec env)" "digest_ok env" "revertible env target names J d0 d"
  shows "recovers env target (same_outside (insert PBackup J) d0) d"
proof -
  obtain d1 where d1: "same_outside J d0 d1" "file_content d1 PTransaction = None" "recoverable env target names d1 d"
    using assms(3) by (auto simp: revertible_def)
  have "same_outside (insert PBackup J) d0 e" if "restored d1 e" for e
    using d1(1) that unfolding restored_def by (rule same_outside_trans) auto
  then show ?thesis using recoverable_recovers [OF assms(1,2) d1(2,3)] unfolding recovers_def by blast
qed

lemma accepted_recovers:
  assumes "accepted_disk J d1 d"
  shows "recovers env target (same_outside (J \<union> {PBackup, PTransaction}) d1) d"
proof -
  obtain d2 where d2: "same_outside J d1 d2" "committed d2 d" using assms by (auto simp: accepted_disk_def)
  have "same_outside (J \<union> {PBackup, PTransaction}) d1 e" if "same_outside {PBackup, PTransaction} d2 e" for e
    using d2(1) that by (rule same_outside_trans) auto
  then show ?thesis using committed_recovers [OF d2(2)] unfolding recovers_def by blast
qed

section \<open>Programs on these disks\<close>

lemma keeps_ex: "(\<And>x. K x \<Longrightarrow> keeps (I x) m) \<Longrightarrow> keeps (\<lambda>d. \<exists>x. K x \<and> I x d) m"
  unfolding crash_spec_def by blast

lemma keeps_recover:
  assumes "json_ok (codec env)" "digest_ok env"
  shows "keeps (revertible env target names J d0) (recover_config_replace env target)"
  unfolding revertible_def
proof (rule keeps_ex)
  fix d1
  assume "same_outside J d0 d1 \<and> file_content d1 PTransaction = None"
  then have "file_content d1 PTransaction = None" ..
  from crash_recover [OF assms this] show "keeps (recoverable env target names d1) (recover_config_replace env target)"
    by (rule crash_spec_mono) simp_all
qed

lemma keeps_apply:
  assumes "\<And>d cid. I d \<Longrightarrow> I (dict_pop (PResult cid) d)"
  shows "keeps I (apply_config E ap c s)"
proof -
  have "keeps I (drop_and_prune E s1)" for s1
    unfolding drop_and_prune_def prune_results_def by (intro keeps_intros keeps_unlink) (rule assms)
  then show ?thesis
    unfolding apply_config_def
    by (auto split: sum.split intro!: keeps_intros)
qed

lemma keeps_prune:
  assumes "\<And>d n. I d \<Longrightarrow> PSecret [n] \<notin> referenced_secret_files locate c \<Longrightarrow> I (dict_pop (PSecret [n]) d)"
  shows "keeps I (prune_secrets locate c)"
proof -
  have "crash_spec I (\<lambda>_. True) (mapI (\<lambda>n. durable_unlink (PSecret [n]) True) ns) (\<lambda>_ _. True)"
    if "\<forall>n \<in> set ns. PSecret [n] \<notin> referenced_secret_files locate c" for ns
    by (rule crash_mapI) (use that in \<open>auto intro!: keeps_unlink assms\<close>)
  then have "keeps I (prune_transaction_secrets (referenced_secret_files locate c))"
    unfolding prune_transaction_secrets_def
    by (intro crash_bind [where R = "\<lambda>ns _. \<forall>n \<in> set ns. PSecret [n] \<notin> referenced_secret_files locate c"]
        crash_bind [where R = "\<lambda>_ _. True"] crash_read crash_return) (auto intro: crash_spec_weaken crash_pure)
  then show ?thesis unfolding prune_secrets_def by (intro keeps_intros)
qed

section \<open>Writing the candidate\<close>

definition new_text :: "config_env \<Rightarrow> AppConfig \<Rightarrow> string option" where
  "new_text C c = (case dump_config C True c of Inr t \<Rightarrow> Some t | Inl _ \<Rightarrow> None)"

definition secrets_written :: "(string, string) dict \<Rightarrow> path disk \<Rightarrow> bool" where
  "secrets_written secrets d \<longleftrightarrow>
     (\<forall>n v p. (n, v) \<in> set secrets \<longrightarrow> secret_path n = Inr p \<longrightarrow> file_content d p = Some v)"

definition candidate_written :: "config_env \<Rightarrow> string \<Rightarrow> (string, string) dict \<Rightarrow> AppConfig \<Rightarrow> path disk \<Rightarrow> bool" where
  "candidate_written C target secrets c d \<longleftrightarrow>
     file_content d (PConfig target) = new_text C c \<and> secrets_written secrets d"

lemma midway_secret_set:
  assumes "midway env target names d0 d" "p \<in> secret_files names"
  shows "midway env target names d0 (dict_set p f d)"
proof -
  have "p \<noteq> PBackup" "p \<noteq> PTransaction" using assms(2) secret_path_form by (auto simp: secret_files_def)
  then show ?thesis using assms by (auto simp: midway_def journal_ok_def intro: same_outside_set)
qed

lemma crash_begin_midway:
  assumes "json_ok (codec env)" "file_content d0 PTransaction = None"
  shows "crash_spec (recoverable env target names d0) (same_outside {} d0)
    (begin_config_replace env target names) (\<lambda>_. midway env target names d0)"
proof (rule crash_spec_mono [OF crash_begin [OF assms(1)]])
  show "(same_outside {PBackup, PTransaction} d0 d
        \<and> (file_content d PTransaction = None \<or> prepared env target names d0 d)) \<and> same_outside {PTransaction} d0 d"
    if "same_outside {} d0 d" for d
    using that assms(2) by (auto simp: same_outside_def)
  show "recoverable env target names d0 d"
    if "same_outside {PBackup, PTransaction} d0 d
        \<and> (file_content d PTransaction = None \<or> prepared env target names d0 d)" for d
    using that
  proof (elim conjE disjE)
    assume d: "same_outside {PBackup, PTransaction} d0 d" "file_content d PTransaction = None"
    have "file_content d p = file_content d0 p" if "p \<noteq> PBackup" for p
      using d assms(2) that by (cases "p = PTransaction") (simp_all add: same_outside_def)
    then have "restored d0 d" by (simp add: restored_def same_outside_def)
    then show ?thesis by (simp add: recoverable_def)
  next
    assume "prepared env target names d0 d"
    then have "midway env target names d0 d" by (rule prepared_candidate) simp
    then show ?thesis by (simp add: recoverable_def)
  qed
  show "midway env target names d0 d" if "prepared env target names d0 d" for d
    using prepared_candidate [OF that] by simp
qed

lemma crash_write_secret:
  assumes "n \<in> set names"
  shows "crash_spec (recoverable env target names d0) (\<lambda>d. midway env target names d0 d \<and> secrets_written ys d)
    (bindI (write_new_secret n v) (\<lambda>_. returnI ()))
    (\<lambda>_ d. midway env target names d0 d \<and> secrets_written (ys @ [(n, v)]) d)"
proof (rule crash_bind [where R = "\<lambda>_ d. midway env target names d0 d \<and> secrets_written (ys @ [(n, v)]) d"])
  show "crash_spec (recoverable env target names d0) (\<lambda>d. midway env target names d0 d \<and> secrets_written ys d)
      (write_new_secret n v) (\<lambda>_ d. midway env target names d0 d \<and> secrets_written (ys @ [(n, v)]) d)"
    unfolding write_new_secret_def write_secret_def
  proof (intro crash_bind)
    let ?R = "\<lambda>d. midway env target names d0 d \<and> secrets_written ys d"
    let ?free = "\<lambda>d. \<exists>p. secret_path n = Inr p \<and> dict_get d p = None"
    show "crash_spec (recoverable env target names d0) ?R
        (readI (\<lambda>d. bindE (secret_path n) (\<lambda>p.
           if dict_get d p \<noteq> None then Inl (StorageError ''secret transaction file already exists'') else Inr p)))
        (\<lambda>_ d. ?R d \<and> ?free d)"
      by (rule crash_read) (auto simp: bindE_Inr_iff split: if_splits)
    show "crash_spec (recoverable env target names d0) (\<lambda>d. ?R d \<and> ?free d) (readI (\<lambda>_. secret_path n))
        (\<lambda>p d. ?R d \<and> secret_path n = Inr p \<and> dict_get d p = None)"
      by (rule crash_read) auto
    show "crash_spec (recoverable env target names d0) (\<lambda>d. ?R d \<and> secret_path n = Inr p \<and> dict_get d p = None)
        (atomic_write_bytes p v) (\<lambda>_ d. midway env target names d0 d \<and> secrets_written (ys @ [(n, v)]) d)" for p
    proof (rule crash_write)
      fix d t
      assume d: "?R d \<and> secret_path n = Inr p \<and> dict_get d p = None"
      let ?d = "dict_set p \<lparr>content = v, mtime = t\<rparr> d"
      have "p \<in> secret_files names" using d assms by (auto simp: secret_files_def)
      then have m: "midway env target names d0 ?d" using d midway_secret_set by blast
      have "secrets_written (ys @ [(n, v)]) ?d"
        unfolding secrets_written_def
      proof (intro allI impI)
        fix m u q
        assume "(m, u) \<in> set (ys @ [(n, v)])" "secret_path m = Inr q"
        then consider "(m, u) \<in> set ys" "file_content d q = Some u" | "m = n" "u = v" "q = p"
          using d by (auto simp: secrets_written_def)
        then show "file_content ?d q = Some u"
          using d by cases (auto simp: file_content_def)
      qed
      with m show "recoverable env target names d0 ?d
          \<and> midway env target names d0 ?d \<and> secrets_written (ys @ [(n, v)]) ?d"
        by (simp add: recoverable_def)
    qed
  qed (rule crash_return)
qed (simp add: crash_return)

lemma crash_write_candidate:
  assumes "json_ok (codec (se_store E))" "file_content d0 PTransaction = None"
    and names: "names = dict_keys (rp_secrets rp)"
  shows "crash_spec (recoverable (se_store E) target names d0) (same_outside {} d0)
    (write_candidate E C rp target c)
    (\<lambda>r d. midway (se_store E) target names d0 d
       \<and> (isl r \<or> candidate_written C target (rp_secrets rp) c d))"
  unfolding write_candidate_def names [symmetric]
proof (intro crash_bind)
  let ?m = "midway (se_store E) target names d0" and ?I = "recoverable (se_store E) target names d0"
  show "crash_spec ?I (same_outside {} d0) (begin_config_replace (se_store E) target names) (\<lambda>_. ?m)"
    by (rule crash_begin_midway [OF assms(1,2)])
  have "crash_spec ?I (\<lambda>d. ?m d \<and> secrets_written [] d)
      (mapI (\<lambda>(name, secret). bindI (write_new_secret name secret) (\<lambda>_. returnI ())) (rp_secrets rp))
      (\<lambda>_ d. ?m d \<and> secrets_written ([] @ rp_secrets rp) d)"
    by (rule crash_mapI_extend) (force simp: names intro: crash_write_secret)
  then show "crash_spec ?I ?m
      (mapI (\<lambda>(name, secret). bindI (write_new_secret name secret) (\<lambda>_. returnI ())) (rp_secrets rp))
      (\<lambda>_ d. ?m d \<and> secrets_written (rp_secrets rp) d)"
    by (rule crash_spec_weaken) (simp_all add: secrets_written_def)
  show "crash_spec ?I (\<lambda>d. ?m d \<and> secrets_written (rp_secrets rp) d) (save_config C (ParsedConfig c) (PConfig target))
      (\<lambda>r d. ?m d \<and> (isl r \<or> candidate_written C target (rp_secrets rp) c d))"
  proof (cases "dump_config C True c")
    case (Inl e)
    then show ?thesis
      unfolding save_config_def tryI_def validate_config_def config_value.case sum.case Inl
      by (intro crash_return) simp
  next
    case (Inr body)
    have "secrets_written secrets d \<Longrightarrow> secrets_written secrets (dict_set (PConfig target) f d)" for secrets f d
      using secret_path_form by (fastforce simp: secrets_written_def)
    then have "crash_spec ?I (\<lambda>d. ?m d \<and> secrets_written (rp_secrets rp) d) (atomic_write_bytes (PConfig target) body)
        (\<lambda>_ d. ?m d \<and> candidate_written C target (rp_secrets rp) c d)"
      by (intro crash_write) (auto simp: recoverable_def candidate_written_def new_text_def Inr intro: midway_set)
    then show ?thesis
      unfolding save_config_def tryI_def validate_config_def config_value.case sum.case Inr
      by (rule crash_bind) (simp add: crash_return)
  qed
qed

section \<open>Applying the candidate\<close>

lemma crash_attempt:
  "crash_spec I P m Q \<Longrightarrow> crash_spec I P (attempt m) (\<lambda>r d. case r of Inl _ \<Rightarrow> True | Inr a \<Rightarrow> Q a d)"
  unfolding crash_spec_def attempt_def by (auto split: prod.splits sum.splits)

text \<open>The journal is there and the candidate is complete.\<close>

definition candidate_here ::
  "service_env \<Rightarrow> config_env \<Rightarrow> replace_request \<Rightarrow> string \<Rightarrow> AppConfig \<Rightarrow> path disk \<Rightarrow> path disk \<Rightarrow> bool" where
  "candidate_here E C rp target c d0 d \<longleftrightarrow>
     in_candidate (se_store E) target (dict_keys (rp_secrets rp)) (junk (rp_locate rp) None) d0 d
     \<and> candidate_written C target (rp_secrets rp) c d"

abbreviation old_disk :: "service_env \<Rightarrow> replace_request \<Rightarrow> string \<Rightarrow> AppConfig option \<Rightarrow> path disk \<Rightarrow> path disk \<Rightarrow> bool" where
  "old_disk E rp target previous \<equiv>
     revertible (se_store E) target (dict_keys (rp_secrets rp)) (junk (rp_locate rp) previous)"

lemma candidate_here_old: "candidate_here E C rp target c d0 d \<Longrightarrow> old_disk E rp target None d0 d"
  by (simp add: candidate_here_def in_candidate_revertible)

lemma old_disk_mono: "old_disk E rp target None d0 d \<Longrightarrow> old_disk E rp target previous d0 d"
  by (erule revertible_mono [rotated]) (auto simp: junk_def)

lemma result_is_junk: "PResult cid \<in> junk locate keep"
  by (simp add: junk_def)

lemma secret_not_result: "secret_path n = Inr p \<Longrightarrow> p \<noteq> PResult cid"
  using secret_path_form by blast

lemma keeps_candidate: "keeps (candidate_here E C rp target c d0) (apply_config E ap c s)"
  by (rule keeps_apply)
    (auto simp: candidate_here_def candidate_written_def secrets_written_def result_is_junk secret_not_result
      intro: in_candidate_pop)

lemma crash_apply_candidate:
  assumes "json_ok (codec (se_store E))" "file_content d0 PTransaction = None"
  shows "crash_spec (old_disk E rp target None d0) (same_outside {} d0) (apply_candidate E C rp target c s)
    (\<lambda>r d. snd r \<in> {Applied, AppliedInterrupted} \<longrightarrow> candidate_here E C rp target c d0 d)"
  unfolding apply_candidate_def
proof (rule crash_bind)
  let ?I = "old_disk E rp target None d0" and ?H = "candidate_here E C rp target c d0"
  let ?names = "dict_keys (rp_secrets rp)"
  have base: "recoverable (se_store E) target ?names d0 d \<Longrightarrow> ?I d" for d
    unfolding revertible_def using assms(2) same_outside_refl by blast
  have "crash_spec ?I (same_outside {} d0) (write_candidate E C rp target c)
      (\<lambda>r d. midway (se_store E) target ?names d0 d \<and> (isl r \<or> candidate_written C target (rp_secrets rp) c d))"
  proof (rule crash_spec_mono [OF crash_write_candidate [OF assms refl]])
    show "recoverable (se_store E) target ?names d0 d \<and> same_outside {} d0 d" if "same_outside {} d0 d" for d
      using that by (simp add: recoverable_def restored_def same_outside_def)
  qed (use base in blast)+
  then have "crash_spec ?I (same_outside {} d0) (write_candidate E C rp target c) (\<lambda>r d. isl r \<or> ?H d)"
  proof (rule crash_spec_weaken)
    fix r d
    assume m: "midway (se_store E) target ?names d0 d \<and> (isl r \<or> candidate_written C target (rp_secrets rp) c d)"
    have "in_candidate (se_store E) target ?names (junk (rp_locate rp) None) d0 d"
      unfolding in_candidate_def using m assms(2) same_outside_refl by blast
    then show "isl r \<or> ?H d" using m by (auto simp: candidate_here_def)
  qed
  from crash_attempt [OF this]
  show "crash_spec ?I (same_outside {} d0) (attempt (write_candidate E C rp target c))
      (\<lambda>r d. case r of Inl _ \<Rightarrow> True | Inr x \<Rightarrow> isl x \<or> ?H d)" .
  have apply_keeps: "crash_spec ?I ?H (apply_config E (rp_apply rp) c s) (\<lambda>_. ?H)"
    by (rule crash_spec_mono [OF keeps_candidate [of E C rp target c d0]]) (auto intro: candidate_here_old)
  show "crash_spec ?I (\<lambda>d. case r of Inl _ \<Rightarrow> True | Inr x \<Rightarrow> isl x \<or> ?H d)
      (case r of Inr (Inr _) \<Rightarrow> apply_config E (rp_apply rp) c s | _ \<Rightarrow> returnI (s, ApplyRefused InternalRefusal))
      (\<lambda>r d. snd r \<in> {Applied, AppliedInterrupted} \<longrightarrow> ?H d)" for r
    using apply_keeps by (auto split: sum.split intro!: crash_return elim: crash_spec_weaken)
qed

text \<open>What it does to the memory.\<close>

fun applied_state :: "apply_request \<Rightarrow> AppConfig \<Rightarrow> service \<Rightarrow> service \<times> apply_outcome \<Rightarrow> bool" where
  "applied_state ap c s (s1, Applied) = (svc_config s1 = Some c)"
| "applied_state ap c s (s1, AppliedInterrupted) =
     (svc_config s1 = Some c \<and> ap_interruption ap = DuringTransition)"
| "applied_state ap c s (s1, ApplyInterrupted) =
     (svc_config s1 = svc_config s \<and> ap_interruption ap = BeforeTransition)"
| "applied_state ap c s (s1, ApplyRefused e) = (svc_config s1 = svc_config s \<or> \<not> svc_ready s1)"

lemma apply_config_state:
  assumes "apply_config E ap c s w = (r, w')"
  shows "\<exists>x. r = Inr x \<and> applied_state ap c s x"
proof -
  have installed: "svc_config (drop_obsolete_results E (install_config c inv s)) = Some c"
    "svc_ready (drop_obsolete_results E (install_config c inv s)) = False" for inv
    by (simp_all add: install_config_def) (simp add: drop_obsolete_results_def Let_def)
  show ?thesis
    using assms installed
    by (auto simp: apply_config_def bindI_def returnI_def
        split: sum.splits prod.splits if_splits dest!: drop_and_prune_Inr)
qed

lemma apply_candidate_state:
  assumes "apply_candidate E C rp target c s w = (r, w')"
  shows "\<exists>x. r = Inr x \<and> applied_state (rp_apply rp) c s x"
  using assms
  by (auto simp: apply_candidate_def bindI_def attempt_def returnI_def
      split: prod.splits sum.splits dest: apply_config_state)

section \<open>Refusing, restoring and committing\<close>

lemma keeps_old_apply: "keeps (old_disk E rp target previous d0) (apply_config E ap c s)"
  by (rule keeps_apply) (auto intro: revertible_pop simp: result_is_junk)

lemma keeps_old_prune: "keeps (old_disk E rp target (Some c) d0) (prune_secrets (rp_locate rp) c)"
  by (rule keeps_prune) (auto intro: revertible_pop simp: junk_def)

lemma keeps_new_prune: "keeps (accepted_disk (junk locate (Some c)) d1) (prune_secrets locate c)"
  by (rule keeps_prune) (auto intro: accepted_pop simp: junk_def)

lemma keeps_roll_back:
  assumes "json_ok (codec (se_store E))" "digest_ok (se_store E)"
  shows "keeps (old_disk E rp target previous d0) (roll_back_config E rp target s)"
  unfolding roll_back_config_def by (intro keeps_intros keeps_recover assms)

lemma keeps_refuse:
  assumes "json_ok (codec (se_store E))" "digest_ok (se_store E)"
  shows "keeps (old_disk E rp target previous d0) (refuse_replace E rp target previous s)"
  unfolding refuse_replace_def
  by (cases previous) (auto intro!: keeps_intros keeps_roll_back keeps_old_prune assms)

lemma keeps_restore:
  assumes "json_ok (codec (se_store E))" "digest_ok (se_store E)"
  shows "keeps (old_disk E rp target previous d0) (restore_previous E rp target previous s)"
proof (cases previous)
  case None
  show ?thesis
    unfolding restore_previous_def None option.case by (intro keeps_intros keeps_roll_back assms)
next
  case (Some c0)
  have "keeps (old_disk E rp target (Some c0) d0)
      (case outcome of Applied \<Rightarrow> bindI (prune_secrets (rp_locate rp) c0) (\<lambda>_. returnI s1)
       | ApplyRefused _ \<Rightarrow> returnI (s1\<lparr>svc_ready := False\<rparr>) | _ \<Rightarrow> returnI s1)" for outcome s1
    by (cases outcome) (simp_all add: keeps_intros keeps_old_prune)
  then show ?thesis
    unfolding restore_previous_def Some option.case by (intro keeps_intros keeps_roll_back keeps_old_apply assms)
qed

lemma prune_secrets_Inr: "prune_secrets locate c w = (r, w') \<Longrightarrow> r = Inr ()"
  by (auto simp: prune_secrets_def bindI_def attempt_def returnI_def split: prod.splits)

lemma roll_back_Inr: "roll_back_config E rp target s w = (r, w') \<Longrightarrow> \<exists>b. r = Inr b"
  by (auto simp: roll_back_config_def bindI_def attempt_def returnI_def split: prod.splits)

lemma refuse_replace_state:
  "refuse_replace E rp target previous s w = (r, w') \<Longrightarrow> r = Inr (s\<lparr>svc_reload_success := False\<rparr>)"
  by (auto simp: refuse_replace_def bindI_def returnI_def split: prod.splits sum.splits option.splits
      dest: roll_back_Inr prune_secrets_Inr)

lemma restore_previous_state:
  assumes "restore_previous E rp target previous s w = (r, w')"
    and "ap_interruption (rp_restore rp) \<noteq> BeforeTransition"
  shows "\<exists>s2. r = Inr s2 \<and> (\<not> svc_ready s2 \<or> svc_config s2 = previous)"
proof -
  obtain b w1 where b: "roll_back_config E rp target s w = (Inr b, w1)"
    using roll_back_Inr by (metis surj_pair)
  show ?thesis
  proof (cases "b \<and> previous \<noteq> None")
    case False
    then show ?thesis using assms(1) b by (auto simp: restore_previous_def bindI_def returnI_def split: if_splits)
  next
    case True
    then obtain c0 where c0: "previous = Some c0" by blast
    obtain s1 o1 w2 where a: "apply_config E (rp_restore rp) c0 s w1 = (Inr (s1, o1), w2)"
      using apply_config_state by (metis surj_pair)
    have st: "applied_state (rp_restore rp) c0 s (s1, o1)" using apply_config_state [OF a] by simp
    show ?thesis
      using assms True b c0 a st
      by (cases o1) (auto simp: restore_previous_def bindI_def returnI_def split: sum.splits prod.splits
          dest: prune_secrets_Inr)
  qed
qed

text \<open>A disk on which the journal is still pending is not committed, and the other way round.\<close>

lemma in_candidate_same: "in_candidate env target names J d0 d1 \<Longrightarrow> same_outside {} d1 d \<Longrightarrow> in_candidate env target names J d0 d"
  by (simp add: in_candidate_def midway_def journal_ok_def same_outside_def)

lemma pending_candidate:
  assumes "json_ok (codec (se_store E))" "digest_ok (se_store E)" "in_candidate (se_store E) target names J d0 d"
  shows "still_pending E target d"
  using assms journal_pending [OF assms(1,2)]
  by (auto simp: in_candidate_def midway_def still_pending_def has_pending_config_replace_def)

lemma pending_committed: "committed d1 d \<Longrightarrow> \<not> still_pending E target d"
  by (simp add: committed_def still_pending_def has_pending_config_replace_def pending_transaction_def)

section \<open>Runs\<close>

text \<open>Every disk that a run makes is good, the last one included.\<close>

definition runs_through :: "(path disk \<Rightarrow> bool) \<Rightarrow> path world \<Rightarrow> path world \<Rightarrow> bool" where
  "runs_through good w w' \<longleftrightarrow> (\<exists>made. history w' = history w @ made \<and> (\<forall>d \<in> set made. good d)) \<and> good (files w')"

lemma runs_trans: "runs_through good w v \<Longrightarrow> runs_through good v u \<Longrightarrow> runs_through good w u"
  unfolding runs_through_def by (metis Un_iff append.assoc set_append)

lemma runs_mono: "runs_through good w v \<Longrightarrow> (\<And>d. good d \<Longrightarrow> better d) \<Longrightarrow> runs_through better w v"
  unfolding runs_through_def by blast

lemma crash_runs:
  assumes "crash_spec I P m Q" "I (files w)" "P (files w)" "m w = (r, w')"
  shows "runs_through I w w'"
  using crash_specD(1,2) [OF assms] by (simp add: runs_through_def)

abbreviation new_disk :: "replace_request \<Rightarrow> AppConfig \<Rightarrow> path disk \<Rightarrow> path disk \<Rightarrow> bool" where
  "new_disk rp c \<equiv> accepted_disk (junk (rp_locate rp) (Some c))"

text \<open>How the memory and the last disk of a replacement go together.\<close>

definition agrees ::
  "service_env \<Rightarrow> replace_request \<Rightarrow> string \<Rightarrow> AppConfig option \<Rightarrow> AppConfig \<Rightarrow> path disk \<Rightarrow> path disk
     \<Rightarrow> service \<Rightarrow> path disk \<Rightarrow> bool" where
  "agrees E rp target previous c d0 d1 s d \<longleftrightarrow> \<not> svc_ready s
     \<or> (svc_config s = previous \<and> old_disk E rp target previous d0 d) \<or> (svc_config s = Some c \<and> new_disk rp c d1 d)"

lemma commit_accepts:
  assumes "new_disk rp c d1 (files v)" "svc_config s = Some c"
    and "bindI (bindI (prune_secrets (rp_locate rp) c) (\<lambda>_. returnI (s\<lparr>svc_reload_success := True\<rparr>)))
           (\<lambda>s. returnI (s, outcome)) v = (r, w')"
  shows "\<exists>s'. r = Inr (s', outcome) \<and> runs_through (new_disk rp c d1) v w' \<and> new_disk rp c d1 (files w')
    \<and> svc_config s' = Some c"
proof -
  obtain x u where p: "prune_secrets (rp_locate rp) c v = (x, u)" by (cases "prune_secrets (rp_locate rp) c v")
  have "x = Inr ()" by (rule prune_secrets_Inr [OF p])
  then have "r = Inr (s\<lparr>svc_reload_success := True\<rparr>, outcome)" "w' = u"
    using assms(3) p by (simp_all add: bindI_def returnI_def)
  moreover have "runs_through (new_disk rp c d1) v u"
    by (rule crash_runs [OF keeps_new_prune assms(1) TrueI p])
  ultimately show ?thesis using assms(2) by (auto simp: runs_through_def)
qed

lemma commit_candidate_run:
  assumes env: "json_ok (codec (se_store E))" "digest_ok (se_store E)"
    and cand: "candidate_here E C rp target c d0 (files w1)" and s: "svc_config s = Some c"
    and restore: "ap_interruption (rp_restore rp) \<noteq> BeforeTransition"
    and run: "commit_candidate E rp target previous c s w1 = (r, w')"
  shows "\<exists>s' outcome. r = Inr (s', outcome)
    \<and> runs_through (\<lambda>d. old_disk E rp target previous d0 d \<or> new_disk rp c (files w1) d) w1 w'
    \<and> (outcome = Applied \<longrightarrow> svc_config s' = Some c \<and> new_disk rp c (files w1) (files w'))
    \<and> agrees E rp target previous c d0 (files w1) s' (files w')"
proof -
  let ?d1 = "files w1"
  let ?good = "\<lambda>d. old_disk E rp target previous d0 d \<or> new_disk rp c ?d1 d"
  obtain x v where c: "attempt (commit_config_replace (se_store E) target) w1 = (Inr x, v)"
    by (cases "commit_config_replace (se_store E) target w1") (simp add: attempt_def)
  note C = crash_attempt [OF crash_commit [of ?d1 "se_store E" target]]
  have start: "same_outside {} ?d1 ?d1 \<or> committed ?d1 ?d1" "same_outside {} ?d1 ?d1" by simp_all
  have old: "old_disk E rp target previous d0 d" if "same_outside {} ?d1 d" for d
    using in_candidate_same [OF _ that] cand in_candidate_revertible old_disk_mono
    unfolding candidate_here_def by blast
  have new: "new_disk rp c ?d1 d" if "committed ?d1 d" for d
    using that same_outside_refl unfolding accepted_disk_def by blast
  have runs: "runs_through ?good w1 v"
    by (rule runs_mono [OF crash_runs [OF C start c]]) (use old new in blast)
  have last: "same_outside {} ?d1 (files v) \<or> committed ?d1 (files v)" by (rule crash_specD(2) [OF C start c])
  have finished: "committed ?d1 (files v)" if "\<not> isl x"
    using crash_specD(3) [OF C start c refl] that by (auto split: sum.splits)
  have pending: "still_pending E target (files v) \<longleftrightarrow> \<not> committed ?d1 (files v)"
    using last pending_committed pending_candidate [OF env in_candidate_same] cand
    unfolding candidate_here_def by blast
  let ?raised = "if rp_commit_interrupted rp then ApplyInterrupted else ApplyRefused InternalRefusal"
  have accept: ?thesis if here: "committed ?d1 (files v)"
    and tail: "bindI (bindI (prune_secrets (rp_locate rp) c) (\<lambda>_. returnI (s\<lparr>svc_reload_success := True\<rparr>)))
       (\<lambda>s. returnI (s, outcome)) v = (r, w')" for outcome
  proof -
    obtain s' where a: "r = Inr (s', outcome)" "runs_through (new_disk rp c ?d1) v w'"
      "new_disk rp c ?d1 (files w')" "svc_config s' = Some c"
      using commit_accepts [OF new [OF here] s tail] by blast
    have "runs_through ?good w1 w'" by (rule runs_trans [OF runs runs_mono [OF a(2)]]) blast
    then show ?thesis using a by (auto simp: agrees_def)
  qed
  show ?thesis
  proof (cases "committed ?d1 (files v)")
    case True
    then show ?thesis
      using run c accept [OF True, of Applied] accept [OF True, of ?raised] pending
      by (auto simp: commit_candidate_def bindI_def [of "attempt _"] bindI_def [of "readI _"] readI_def Let_def
          split: if_splits)
  next
    case False
    then have failed: "isl x" using finished by blast
    let ?s = "s\<lparr>svc_reload_success := False\<rparr>"
    obtain y u where y: "restore_previous E rp target previous ?s v = (y, u)"
      by (cases "restore_previous E rp target previous ?s v")
    obtain s2 where s2: "y = Inr s2" "\<not> svc_ready s2 \<or> svc_config s2 = previous"
      using restore_previous_state [OF y restore] by blast
    have r: "r = Inr (s2, ?raised)" "w' = u"
      using run c failed False pending y s2(1)
      by (auto simp: commit_candidate_def bindI_def readI_def returnI_def Let_def)
    have disk: "old_disk E rp target previous d0 (files v)" using last False old by blast
    have undone: "runs_through (old_disk E rp target previous d0) v u"
      by (rule crash_runs [OF keeps_restore [OF env] disk TrueI y])
    have "runs_through ?good w1 u" by (rule runs_trans [OF runs runs_mono [OF undone]]) blast
    moreover have "old_disk E rp target previous d0 (files u)" using undone by (simp add: runs_through_def)
    ultimately show ?thesis using r s2(2) by (auto simp: agrees_def)
  qed
qed

section \<open>What the next start finds\<close>

definition old_found ::
  "service_env \<Rightarrow> replace_request \<Rightarrow> string \<Rightarrow> AppConfig option \<Rightarrow> path disk \<Rightarrow> path disk \<Rightarrow> bool" where
  "old_found E rp target previous d0 =
     recovers (se_store E) target (same_outside (insert PBackup (junk (rp_locate rp) previous)) d0)"

text \<open>The new configuration with the secrets it refers to, and nothing else changed.\<close>

definition new_config_found ::
  "config_env \<Rightarrow> replace_request \<Rightarrow> string \<Rightarrow> AppConfig \<Rightarrow> path disk \<Rightarrow> path disk \<Rightarrow> bool" where
  "new_config_found C rp target c d0 e \<longleftrightarrow> file_content e (PConfig target) = new_text C c
     \<and> (\<forall>n v p. (n, v) \<in> set (rp_secrets rp) \<longrightarrow> secret_path n = Inr p
          \<longrightarrow> p \<in> referenced_secret_files (rp_locate rp) c \<longrightarrow> file_content e p = Some v)
     \<and> same_outside (junk (rp_locate rp) (Some c) \<union> {PBackup, PTransaction, PConfig target}
          \<union> secret_files (dict_keys (rp_secrets rp))) d0 e"

definition new_found ::
  "service_env \<Rightarrow> config_env \<Rightarrow> replace_request \<Rightarrow> string \<Rightarrow> AppConfig \<Rightarrow> path disk \<Rightarrow> path disk \<Rightarrow> bool" where
  "new_found E C rp target c d0 = recovers (se_store E) target (new_config_found C rp target c d0)"

lemma recovers_mono: "recovers env target P d \<Longrightarrow> (\<And>e. P e \<Longrightarrow> Q e) \<Longrightarrow> recovers env target Q d"
  unfolding recovers_def by blast

lemma new_disk_found:
  assumes "candidate_here E C rp target c d0 d1" "new_disk rp c d1 d"
  shows "new_found E C rp target c d0 d"
  unfolding new_found_def
proof (rule recovers_mono [OF accepted_recovers [OF assms(2)]])
  fix e
  assume e: "same_outside (junk (rp_locate rp) (Some c) \<union> {PBackup, PTransaction}) d1 e"
  have same: "file_content e p = file_content d1 p"
    if "p \<notin> junk (rp_locate rp) (Some c)" "p \<noteq> PBackup" "p \<noteq> PTransaction" for p
    using e that by (simp add: same_outside_def)
  have written: "candidate_written C target (rp_secrets rp) c d1" using assms(1) by (simp add: candidate_here_def)
  have "file_content e (PConfig target) = new_text C c"
    using written same [of "PConfig target"] by (simp add: candidate_written_def)
  moreover have "file_content e p = Some v"
    if n: "(n, v) \<in> set (rp_secrets rp)" "secret_path n = Inr p"
      and p: "p \<in> referenced_secret_files (rp_locate rp) c" for n v p
  proof -
    obtain ps where "p = PSecret ps" using secret_path_form [OF n(2)] by blast
    then have "file_content e p = file_content d1 p" using p by (intro same) (auto simp: junk_def)
    then show ?thesis using written n by (auto simp: candidate_written_def secrets_written_def)
  qed
  moreover obtain dx where dx: "same_outside (junk (rp_locate rp) None) d0 dx"
      "same_outside ({PBackup, PTransaction, PConfig target} \<union> secret_files (dict_keys (rp_secrets rp))) dx d1"
    using assms(1) by (auto simp: candidate_here_def in_candidate_def midway_def)
  let ?R = "junk (rp_locate rp) (Some c) \<union> {PBackup, PTransaction, PConfig target}
    \<union> secret_files (dict_keys (rp_secrets rp))"
  have "same_outside ?R d0 d1" by (rule same_outside_trans [OF dx]) (auto simp: junk_def)
  from same_outside_trans [OF this e] have "same_outside ?R d0 e" by blast
  ultimately show "new_config_found C rp target c d0 e" unfolding new_config_found_def by blast
qed

section \<open>Property\<close>


section \<open>Concrete replacements\<close>

definition steady_apply :: apply_request where
  "steady_apply = \<lparr>ap_codecs = empty_codecs, ap_config_test = (\<lambda>_. TestPassed), ap_executor_built = True,
     ap_old_quiesced = True, ap_scheduler_started = True, ap_interruption = Undisturbed\<rparr>"

definition file_env :: service_env where
  "file_env = demo_env\<lparr>se_store := plain_env\<rparr>"

definition emit_env :: config_env where
  "emit_env = no_yaml_env\<lparr>cf_emit := (\<lambda>_. Some ''new'')\<rparr>"

definition edited_config :: AppConfig where
  "edited_config = example_config\<lparr>default_target_set_ids := []\<rparr>"

definition demo_replace :: replace_request where
  "demo_replace = \<lparr>rp_value = ParsedConfig edited_config, rp_expected = None,
     rp_secrets = [(''token'', ''secret'')], rp_locate = (\<lambda>_. None), rp_apply = steady_apply,
     rp_commit_interrupted = False, rp_restore = steady_apply\<rparr>"

definition live_service :: service where
  "live_service = (new_service True)\<lparr>svc_config := Some example_config, svc_has_executor := True, svc_ready := True\<rparr>"

definition old_world :: "outcome list \<Rightarrow> path world" where
  "old_world os = fresh_world [(PConfig ''t'', \<lparr>content = ''old'', mtime = 0\<rparr>)] os"

text \<open>The journal cannot be removed at first: the old configuration is restored.\<close>

definition refused_commit :: "path world" where
  "refused_commit = old_world [Done, Done, Done, Done, Refused]"

lemma edited_admitted:
  "admitted_config file_env emit_env (rp_value demo_replace) (rp_expected demo_replace) (rp_secrets demo_replace)
     live_service = Inr edited_config"
  by (simp add: admitted_config_def demo_replace_def validate_config_def check_secrets_def utf8_size_def
      MAX_SECRET_BYTES_def live_service_def new_service_def check_expected_def compiled_for_def
      compile_inventory_def capacity_check_def persistent_profiles_def has_fresh_def enabled_checks_def
      edited_config_def example_config_def example_scheduler_def raise_as_def)

lemma refused_commit_state:
  "svc_ready (fst (projr (fst (replace_config file_env emit_env demo_replace ''t'' live_service refused_commit))))
   \<and> svc_config (fst (projr (fst (replace_config file_env emit_env demo_replace ''t'' live_service refused_commit))))
     = Some example_config"
  by code_simp


text \<open>
  The hypotheses on the interruptions are needed. A caller that is cancelled during the transition, whose
  commit then fails, leaves the service running the new configuration while a restart restores the old one.
\<close>

definition cancelled_replace :: replace_request where
  "cancelled_replace = demo_replace\<lparr>rp_apply := steady_apply\<lparr>ap_interruption := DuringTransition\<rparr>\<rparr>"

lemma interrupted_commit_diverges:
  "case replace_config file_env emit_env cancelled_replace ''t'' live_service refused_commit of (r, w) \<Rightarrow>
     svc_ready (fst (projr r)) \<and> svc_config (fst (projr r)) = Some edited_config
     \<and> file_content (files (snd (recover_config_replace (se_store file_env) ''t'' (fresh_world (files w) []))))
         (PConfig ''t'') = Some ''old''"
  by code_simp

text \<open>
  A caller that is cancelled while the old configuration is being applied again leaves the service running
  the new configuration, ready, with the old file on the disk.
\<close>

definition cancelled_restore :: replace_request where
  "cancelled_restore = demo_replace\<lparr>rp_restore := steady_apply\<lparr>ap_interruption := BeforeTransition\<rparr>\<rparr>"

lemma interrupted_restore_diverges:
  "case replace_config file_env emit_env cancelled_restore ''t'' live_service refused_commit of (r, w) \<Rightarrow>
     svc_ready (fst (projr r)) \<and> svc_config (fst (projr r)) = Some edited_config
     \<and> file_content (files w) (PConfig ''t'') = Some ''old''"
  by code_simp

end
