(* ===== verification/Diagnostics.thy ===== *)
theory Diagnostics
  imports EffectiveConfig "HOL-Library.Sublist"
begin

text \<open>
  \<open>src/xray_e2e_prober/runtime.py\<close>: what may be shown of the output of an Xray process. The strings of
  its configuration are collected (\<open>_redaction_literals\<close>), every whole line of output is cleaned of them
  (\<open>sanitize_diagnostic\<close>), and only the end of what was cleaned is kept (\<open>_SanitizedBuffer\<close>). The theorems
  show that no string of the configuration survives, that lines are never split, and that the memory
  is bounded.
\<close>

section \<open>Cleaning a diagnostic\<close>

definition CONTROL_CHARACTERS :: rx where
  "CONTROL_CHARACTERS = RChar (\<lambda>c. between 0 8 c \<or> between 11 12 c \<or> between 14 31 c \<or> code c = 127)"

definition RUNTIME_UUID :: rx where
  "RUNTIME_UUID = (let hex = RChar ascii_hex; dash = RAny ''-''
     in RSeqs [RNotBehind ascii_hex, RTimes 8 hex, dash, RTimes 4 hex, dash, RTimes 4 hex, dash,
               RTimes 4 hex, dash, RTimes 12 hex, RNotAhead ascii_hex])"

definition URL_CREDENTIALS :: rx where
  "URL_CREDENTIALS = RSeqs [
     RGroup (RSeqs [RText ''://'', RPlus (RChar (\<lambda>c. \<not> py_isspace c \<and> c \<notin> set ''/:'')), RAny '':'']),
     RPlus (RChar (\<lambda>c. \<not> py_isspace c \<and> c \<notin> set ''/@'')), RAny ''@'']"

definition QUERY_SECRET :: rx where
  "QUERY_SECRET = RSeqs [
     RGroup (RSeqs [RAny ''?&'', RAlts (map RText [''token'', ''key'', ''secret'', ''auth'', ''password'',
        ''uuid'']), RAny ''='']),
     RPlus (RChar (\<lambda>c. c \<notin> set ''&#'' \<and> \<not> py_isspace c))]"

definition JSON_SECRET :: rx where
  "JSON_SECRET = (let quote = RAny [CHR 0x22, CHR 0x27] in RSeqs [
     RGroup (RSeqs [quote, RAlts (map RText [''id'', ''uuid'', ''password'', ''token'', ''auth'',
        ''authorization'', ''apikey'', ''privatekey'', ''publickey'', ''pbk'', ''shortid'', ''sid'',
        ''spiderx'', ''email'']), quote, spaces, RAny '':='', spaces, quote]),
     RStar (RNotAny [CHR 0x22, CHR 0x27]), quote])"

definition SHORT_SECRET_KEYS :: "string list" where
  "SHORT_SECRET_KEYS = [''id'', ''uuid'', ''password'', ''token'', ''auth'', ''authorization'', ''apikey'',
     ''privatekey'', ''publickey'', ''pbk'', ''shortid'', ''sid'', ''spiderx'', ''email'']"

definition MAX_REDACTION_LITERALS :: nat where
  "MAX_REDACTION_LITERALS = 256"

definition MAX_REDACTION_NODES :: nat where
  "MAX_REDACTION_NODES = 4096"

definition OPAQUE_DIAGNOSTIC_SENTINEL :: string where
  "OPAQUE_DIAGNOSTIC_SENTINEL = [NUL] @ ''xray-e2e-prober-redact-all'' @ [NUL]"

definition REDACTION_MARK :: string where
  "REDACTION_MARK = ''[redacted]''"

text \<open>\<open>re.sub(re.escape(secret), "[redacted]", text, flags=re.IGNORECASE)\<close>.\<close>

definition hide_literal :: "string \<Rightarrow> string \<Rightarrow> string" where
  "hide_literal secret text = rx_sub (RText (map lower_char secret)) (\<lambda>_ _. REDACTION_MARK) [] text"

text \<open>The first literal of each case-folded form, the longest first.\<close>

definition unique_literals :: "string list \<Rightarrow> (string, string) dict" where
  "unique_literals secrets =
     foldl (\<lambda>u secret. if secret = [] \<or> dict_get u (py_casefold secret) \<noteq> None then u
                    else dict_set (py_casefold secret) secret u) [] secrets"

definition sanitize_diagnostic :: "string \<Rightarrow> string list \<Rightarrow> string" where
  "sanitize_diagnostic text secret_literals =
     (if OPAQUE_DIAGNOSTIC_SENTINEL \<in> set secret_literals then ''[diagnostic redacted]''
      else
        let result = rx_sub CONTROL_CHARACTERS (\<lambda>_ _. ''?'') [] text;
            result = foldl (\<lambda>text secret. hide_literal secret text) result
                (sort_key (\<lambda>l. - int (length l)) (dict_values (unique_literals secret_literals)));
            result = rx_sub RUNTIME_UUID (\<lambda>_ _. REDACTION_MARK) [] result;
            result = rx_sub URL_CREDENTIALS (\<lambda>m g. g @ REDACTION_MARK @ [last m]) [] result;
            result = rx_sub QUERY_SECRET (\<lambda>_ g. g @ REDACTION_MARK) [] result
        in rx_sub JSON_SECRET (\<lambda>m g. g @ REDACTION_MARK @ [last m]) [] result)"

section \<open>The strings of a configuration\<close>

text \<open>\<open>remember\<close>: \<open>None\<close> when there are too many literals.\<close>

definition remember :: "string \<Rightarrow> string set \<Rightarrow> string set option" where
  "remember value found =
     (let found = (if value = [] then found else insert value found)
      in if card found \<le> MAX_REDACTION_LITERALS then Some found else None)"

fun remember_all :: "string list \<Rightarrow> string set \<Rightarrow> string set option" where
  "remember_all [] found = Some found"
| "remember_all (v # vs) found =
     (case remember v found of None \<Rightarrow> None | Some found \<Rightarrow> remember_all vs found)"

definition minimum_length :: "string option \<Rightarrow> nat" where
  "minimum_length key = (if normalize_key key \<in> set SHORT_SECRET_KEYS then 1 else 4)"

text \<open>The literals of one node: the keys of an object with their lines, or a string with its lines.\<close>

fun node_literals :: "raw \<Rightarrow> string option \<Rightarrow> string list" where
  "node_literals (RDict kvs) key = concat (map (\<lambda>(k, _). k # py_splitlines k) kvs)"
| "node_literals (RStr s) key =
     (if length s < minimum_length key then []
      else s # filter (\<lambda>part. length part \<ge> minimum_length key) (py_splitlines s))"
| "node_literals _ key = []"

fun node_children :: "raw \<Rightarrow> string option \<Rightarrow> (raw \<times> string option) list" where
  "node_children (RDict kvs) key = map (\<lambda>(k, v). (v, Some k)) kvs"
| "node_children (RList vs) key = map (\<lambda>v. (v, key)) vs"
| "node_children _ key = []"

text \<open>
  The loop over the stack, whose top is the head of the list. The configuration is a tree that the
  prober has built itself, so the set of visited identities never skips a container.
\<close>

function literal_walk :: "(raw \<times> string option) list \<Rightarrow> string set \<Rightarrow> nat \<Rightarrow> string set" where
  "literal_walk [] found visited = found"
| "literal_walk ((node, key) # stack) found visited =
     (if visited + 1 > MAX_REDACTION_NODES then {OPAQUE_DIAGNOSTIC_SENTINEL}
      else case remember_all (node_literals node key) found of
        None \<Rightarrow> {OPAQUE_DIAGNOSTIC_SENTINEL}
      | Some found \<Rightarrow> literal_walk (rev (node_children node key) @ stack) found (visited + 1))"
  by pat_completeness auto
termination
  by (relation "measure (\<lambda>(stack, found, visited). MAX_REDACTION_NODES - visited)") auto

declare literal_walk.simps [simp del]

definition redaction_literals :: "codecs \<Rightarrow> raw \<Rightarrow> string list" where
  "redaction_literals cs config = set_order cs (literal_walk [(config, None)] {} 0)"

section \<open>The buffer of a stream\<close>

text \<open>\<open>str.encode("utf-8")\<close> of a text in Latin-1.\<close>

definition utf8_encode :: "string \<Rightarrow> string" where
  "utf8_encode s = concat (map (\<lambda>c. if code c < 128 then [c]
      else [char_of (192 + code c div 64), char_of (128 + code c mod 64)]) s)"

definition OVERSIZED :: string where
  "OVERSIZED = ''[oversized diagnostic line discarded]'' @ [LF]"

record SanitizedBuffer =
  sb_limit :: nat
  sb_pending_limit :: nat
  sb_secrets :: "string list"
  sb_chunks :: "string list"
  sb_size :: nat
  sb_pending :: string
  sb_discarding :: bool

definition new_buffer :: "int \<Rightarrow> string list \<Rightarrow> int \<Rightarrow> SanitizedBuffer" where
  "new_buffer limit_bytes secrets pending_limit =
     \<lparr>sb_limit = nat (max 0 limit_bytes), sb_pending_limit = nat (max 1024 pending_limit),
      sb_secrets = secrets, sb_chunks = [], sb_size = 0, sb_pending = [], sb_discarding = False\<rparr>"

definition safe_bytes :: "codecs \<Rightarrow> string list \<Rightarrow> string \<Rightarrow> string" where
  "safe_bytes cs secrets line = utf8_encode (sanitize_diagnostic (utf8_replace cs line) secrets)"

fun trim_chunks :: "nat \<Rightarrow> string list \<Rightarrow> nat \<Rightarrow> string list \<times> nat" where
  "trim_chunks limit [] n = ([], n)"
| "trim_chunks limit (first # chunks) n =
     (if n > limit
      then let excess = n - limit
           in if length first \<le> excess then trim_chunks limit chunks (n - length first)
              else (drop excess first # chunks, n - excess)
      else (first # chunks, n))"

definition append_safe :: "codecs \<Rightarrow> string \<Rightarrow> SanitizedBuffer \<Rightarrow> SanitizedBuffer" where
  "append_safe cs line b =
     (if sb_limit b = 0 then b
      else
        let safe = safe_bytes cs (sb_secrets b) line;
            (chunks, n) = trim_chunks (sb_limit b) (sb_chunks b @ [safe]) (sb_size b + length safe)
        in b\<lparr>sb_chunks := chunks, sb_size := n\<rparr>)"

text \<open>The bytes up to the first line feed, and what follows it.\<close>

definition first_line :: "string \<Rightarrow> string" where
  "first_line data = takeWhile (\<lambda>c. c \<noteq> LF) data @ [LF]"

definition after_line :: "string \<Rightarrow> string" where
  "after_line data = tl (dropWhile (\<lambda>c. c \<noteq> LF) data)"

lemma after_line_shorter: "LF \<in> set data \<Longrightarrow> length (after_line data) < length data"
  using length_dropWhile_le [of "\<lambda>c. c \<noteq> LF" data] by (cases data) (auto simp: after_line_def)

function take_lines :: "codecs \<Rightarrow> string \<Rightarrow> SanitizedBuffer \<Rightarrow> SanitizedBuffer" where
  "take_lines cs pending b =
     (if LF \<in> set pending then take_lines cs (after_line pending) (append_safe cs (first_line pending) b)
      else b\<lparr>sb_pending := pending\<rparr>)"
  by pat_completeness auto
termination by (relation "measure (\<lambda>(cs, pending, b). length pending)") (auto simp: after_line_shorter)

declare take_lines.simps [simp del]

definition feed_data :: "codecs \<Rightarrow> string \<Rightarrow> SanitizedBuffer \<Rightarrow> SanitizedBuffer" where
  "feed_data cs data b =
     (let b = take_lines cs (sb_pending b @ data) b
      in if length (sb_pending b) > sb_pending_limit b
         then (append_safe cs OVERSIZED b)\<lparr>sb_pending := [], sb_discarding := True\<rparr>
         else b)"

definition feed :: "codecs \<Rightarrow> SanitizedBuffer \<Rightarrow> string \<Rightarrow> SanitizedBuffer" where
  "feed cs b data =
     (if sb_discarding b
      then if LF \<notin> set data then b else feed_data cs (after_line data) (b\<lparr>sb_discarding := False\<rparr>)
      else feed_data cs data b)"

definition finish_buffer :: "codecs \<Rightarrow> SanitizedBuffer \<Rightarrow> SanitizedBuffer" where
  "finish_buffer cs b =
     (if sb_pending b \<noteq> [] then (append_safe cs (sb_pending b) b)\<lparr>sb_pending := []\<rparr> else b)"

definition buffer_text :: "codecs \<Rightarrow> SanitizedBuffer \<Rightarrow> string" where
  "buffer_text cs b = utf8_replace cs (concat (sb_chunks b))"

text \<open>\<open>_drain_stream\<close>: the chunks that were read before the stream ended or failed.\<close>

definition drain_stream :: "codecs \<Rightarrow> string list \<Rightarrow> SanitizedBuffer \<Rightarrow> SanitizedBuffer" where
  "drain_stream cs chunks b = finish_buffer cs (foldl (feed cs) b chunks)"

definition public_process_detail :: "codecs \<Rightarrow> SanitizedBuffer \<Rightarrow> SanitizedBuffer \<Rightarrow> string" where
  "public_process_detail cs out err =
     (let detail = (if py_strip (buffer_text cs err) \<noteq> [] then py_strip (buffer_text cs err)
                    else py_strip (buffer_text cs out))
      in if length detail > 180 then ''...'' @ drop (length detail - 177) detail else detail)"

section \<open>What is kept is the end of the cleaned lines\<close>

definition lastn :: "nat \<Rightarrow> 'a list \<Rightarrow> 'a list" where
  "lastn n xs = drop (length xs - n) xs"

lemma length_lastn [simp]: "length (lastn n xs) = min n (length xs)"
  by (simp add: lastn_def)

lemma lastn_append: "lastn n (lastn n xs @ ys) = lastn n (xs @ ys)"
proof -
  have "lastn n xs @ ys = drop (length xs - n) (xs @ ys)" by (simp add: lastn_def)
  then show ?thesis by (cases "n \<le> length xs") (simp_all add: lastn_def add.commute)
qed

lemma trim_chunks_spec:
  "trim_chunks limit chunks (length (concat chunks)) = (chunks', n)
     \<Longrightarrow> concat chunks' = lastn limit (concat chunks) \<and> n = length (concat chunks')"
proof (induction chunks arbitrary: chunks' n)
  case Nil
  then show ?case by (simp add: lastn_def)
next
  case (Cons first chunks)
  let ?n = "length first + length (concat chunks)"
  show ?case
  proof (cases "?n > limit \<and> length first \<le> ?n - limit")
    case True
    then have "trim_chunks limit chunks (length (concat chunks)) = (chunks', n)" using Cons.prems by simp
    from Cons.IH [OF this] True show ?thesis by (simp add: lastn_def)
  next
    case False
    then show ?thesis using Cons.prems by (auto simp: lastn_def Let_def split: if_splits)
  qed
qed

text \<open>What a buffer has been given, and what it has kept of it.\<close>

definition holds :: "codecs \<Rightarrow> SanitizedBuffer \<Rightarrow> string list \<Rightarrow> bool" where
  "holds cs b fed \<longleftrightarrow> sb_size b = length (concat (sb_chunks b))
     \<and> concat (sb_chunks b) = lastn (sb_limit b) (concat (map (safe_bytes cs (sb_secrets b)) fed))"

lemma holds_append:
  assumes "holds cs b fed"
  shows "holds cs (append_safe cs line b) (fed @ [line])"
proof (cases "sb_limit b = 0")
  case True
  then show ?thesis using assms by (simp add: holds_def append_safe_def lastn_def)
next
  case False
  let ?s = "safe_bytes cs (sb_secrets b) line"
  obtain chunks n where t: "trim_chunks (sb_limit b) (sb_chunks b @ [?s]) (sb_size b + length ?s) = (chunks, n)"
    by fastforce
  have "length (concat (sb_chunks b @ [?s])) = sb_size b + length ?s" using assms by (simp add: holds_def)
  from trim_chunks_spec [of "sb_limit b" "sb_chunks b @ [?s]", unfolded this, OF t] False t assms show ?thesis
    by (simp add: holds_def append_safe_def lastn_append)
qed

lemma append_safe_fields [simp]:
  "sb_limit (append_safe cs line b) = sb_limit b" "sb_secrets (append_safe cs line b) = sb_secrets b"
  "sb_pending_limit (append_safe cs line b) = sb_pending_limit b"
  "sb_discarding (append_safe cs line b) = sb_discarding b"
  by (simp_all add: append_safe_def Let_def split: prod.split)

lemma holds_pending [simp]: "holds cs (b\<lparr>sb_pending := p\<rparr>) = holds cs b"
  "holds cs (b\<lparr>sb_discarding := d\<rparr>) = holds cs b"
  by (simp_all add: fun_eq_iff holds_def)

section \<open>Whole lines\<close>

text \<open>The lines of a stream with their line feeds, and what follows the last of them.\<close>

function complete_lines :: "string \<Rightarrow> string list" where
  "complete_lines data = (if LF \<in> set data then first_line data # complete_lines (after_line data) else [])"
  by pat_completeness auto
termination by (relation "measure length") (auto simp: after_line_shorter)

function last_part :: "string \<Rightarrow> string" where
  "last_part data = (if LF \<in> set data then last_part (after_line data) else data)"
  by pat_completeness auto
termination by (relation "measure length") (auto simp: after_line_shorter)

declare complete_lines.simps [simp del] last_part.simps [simp del]

lemma first_after: "LF \<in> set data \<Longrightarrow> first_line data @ after_line data = data"
  using takeWhile_dropWhile_id [of "\<lambda>c. c \<noteq> LF" data] hd_dropWhile [of "\<lambda>c. c \<noteq> LF" data]
  by (cases "dropWhile (\<lambda>c. c \<noteq> LF) data") (auto simp: first_line_def after_line_def)

lemma line_append:
  "LF \<in> set data \<Longrightarrow> first_line (data @ more_data) = first_line data"
  "LF \<in> set data \<Longrightarrow> after_line (data @ more_data) = after_line data @ more_data"
  by (induction data) (auto simp: first_line_def after_line_def)

lemma complete_lines_append:
  "complete_lines (data @ more_data) = complete_lines data @ complete_lines (last_part data @ more_data)
   \<and> last_part (data @ more_data) = last_part (last_part data @ more_data)"
proof (induction data rule: complete_lines.induct)
  case (1 data)
  show ?case
  proof (cases "LF \<in> set data")
    case True
    then have c: "complete_lines (data @ more_data) = first_line data # complete_lines (after_line data @ more_data)"
      "last_part (data @ more_data) = last_part (after_line data @ more_data)"
      by (subst complete_lines.simps last_part.simps; simp add: line_append)+
    have d: "complete_lines data = first_line data # complete_lines (after_line data)"
      "last_part data = last_part (after_line data)"
      using True by (subst complete_lines.simps last_part.simps; simp)+
    show ?thesis using "1.IH" [OF True] unfolding c d by simp
  next
    case False
    then have "complete_lines data = []" "last_part data = data"
      by (subst complete_lines.simps last_part.simps; simp)+
    then show ?thesis by simp
  qed
qed

lemma take_lines_spec:
  assumes "holds cs b fed"
  shows "holds cs (take_lines cs data b) (fed @ complete_lines data)
    \<and> sb_pending (take_lines cs data b) = last_part data
    \<and> sb_limit (take_lines cs data b) = sb_limit b \<and> sb_secrets (take_lines cs data b) = sb_secrets b
    \<and> sb_pending_limit (take_lines cs data b) = sb_pending_limit b
    \<and> sb_discarding (take_lines cs data b) = sb_discarding b"
  using assms
proof (induction cs data b arbitrary: fed rule: take_lines.induct)
  case (1 cs data b)
  show ?case
  proof (cases "LF \<in> set data")
    case True
    show ?thesis
      using "1.IH" [OF True holds_append [OF "1.prems"]] True
      by (subst (1 2 3 4 5 6) take_lines.simps, subst complete_lines.simps, subst last_part.simps) simp
  next
    case False
    then show ?thesis
      using "1.prems"
      by (subst (1 2 3 4 5 6) take_lines.simps, subst complete_lines.simps, subst last_part.simps) simp
  qed
qed

definition output_lines :: "string \<Rightarrow> string list" where
  "output_lines data = complete_lines data @ (if last_part data = [] then [] else [last_part data])"

lemma no_line_feed: "LF \<notin> set data \<Longrightarrow> complete_lines data = [] \<and> last_part data = data"
  by (subst complete_lines.simps, subst last_part.simps) simp

lemma last_part_open [simp]: "LF \<notin> set (last_part data)"
  by (induction data rule: last_part.induct) (subst last_part.simps, simp)

text \<open>Nothing is lost or joined: the lines make up the stream, and each has its line feed at its end.\<close>

lemma output_lines_concat: "concat (output_lines data) = data"
proof (induction data rule: complete_lines.induct)
  case (1 data)
  show ?case
  proof (cases "LF \<in> set data")
    case True
    then have "output_lines data = first_line data # output_lines (after_line data)"
      unfolding output_lines_def by (subst complete_lines.simps, subst (1 2) last_part.simps) simp
    then show ?thesis using "1.IH" [OF True] first_after [OF True] by simp
  next
    case False
    then show ?thesis using no_line_feed [OF False] by (simp add: output_lines_def)
  qed
qed

lemma complete_lines_open:
  assumes "LF \<notin> set p" "LF \<in> set data"
  shows "complete_lines (p @ data) = first_line (p @ data) # complete_lines (after_line data)"
    and "last_part (p @ data) = last_part (after_line data)"
proof -
  have a: "LF \<in> set (p @ data)" using assms by simp
  have b: "after_line (p @ data) = after_line data" using assms(1) by (induction p) (auto simp: after_line_def)
  show "complete_lines (p @ data) = first_line (p @ data) # complete_lines (after_line data)"
    using a b by (subst complete_lines.simps) simp
  show "last_part (p @ data) = last_part (after_line data)" using a b by (subst last_part.simps) simp
qed

definition short_lines :: "nat \<Rightarrow> string \<Rightarrow> bool" where
  "short_lines n data \<longleftrightarrow> (\<forall>l \<in> set (output_lines data). length l \<le> n)"

lemma short_last: "short_lines n data \<Longrightarrow> length (last_part data) \<le> n"
  by (cases "last_part data = []") (simp_all add: short_lines_def output_lines_def)

lemma short_lines_before: "short_lines n (data @ more_data) \<Longrightarrow> short_lines n data"
proof (cases "LF \<in> set more_data")
  case True
  assume a: "short_lines n (data @ more_data)"
  let ?p = "last_part data"
  have "length (first_line (?p @ more_data)) \<ge> length ?p"
    unfolding first_line_def by (subst takeWhile_append2) (auto intro: ccontr)
  then show ?thesis
    using a complete_lines_append [of data more_data] complete_lines_open [OF last_part_open True, of data]
    by (auto simp: short_lines_def output_lines_def)
next
  case False
  assume a: "short_lines n (data @ more_data)"
  have "LF \<notin> set (last_part data @ more_data)" using False by simp
  from no_line_feed [OF this] show ?thesis
    using a complete_lines_append [of data more_data] by (auto simp: short_lines_def output_lines_def)
qed

text \<open>What holds after each chunk that has been fed.\<close>

definition buffered :: "codecs \<Rightarrow> string \<Rightarrow> SanitizedBuffer \<Rightarrow> string list \<Rightarrow> bool" where
  "buffered cs data b fed \<longleftrightarrow> holds cs b fed
     \<and> length (sb_pending b) \<le> sb_pending_limit b
     \<and> sb_pending b = (if sb_discarding b then [] else last_part data)
     \<and> set fed \<subseteq> insert OVERSIZED (set (complete_lines data))
     \<and> (short_lines (sb_pending_limit b) data \<longrightarrow> \<not> sb_discarding b \<and> fed = complete_lines data)"

definition same_settings :: "SanitizedBuffer \<Rightarrow> SanitizedBuffer \<Rightarrow> bool" where
  "same_settings b b' \<longleftrightarrow> sb_limit b' = sb_limit b \<and> sb_secrets b' = sb_secrets b
     \<and> sb_pending_limit b' = sb_pending_limit b"

lemma feed_data_spec:
  assumes "holds cs b fed" "\<not> sb_discarding b"
  shows "\<exists>fed'. holds cs (feed_data cs d b) (fed @ complete_lines (sb_pending b @ d) @ fed')
    \<and> same_settings b (feed_data cs d b)
    \<and> (if length (last_part (sb_pending b @ d)) > sb_pending_limit b
       then fed' = [OVERSIZED] \<and> sb_pending (feed_data cs d b) = [] \<and> sb_discarding (feed_data cs d b)
       else fed' = [] \<and> sb_pending (feed_data cs d b) = last_part (sb_pending b @ d)
         \<and> \<not> sb_discarding (feed_data cs d b))"
  using take_lines_spec [OF assms(1), of "sb_pending b @ d"] assms(2)
    holds_append [of cs "take_lines cs (sb_pending b @ d) b" "fed @ complete_lines (sb_pending b @ d)" OVERSIZED]
  by (simp add: feed_data_def Let_def same_settings_def)

lemma buffered_feed:
  assumes "buffered cs data b fed"
  shows "\<exists>fed'. buffered cs (data @ d) (feed cs b d) fed' \<and> same_settings b (feed cs b d)"
proof -
  note inv = assms [unfolded buffered_def]
  let ?p = "last_part data" and ?l = "sb_pending_limit b"
  have lines: "complete_lines (data @ d) = complete_lines data @ complete_lines (?p @ d)"
    "last_part (data @ d) = last_part (?p @ d)"
    using complete_lines_append [of data d] by simp_all
  have short: "short_lines ?l data \<and> length (last_part (data @ d)) \<le> ?l" if "short_lines ?l (data @ d)"
    using short_lines_before [OF that] short_last [OF that] by simp
  show ?thesis
  proof (cases "sb_discarding b")
    case False
    then have p: "sb_pending b = ?p" using inv by simp
    from feed_data_spec [of cs b fed d] inv False obtain fed' where
      "holds cs (feed cs b d) (fed @ complete_lines (?p @ d) @ fed')" "same_settings b (feed cs b d)"
      "if length (last_part (data @ d)) > ?l
       then fed' = [OVERSIZED] \<and> sb_pending (feed cs b d) = [] \<and> sb_discarding (feed cs b d)
       else fed' = [] \<and> sb_pending (feed cs b d) = last_part (data @ d) \<and> \<not> sb_discarding (feed cs b d)"
      by (auto simp: feed_def p lines)
    then show ?thesis
      using inv False short lines
      by (intro exI [of _ "fed @ complete_lines (?p @ d) @ fed'"])
         (auto simp: buffered_def same_settings_def split: if_splits)
  next
    case True
    then have long: "\<not> short_lines ?l (data @ d)" using inv short by auto
    show ?thesis
    proof (cases "LF \<in> set d")
      case False
      then have "LF \<notin> set (?p @ d)" by simp
      from no_line_feed [OF this] lines True False inv long show ?thesis
        by (intro exI [of _ fed]) (simp add: buffered_def feed_def same_settings_def)
    next
      case True
      note open_line = complete_lines_open [OF last_part_open [of data] True]
      let ?b = "b\<lparr>sb_discarding := False\<rparr>"
      have e: "feed cs b d = feed_data cs (after_line d) ?b" "sb_pending b = []"
        using True \<open>sb_discarding b\<close> inv by (simp_all add: feed_def)
      from feed_data_spec [of cs ?b fed "after_line d"] inv e obtain fed' where
        "holds cs (feed cs b d) (fed @ complete_lines (after_line d) @ fed')" "same_settings b (feed cs b d)"
        "if length (last_part (after_line d)) > ?l
         then fed' = [OVERSIZED] \<and> sb_pending (feed cs b d) = [] \<and> sb_discarding (feed cs b d)
         else fed' = [] \<and> sb_pending (feed cs b d) = last_part (after_line d) \<and> \<not> sb_discarding (feed cs b d)"
        by (auto simp: same_settings_def)
      then show ?thesis
        using inv long lines open_line
        by (intro exI [of _ "fed @ complete_lines (after_line d) @ fed'"])
           (auto simp: buffered_def same_settings_def split: if_splits)
    qed
  qed
qed

lemma buffered_feeds:
  "buffered cs data b fed \<Longrightarrow>
     \<exists>fed'. buffered cs (data @ concat ds) (foldl (feed cs) b ds) fed' \<and> same_settings b (foldl (feed cs) b ds)"
proof (induction ds arbitrary: data b fed)
  case Nil
  then show ?case by (auto simp: same_settings_def)
next
  case (Cons d ds)
  obtain fed' where a: "buffered cs (data @ d) (feed cs b d) fed'" "same_settings b (feed cs b d)"
    using buffered_feed [OF Cons.prems] by blast
  from Cons.IH [OF a(1)] show ?case using a(2) by (auto simp: same_settings_def)
qed

text \<open>
  C15: the buffer of a process's output holds the end of the cleaned lines and never more than its limit.
  Every piece that is cleaned is a whole line of the output, or stands for a line that was too long, so
  no line is split before it is cleaned; when no line is too long the result does not depend on how the
  output was cut into chunks. What waits for the end of its line is bounded after every chunk.
\<close>

theorem buffer_keeps_clean_lines:
  assumes "b0 = new_buffer limit_bytes secrets pending_limit" "data = concat chunks"
  shows "(\<exists>fed. concat (sb_chunks (drain_stream cs chunks b0))
        = lastn (nat limit_bytes) (concat (map (safe_bytes cs secrets) fed))
    \<and> set fed \<subseteq> insert OVERSIZED (set (output_lines data))
    \<and> (short_lines (nat (max 1024 pending_limit)) data \<longrightarrow> fed = output_lines data))
    \<and> length (concat (sb_chunks (drain_stream cs chunks b0))) \<le> nat limit_bytes
    \<and> length (sb_pending (foldl (feed cs) b0 (take n chunks))) \<le> nat (max 1024 pending_limit)"
proof -
  have new: "buffered cs [] b0 []"
    by (simp add: buffered_def holds_def assms(1) new_buffer_def lastn_def complete_lines.simps last_part.simps)
  have s0: "sb_limit b0 = nat limit_bytes" "sb_secrets b0 = secrets" "sb_pending_limit b0 = nat (max 1024 pending_limit)"
    by (simp_all add: assms(1) new_buffer_def)
  from buffered_feeds [OF new, of chunks] obtain fed where
    b: "buffered cs data (foldl (feed cs) b0 chunks) fed" "same_settings b0 (foldl (feed cs) b0 chunks)"
    by (auto simp: assms(2))
  let ?b = "foldl (feed cs) b0 chunks"
  let ?fed = "fed @ (if sb_pending ?b = [] then [] else [sb_pending ?b])"
  have "holds cs (drain_stream cs chunks b0) ?fed \<and> same_settings b0 (drain_stream cs chunks b0)"
    using b holds_append [of cs ?b fed "sb_pending ?b"]
    by (auto simp: drain_stream_def finish_buffer_def buffered_def same_settings_def)
  then have "concat (sb_chunks (drain_stream cs chunks b0))
      = lastn (nat limit_bytes) (concat (map (safe_bytes cs secrets) ?fed))"
    using s0 by (simp add: holds_def same_settings_def)
  moreover have "set ?fed \<subseteq> insert OVERSIZED (set (output_lines data))"
    and "short_lines (nat (max 1024 pending_limit)) data \<longrightarrow> ?fed = output_lines data"
    using b s0 by (auto simp: buffered_def same_settings_def output_lines_def)
  ultimately have kept: "\<exists>fed. concat (sb_chunks (drain_stream cs chunks b0))
        = lastn (nat limit_bytes) (concat (map (safe_bytes cs secrets) fed))
    \<and> set fed \<subseteq> insert OVERSIZED (set (output_lines data))
    \<and> (short_lines (nat (max 1024 pending_limit)) data \<longrightarrow> fed = output_lines data)" by blast
  then have small: "length (concat (sb_chunks (drain_stream cs chunks b0))) \<le> nat limit_bytes" by fastforce
  from buffered_feeds [OF new, of "take n chunks"] s0
  have waiting: "length (sb_pending (foldl (feed cs) b0 (take n chunks))) \<le> nat (max 1024 pending_limit)"
    by (auto simp: buffered_def same_settings_def)
  show ?thesis using kept small waiting by blast
qed

section \<open>What is hidden stays hidden\<close>

text \<open>A text in which some pieces have been replaced by the mark.\<close>

inductive masked :: "string \<Rightarrow> string \<Rightarrow> bool" where
  masked_end: "masked [] []"
| masked_keep: "masked s t \<Longrightarrow> masked (c # s) (c # t)"
| masked_hide: "masked s t \<Longrightarrow> masked (m @ s) (REDACTION_MARK @ t)"

lemma masked_kept: "masked s t \<Longrightarrow> masked (u @ s) (u @ t)"
  by (induction u) (auto intro: masked_keep)

abbreviation lowered :: "string \<Rightarrow> string" where
  "lowered s \<equiv> map lower_char s"

lemma lowered_mark: "lowered REDACTION_MARK = CHR ''['' # ''redacted'' @ '']''"
  by code_simp

text \<open>A text that cannot be part of the mark.\<close>

definition unmarked :: "string \<Rightarrow> bool" where
  "unmarked n \<longleftrightarrow> n \<noteq> [] \<and> CHR ''['' \<notin> set n \<and> CHR '']'' \<notin> set n \<and> \<not> sublist n ''redacted''"

lemma sublist_split: "sublist n (u @ x # t) \<Longrightarrow> x \<notin> set n \<Longrightarrow> sublist n u \<or> sublist n t"
proof (induction u)
  case Nil
  then show ?case by (auto simp: sublist_Cons_right prefix_Cons)
next
  case (Cons c u)
  from Cons.prems(1) have "prefix n (c # u @ x # t) \<or> sublist n (u @ x # t)" by (simp add: sublist_Cons_right)
  then show ?case
  proof
    assume "prefix n (c # u @ x # t)"
    then obtain r where r: "(c # u) @ x # t = n @ r" by (auto simp: prefix_def)
    have "length n \<le> length (c # u)"
    proof (rule ccontr)
      assume "\<not> ?thesis"
      then have "(n @ r) ! length (c # u) \<in> set n" by (simp add: nth_append)
      then show False using Cons.prems(2) unfolding r [symmetric] by (simp add: nth_append)
    qed
    moreover have "prefix n ((c # u) @ x # t)" unfolding r by simp
    ultimately have "prefix n (c # u)" using prefix_length_prefix [of n "(c # u) @ x # t" "c # u"] by simp
    then show ?thesis by (simp add: sublist_Cons_right)
  next
    assume "sublist n (u @ x # t)"
    with Cons show ?thesis by (auto simp: sublist_Cons_right)
  qed
qed

lemma sublist_mark: "unmarked n \<Longrightarrow> sublist n (lowered (REDACTION_MARK @ t)) \<Longrightarrow> sublist n (lowered t)"
  using sublist_split [of n "CHR ''['' # ''redacted''" "CHR '']''" "lowered t"] sublist_split [of n "[]" "CHR ''[''" "''redacted''"]
  by (auto simp: unmarked_def lowered_mark)

lemma masked_prefix: "masked s t \<Longrightarrow> prefix n (lowered t) \<Longrightarrow> CHR ''['' \<notin> set n \<Longrightarrow> prefix n (lowered s)"
proof (induction arbitrary: n rule: masked.induct)
  case (masked_keep s t c)
  then show ?case by (cases n) auto
next
  case (masked_hide s t m)
  then show ?case unfolding map_append lowered_mark by (cases n) auto
qed simp

lemma masked_hidden: "masked s t \<Longrightarrow> unmarked n \<Longrightarrow> sublist n (lowered t) \<Longrightarrow> sublist n (lowered s)"
proof (induction rule: masked.induct)
  case (masked_keep s t c)
  then show ?case
    using masked_prefix [OF masked.masked_keep [OF masked_keep.hyps, of c], of n]
    by (auto simp: sublist_Cons_right unmarked_def)
next
  case (masked_hide s t m)
  then have "sublist n (lowered s)" using sublist_mark by blast
  then show ?case by (auto simp: sublist_append)
qed simp

lemma sub_masked:
  assumes "\<And>b s p. rx_at r b s = Some p \<Longrightarrow> length (ahead p) < length s \<Longrightarrow>
     \<exists>u x v. s = (u @ x @ v) @ ahead p \<and> f (u @ x @ v) (captured p) = u @ REDACTION_MARK @ v"
  shows "masked s (rx_sub r f b s)"
  using assms
proof (induction r f b s rule: rx_sub.induct)
  case (1 r f b)
  then show ?case by (simp add: masked_end)
next
  case (2 r f b c s)
  show ?case
  proof (cases "rx_at r b (c # s)")
    case None
    then show ?thesis using "2.IH"(1) [OF None "2.prems"] by (simp add: masked_keep)
  next
    case (Some p)
    show ?thesis
    proof (cases "length (ahead p) < length (c # s)")
      case True
      from "2.prems" [OF Some True] obtain u x v where
        e: "c # s = (u @ x @ v) @ ahead p" "f (u @ x @ v) (captured p) = u @ REDACTION_MARK @ v" by blast
      have t: "take (length (c # s) - length (ahead p)) (c # s) = u @ x @ v" unfolding e(1) by simp
      have "masked (ahead p) (rx_sub r f (behind p) (ahead p))" by (rule "2.IH"(2) [OF Some True "2.prems"])
      then have m: "masked (u @ x @ v @ ahead p) (u @ REDACTION_MARK @ v @ rx_sub r f (behind p) (ahead p))"
        by (intro masked_kept masked_hide)
      have "rx_sub r f b (c # s) = f (u @ x @ v) (captured p) @ rx_sub r f (behind p) (ahead p)"
        using Some True t by simp
      then show ?thesis using m e by simp
    next
      case False
      then show ?thesis using "2.IH"(3) [OF Some False "2.prems"] Some by (simp add: masked_keep)
    qed
  qed
qed

section \<open>Literals\<close>

lemma match_text:
  "rx_match (RText n) p =
     (if prefix n (lowered (ahead p))
      then [p\<lparr>behind := rev (take (length n) (ahead p)) @ behind p, ahead := drop (length n) (ahead p)\<rparr>] else [])"
proof (induction n arbitrary: p)
  case Nil
  then show ?case by (simp add: RText_def)
next
  case (Cons c n)
  have "RText (c # n) = RSeq (RChar (\<lambda>d. lower_char d = c)) (RText n)" by (simp add: RText_def)
  then show ?case using Cons by (cases "ahead p") auto
qed

lemma text_at:
  "rx_at (RText n) b s = (if prefix n (lowered s)
     then Some \<lparr>behind = rev (take (length n) s) @ b, ahead = drop (length n) s, captured = []\<rparr> else None)"
  by (simp add: rx_at_def match_text)

lemma hide_masked: "masked s (rx_sub r (\<lambda>_ _. REDACTION_MARK) b s)"
proof (rule sub_masked)
  fix b s p
  assume "rx_at r b s = Some p"
  from rx_at_reaches [OF this] obtain m where "s = m @ ahead p" by blast
  then show "\<exists>u x v. s = (u @ x @ v) @ ahead p \<and> REDACTION_MARK = u @ REDACTION_MARK @ v"
    by (intro exI [of _ "[]"] exI [of _ m]) simp
qed

lemma hidden_literal:
  assumes "unmarked n"
  shows "\<not> sublist n (lowered (rx_sub (RText n) (\<lambda>_ _. REDACTION_MARK) b s))"
proof (induction "RText n" "\<lambda>(_ :: string) (_ :: string). REDACTION_MARK" b s rule: rx_sub.induct)
  case (1 b)
  then show ?case using assms by (simp add: unmarked_def)
next
  case (2 b c s)
  have n: "n \<noteq> []" "CHR ''['' \<notin> set n" using assms by (simp_all add: unmarked_def)
  show ?case
  proof (cases "prefix n (lowered (c # s))")
    case True
    note at = text_at [of n b "c # s", unfolded if_P [OF True]]
    have "length (drop (length n) (c # s)) < length (c # s)" using n(1) by (cases n) simp_all
    with 2(2) [OF at] show ?thesis using at sublist_mark [OF assms] by (auto simp: Let_def)
  next
    case False
    note at = text_at [of n b "c # s", unfolded if_not_P [OF False]]
    have "masked (c # s) (c # rx_sub (RText n) (\<lambda>_ _. REDACTION_MARK) (c # b) s)"
      by (rule masked_keep) (rule hide_masked)
    from masked_prefix [OF this _ n(2)] False
    have "\<not> prefix n (lowered (c # rx_sub (RText n) (\<lambda>_ _. REDACTION_MARK) (c # b) s))" by blast
    with 2(1) [OF at] show ?thesis using at by (auto simp: sublist_Cons_right)
  qed
qed

lemma hidden_stays:
  "unmarked n \<Longrightarrow> \<not> sublist n (lowered s)
     \<Longrightarrow> \<not> sublist n (lowered (foldl (\<lambda>text secret. hide_literal secret text) s ls))"
proof (induction ls arbitrary: s)
  case (Cons l ls)
  have "masked s (hide_literal l s)" by (simp add: hide_literal_def hide_masked)
  then have "\<not> sublist n (lowered (hide_literal l s))" using masked_hidden Cons.prems by blast
  then show ?case using Cons.IH [OF Cons.prems(1)] by simp
qed simp

lemma literals_hidden:
  assumes "l \<in> set ls" "unmarked (lowered l)"
  shows "\<not> sublist (lowered l) (lowered (foldl (\<lambda>text secret. hide_literal secret text) s ls))"
proof -
  obtain as bs where ls: "ls = as @ l # bs" using split_list [OF assms(1)] by blast
  show ?thesis
    using hidden_stays [OF assms(2) hidden_literal [OF assms(2)]] by (simp add: ls hide_literal_def)
qed

text \<open>Two literals without sharp s that are equal when case-folded are equal up to case.\<close>

lemma casefold_lowered: "CHR 0xDF \<notin> set s \<Longrightarrow> py_casefold s = lowered s"
proof (induction s)
  case (Cons c s)
  have "code c \<noteq> 223"
  proof
    assume "code c = 223"
    moreover have "char_of (code c) = c" by (simp add: code_def)
    moreover have "char_of (223 :: nat) = CHR 0xDF" by code_simp
    ultimately have "c = CHR 0xDF" by simp
    with Cons.prems show False by simp
  qed
  with Cons show ?case by (simp add: py_casefold_def)
qed (simp add: py_casefold_def)

lemma unique_literals_cover:
  "\<forall>s \<in> set secrets. s \<noteq> [] \<longrightarrow>
     (\<exists>l \<in> set (dict_values (unique_literals secrets)). py_casefold l = py_casefold s \<and> l \<in> set secrets)"
proof -
  let ?f = "\<lambda>u secret. if secret = [] \<or> dict_get u (py_casefold secret) \<noteq> None then u
      else dict_set (py_casefold secret) secret u"
  have "(\<forall>(k, l) \<in> set (foldl ?f [] secrets). k = py_casefold l \<and> l \<in> set secrets)
      \<and> (\<forall>s \<in> set secrets. s \<noteq> [] \<longrightarrow> dict_get (foldl ?f [] secrets) (py_casefold s) \<noteq> None)"
  proof (induction secrets rule: rev_induct)
    case (snoc s secrets)
    let ?u = "foldl ?f [] secrets"
    show ?case
    proof (cases "s = [] \<or> dict_get ?u (py_casefold s) \<noteq> None")
      case True
      then have "foldl ?f [] (secrets @ [s]) = ?u" by simp
      then show ?thesis using snoc True by auto
    next
      case False
      then have "foldl ?f [] (secrets @ [s]) = dict_set (py_casefold s) s ?u" by simp
      then show ?thesis using snoc by (auto dest!: dict_set_mem)
    qed
  qed simp
  then show ?thesis
    unfolding unique_literals_def by (force dest: dict_get_in)
qed

section \<open>The other patterns\<close>

text \<open>Patterns without a capture, and patterns that consume a character.\<close>

fun captureless :: "rx \<Rightarrow> bool" where
  "captureless (RSeq r s) \<longleftrightarrow> captureless r \<and> captureless s"
| "captureless (RAlt r s) \<longleftrightarrow> captureless r \<and> captureless s"
| "captureless (RStar r) \<longleftrightarrow> captureless r"
| "captureless (RGroup r) \<longleftrightarrow> False"
| "captureless _ \<longleftrightarrow> True"

fun consumes :: "rx \<Rightarrow> bool" where
  "consumes (RChar P) \<longleftrightarrow> True"
| "consumes (RSeq r s) \<longleftrightarrow> consumes r \<or> consumes s"
| "consumes _ \<longleftrightarrow> False"

lemma star_captured:
  assumes "q \<in> set (rx_star f p)" "\<And>p q. q \<in> set (f p) \<Longrightarrow> captured q = captured p"
  shows "captured q = captured p"
  using assms
proof (induction f p rule: rx_star.induct)
  case (1 f p)
  have "q = p \<or> (\<exists>r \<in> set (f p). length (ahead r) < length (ahead p) \<and> q \<in> set (rx_star f r))"
    using "1.prems"(1) by (subst (asm) rx_star.simps) (auto split: if_split_asm)
  then show ?case
  proof (elim disjE bexE conjE)
    fix r
    assume r: "r \<in> set (f p)" "length (ahead r) < length (ahead p)" "q \<in> set (rx_star f r)"
    have "captured q = captured r" by (rule "1.IH" [OF r]) (rule "1.prems"(2))
    with "1.prems"(2) [OF r(1)] show ?thesis by simp
  qed simp
qed

lemma captureless_captured: "captureless r \<Longrightarrow> q \<in> set (rx_match r p) \<Longrightarrow> captured q = captured p"
proof (induction r arbitrary: p q)
  case (RStar r)
  then show ?case using star_captured [of q "rx_match r" p] by simp
next
  case (RSeq r s)
  then show ?case by fastforce
qed (auto split: list.splits if_splits)

lemma reaches_shorter: "reaches p q \<Longrightarrow> length (ahead q) \<le> length (ahead p)"
  by (auto simp: reaches_def)

lemma consumes_shorter: "consumes r \<Longrightarrow> q \<in> set (rx_match r p) \<Longrightarrow> length (ahead q) < length (ahead p)"
proof (induction r arbitrary: p q)
  case (RChar P)
  then show ?case by (cases "ahead p") (auto split: if_splits)
next
  case (RSeq r s)
  then obtain m where m: "m \<in> set (rx_match r p)" "q \<in> set (rx_match s m)" by auto
  note le = reaches_shorter [OF rx_match_reaches [OF m(1)]] reaches_shorter [OF rx_match_reaches [OF m(2)]]
  show ?case
  proof (cases "consumes r")
    case True
    from RSeq.IH(1) [OF True m(1)] le(2) show ?thesis by simp
  next
    case False
    with RSeq.prems(1) have "consumes s" by simp
    from RSeq.IH(2) [OF this m(2)] le(1) show ?thesis by simp
  qed
qed (auto split: list.splits if_splits)

text \<open>A pattern that starts with its capture: the match is the capture and what follows it.\<close>

lemma capture_first:
  assumes "rx_at (RSeq (RGroup r) s) b text = Some p" "captureless s"
  shows "\<exists>x. text = captured p @ x @ ahead p \<and> (consumes s \<longrightarrow> x \<noteq> [])"
proof -
  let ?p = "\<lparr>behind = b, ahead = text, captured = []\<rparr>"
  have "p \<in> set (rx_match (RSeq (RGroup r) s) ?p)" using assms(1)
    by (auto simp: rx_at_def simp del: rx_match.simps split: list.splits)
  then obtain m where m: "m \<in> set (rx_match (RGroup r) ?p)" "p \<in> set (rx_match s m)" by auto
  from m(1) obtain q where q: "q \<in> set (rx_match r ?p)"
    "m = q\<lparr>captured := take (length text - length (ahead q)) text\<rparr>" by auto
  from rx_match_reaches [OF q(1)] obtain w where w: "text = w @ ahead q" by (auto simp: reaches_def)
  then have c: "captured m = w" "ahead m = ahead q" by (simp_all add: q(2))
  from rx_match_reaches [OF m(2)] obtain x where x: "ahead m = x @ ahead p" by (auto simp: reaches_def)
  have "captured p = w" using captureless_captured [OF assms(2) m(2)] c by simp
  moreover have "consumes s \<longrightarrow> x \<noteq> []" using consumes_shorter [OF _ m(2)] x by auto
  ultimately show ?thesis using w x c by auto
qed

lemma capture_masked:
  assumes "captureless s" "consumes s"
  shows "masked t (rx_sub (RSeq (RGroup r) s) (\<lambda>_ g. g @ REDACTION_MARK) b t)"
    and "masked t (rx_sub (RSeq (RGroup r) s) (\<lambda>m g. g @ REDACTION_MARK @ [last m]) b t)"
proof -
  have a: "\<exists>x. x \<noteq> [] \<and> t = (captured p @ x) @ ahead p"
    if "rx_at (RSeq (RGroup r) s) b t = Some p" for b t p
    using capture_first [OF that assms(1)] assms(2) by auto
  show "masked t (rx_sub (RSeq (RGroup r) s) (\<lambda>_ g. g @ REDACTION_MARK) b t)"
  proof (rule sub_masked)
    fix b t p
    assume "rx_at (RSeq (RGroup r) s) b t = Some p"
    from a [OF this] obtain x where "t = (captured p @ x) @ ahead p" by blast
    then show "\<exists>u x v. t = (u @ x @ v) @ ahead p \<and> captured p @ REDACTION_MARK = u @ REDACTION_MARK @ v"
      by (intro exI [of _ "captured p"] exI [of _ x] exI [of _ "[]"]) simp
  qed
  show "masked t (rx_sub (RSeq (RGroup r) s) (\<lambda>m g. g @ REDACTION_MARK @ [last m]) b t)"
  proof (rule sub_masked)
    fix b t p
    assume "rx_at (RSeq (RGroup r) s) b t = Some p"
    from a [OF this] obtain x where x: "x \<noteq> []" "t = (captured p @ x) @ ahead p" by blast
    then show "\<exists>u x v. t = (u @ x @ v) @ ahead p
        \<and> captured p @ REDACTION_MARK @ [last (u @ x @ v)] = u @ REDACTION_MARK @ v"
      by (intro exI [of _ "captured p"] exI [of _ "butlast x"] exI [of _ "[last x]"]) simp
  qed
qed

lemma patterns_masked:
  "masked s (rx_sub RUNTIME_UUID (\<lambda>_ _. REDACTION_MARK) [] s)"
  "masked s (rx_sub URL_CREDENTIALS (\<lambda>m g. g @ REDACTION_MARK @ [last m]) [] s)"
  "masked s (rx_sub QUERY_SECRET (\<lambda>_ g. g @ REDACTION_MARK) [] s)"
  "masked s (rx_sub JSON_SECRET (\<lambda>m g. g @ REDACTION_MARK @ [last m]) [] s)"
  by (simp_all add: hide_masked capture_masked URL_CREDENTIALS_def QUERY_SECRET_def JSON_SECRET_def Let_def
      RPlus_def RAny_def RNotAny_def)

lemma sanitized_hides:
  assumes "OPAQUE_DIAGNOSTIC_SENTINEL \<notin> set secrets" "l \<in> set secrets" "unmarked (lowered l)"
    and "\<And>s. s \<in> set secrets \<Longrightarrow> CHR 0xDF \<notin> set s"
  shows "\<not> sublist (lowered l) (lowered (sanitize_diagnostic text secrets))"
proof -
  have "l \<noteq> []" using assms(3) by (simp add: unmarked_def)
  with unique_literals_cover [of secrets] assms(2) obtain l' where
    l': "l' \<in> set (dict_values (unique_literals secrets))" "py_casefold l' = py_casefold l" "l' \<in> set secrets"
    by blast
  have same: "lowered l' = lowered l" using l'(2) casefold_lowered assms(2,4) l'(3) by metis
  have in_order: "l' \<in> set (sort_key (\<lambda>l. - int (length l)) (dict_values (unique_literals secrets)))"
    using l'(1) by simp
  note hidden = literals_hidden [OF in_order, unfolded same, OF assms(3)]
  show ?thesis
    using hidden masked_hidden [OF patterns_masked(1) assms(3)] masked_hidden [OF patterns_masked(2) assms(3)]
      masked_hidden [OF patterns_masked(3) assms(3)] masked_hidden [OF patterns_masked(4) assms(3)] assms(1)
    unfolding sanitize_diagnostic_def Let_def if_not_P [OF assms(1)] by blast
qed

section \<open>No string of the configuration is overlooked\<close>

text \<open>The keys of a document, and its strings of at least four characters.\<close>

fun texts_in :: "raw \<Rightarrow> string list" where
  "texts_in (RDict kvs) = concat (map (\<lambda>(k, v). (if k = [] then [] else [k]) @ texts_in v) kvs)"
| "texts_in (RList vs) = concat (map texts_in vs)"
| "texts_in (RStr s) = (if length s < 4 then [] else [s])"
| "texts_in _ = []"

definition stack_texts :: "(raw \<times> string option) list \<Rightarrow> string set" where
  "stack_texts stack = (\<Union>(v, key) \<in> set stack. set (texts_in v))"

lemma remember_all_set: "remember_all vs found = Some found' \<Longrightarrow> found' = found \<union> {v \<in> set vs. v \<noteq> []}"
  by (induction vs arbitrary: found) (auto simp: remember_def Let_def split: option.splits if_splits)

text \<open>What a node contributes is at the node or below it.\<close>

lemma node_texts:
  "set (texts_in v) \<subseteq> {l \<in> set (node_literals v key). l \<noteq> []} \<union> stack_texts (node_children v key)"
proof (cases v)
  case (RStr s)
  then show ?thesis by (auto simp: minimum_length_def)
next
  case (RDict kvs)
  then show ?thesis by (fastforce simp: stack_texts_def split: if_splits)
qed (auto simp: stack_texts_def)

lemma literal_walk_covers:
  "literal_walk stack found n = {OPAQUE_DIAGNOSTIC_SENTINEL}
     \<or> found \<union> stack_texts stack \<subseteq> literal_walk stack found n"
proof (induction stack found n rule: literal_walk.induct)
  case (1 found visited)
  then show ?case by (simp add: literal_walk.simps stack_texts_def)
next
  case (2 v key stack found n)
  show ?case
  proof (cases "n + 1 > MAX_REDACTION_NODES \<or> remember_all (node_literals v key) found = None")
    case True
    then show ?thesis by (subst literal_walk.simps) auto
  next
    case False
    then obtain found' where kept: "remember_all (node_literals v key) found = Some found'" by blast
    let ?rest = "literal_walk (rev (node_children v key) @ stack) found' (n + 1)"
    have eq: "literal_walk ((v, key) # stack) found n = ?rest"
      using False kept by (subst literal_walk.simps) simp
    have "?rest = {OPAQUE_DIAGNOSTIC_SENTINEL}
        \<or> found' \<union> stack_texts (rev (node_children v key) @ stack) \<subseteq> ?rest"
      by (rule "2.IH") (use False kept in simp_all)
    moreover have "stack_texts ((v, key) # stack) \<subseteq> set (texts_in v) \<union> stack_texts stack"
      "stack_texts (rev (node_children v key) @ stack) = stack_texts (node_children v key) \<union> stack_texts stack"
      by (auto simp: stack_texts_def)
    ultimately show ?thesis using remember_all_set [OF kept] node_texts [of v key] unfolding eq by blast
  qed
qed

lemma redaction_literals_cover:
  assumes "set_order cs (literal_walk [(config, None)] {} 0) = ls"
    and "set ls = literal_walk [(config, None)] {} 0"
  shows "OPAQUE_DIAGNOSTIC_SENTINEL \<in> set ls \<or> set (texts_in config) \<subseteq> set ls"
  using literal_walk_covers [of "[(config, None)]" "{}" 0] assms(2) by (auto simp: stack_texts_def)

lemma lower_bracket: "lower_char c = CHR ''['' \<Longrightarrow> c = CHR ''[''" "lower_char c = CHR '']'' \<Longrightarrow> c = CHR '']''"
proof -
  have range: "code (lower_char c) \<ge> 97 \<or> lower_char c = c"
    by (auto simp: lower_char_def upper_latin1_def between_def code_def of_char_of)
  have "code (CHR ''['') = 91" "code (CHR '']'') = 93" by (simp_all add: code_def)
  then show "lower_char c = CHR ''['' \<Longrightarrow> c = CHR ''[''" "lower_char c = CHR '']'' \<Longrightarrow> c = CHR '']''"
    using range by auto
qed

lemma brackets_lowered:
  "CHR ''['' \<notin> set v \<Longrightarrow> CHR ''['' \<notin> set (lowered v)" "CHR '']'' \<notin> set v \<Longrightarrow> CHR '']'' \<notin> set (lowered v)"
  by (auto dest: lower_bracket [OF sym])

lemma texts_nonempty: "v \<in> set (texts_in config) \<Longrightarrow> v \<noteq> []"
  by (induction config rule: texts_in.induct) (auto split: if_splits)


section \<open>A concrete configuration\<close>

definition listing_codecs :: codecs where
  "listing_codecs = \<lparr>utf8_sig = Some, utf8_replace = id, b64decode = (\<lambda>_. None),
     json_loads = (\<lambda>_ _. Inr (RList [])), json_compact = (\<lambda>_. []), sha256_text = id,
     set_order = (\<lambda>A. filter (\<lambda>l. l \<in> A) [''id'', ''host'', ''s3cr3t'', ''VPN.example''])\<rparr>"

definition small_config :: raw where
  "small_config = RDict [(''id'', RStr ''s3cr3t''), (''host'', RStr ''VPN.example'')]"

lemma small_literals: "redaction_literals listing_codecs small_config = [''id'', ''host'', ''s3cr3t'', ''VPN.example'']"
  "literal_walk [(small_config, None)] {} 0 = {''id'', ''host'', ''s3cr3t'', ''VPN.example''}"
proof -
  show w: "literal_walk [(small_config, None)] {} 0 = {''id'', ''host'', ''s3cr3t'', ''VPN.example''}"
    by code_simp
  show "redaction_literals listing_codecs small_config = [''id'', ''host'', ''s3cr3t'', ''VPN.example'']"
    unfolding redaction_literals_def w by (simp add: listing_codecs_def)
qed


text \<open>
  Literals that differ only in a sharp s have the same case-folded form, and only the first of them is
  replaced.
\<close>

lemma sharp_s_shown:
  "sanitize_diagnostic ([CHR 0xDF] @ ''word'') [''ssword'', [CHR 0xDF] @ ''word''] = [CHR 0xDF] @ ''word''"
  by code_simp

text \<open>A line is fed in two chunks; a limit of 6 bytes keeps its end.\<close>

theorem buffer_keeps_clean_lines_witness:
  "concat (sb_chunks (drain_stream listing_codecs [''vpn.EXA'', ''MPLE!'' @ [LF]]
      (new_buffer 6 [''vpn.example''] 0))) = lastn 6 (utf8_encode (''[redacted]!'' @ [LF]))"
proof -
  let ?chunks = "[''vpn.EXA'', ''MPLE!'' @ [LF]]"
  have lines: "output_lines (concat ?chunks) = [''vpn.EXAMPLE!'' @ [LF]]" by code_simp
  then have short: "short_lines (nat (max 1024 0)) (concat ?chunks)" by (simp add: short_lines_def)
  have safe: "safe_bytes listing_codecs [''vpn.example''] (''vpn.EXAMPLE!'' @ [LF])
      = utf8_encode (''[redacted]!'' @ [LF])" by code_simp
  from conjunct1 [OF buffer_keeps_clean_lines [OF refl refl], of listing_codecs ?chunks 6 "[''vpn.example'']" 0] short lines safe
  show ?thesis by auto
qed

end
