(* ===== verification/Spec2Isabelle.thy ===== *)
theory Spec2Isabelle
  imports Identity Scheduler TargetSets RuntimePool ConfigTransaction ImportLaws Config Metrics
    EffectivePort ServiceLaws ReplaceLaws Diagnostics
begin

text \<open>
  Verification of Xray E2E Prober (\<open>src/src/xray_e2e_prober\<close>), a daemon that imports VLESS subscriptions and
  Xray profiles, runs an Xray process for each selected entry, sends HTTP requests through its SOCKS
  inbound, and publishes the results as an HTTP snapshot and as Prometheus metrics.

  \<^bold>\<open>How the program works.\<close> A configuration (\<open>config.py\<close>, \<open>models.py\<close>) names sources, target sets, egress
  assertions and assignments. \<open>ProberService\<close> (\<open>service.py\<close>) fetches a source (\<open>sources.py\<close>), imports it
  (\<open>importers.py\<close>), binds its candidates to durable entry IDs (\<open>identity.py\<close>), resolves their assignments
  (\<open>assignments.py\<close>), compiles the inventory of checks (\<open>inventory.py\<close>), validates the Xray configuration of
  each (\<open>runtime.py\<close>) and then publishes the generation durably (\<open>storage.py\<close>) before it activates it in
  memory. The scheduler (\<open>scheduler.py\<close>) starts checks, the pool (\<open>runtime_pool.py\<close>) lends them runtimes, the
  checker (\<open>checker.py\<close>) judges the targets, and \<open>metrics.py\<close> projects the snapshot of the service. Text
  that leaves the process goes through \<open>security.py\<close> or the diagnostics of \<open>runtime.py\<close>.

  \<^bold>\<open>Theories\<close>, with the files they model:

  \<^item> \<open>Prelude\<close>: results of code that may raise (\<open>Inl\<close> the exception), \<open>bindE\<close>, \<open>ensure\<close>, \<open>mapE\<close> and \<open>foldE\<close>;
    insertion-ordered dictionaries; \<open>reachable\<close> and the locale \<open>invariant_system\<close>, interpreted on the step
    relations of \<open>Identity\<close>, \<open>Scheduler\<close>, \<open>RuntimePool\<close> and \<open>ServiceLaws\<close>.
  \<^item> \<open>PyText\<close>, \<open>PyNet\<close>, \<open>PyUrl\<close>, \<open>PyParse\<close>, \<open>PyRegex\<close>: the functions of Python's standard library that the program
    calls on text, addresses and URLs, and its own regular expressions as trees with a backtracking matcher.
  \<^item> \<open>SafeRegex\<close> (\<open>safe_regex.py\<close>), \<open>Models\<close> (\<open>models.py\<close>), \<open>Assignments\<close> (\<open>assignments.py\<close>), \<open>Inventory\<close>
    (\<open>inventory.py\<close>), \<open>Identity\<close> (\<open>identity.py\<close>), \<open>Config\<close> (\<open>config.py\<close>), \<open>Security\<close> (\<open>security.py\<close>), \<open>Sources\<close>
    (\<open>sources.py\<close>), \<open>Metrics\<close> (\<open>metrics.py\<close>): one theory per file, one definition per function, the classes as
    records of the same fields.
  \<^item> \<open>Scheduler\<close> (\<open>scheduler.py\<close>) and \<open>RuntimePool\<close> (\<open>runtime_pool.py\<close>): coroutines of one event loop. What runs
    between two \<open>await\<close>s is one step, and the steps interleave freely.
  \<^item> \<open>Probe\<close> and \<open>TargetSets\<close> (\<open>checker.py\<close>): a request with its redirects and bounds, the verdict on a target
    and on an egress assertion, the cycle over a target set and its quorum.
  \<^item> \<open>Importers\<close> and \<open>ImportLaws\<close> (\<open>importers.py\<close>).
  \<^item> \<open>FileSystem\<close>, \<open>JsonCodec\<close>, \<open>DataStore\<close>, \<open>ConfigTransaction\<close> (\<open>storage.py\<close>): durable file operations on a
    world that records every disk it went through and in which each operation may be refused or may fail
    after it took effect, so that a crash at any point is one of the recorded disks.
  \<^item> \<open>EffectiveConfig\<close>, \<open>EffectiveLaws\<close>, \<open>EffectivePort\<close> (\<open>runtime.py\<close>): the configuration that a check runs with;
    \<open>Diagnostics\<close> (\<open>runtime.py\<close>): what may be shown of the output of its process.
  \<^item> \<open>ServiceState\<close>, \<open>SourceCommit\<close>, \<open>ServiceConfig\<close> (\<open>service.py\<close>): the state of \<open>ProberService\<close> with execution and
    publication of results, the refresh of a source, and the configuration of a running service;
    \<open>CommitLaws\<close>, \<open>ServiceLaws\<close> and \<open>ReplaceLaws\<close> hold what is proved about them.

  \<^bold>\<open>What is shown.\<close> Invariants over reachable states: the view of the service is the one compiled from its
  configuration, the metrics repeat no series, no check runs twice at once, slots are accounted for, entry
  IDs are unique. Refinement of an atomic step: a source publication, a refresh and a replacement of the
  configuration leave, whatever fails and wherever the process dies, a disk from which the next start loads
  the old or the new state, and memory that agrees with it. Safety: effective configurations stay on the
  loopback and lead to the selected outbound only; no request goes to an unsafe URL; headers of a source
  stay with its origin; exports and diagnostics do not contain what must be hidden. Functional behaviour
  and equivalence: verdicts, assignment precedence, reconciliation, the pattern scanner against its
  grammar, the worklist of chained outbounds against reachability, the search for secrets against a
  recursive reading. Bounds, liveness and termination: bytes, redirects and buffers, restart delays, settled
  requests after a stop, the search for a free tag.

  \<^bold>\<open>Conventions and bounds.\<close> Strings and bytes are lists of Latin-1 characters; times and durations are
  rationals; Python's integers are \<open>int\<close> or, where they count, \<open>nat\<close>. SHA-256, the user's regular
  expressions, fresh identifiers, HTTPX, the UTF-8, Base64, JSON and YAML codecs, the conversions of pydantic
  and the iteration order of a set are arguments; what a theorem needs of them is among its hypotheses
  (\<open>json_ok\<close>, \<open>digest_ok\<close> and the like). No fuel is used: loops end by a measure, and where the code itself
  limits a loop (redirects, nodes and literals of a walk) that limit is the measure. An asynchronous
  operation is a sequence of atomic segments, and cancellation is one of the outcomes of a segment.

  \<^bold>\<open>What modelling showed.\<close> The lemmas \<open>Sources.ipv6_origins_collide\<close>, \<open>Sources.bad_redirect_escapes\<close>,
  \<open>Probe.large_status_is_error\<close>, \<open>Identity.identical_refresh_conflicts\<close>, \<open>Models.clean_display_name_joins_lines\<close>,
  \<open>ImportLaws.outbound_mapping_refused\<close>, \<open>ImportLaws.malformed_profile_escapes\<close>,
  \<open>ReplaceLaws.interrupted_commit_diverges\<close>, \<open>ReplaceLaws.interrupted_restore_diverges\<close> and
  \<open>Diagnostics.sharp_s_shown\<close> exhibit behaviour that the code does not mean to have.

  \<^bold>\<open>Not modelled.\<close> The Xray processes themselves (spawning, signals and the readiness probe in \<open>runtime.py\<close>),
  whose outcomes are the environment of the pool; the control socket (\<open>control.py\<close>), the HTTP routes
  (\<open>api.py\<close>), the command line and its dialogues (\<open>cli.py\<close>) and the log formatter (\<open>logging_config.py\<close>), which
  pass requests and results through; file locks and directory permissions; the HTTP transports and the
  process that evaluates expressions on bodies, whose results are arguments; the text format of the
  metrics. The clock that decides when the scheduler ticks is left to the environment.
\<close>

end
